(* ===== verification/Go_Base.thy ===== *)
theory Go_Base
  imports Main "HOL-Library.Word" "HOL-Library.AList"
begin

text \<open>
  The part of the Go language and its runtime that the components of R-Pingmesh rest on:
  fixed-width integers, run-time panics and error values, buffered channels with their
  non-blocking send, maps with an arbitrary iteration order, the verb \<^verbatim>\<open>%d\<close> of fmt,
  and 64-bit durations. Generic lemmas on lists and strings that several components share
  stand here too, in the collections declared below.
\<close>

named_theorems go_defs \<open>definitions of the Go runtime model, for unfolding\<close>
named_theorems chan_simps \<open>behaviour of channel operations on every branch\<close>
named_theorems store_simps \<open>lookups in Go maps after an update or a delete\<close>

subsection \<open>Integers, errors and panics\<close>

type_synonym u8 = "8 word"
type_synonym u16 = "16 word"
type_synonym u32 = "32 word"
type_synonym u64 = "64 word"
type_synonym byte = "8 word"

text \<open>An error value is its message; a function with an error result returns a sum.\<close>

type_synonym 'a res = "string + 'a"

text \<open>A Go call returns or panics (index out of range, nil dereference, closed channel).\<close>

datatype 'a go = Ret 'a | Panic string

fun go_bind :: "'a go \<Rightarrow> ('a \<Rightarrow> 'b go) \<Rightarrow> 'b go" where
  "go_bind (Ret x) f = f x"
| "go_bind (Panic m) f = Panic m"

fun panics :: "'a go \<Rightarrow> bool" where
  "panics (Ret x) = False"
| "panics (Panic m) = True"

lemma not_panics_iff: "\<not> panics g \<longleftrightarrow> (\<exists>x. g = Ret x)"
  by (cases g) auto

lemma go_bind_Ret [simp]: "go_bind g Ret = g"
  by (cases g) auto

lemma go_bind_eq_Ret: "go_bind g f = Ret y \<longleftrightarrow> (\<exists>x. g = Ret x \<and> f x = Ret y)"
  by (cases g) auto

lemma go_bind_eq_Panic: "go_bind g f = Panic m \<longleftrightarrow> g = Panic m \<or> (\<exists>x. g = Ret x \<and> f x = Panic m)"
  by (cases g) auto

subsection \<open>Signed 64-bit durations\<close>

text \<open>
  int64 arithmetic wraps; \<^verbatim>\<open>time.Time.Sub\<close> saturates at the bounds of a Duration.
  A point in time is its number of nanoseconds since the Unix epoch.
\<close>

type_synonym gtime = int
type_synonym duration = int

definition min_i64 :: int where [go_defs]: "min_i64 = - (2 ^ 63)"
definition max_i64 :: int where [go_defs]: "max_i64 = 2 ^ 63 - 1"

definition wrap64 :: "int \<Rightarrow> int" where
  [go_defs]: "wrap64 x = (x + 2 ^ 63) mod 2 ^ 64 - 2 ^ 63"

definition time_sub :: "gtime \<Rightarrow> gtime \<Rightarrow> duration" where
  [go_defs]: "time_sub t u = (if t - u > max_i64 then max_i64 else if t - u < min_i64 then min_i64 else t - u)"

definition dur_sub :: "duration \<Rightarrow> duration \<Rightarrow> duration" where
  [go_defs]: "dur_sub a b = wrap64 (a - b)"

definition in_i64 :: "int \<Rightarrow> bool" where
  [go_defs]: "in_i64 x \<longleftrightarrow> min_i64 \<le> x \<and> x \<le> max_i64"

lemma wrap64_id [simp]: "in_i64 x \<Longrightarrow> wrap64 x = x"
  by (auto simp: go_defs)

lemma wrap64_range: "in_i64 (wrap64 x)"
proof -
  have "0 \<le> (x + 2 ^ 63) mod (2 ^ 64 :: int)" "(x + 2 ^ 63) mod (2 ^ 64 :: int) < 2 ^ 64"
    by simp_all
  then show ?thesis by (auto simp: go_defs)
qed

lemma time_sub_id [simp]: "in_i64 (t - u) \<Longrightarrow> time_sub t u = t - u"
  by (auto simp: go_defs)

lemma time_sub_range: "in_i64 (time_sub t u)"
  by (auto simp: go_defs)

text \<open>\<^verbatim>\<open>time.Unix(0, int64(ns))\<close> of a uint64 reads it as two's complement.\<close>

definition unix_ns :: "u64 \<Rightarrow> gtime" where
  [go_defs]: "unix_ns w = wrap64 (uint w)"

text \<open>\<^verbatim>\<open>uint64(t.UnixNano())\<close>: the int64 nanoseconds, reinterpreted as unsigned.\<close>

definition unix_nano_u64 :: "gtime \<Rightarrow> u64" where
  [go_defs]: "unix_nano_u64 t = word_of_int t"

lemma wrap64_mod: "wrap64 (x mod 2 ^ 64) = wrap64 x"
  unfolding wrap64_def by (simp add: mod_add_left_eq)

lemma unix_ns_nano [simp]: "in_i64 t \<Longrightarrow> unix_ns (unix_nano_u64 t) = t"
proof -
  assume "in_i64 t"
  have "unix_ns (unix_nano_u64 t) = wrap64 (t mod 2 ^ 64)"
    by (simp add: unix_ns_def unix_nano_u64_def uint_word_of_int)
  also have "\<dots> = t" using \<open>in_i64 t\<close> by (simp only: wrap64_mod wrap64_id)
  finally show ?thesis .
qed

subsection \<open>Decimal printing\<close>

definition digit_char :: "nat \<Rightarrow> char" where
  [go_defs]: "digit_char n = char_of (48 + n)"

fun dec_string :: "nat \<Rightarrow> string" where
  "dec_string n = (if n < 10 then [digit_char n] else dec_string (n div 10) @ [digit_char (n mod 10)])"

definition dec_int :: "int \<Rightarrow> string" where
  "dec_int i = (if i < 0 then ''-'' @ dec_string (nat (- i)) else dec_string (nat i))"

declare dec_string.simps [simp del]

definition is_digit :: "char \<Rightarrow> bool" where
  [go_defs]: "is_digit c \<longleftrightarrow> 48 \<le> (of_char c :: nat) \<and> (of_char c :: nat) \<le> 57"

lemma of_char_digit [simp]: "n < 10 \<Longrightarrow> (of_char (digit_char n) :: nat) = 48 + n"
  by (simp add: digit_char_def of_char_of)

lemma digit_char_inj: "a < 10 \<Longrightarrow> b < 10 \<Longrightarrow> digit_char a = digit_char b \<Longrightarrow> a = b"
  by (metis add_left_cancel of_char_digit)

lemma is_digit_digit_char [simp]: "n < 10 \<Longrightarrow> is_digit (digit_char n)"
  by (simp add: is_digit_def)

lemma dec_string_digits: "c \<in> set (dec_string n) \<Longrightarrow> is_digit c"
proof (induction n rule: dec_string.induct)
  case (1 n)
  then show ?case
    by (cases "n < 10") (auto simp: dec_string.simps[of n])
qed

lemma dec_string_nonempty [simp]: "dec_string n \<noteq> []"
  by (subst dec_string.simps) simp

lemma dec_string_inj: "dec_string a = dec_string b \<Longrightarrow> a = b"
proof (induction a arbitrary: b rule: dec_string.induct)
  case (1 a)
  show ?case
  proof (cases "a < 10"; cases "b < 10")
    assume "a < 10" "b < 10"
    with "1.prems" show ?thesis by (simp add: dec_string.simps[of a] dec_string.simps[of b] digit_char_inj)
  next
    assume "\<not> a < 10" "\<not> b < 10"
    with "1.prems" have "dec_string (a div 10) = dec_string (b div 10)"
        and m: "digit_char (a mod 10) = digit_char (b mod 10)"
      by (simp_all add: dec_string.simps[of a] dec_string.simps[of b])
    with "1.IH" \<open>\<not> a < 10\<close> have "a div 10 = b div 10" by blast
    moreover from m have "a mod 10 = b mod 10" by (intro digit_char_inj) auto
    ultimately show ?thesis by (metis div_mult_mod_eq)
  next
    assume "a < 10" "\<not> b < 10"
    with "1.prems" have "dec_string (b div 10) = []" by (simp add: dec_string.simps[of a] dec_string.simps[of b])
    then show ?thesis by simp
  next
    assume "\<not> a < 10" "b < 10"
    with "1.prems" have "dec_string (a div 10) = []" by (simp add: dec_string.simps[of a] dec_string.simps[of b])
    then show ?thesis by simp
  qed
qed

lemma dec_string_no_char: "\<not> is_digit c \<Longrightarrow> c \<notin> set (dec_string n)"
  by (meson dec_string_digits)

text \<open>A suffix after the last occurrence of a separator determines both halves.\<close>

lemma append_sep_inj:
  assumes "xs @ c # ys = xs' @ c # ys'" and "c \<notin> set ys" and "c \<notin> set ys'"
  shows "xs = xs' \<and> ys = ys'"
  using assms by (auto simp: append_eq_append_conv2 append_eq_Cons_conv Cons_eq_append_conv)

lemma append_first_sep_inj:
  assumes "xs @ c # ys = xs' @ c # ys'" and "c \<notin> set xs" and "c \<notin> set xs'"
  shows "xs = xs' \<and> ys = ys'"
  using assms by (auto simp: append_eq_append_conv2 append_eq_Cons_conv Cons_eq_append_conv)

lemma nth_update_at: "j < length xs \<Longrightarrow> xs[i := x] ! j = (if i = j then x else xs ! j)"
  by (cases "i = j") auto


end
