(* ===== verification/Go_Net.thy ===== *)
theory Go_Net
  imports Go_Base
begin

text \<open>
  The part of Go's package net that the agent uses: \<^verbatim>\<open>IP.To4\<close>, \<^verbatim>\<open>IP.String\<close> (with the
  canonical text of an IPv6 address) and \<^verbatim>\<open>ParseIP\<close>. An address is a list of bytes, as
  in Go, and all functions compute.
\<close>

type_synonym ip_bytes = "byte list"

subsection \<open>Printing\<close>

definition To4 :: "ip_bytes \<Rightarrow> ip_bytes option" where
  "To4 ip = (if length ip = 4 then Some ip
     else if length ip = 16 \<and> take 10 ip = replicate 10 0 \<and> ip ! 10 = 0xff \<and> ip ! 11 = 0xff
       then Some (drop 12 ip) else None)"

definition To16 :: "ip_bytes \<Rightarrow> ip_bytes option" where
  "To16 ip = (if length ip = 4 then Some (replicate 10 0 @ [0xff, 0xff] @ ip)
     else if length ip = 16 then Some ip else None)"

definition dotted :: "ip_bytes \<Rightarrow> string" where
  "dotted b = dec_string (unat (b ! 0)) @ ''.'' @ dec_string (unat (b ! 1)) @ ''.'' @
     dec_string (unat (b ! 2)) @ ''.'' @ dec_string (unat (b ! 3))"

definition hex_digit :: "nat \<Rightarrow> char" where
  "hex_digit n = (if n < 10 then char_of (48 + n) else char_of (87 + n))"

fun hex_string :: "nat \<Rightarrow> string" where
  "hex_string n = (if n < 16 then [hex_digit n] else hex_string (n div 16) @ [hex_digit (n mod 16)])"

declare hex_string.simps [simp del]

text \<open>Two lower-case digits per byte, the verb \<^verbatim>\<open>%x\<close> on bytes.\<close>

definition hex_bytes :: "ip_bytes \<Rightarrow> string" where
  "hex_bytes bs = concat (map (\<lambda>b. [hex_digit (unat b div 16), hex_digit (unat b mod 16)]) bs)"

definition group16 :: "ip_bytes \<Rightarrow> nat \<Rightarrow> nat" where
  "group16 ip i = unat (ip ! (2 * i)) * 256 + unat (ip ! (2 * i + 1))"

text \<open>The first of the longest runs of at least two zero groups, as start and end.\<close>

definition zero_run :: "nat list \<Rightarrow> nat" where
  "zero_run gs = length (takeWhile (\<lambda>g. g = 0) gs)"

fun best_run :: "nat list \<Rightarrow> nat \<Rightarrow> (nat \<times> nat) option \<Rightarrow> (nat \<times> nat) option" where
  "best_run [] i best = best"
| "best_run (g # gs) i best =
     (let l = zero_run (g # gs); cur = (case best of None \<Rightarrow> 0 | Some (s, e) \<Rightarrow> e - s) in
      best_run gs (Suc i) (if 2 \<le> l \<and> cur < l then Some (i, i + l) else best))"

definition join_colon :: "string list \<Rightarrow> string" where
  "join_colon ss = (case ss of [] \<Rightarrow> [] | s # rest \<Rightarrow> s @ concat (map (\<lambda>x. '':'' @ x) rest))"

definition ipv6_string :: "ip_bytes \<Rightarrow> string" where
  "ipv6_string ip =
     (let gs = map (group16 ip) [0..<8] in
      case best_run gs 0 None of
        None \<Rightarrow> join_colon (map hex_string gs)
      | Some (s, e) \<Rightarrow> join_colon (map hex_string (take s gs)) @ ''::'' @ join_colon (map hex_string (drop e gs)))"

definition IP_String :: "ip_bytes \<Rightarrow> string" where
  "IP_String ip =
     (if ip = [] then ''<nil>''
      else case To4 ip of Some v4 \<Rightarrow> dotted v4
        | None \<Rightarrow> if length ip = 16 then ipv6_string ip else ''?'' @ hex_bytes ip)"

subsection \<open>Parsing\<close>

text \<open>The loop of \<^verbatim>\<open>parseIPv4Fields\<close>: previous character, value and digits of the current
  field, fields so far.\<close>

fun v4_loop :: "char option \<Rightarrow> string \<Rightarrow> nat \<Rightarrow> nat \<Rightarrow> byte list \<Rightarrow> byte list option" where
  "v4_loop prev [] val digLen fields =
     (if length fields < 3 then None else Some (fields @ [of_nat val]))"
| "v4_loop prev (c # cs) val digLen fields =
     (if is_digit c then
        (if digLen = 1 \<and> val = 0 then None
         else let v = val * 10 + (of_char c - 48) in
           if v > 255 then None else v4_loop (Some c) cs v (Suc digLen) fields)
      else if c = CHR ''.'' then
        (if prev = None \<or> cs = [] \<or> prev = Some (CHR ''.'') \<or> length fields = 3 then None
         else v4_loop (Some c) cs 0 0 (fields @ [of_nat val]))
      else None)"

definition parseIPv4Fields :: "string \<Rightarrow> byte list option" where
  "parseIPv4Fields s = v4_loop None s 0 0 []"

definition hex_val :: "char \<Rightarrow> nat option" where
  "hex_val c = (let n = of_char c :: nat in
     if 48 \<le> n \<and> n \<le> 57 then Some (n - 48) else if 97 \<le> n \<and> n \<le> 102 then Some (n - 87)
     else if 65 \<le> n \<and> n \<le> 70 then Some (n - 55) else None)"

text \<open>A group of hex digits: its value and the rest, None beyond four digits.\<close>

fun hex_group :: "string \<Rightarrow> nat \<Rightarrow> nat \<Rightarrow> (nat \<times> nat \<times> string) option" where
  "hex_group [] off acc = Some (acc, off, [])"
| "hex_group (c # cs) off acc =
     (case hex_val c of None \<Rightarrow> Some (acc, off, c # cs)
      | Some d \<Rightarrow> if off > 3 then None else hex_group cs (Suc off) (acc * 16 + d))"

text \<open>The group loop of \<^verbatim>\<open>parseIPv6\<close>: rest of the text, bytes so far, place of the
  ellipsis. At most eight groups fit into sixteen bytes.\<close>

fun v6_loop :: "nat \<Rightarrow> string \<Rightarrow> byte list \<Rightarrow> nat option \<Rightarrow> (string \<times> byte list \<times> nat option) option" where
  "v6_loop 0 s ip el = Some (s, ip, el)"
| "v6_loop (Suc n) s ip el =
     (case hex_group s 0 0 of None \<Rightarrow> None
      | Some (acc, off, rest) \<Rightarrow>
        if off = 0 then None
        else if rest \<noteq> [] \<and> hd rest = CHR ''.'' then
          (if (el = None \<and> length ip \<noteq> 12) \<or> length ip + 4 > 16 then None
           else case parseIPv4Fields s of None \<Rightarrow> None | Some f \<Rightarrow> Some ([], ip @ f, el))
        else let ip' = ip @ [of_nat (acc div 256), of_nat (acc mod 256)] in
          if rest = [] then Some ([], ip', el)
          else if hd rest \<noteq> CHR '':'' \<or> length rest = 1 then None
          else let s' = tl rest in
            if hd s' = CHR '':'' then
              (if el \<noteq> None then None
               else if tl s' = [] then Some ([], ip', Some (length ip'))
               else v6_loop n (tl s') ip' (Some (length ip')))
            else v6_loop n s' ip' el)"

definition parseIPv6 :: "string \<Rightarrow> ip_bytes option" where
  "parseIPv6 s =
     (let leading = (take 2 s = ''::''); s1 = (if leading then drop 2 s else s);
          el0 = (if leading then Some 0 else None) in
      if leading \<and> s1 = [] then Some (replicate 16 0)
      else case v6_loop 8 s1 [] el0 of None \<Rightarrow> None
        | Some (rest, ip, el) \<Rightarrow>
          if rest \<noteq> [] then None
          else if length ip < 16 then
            (case el of None \<Rightarrow> None
             | Some e \<Rightarrow> Some (take e ip @ replicate (16 - length ip) 0 @ drop e ip))
          else if el \<noteq> None then None else Some ip)"

text \<open>\<^verbatim>\<open>net.ParseIP\<close>: the first of the characters dot, colon and percent sign decides; an
  address with a zone is refused. An IPv4 address comes back in its 16-byte form.\<close>

definition ParseIP :: "string \<Rightarrow> ip_bytes option" where
  "ParseIP s =
     (case find (\<lambda>c. c \<in> {CHR ''.'', CHR '':'', CHR ''%''}) s of
        None \<Rightarrow> None
      | Some c \<Rightarrow>
        if c = CHR ''.'' then (case parseIPv4Fields s of None \<Rightarrow> None | Some f \<Rightarrow> To16 f)
        else if c = CHR '':'' then (if CHR ''%'' \<in> set s then None else parseIPv6 s)
        else None)"

subsection \<open>Round trips\<close>

lemma ParseIP_no_separator:
  assumes "\<forall>c \<in> set s. c \<notin> {CHR ''.'', CHR '':'', CHR ''%''}"
  shows "ParseIP s = None"
proof -
  have "find (\<lambda>c. c \<in> {CHR ''.'', CHR '':'', CHR ''%''}) s = None"
    using assms by (simp add: find_None_iff)
  then show ?thesis by (simp only: ParseIP_def option.case)
qed

lemma dec_string_byte:
  assumes "n \<le> 255"
  obtains a where "n = a" "a < 10" "dec_string n = [digit_char a]"
  | a b where "n = a * 10 + b" "0 < a" "a < 10" "b < 10" "dec_string n = [digit_char a, digit_char b]"
  | a b c where "n = (a * 10 + b) * 10 + c" "0 < a" "a < 10" "b < 10" "c < 10"
      "dec_string n = [digit_char a, digit_char b, digit_char c]"
proof -
  consider "n < 10" | "10 \<le> n" "n < 100" | "100 \<le> n" by linarith
  then show ?thesis
  proof cases
    case 1
    then show ?thesis using that(1) by (simp add: dec_string.simps)
  next
    case 2
    then have "dec_string n = [digit_char (n div 10), digit_char (n mod 10)]"
      by (simp add: dec_string.simps)
    with 2 show ?thesis by (intro that(2)[of "n div 10" "n mod 10"]) auto
  next
    case 3
    let ?m = "n div 10"
    have "10 \<le> ?m" "?m < 100" using 3 assms by auto
    then have "dec_string ?m = [digit_char (?m div 10), digit_char (?m mod 10)]"
      by (simp add: dec_string.simps)
    then have "dec_string n = [digit_char (?m div 10), digit_char (?m mod 10), digit_char (n mod 10)]"
      using 3 by (simp add: dec_string.simps[of n])
    moreover have "n = (?m div 10 * 10 + ?m mod 10) * 10 + n mod 10" by simp
    ultimately show ?thesis using \<open>10 \<le> ?m\<close> \<open>?m < 100\<close>
      by (intro that(3)[of "?m div 10" "?m mod 10" "n mod 10"]) auto
  qed
qed

lemma v4_loop_dec:
  assumes "n \<le> 255"
  shows "\<exists>d k. is_digit d \<and> v4_loop prev (dec_string n @ rest) 0 0 fields = v4_loop (Some d) rest n k fields"
  using assms
proof (cases rule: dec_string_byte)
  case (1 a)
  then show ?thesis using assms by (intro exI[of _ "digit_char a"]) auto
next
  case (2 a b)
  then show ?thesis using assms by (intro exI[of _ "digit_char b"]) auto
next
  case (3 a b c)
  then show ?thesis using assms by (intro exI[of _ "digit_char c"]) auto
qed

lemma dot_not_digit [simp]: "\<not> is_digit (CHR ''.'')"
  by (simp add: is_digit_def)

lemma unat_byte_le [simp]: "unat (b :: byte) \<le> 255"
  using unsigned_less[of b, where ?'a = nat] by simp

lemma v4_loop_field:
  assumes "length fields < 3" and "rest \<noteq> []"
  shows "\<exists>p. v4_loop prev (dec_string (unat b) @ CHR ''.'' # rest) 0 0 fields = v4_loop p rest 0 0 (fields @ [b])"
proof -
  obtain d k where d: "is_digit d"
    "v4_loop prev (dec_string (unat b) @ CHR ''.'' # rest) 0 0 fields = v4_loop (Some d) (CHR ''.'' # rest) (unat b) k fields"
    using v4_loop_dec[of "unat b" prev "CHR ''.'' # rest" fields] by auto
  have "d \<noteq> CHR ''.''" using d(1) dot_not_digit by blast
  with d(2) assms show ?thesis by (intro exI[of _ "Some (CHR ''.'')"]) simp
qed

lemma dotted_Cons:
  "dotted [a, b, c, d] = dec_string (unat a) @ CHR ''.'' # dec_string (unat b) @ CHR ''.'' #
     dec_string (unat c) @ CHR ''.'' # dec_string (unat d)"
  by (simp add: dotted_def)

lemma parseIPv4Fields_dotted: "parseIPv4Fields (dotted [a, b, c, d]) = Some [a, b, c, d]"
proof -
  let ?D = "\<lambda>x. dec_string (unat (x :: byte))" and ?dot = "CHR ''.''"
  obtain p1 where 1: "v4_loop None (?D a @ ?dot # ?D b @ ?dot # ?D c @ ?dot # ?D d) 0 0 [] =
      v4_loop p1 (?D b @ ?dot # ?D c @ ?dot # ?D d) 0 0 [a]"
    using v4_loop_field[of "[]" "?D b @ ?dot # ?D c @ ?dot # ?D d" None a] by auto
  obtain p2 where 2: "v4_loop p1 (?D b @ ?dot # ?D c @ ?dot # ?D d) 0 0 [a] =
      v4_loop p2 (?D c @ ?dot # ?D d) 0 0 [a, b]"
    using v4_loop_field[of "[a]" "?D c @ ?dot # ?D d" p1 b] by auto
  obtain p3 where 3: "v4_loop p2 (?D c @ ?dot # ?D d) 0 0 [a, b] = v4_loop p3 (?D d) 0 0 [a, b, c]"
    using v4_loop_field[of "[a, b]" "?D d" p2 c] by auto
  have "v4_loop p3 (?D d) 0 0 [a, b, c] = Some [a, b, c, d]"
    using v4_loop_dec[of "unat d" p3 "[]" "[a, b, c]"] by auto
  then show ?thesis by (simp only: parseIPv4Fields_def dotted_Cons 1 2 3)
qed

lemma hex_val_digit: "a < 10 \<Longrightarrow> hex_val (digit_char a) = Some a"
  by (simp add: hex_val_def)

lemma hex_group_dec:
  assumes "n \<le> 255"
  shows "\<exists>acc k. 0 < k \<and> hex_group (dec_string n @ CHR ''.'' # rest) 0 0 = Some (acc, k, CHR ''.'' # rest)"
proof -
  have dot: "hex_val CHR ''.'' = None" by (simp add: hex_val_def)
  show ?thesis using assms
    by (cases rule: dec_string_byte) (auto simp: hex_val_digit dot)
qed

definition mapped4 :: "byte \<Rightarrow> byte \<Rightarrow> byte \<Rightarrow> byte \<Rightarrow> ip_bytes" where
  "mapped4 a b c d = replicate 10 0 @ [0xff, 0xff, a, b, c, d]"

lemma v6_loop_v4_tail:
  assumes "length ip \<le> 12"
  shows "v6_loop (Suc n) (dotted [a, b, c, d]) ip (Some e) = Some ([], ip @ [a, b, c, d], Some e)"
proof -
  let ?rest = "dec_string (unat b) @ CHR ''.'' # dec_string (unat c) @ CHR ''.'' # dec_string (unat d)"
  obtain acc k where "0 < k" "hex_group (dotted [a, b, c, d]) 0 0 = Some (acc, k, CHR ''.'' # ?rest)"
    unfolding dotted_Cons using hex_group_dec[of "unat a" ?rest] by auto
  with assms show ?thesis by (simp add: parseIPv4Fields_dotted)
qed

text \<open>The text with the prefix parses to the mapped address.\<close>

lemma ParseIP_mapped: "ParseIP (''::ffff:'' @ dotted [a, b, c, d]) = Some (mapped4 a b c d)"
proof -
  let ?s = "dotted [a, b, c, d]"
  have ne: "?s \<noteq> []" by (simp add: dotted_Cons)
  have "hd ?s = hd (dec_string (unat a))" by (simp add: dotted_Cons)
  moreover have "is_digit (hd (dec_string (unat a)))" using dec_string_digits[OF hd_in_set] by simp
  ultimately have hd: "hd ?s \<noteq> CHR '':''" by (auto simp: is_digit_def)
  have g: "hex_group (''ffff:'' @ ?s) 0 0 = Some (65535, 4, CHR '':'' # ?s)"
    by (simp add: hex_val_def)
  have "v6_loop (Suc n) (''ffff:'' @ ?s) [] (Some 0) = v6_loop n ?s [255, 255] (Some 0)" for n
    unfolding v6_loop.simps(2) g using ne hd by simp
  from this[of 7] have "v6_loop 8 (''ffff:'' @ ?s) [] (Some 0) = v6_loop 7 ?s [255, 255] (Some 0)"
    by simp
  also have "\<dots> = Some ([], [255, 255, a, b, c, d], Some 0)"
    using v6_loop_v4_tail[of "[255, 255]" 6 a b c d 0] by (simp add: eval_nat_numeral)
  finally have v: "v6_loop 8 (''ffff:'' @ ?s) [] (Some 0) = Some ([], [255, 255, a, b, c, d], Some 0)" .
  have p: "CHR ''%'' \<notin> set ?s"
    by (simp add: dotted_Cons dec_string_no_char is_digit_def)
  have "parseIPv6 (''::ffff:'' @ ?s) = Some (mapped4 a b c d)"
    using v by (simp add: parseIPv6_def mapped4_def Let_def)
  with p show ?thesis by (simp add: ParseIP_def)
qed

end
