(* ===== verification/Rdma_Device.thy ===== *)
theory Rdma_Device
  imports Go_Net
begin

text \<open>
  RDMA devices (internal/rdma/device.go): discovery, opening with a GID index, choice of
  the GID and IP address, closing. The verbs library is not part of the repository: its
  replies are arguments (\<^verbatim>\<open>open_reply\<close>), and the handles it has given out and not taken
  back are an explicit list, so that a leak or a double release shows. A loop that may
  run forever is a partial function whose value None means that it does not return.
\<close>

subsection \<open>State\<close>

text \<open>A pointer to a queue, with the QP number the queue keeps for life.\<close>

record queue_ref =
  qr_id :: nat
  qr_QPN :: u32

record RNIC =
  rn_Context :: "nat option"
  rn_DeviceName :: string
  rn_GID :: string
  rn_IPAddr :: string
  rn_PD :: "nat option"
  rn_IsOpen :: bool
  rn_ActiveGIDIndex :: u8
  rn_ActivePortNum :: u8
  rn_ProberQueue :: "queue_ref option"
  rn_ResponderQueue :: "queue_ref option"

definition new_rnic :: "string \<Rightarrow> RNIC" where
  "new_rnic name = \<lparr>rn_Context = None, rn_DeviceName = name, rn_GID = [], rn_IPAddr = [], rn_PD = None,
     rn_IsOpen = False, rn_ActiveGIDIndex = 0, rn_ActivePortNum = 0, rn_ProberQueue = None, rn_ResponderQueue = None\<rparr>"

text \<open>ibv_get_device_list: None when it fails, else the devices with their names (an
  element may be a nil pointer).\<close>

definition NewRDMAManager_devices :: "string option list option \<Rightarrow> RNIC list res" where
  "NewRDMAManager_devices deviceList =
     (case deviceList of None \<Rightarrow> Inl ''failed to get RDMA device list''
      | Some ds \<Rightarrow> if length ds = 0 then Inl ''no RDMA devices found''
          else Inr (map (\<lambda>d. new_rnic (the d)) (filter (\<lambda>d. d \<noteq> None) ds)))"

subsection \<open>GID text\<close>

definition isIPv4MappedIPv6 :: "ip_bytes \<Rightarrow> bool" where
  "isIPv4MappedIPv6 ipBytes \<longleftrightarrow> length ipBytes = 16 \<and> ipBytes ! 10 = 0xff \<and> ipBytes ! 11 = 0xff"

definition formatGIDString :: "ip_bytes \<Rightarrow> string" where
  "formatGIDString gidBytes =
     (if isIPv4MappedIPv6 gidBytes then ''::ffff:'' @ dotted (drop 12 gidBytes) else IP_String gidBytes)"

definition getIPAddressFromGID :: "ip_bytes \<Rightarrow> bool list \<Rightarrow> string" where
  "getIPAddressFromGID ipv6 preserveFormat =
     (case To4 ipv6 of
        Some ipv4 \<Rightarrow>
          if preserveFormat \<noteq> [] \<and> hd preserveFormat \<and> length ipv6 = 16 \<and> ipv6 ! 10 = 0xff \<and> ipv6 ! 11 = 0xff
          then ''::ffff:'' @ dotted (drop 12 ipv6) else IP_String ipv4
      | None \<Rightarrow> IP_String ipv6)"

text \<open>What the operating system answers about the network interface of a device: the
  directory entries, whether the interface exists, its addresses (None: not an IPNet).\<close>

record iface_reply =
  if_entries :: "string list option"
  if_found :: bool
  if_addrs :: "ip_bytes option list option"

fun first_ipv4 :: "ip_bytes option list \<Rightarrow> string" where
  "first_ipv4 [] = ''''"
| "first_ipv4 (None # as) = first_ipv4 as"
| "first_ipv4 (Some ip # as) = (case To4 ip of Some v4 \<Rightarrow> IP_String v4 | None \<Rightarrow> first_ipv4 as)"

definition getIPAddressFromInterface :: "iface_reply \<Rightarrow> string" where
  "getIPAddressFromInterface r =
     (case if_entries r of None \<Rightarrow> ''''
      | Some es \<Rightarrow> if length es = 0 then '''' else if \<not> if_found r then ''''
          else (case if_addrs r of None \<Rightarrow> '''' | Some as \<Rightarrow> if length as = 0 then '''' else first_ipv4 as))"

definition getIPAddress :: "iface_reply \<Rightarrow> ip_bytes \<Rightarrow> string" where
  "getIPAddress r ipv6 =
     (let ipAddr = getIPAddressFromInterface r in
      if ipAddr \<noteq> '''' then ipAddr else getIPAddressFromGID ipv6 [False])"

subsection \<open>Opening and closing\<close>

datatype port_reply = PortQueryFailed | PortNotActive | GidQueryFailed | PortGid ip_bytes

record open_reply =
  or_context :: "nat option"
  or_pd :: "nat option"
  or_port_cnt :: "u8 option"
  or_port :: "u8 \<Rightarrow> port_reply"
  or_iface :: iface_reply

text \<open>Handles not yet given back to the library.\<close>

type_synonym handles = "nat list"

definition release_opt :: "nat option \<Rightarrow> handles \<Rightarrow> handles" where
  "release_opt h hs = (case h of None \<Rightarrow> hs | Some x \<Rightarrow> remove1 x hs)"

definition releaseDeviceResources :: "RNIC \<Rightarrow> handles \<Rightarrow> RNIC \<times> handles" where
  "releaseDeviceResources r hs =
     (r\<lparr>rn_PD := None, rn_Context := None\<rparr>, release_opt (rn_Context r) (release_opt (rn_PD r) hs))"

definition isZeroGid :: "ip_bytes \<Rightarrow> bool" where
  "isZeroGid g \<longleftrightarrow> (\<forall>b \<in> set g. b = 0)"

definition usable_gid :: "port_reply \<Rightarrow> ip_bytes option" where
  "usable_gid p = (case p of PortGid g \<Rightarrow> if isZeroGid g then None else Some g | _ \<Rightarrow> None)"

text \<open>\<^verbatim>\<open>for portNum := C.uint8_t(1); portNum <= physPortCnt; portNum++\<close>\<close>

partial_function (option) port_loop ::
  "(u8 \<Rightarrow> port_reply) \<Rightarrow> u8 \<Rightarrow> u8 \<Rightarrow> (u8 \<times> ip_bytes) option option" where
  "port_loop port cnt portNum =
     (if portNum \<le> cnt then
        (case usable_gid (port portNum) of Some g \<Rightarrow> Some (Some (portNum, g))
         | None \<Rightarrow> port_loop port cnt (portNum + 1))
      else Some None)"

definition OpenDevice :: "open_reply \<Rightarrow> int \<Rightarrow> RNIC \<Rightarrow> handles \<Rightarrow> (unit res \<times> RNIC \<times> handles) option" where
  "OpenDevice e gidIndex r hs =
     (if rn_IsOpen r then Some (Inr (), r, hs)
      else if gidIndex < 0 then Some (Inl ''gidIndex must be >= 0'', r, hs)
      else case or_context e of
        None \<Rightarrow> Some (Inl (''failed to open device '' @ rn_DeviceName r), r, hs)
      | Some c \<Rightarrow>
        let r1 = r\<lparr>rn_Context := Some c\<rparr>; hs1 = c # hs in
        case or_pd e of
          None \<Rightarrow> Some (Inl (''failed to allocate protection domain for device '' @ rn_DeviceName r), r1, remove1 c hs1)
        | Some pd \<Rightarrow>
          let r2 = r1\<lparr>rn_PD := Some pd\<rparr>; hs2 = pd # hs1; (rf, hsf) = releaseDeviceResources r2 hs2 in
          case or_port_cnt e of
            None \<Rightarrow> Some (Inl (''failed to query device attributes for '' @ rn_DeviceName r), rf, hsf)
          | Some cnt \<Rightarrow>
            if cnt = 0 then Some (Inl (''device '' @ rn_DeviceName r @ '' has 0 physical ports''), rf, hsf)
            else case port_loop (or_port e) cnt 1 of
              None \<Rightarrow> None
            | Some None \<Rightarrow> Some (Inl (''no usable GID found for device '' @ rn_DeviceName r), rf, hsf)
            | Some (Some (portNum, gid)) \<Rightarrow>
              Some (Inr (), r2\<lparr>rn_ActiveGIDIndex := word_of_int gidIndex, rn_ActivePortNum := portNum,
                rn_GID := formatGIDString gid, rn_IPAddr := getIPAddress (or_iface e) gid, rn_IsOpen := True\<rparr>, hs2))"

definition CloseDevice :: "RNIC \<Rightarrow> handles \<Rightarrow> RNIC \<times> handles" where
  "CloseDevice r hs =
     (if \<not> rn_IsOpen r then (r, hs)
      else (r\<lparr>rn_PD := None, rn_Context := None, rn_IsOpen := False\<rparr>,
            release_opt (rn_Context r) (release_opt (rn_PD r) hs)))"

subsection \<open>The port loop\<close>

lemma port_loop_stop [simp]: "\<not> p \<le> cnt \<Longrightarrow> port_loop port cnt p = Some None"
  by (simp add: port_loop.simps)

lemma port_loop_hit: "p \<le> cnt \<Longrightarrow> usable_gid (port p) = Some g \<Longrightarrow> port_loop port cnt p = Some (Some (p, g))"
  by (simp add: port_loop.simps)

lemma port_loop_miss: "p \<le> cnt \<Longrightarrow> usable_gid (port p) = None \<Longrightarrow> port_loop port cnt p = port_loop port cnt (p + 1)"
  by (subst port_loop.simps) simp

text \<open>Below 255 ports the loop returns, with the first usable port from where it starts.\<close>

lemma port_loop_returns:
  assumes "cnt < 255"
  shows "\<exists>res. port_loop port cnt p = Some res \<and>
    (case res of None \<Rightarrow> \<forall>x. p \<le> x \<and> x \<le> cnt \<longrightarrow> usable_gid (port x) = None
     | Some (x, g) \<Rightarrow> p \<le> x \<and> x \<le> cnt \<and> usable_gid (port x) = Some g \<and> (\<forall>y. p \<le> y \<and> y < x \<longrightarrow> usable_gid (port y) = None))"
proof (induction "unat cnt + 1 - unat p" arbitrary: p rule: less_induct)
  case less
  show ?case
  proof (cases "p \<le> cnt")
    case False
    then show ?thesis by (force simp: not_le)
  next
    case True
    show ?thesis
    proof (cases "usable_gid (port p)")
      case (Some g)
      with True show ?thesis by (force simp: port_loop_hit)
    next
      case None
      have "p < 255" using True assms by (rule le_less_trans)
      then have u: "unat (p + 1) = Suc (unat p)"
        by (simp add: unat_add_lem[THEN iffD1] word_less_nat_alt)
      then have "unat cnt + 1 - unat (p + 1) < unat cnt + 1 - unat p"
        using True by (simp add: word_le_nat_alt)
      then have IH: "\<exists>res. port_loop port cnt (p + 1) = Some res \<and>
        (case res of None \<Rightarrow> \<forall>x. p + 1 \<le> x \<and> x \<le> cnt \<longrightarrow> usable_gid (port x) = None
         | Some (x, g) \<Rightarrow> p + 1 \<le> x \<and> x \<le> cnt \<and> usable_gid (port x) = Some g \<and>
             (\<forall>y. p + 1 \<le> y \<and> y < x \<longrightarrow> usable_gid (port y) = None))" by (rule less)
      have step: "p + 1 \<le> x \<longleftrightarrow> p < x" for x
        using u by (simp add: word_le_nat_alt word_less_nat_alt Suc_le_eq)
      show ?thesis
        using IH None unfolding step port_loop_miss[of p cnt port, OF True None]
        by (fastforce simp: order.order_iff_strict split: option.splits)
    qed
  qed
qed

text \<open>With 255 ports the counter wraps before it can exceed the bound.\<close>

lemma port_loop_diverges:
  assumes "\<And>p. usable_gid (port p) = None"
  shows "port_loop port 255 p = None"
proof -
  have max: "q \<le> (255 :: u8)" for q
    using unat_byte_le[of q] by (simp add: word_le_nat_alt)
  have "prt = port \<and> c = 255 \<longrightarrow> False" if "port_loop prt c p = Some y" for prt c p y
    using that
    by (rule port_loop.raw_induct[of "\<lambda>prt c p y. prt = port \<and> c = 255 \<longrightarrow> False", rotated])
      (auto simp: assms max split: if_splits option.splits)
  then show ?thesis by (cases "port_loop port 255 p") auto
qed

subsection \<open>What opening and closing do to the library's handles\<close>

lemma releaseDeviceResources_undo:
  "rn_PD r = Some pd \<Longrightarrow> rn_Context r = Some c \<Longrightarrow> releaseDeviceResources r (pd # c # hs) = (r\<lparr>rn_PD := None, rn_Context := None\<rparr>, hs)"
  by (simp add: releaseDeviceResources_def release_opt_def)

text \<open>C15: unless the device reports 255 ports, OpenDevice returns. When it fails, the device
  is not open and every handle taken on the way is given back. When it succeeds on a
  closed device, the context and the protection domain are the two new handles, the port
  is the lowest-numbered port with a usable GID, the GID text is that port's GID, and
  closing the device gives both handles back.\<close>

theorem OpenDevice_correct:
  assumes "\<not> rn_IsOpen r" and "or_port_cnt e \<noteq> Some 255"
  shows "\<exists>res r' hs'. OpenDevice e gidIndex r hs = Some (res, r', hs') \<and>
    (case res of
       Inl _ \<Rightarrow> \<not> rn_IsOpen r' \<and> hs' = hs
     | Inr _ \<Rightarrow> rn_IsOpen r' \<and> 0 \<le> gidIndex \<and>
         (\<exists>c pd cnt g. hs' = pd # c # hs \<and> rn_PD r' = Some pd \<and> rn_Context r' = Some c \<and> or_port_cnt e = Some cnt
            \<and> 1 \<le> rn_ActivePortNum r' \<and> rn_ActivePortNum r' \<le> cnt
            \<and> usable_gid (or_port e (rn_ActivePortNum r')) = Some g \<and> rn_GID r' = formatGIDString g
            \<and> (\<forall>y. 1 \<le> y \<and> y < rn_ActivePortNum r' \<longrightarrow> usable_gid (or_port e y) = None))
         \<and> snd (CloseDevice r' hs') = hs)"
proof (cases "gidIndex < 0 \<or> or_context e = None \<or> or_pd e = None \<or> or_port_cnt e = None \<or> or_port_cnt e = Some 0")
  case True
  with assms show ?thesis
    by (auto simp: OpenDevice_def releaseDeviceResources_undo Let_def split: option.splits)
next
  case False
  then obtain c pd cnt where e: "0 \<le> gidIndex" "or_context e = Some c" "or_pd e = Some pd" "or_port_cnt e = Some cnt" "cnt \<noteq> 0"
    by auto
  have "unat cnt \<noteq> 255" using assms(2) e(4) by (simp add: word_unat_eq_iff)
  with unat_byte_le[of cnt] have "unat cnt < 255" by linarith
  then have "cnt < 255" by (simp add: word_less_nat_alt)
  from port_loop_returns[OF this, of "or_port e" 1] obtain res where
    res: "port_loop (or_port e) cnt 1 = Some res"
    and spec: "case res of None \<Rightarrow> True
     | Some (x, g) \<Rightarrow> 1 \<le> x \<and> x \<le> cnt \<and> usable_gid (or_port e x) = Some g \<and> (\<forall>y. 1 \<le> y \<and> y < x \<longrightarrow> usable_gid (or_port e y) = None)"
    by (auto split: option.splits)
  show ?thesis
  proof (cases res)
    case None
    with e res assms(1) show ?thesis by (simp add: OpenDevice_def releaseDeviceResources_undo Let_def)
  next
    case (Some xg)
    with e res assms(1) spec show ?thesis
      by (cases xg) (simp add: OpenDevice_def releaseDeviceResources_undo Let_def CloseDevice_def release_opt_def)
  qed
qed

text \<open>C16: a device that reports 255 ports, none of which has a usable GID, makes
  OpenDevice run forever: the 8-bit port counter never exceeds the count.\<close>

theorem OpenDevice_255_ports_diverges:
  assumes "\<not> rn_IsOpen r" and "0 \<le> gidIndex" and "or_context e = Some c" and "or_pd e = Some pd"
    and "or_port_cnt e = Some 255" and "\<forall>p. usable_gid (or_port e p) = None"
  shows "OpenDevice e gidIndex r hs = None"
  using assms port_loop_diverges[of "or_port e" 1]
  by (simp add: OpenDevice_def releaseDeviceResources_undo Let_def)

text \<open>A GID whose bytes 10 and 11 are 0xff is printed as an IPv4-mapped address, and the
  text parses back to that GID exactly when the first ten bytes are zero; any other such
  GID is printed as a different address.\<close>

theorem formatGIDString_parses_back_iff:
  assumes "isIPv4MappedIPv6 g"
  shows "(ParseIP (formatGIDString g) = Some g) \<longleftrightarrow> take 10 g = replicate 10 0"
proof -
  have l: "length g = 16" and ff: "g ! 10 = 255" "g ! 11 = 255" using assms by (simp_all add: isIPv4MappedIPv6_def)
  have d: "drop 12 g = [g ! 12, g ! 13, g ! 14, g ! 15]" and t: "g = take 10 g @ [g ! 10, g ! 11] @ drop 12 g"
    using l by (simp_all add: list_eq_iff_nth_eq nth_append less_Suc_eq numeral_eq_Suc)
  have "ParseIP (formatGIDString g) = Some (replicate 10 0 @ [255, 255] @ drop 12 g)"
    using assms ParseIP_mapped[of "g ! 12" "g ! 13" "g ! 14" "g ! 15"]
    by (simp add: formatGIDString_def d mapped4_def)
  moreover have "g = take 10 g @ [255, 255] @ drop 12 g" using t ff by simp
  ultimately show ?thesis by (metis append_same_eq option.inject)
qed

text \<open>A device with one inactive and one active port.\<close>

definition sample_open :: open_reply where
  "sample_open = \<lparr>or_context = Some 7, or_pd = Some 8, or_port_cnt = Some 2,
     or_port = (\<lambda>p. if p = 2 then PortGid (mapped4 10 0 0 1) else PortNotActive),
     or_iface = \<lparr>if_entries = None, if_found = False, if_addrs = None\<rparr>\<rparr>"

theorem OpenDevice_correct_witness:
  "\<exists>res r' hs'. OpenDevice sample_open 3 (new_rnic ''mlx5_0'') [] = Some (res, r', hs')
     \<and> (\<forall>u. res = Inr u \<longrightarrow> snd (CloseDevice r' hs') = [])"
proof -
  have "\<not> rn_IsOpen (new_rnic ''mlx5_0'')" "or_port_cnt sample_open \<noteq> Some 255"
    by (simp_all add: new_rnic_def sample_open_def)
  from OpenDevice_correct[OF this, of 3 "[]"] show ?thesis by fastforce
qed

theorem OpenDevice_255_ports_diverges_witness:
  "OpenDevice (sample_open\<lparr>or_port_cnt := Some 255, or_port := \<lambda>_. PortNotActive\<rparr>) 0 (new_rnic ''d'') [] = None"
  by (rule OpenDevice_255_ports_diverges) (simp_all add: new_rnic_def sample_open_def usable_gid_def)

theorem formatGIDString_parses_back_iff_witness:
  "ParseIP (formatGIDString (mapped4 10 0 0 1)) = Some (mapped4 10 0 0 1)
   \<and> ParseIP (formatGIDString (1 # replicate 9 0 @ [255, 255, 10, 0, 0, 1])) \<noteq> Some (1 # replicate 9 0 @ [255, 255, 10, 0, 0, 1])"
  using formatGIDString_parses_back_iff[of "mapped4 10 0 0 1"]
    formatGIDString_parses_back_iff[of "1 # replicate 9 0 @ [255, 255, 10, 0, 0, 1]"]
  by (simp add: isIPv4MappedIPv6_def mapped4_def numeral_eq_Suc)

end
