(* ===== verification/Rdma_Packet.thy ===== *)
theory Rdma_Packet
  imports Rdma_Device
begin

text \<open>
  Probe packets and completions (internal/rdma/packet.go, internal/rdma/cq.go): the memory
  layout of a packet, what a receive buffer holds, and the parsing of the 40-byte global
  route header. The header parsers of golang.org/x/net are parameters
  (\<^verbatim>\<open>hdr_parsers\<close>); what the code relies on of them is \<^verbatim>\<open>parsers_ok\<close>.
\<close>

unbundle bit_operations_syntax

subsection \<open>Packets and their layout\<close>

record ProbePacket =
  pp_SequenceNum :: u64
  pp_T1 :: u64
  pp_T3 :: u64
  pp_T4 :: u64
  pp_IsAck :: u8
  pp_AckType :: u8
  pp_Flags :: u8

definition GRHSize :: nat where "GRHSize = 40"
definition MRSize :: nat where "MRSize = 4096"

text \<open>\<^verbatim>\<open>unsafe.Sizeof(ProbePacket{})\<close>: four 64-bit words, four bytes, padded to the
  alignment of the words.\<close>

definition sizeof_ProbePacket :: nat where "sizeof_ProbePacket = 40"

text \<open>Little-endian 64-bit words, as on the x86 hosts the program is built for.\<close>

fun le_bytes :: "nat \<Rightarrow> u64 \<Rightarrow> byte list" where
  "le_bytes 0 w = []"
| "le_bytes (Suc n) w = ucast w # le_bytes n (drop_bit 8 w)"

fun le_word :: "byte list \<Rightarrow> u64" where
  "le_word [] = 0"
| "le_word (b # bs) = or (ucast b) (push_bit 8 (le_word bs))"

definition packet_bytes :: "ProbePacket \<Rightarrow> byte list" where
  "packet_bytes p = le_bytes 8 (pp_SequenceNum p) @ le_bytes 8 (pp_T1 p) @ le_bytes 8 (pp_T3 p) @ le_bytes 8 (pp_T4 p)
     @ [pp_IsAck p, pp_AckType p, pp_Flags p, 0, 0, 0, 0, 0]"

text \<open>Reading a packet through a pointer into a buffer of at least forty bytes.\<close>

definition read_packet :: "byte list \<Rightarrow> ProbePacket" where
  "read_packet bs = \<lparr>pp_SequenceNum = le_word (take 8 bs), pp_T1 = le_word (take 8 (drop 8 bs)),
     pp_T3 = le_word (take 8 (drop 16 bs)), pp_T4 = le_word (take 8 (drop 24 bs)),
     pp_IsAck = bs ! 32, pp_AckType = bs ! 33, pp_Flags = bs ! 34\<rparr>"

definition deserializeProbePacket :: "byte list \<Rightarrow> nat \<Rightarrow> ProbePacket res" where
  "deserializeProbePacket payload actualPayloadLength =
     (if actualPayloadLength < sizeof_ProbePacket
      then Inl (''actual received payload too small (len: '' @ dec_string actualPayloadLength @ ''), expected at least 40'')
      else Inr (read_packet payload))"

subsection \<open>Completions\<close>

datatype wc_opcode = WC_RECV | WC_SEND | WC_OTHER int

definition IBV_WC_SUCCESS :: int where "IBV_WC_SUCCESS = 0"

text \<open>Of WCFlags only the bit IBV_WC_GRH is ever tested.\<close>

record GoWorkCompletion =
  wc_WRID :: u64
  wc_Status :: int
  wc_Opcode :: wc_opcode
  wc_ByteLen :: u32
  wc_SrcQP :: u32
  wc_GRH :: bool
  wc_WallclockNS :: u64

record ProcessedWorkCompletion =
  pw_WC :: GoWorkCompletion
  pw_SGID :: string
  pw_DGID :: string
  pw_FlowLabel :: u32

record IncomingAckInfo =
  ai_Packet :: ProbePacket
  ai_ReceivedAt :: gtime
  ai_ProcessedWC :: ProcessedWorkCompletion
  ai_AckStatusOK :: bool

subsection \<open>The global route header\<close>

record hdr_parsers =
  hp_v4 :: "byte list \<Rightarrow> (ip_bytes option \<times> ip_bytes option) res"
  hp_v6 :: "byte list \<Rightarrow> u32 res"

text \<open>What the documentation of the two packages says of a full-length header: source and
  destination are bytes 12 to 15 and 16 to 19 of an IPv4 header, and the flow label is the
  low 20 bits of the first word of an IPv6 header.\<close>

definition flow_label_of :: "byte list \<Rightarrow> u32" where
  "flow_label_of b = or (push_bit 16 (and (ucast (b ! 1)) 0x0f)) (or (push_bit 8 (ucast (b ! 2))) (ucast (b ! 3)))"

definition parsers_ok :: "hdr_parsers \<Rightarrow> bool" where
  "parsers_ok h \<longleftrightarrow>
     (\<forall>b. length b = 20 \<and> b ! 0 = 0x45 \<longrightarrow> hp_v4 h b = Inr (Some (take 4 (drop 12 b)), Some (drop 16 b))) \<and>
     (\<forall>b. length b = 40 \<longrightarrow> hp_v6 h b = Inr (flow_label_of b))"

definition map_v4 :: "ip_bytes \<Rightarrow> ip_bytes" where
  "map_v4 v = [0, 0, 0, 0, 0, 0, 0, 0, 0, 0, 0xff, 0xff, v ! 0, v ! 1, v ! 2, v ! 3]"

definition parseIPv4GRH :: "hdr_parsers \<Rightarrow> byte list \<Rightarrow> (string \<times> string) res" where
  "parseIPv4GRH h grhBytes =
     (if GRHSize < 20 + 20 then Inl ''GRH too small for IPv4 header at offset 20''
      else if length grhBytes < 20 + 20 then Inl ''not enough bytes for IPv4 header at offset 20''
      else case hp_v4 h (take 20 (drop 20 grhBytes)) of
        Inl e \<Rightarrow> Inl (''failed to parse GRH region's IPv4 header part (offset 20): '' @ e)
      | Inr (Some src, Some dst) \<Rightarrow>
          (case (To4 src, To4 dst) of
             (Some srcIPv4, Some dstIPv4) \<Rightarrow> Inr (formatGIDString (map_v4 srcIPv4), formatGIDString (map_v4 dstIPv4))
           | _ \<Rightarrow> Inl ''could not convert GRH region's IPv4 Src/Dst (offset 20) to 4-byte format'')
      | Inr _ \<Rightarrow> Inl ''parsed IPv4 header from GRH (offset 20), but Src/Dst IP is nil'')"

definition parseIPv6GRH :: "hdr_parsers \<Rightarrow> byte list \<Rightarrow> (string \<times> string \<times> u32) res" where
  "parseIPv6GRH h grhBytes =
     (if length grhBytes < 40 then Inl (''grhBytes too short for IPv6 GID extraction (len: '' @ dec_string (length grhBytes) @ '')'')
      else Inr (formatGIDString (take 16 (drop 8 grhBytes)), formatGIDString (take 16 (drop 24 grhBytes)),
             case hp_v6 h grhBytes of Inr fl \<Rightarrow> fl | Inl _ \<Rightarrow> 0))"

text \<open>The GIDs, the flow label, the payload and its length.\<close>

definition parseGRH :: "hdr_parsers \<Rightarrow> GoWorkCompletion \<Rightarrow> byte list \<Rightarrow> (string \<times> string \<times> u32 \<times> byte list \<times> nat) res" where
  "parseGRH h wc recvBuffer =
     (if \<not> wc_GRH wc then Inr ('''', '''', 0, recvBuffer, unat (wc_ByteLen wc))
      else if unat (wc_ByteLen wc) < GRHSize
        then Inl (''IBV_WC_GRH set but wc.byte_len ('' @ dec_string (unat (wc_ByteLen wc)) @ '') < GRHSize (40)'')
      else let grhBytes = take GRHSize recvBuffer; ipVersion = and (drop_bit 4 (grhBytes ! 0)) 0x0f;
               payload = (drop GRHSize recvBuffer, unat (wc_ByteLen wc) - GRHSize) in
        if ipVersion = 4 then
          (case parseIPv4GRH h grhBytes of Inl e \<Rightarrow> Inl e | Inr (s, d) \<Rightarrow> Inr (s, d, 0, payload))
        else if ipVersion = 6 then
          (case parseIPv6GRH h grhBytes of Inl e \<Rightarrow> Inl e | Inr (s, d, fl) \<Rightarrow> Inr (s, d, fl, payload))
        else Inl (''GRH has unknown IP version: '' @ dec_string (unat ipVersion)))"

text \<open>The completion handler's own copies of the two parsers.\<close>

definition parseIPv6GRHFromBytes :: "hdr_parsers \<Rightarrow> byte list \<Rightarrow> (string \<times> string \<times> u32) res" where
  "parseIPv6GRHFromBytes h grhBytes =
     (if length grhBytes < 40 then Inl (''grhBytes too short for IPv6 GID extraction (len: '' @ dec_string (length grhBytes) @ '')'')
      else let sgid = formatGIDString (take 16 (drop 8 grhBytes)); dgid = formatGIDString (take 16 (drop 24 grhBytes)) in
        case hp_v6 h grhBytes of Inr fl \<Rightarrow> Inr (sgid, dgid, fl) | Inl _ \<Rightarrow> Inr (sgid, dgid, 0))"

definition parseIPv4GRHFromBytes :: "hdr_parsers \<Rightarrow> byte list \<Rightarrow> (string \<times> string) res go" where
  "parseIPv4GRHFromBytes h grhBytes =
     (if GRHSize < 20 + 20 then Ret (Inl ''GRH too small for IPv4 header at offset 20'')
      else if length grhBytes < 40 then Panic ''slice bounds out of range''
      else Ret (case hp_v4 h (take 20 (drop 20 grhBytes)) of
        Inl e \<Rightarrow> Inl (''failed to parse GRH region's IPv4 header part: '' @ e)
      | Inr (Some src, Some dst) \<Rightarrow>
          (case (To4 src, To4 dst) of
             (Some srcIPv4, Some dstIPv4) \<Rightarrow> Inr (formatGIDString (map_v4 srcIPv4), formatGIDString (map_v4 dstIPv4))
           | _ \<Rightarrow> Inl ''could not convert GRH region's IPv4 Src/Dst to 4-byte format'')
      | Inr _ \<Rightarrow> Inl ''parsed IPv4 header from GRH, but Src/Dst IP is nil''))"

subsection \<open>Layout round trip\<close>

lemma le_word_bytes: "le_word (le_bytes n w) = take_bit (8 * n) w"
proof (induction n arbitrary: w)
  case (Suc n)
  show ?case
    by (rule bit_eqI) (auto simp: Suc bit_simps)
qed simp

lemma length_le_bytes [simp]: "length (le_bytes n w) = n"
  by (induction n arbitrary: w) auto

lemma le_word_bytes_8 [simp]: "le_word (le_bytes 8 w) = w"
  by (simp add: le_word_bytes take_bit_word_eq_self)

lemma length_packet_bytes [simp]: "length (packet_bytes p) = sizeof_ProbePacket"
  by (simp add: packet_bytes_def sizeof_ProbePacket_def)

lemma read_packet_bytes [simp]: "read_packet (packet_bytes p @ rest) = p"
  by (simp add: read_packet_def packet_bytes_def nth_append)

lemma packet_bytes_inj: "packet_bytes p = packet_bytes p' \<Longrightarrow> p = p'"
  by (metis append_Nil2 read_packet_bytes)

text \<open>A payload is read back exactly when its length covers a packet: forty bytes or
  more give the packet whose bytes they begin with, fewer give an error.\<close>

theorem deserializeProbePacket_correct:
  "deserializeProbePacket (packet_bytes p @ rest) n =
     (if 40 \<le> n then Inr p
      else Inl (''actual received payload too small (len: '' @ dec_string n @ ''), expected at least 40''))"
  by (simp add: deserializeProbePacket_def sizeof_ProbePacket_def not_less)

subsection \<open>Header parsing\<close>

lemma map_v4_mapped4: "map_v4 [a, b, c, d] = mapped4 a b c d"
  by (simp add: map_v4_def mapped4_def numeral_eq_Suc)

lemma To4_four [simp]: "length v = 4 \<Longrightarrow> To4 v = Some v"
  by (simp add: To4_def)

lemma list_of_four: "length v = 4 \<Longrightarrow> v = [v ! 0, v ! 1, v ! 2, v ! 3]"
  by (simp add: list_eq_iff_nth_eq less_Suc_eq numeral_eq_Suc)

lemma formatGIDString_map_v4: "formatGIDString (map_v4 v) = ''::ffff:'' @ dotted [v ! 0, v ! 1, v ! 2, v ! 3]"
  by (simp add: formatGIDString_def isIPv4MappedIPv6_def map_v4_def)

lemma parseIPv4GRH_ok:
  assumes "parsers_ok h" and "length grh = 40" and "grh ! 20 = 0x45"
  shows "parseIPv4GRH h grh =
    Inr (formatGIDString (map_v4 (take 4 (drop 32 grh))), formatGIDString (map_v4 (drop 36 grh)))"
proof -
  have "hp_v4 h (take 20 (drop 20 grh)) = Inr (Some (take 4 (drop 32 grh)), Some (drop 36 grh))"
    using assms by (simp add: parsers_ok_def take_drop)
  then show ?thesis using assms(2) by (simp add: parseIPv4GRH_def GRHSize_def)
qed

text \<open>C17: the two copies of the route-header parsers agree. On forty bytes or more the
  completion handler's IPv6 parser returns what the receive path's does, and the IPv4
  parsers either return the same GIDs or both fail; neither panics.\<close>

theorem grh_parsers_agree:
  assumes "40 \<le> length grh"
  shows "parseIPv6GRHFromBytes h grh = parseIPv6GRH h grh
     \<and> (\<exists>r. parseIPv4GRHFromBytes h grh = Ret r
          \<and> (case (r, parseIPv4GRH h grh) of (Inr x, Inr y) \<Rightarrow> x = y | (Inl _, Inl _) \<Rightarrow> True | _ \<Rightarrow> False))"
  using assms
  by (auto simp: parseIPv6GRHFromBytes_def parseIPv6GRH_def parseIPv4GRHFromBytes_def parseIPv4GRH_def GRHSize_def Let_def
      split: sum.splits option.splits)

lemma parseGRH_ipv4:
  assumes "parsers_ok h" and "wc_GRH wc" and "40 \<le> unat (wc_ByteLen wc)" and "40 \<le> length buf"
    and "and (drop_bit 4 (buf ! 0)) 0x0f = 4" and "buf ! 20 = 0x45"
  shows "\<exists>sgid dgid. parseGRH h wc buf = Inr (sgid, dgid, 0, drop 40 buf, unat (wc_ByteLen wc) - 40)
     \<and> ParseIP sgid = Some (mapped4 (buf ! 32) (buf ! 33) (buf ! 34) (buf ! 35))
     \<and> ParseIP dgid = Some (mapped4 (buf ! 36) (buf ! 37) (buf ! 38) (buf ! 39))"
proof -
  let ?g = "take 40 buf"
  have l: "length ?g = 40" "?g ! 20 = 0x45" "?g ! 0 = buf ! 0" using assms by simp_all
  note p = parseIPv4GRH_ok[OF assms(1) l(1,2)]
  have "parseGRH h wc buf = Inr (formatGIDString (map_v4 (take 4 (drop 32 ?g))), formatGIDString (map_v4 (drop 36 ?g)), 0,
      drop 40 buf, unat (wc_ByteLen wc) - 40)"
    using assms p l by (simp add: parseGRH_def GRHSize_def Let_def)
  moreover have "take 4 (drop 32 ?g) ! i = buf ! (32 + i)" "drop 36 ?g ! i = buf ! (36 + i)" if "i < 4" for i
    using that assms(4) by simp_all
  ultimately show ?thesis
    using ParseIP_mapped by (simp add: formatGIDString_map_v4)
qed

text \<open>For a received IPv4 header (RoCEv2 over IPv4 puts it in the second half of the
  route header region), the source GID the parser reports is text that parses to the
  IPv4-mapped form of the header's source address, so that a reply can be addressed to it;
  the payload starts after the forty bytes.\<close>

theorem parseGRH_ipv4_source:
  assumes "parsers_ok h" and "wc_GRH wc" and "40 \<le> unat (wc_ByteLen wc)" and "40 \<le> length buf"
    and "and (drop_bit 4 (buf ! 0)) 0x0f = 4" and "buf ! 20 = 0x45"
  shows "\<exists>sgid dgid. parseGRH h wc buf = Inr (sgid, dgid, 0, drop 40 buf, unat (wc_ByteLen wc) - 40)
     \<and> ParseIP sgid = Some (mapped4 (buf ! 32) (buf ! 33) (buf ! 34) (buf ! 35))
     \<and> ParseIP dgid = Some (mapped4 (buf ! 36) (buf ! 37) (buf ! 38) (buf ! 39))"
  using assms by (rule parseGRH_ipv4)

lemma parseGRH_ipv6:
  assumes "parsers_ok h" and "wc_GRH wc" and "40 \<le> unat (wc_ByteLen wc)" and "40 \<le> length buf"
    and "and (drop_bit 4 (buf ! 0)) 0x0f = 6"
  shows "parseGRH h wc buf = Inr (formatGIDString (take 16 (drop 8 buf)), formatGIDString (take 16 (drop 24 buf)),
    flow_label_of buf, drop 40 buf, unat (wc_ByteLen wc) - 40)"
proof -
  have "hp_v6 h (take 40 buf) = Inr (flow_label_of (take 40 buf))" using assms by (simp add: parsers_ok_def)
  moreover have "flow_label_of (take 40 buf) = flow_label_of buf" by (simp add: flow_label_of_def)
  ultimately show ?thesis
    using assms by (simp add: parseGRH_def parseIPv6GRH_def GRHSize_def Let_def take_drop)
qed

text \<open>Parsers that do what the documentation says.\<close>

definition spec_parsers :: hdr_parsers where
  "spec_parsers = \<lparr>hp_v4 = \<lambda>b. Inr (Some (take 4 (drop 12 b)), Some (drop 16 b)), hp_v6 = \<lambda>b. Inr (flow_label_of b)\<rparr>"

lemma spec_parsers_ok [simp]: "parsers_ok spec_parsers"
  by (simp add: parsers_ok_def spec_parsers_def)

definition sample_wc :: GoWorkCompletion where
  "sample_wc = \<lparr>wc_WRID = 3, wc_Status = 0, wc_Opcode = WC_RECV, wc_ByteLen = 80, wc_SrcQP = 9, wc_GRH = True, wc_WallclockNS = 1000\<rparr>"

definition sample_buf4 :: "byte list" where
  "sample_buf4 = 0x45 # replicate 19 0 @ 0x45 # replicate 11 0 @ [10, 0, 0, 1, 10, 0, 0, 2] @ replicate 40 0"

theorem grh_parsers_agree_witness:
  "parseIPv6GRHFromBytes spec_parsers sample_buf4 = parseIPv6GRH spec_parsers sample_buf4"
  using grh_parsers_agree[of sample_buf4 spec_parsers] by (simp add: sample_buf4_def)

theorem parseGRH_ipv4_source_witness:
  "\<exists>sgid dgid. parseGRH spec_parsers sample_wc sample_buf4 = Inr (sgid, dgid, 0, drop 40 sample_buf4, 40)
     \<and> ParseIP sgid = Some (mapped4 10 0 0 1)"
proof -
  have l: "40 \<le> unat (wc_ByteLen sample_wc)" "wc_GRH sample_wc" "40 \<le> length sample_buf4"
    "unat (wc_ByteLen sample_wc) - 40 = 40"
    by (simp_all add: sample_wc_def sample_buf4_def)
  have v: "and (drop_bit 4 (sample_buf4 ! 0)) 0x0f = 4" "sample_buf4 ! 20 = 0x45"
    "sample_buf4 ! 32 = 10" "sample_buf4 ! 33 = 0" "sample_buf4 ! 34 = 0" "sample_buf4 ! 35 = 1"
    by code_simp+
  show ?thesis
    using parseGRH_ipv4_source[OF spec_parsers_ok l(2,1,3) v(1,2)] unfolding l(4) v by blast
qed

end
