(* ===== verification/Go_Chan.thy ===== *)
theory Go_Chan
  imports Go_Base
begin

text \<open>
  Buffered channels with the three ways the code uses them (a non-blocking send inside
  \<^verbatim>\<open>select ... default\<close>, a receive, a close), and three interfaces that several
  components implement, each stated as a locale with the lemmas its clients need proved
  once: a bounded channel that drops when it is full, a keyed store (sessions, service
  flows, registry rows), and a round-robin cursor (send slots, probe targets).
\<close>

subsection \<open>Buffered channels\<close>

record 'a gchan =
  ch_buf :: "'a list"
  ch_cap :: nat
  ch_closed :: bool

definition chan_make :: "nat \<Rightarrow> 'a gchan" where
  [go_defs]: "chan_make n = \<lparr>ch_buf = [], ch_cap = n, ch_closed = False\<rparr>"

text \<open>\<^verbatim>\<open>select { case c <- x: default: }\<close>: the value is dropped when the buffer is full.\<close>

definition nb_send :: "'a gchan \<Rightarrow> 'a \<Rightarrow> 'a gchan go" where
  "nb_send c x =
     (if ch_closed c then Panic ''send on closed channel''
      else if length (ch_buf c) < ch_cap c then Ret (c\<lparr>ch_buf := ch_buf c @ [x]\<rparr>)
      else Ret c)"

definition chan_close :: "'a gchan \<Rightarrow> 'a gchan go" where
  "chan_close c =
     (if ch_closed c then Panic ''close of closed channel'' else Ret (c\<lparr>ch_closed := True\<rparr>))"

datatype 'a recv = Got 'a | GotClosed | WouldBlock

definition chan_recv :: "'a gchan \<Rightarrow> 'a recv \<times> 'a gchan" where
  "chan_recv c =
     (case ch_buf c of
        x # xs \<Rightarrow> (Got x, c\<lparr>ch_buf := xs\<rparr>)
      | [] \<Rightarrow> if ch_closed c then (GotClosed, c) else (WouldBlock, c))"

lemma nb_send_room [chan_simps]:
  "\<not> ch_closed c \<Longrightarrow> length (ch_buf c) < ch_cap c \<Longrightarrow>
     nb_send c x = Ret (c\<lparr>ch_buf := ch_buf c @ [x]\<rparr>)"
  by (simp add: nb_send_def)

lemma nb_send_full [chan_simps]:
  "\<not> ch_closed c \<Longrightarrow> \<not> length (ch_buf c) < ch_cap c \<Longrightarrow> nb_send c x = Ret c"
  by (simp add: nb_send_def)

lemma nb_send_closed [chan_simps]:
  "ch_closed c \<Longrightarrow> nb_send c x = Panic ''send on closed channel''"
  by (simp add: nb_send_def)

lemma nb_send_no_panic: "\<not> ch_closed c \<Longrightarrow> \<exists>c'. nb_send c x = Ret c' \<and> \<not> ch_closed c'"
  by (simp add: nb_send_def)

text \<open>A sequence of sends by a given send operation, stopping at the first panic.\<close>

fun send_all :: "('c \<Rightarrow> 'a \<Rightarrow> 'c go) \<Rightarrow> 'c \<Rightarrow> 'a list \<Rightarrow> 'c go" where
  "send_all f c [] = Ret c"
| "send_all f c (x # xs) = go_bind (f c x) (\<lambda>c'. send_all f c' xs)"

locale drop_channel =
  fixes send :: "'c \<Rightarrow> 'a \<Rightarrow> 'c go"
    and contents :: "'c \<Rightarrow> 'a list"
    and capacity :: "'c \<Rightarrow> nat"
    and is_open :: "'c \<Rightarrow> bool"
  assumes send_room: "is_open c \<Longrightarrow> length (contents c) < capacity c \<Longrightarrow>
      \<exists>c'. send c x = Ret c' \<and> contents c' = contents c @ [x] \<and> capacity c' = capacity c \<and> is_open c'"
    and send_full: "is_open c \<Longrightarrow> \<not> length (contents c) < capacity c \<Longrightarrow> send c x = Ret c"
begin

text \<open>However many values are sent, the channel holds what was there and the first
  values that fit, in order; the rest is dropped, and no send panics.\<close>

lemma send_all_contents:
  "is_open c \<Longrightarrow> length (contents c) \<le> capacity c \<Longrightarrow>
   \<exists>c'. send_all send c xs = Ret c' \<and> contents c' = take (capacity c) (contents c @ xs) \<and>
        capacity c' = capacity c \<and> is_open c'"
proof (induction xs arbitrary: c)
  case Nil
  then show ?case by simp
next
  case (Cons x xs)
  show ?case
  proof (cases "length (contents c) < capacity c")
    case True
    from send_room[OF Cons.prems(1) True, of x] obtain c1 where
      c1: "send c x = Ret c1" "contents c1 = contents c @ [x]" "capacity c1 = capacity c" "is_open c1"
      by blast
    with True Cons.IH[of c1] show ?thesis by auto
  next
    case False
    with Cons.prems Cons.IH[of c] show ?thesis by (auto simp: send_full)
  qed
qed

end

interpretation gch: drop_channel nb_send ch_buf ch_cap "\<lambda>c. \<not> ch_closed c"
  by unfold_locales (auto simp: chan_simps)

subsection \<open>Keyed stores\<close>

text \<open>
  A component that files values under a key computed from the value: what a lookup
  returns after an insertion and after a removal, and what both keep of the invariant.
\<close>

locale keyed_store =
  fixes get :: "'s \<Rightarrow> 'k \<Rightarrow> 'v option"
    and put :: "'v \<Rightarrow> 's \<Rightarrow> 's"
    and del :: "'k \<Rightarrow> 's \<Rightarrow> 's"
    and key :: "'v \<Rightarrow> 'k"
    and invar :: "'s \<Rightarrow> bool"
  assumes get_put: "invar s \<Longrightarrow> get (put v s) k = (if k = key v then Some v else get s k)"
    and get_del: "invar s \<Longrightarrow> get (del k s) k' = (if k' = k then None else get s k')"
    and invar_put: "invar s \<Longrightarrow> invar (put v s)"
    and invar_del: "invar s \<Longrightarrow> invar (del k s)"
begin

definition well_keyed :: "'s \<Rightarrow> bool" where
  "well_keyed s \<longleftrightarrow> invar s \<and> (\<forall>k v. get s k = Some v \<longrightarrow> key v = k)"

lemma well_keyed_put: "well_keyed s \<Longrightarrow> well_keyed (put v s)"
  by (simp add: well_keyed_def get_put invar_put)

lemma well_keyed_del: "well_keyed s \<Longrightarrow> well_keyed (del k s)"
  by (simp add: well_keyed_def get_del invar_del)

text \<open>Two values under different keys: inserting one and removing the other commute.\<close>

lemma put_del_commute:
  "invar s \<Longrightarrow> key v \<noteq> k \<Longrightarrow> get (del k (put v s)) = get (put v (del k s))"
  by (rule ext) (auto simp: get_put get_del invar_put invar_del)

lemma put_then_del: "invar s \<Longrightarrow> get s (key v) = None \<Longrightarrow> get (del (key v) (put v s)) = get s"
  by (rule ext) (auto simp: get_put get_del invar_put)

lemma get_puts_distinct:
  "invar s \<Longrightarrow> distinct (map key vs) \<Longrightarrow> v \<in> set vs \<Longrightarrow> get (fold put vs s) (key v) = Some v"
proof (induction vs arbitrary: s)
  case Nil
  then show ?case by simp
next
  case (Cons u vs)
  have keep: "invar t \<Longrightarrow> k \<notin> key ` set vs \<Longrightarrow> get (fold put vs t) k = get t k" for t k
    by (induction vs arbitrary: t) (auto simp: get_put invar_put)
  from Cons show ?case
    by (cases "v = u") (auto simp: keep get_put invar_put)
qed

lemma invar_puts: "invar s \<Longrightarrow> invar (fold put vs s)"
  by (induction vs arbitrary: s) (auto simp: invar_put)

end

text \<open>Go maps as association lists with distinct keys; the list order is the (arbitrary)
  order in which a range statement visits the map.\<close>

lemmas map_of_update [store_simps] = AList.update_conv'
lemmas map_of_delete [store_simps] = AList.delete_conv'

lemma distinct_keys_update [store_simps]:
  "distinct (map fst al) \<Longrightarrow> distinct (map fst (AList.update k v al))"
  by (rule distinct_update)

lemma distinct_keys_delete [store_simps]:
  "distinct (map fst al) \<Longrightarrow> distinct (map fst (AList.delete k al))"
  by (rule distinct_delete)

subsection \<open>Round-robin cursors\<close>

text \<open>The indices that consecutive calls of a cursor operation hand out.\<close>

fun iter_next :: "('s \<Rightarrow> nat \<times> 's) \<Rightarrow> nat \<Rightarrow> 's \<Rightarrow> nat list" where
  "iter_next nx 0 s = []"
| "iter_next nx (Suc k) s = fst (nx s) # iter_next nx k (snd (nx s))"

lemma length_iter_next [simp]: "length (iter_next nx k s) = k"
  by (induction k arbitrary: s) auto

lemma mod_add_inj:
  fixes i j c n :: nat
  shows "i < n \<Longrightarrow> j < n \<Longrightarrow> (c + i) mod n = (c + j) mod n \<Longrightarrow> i = j"
proof (induction i j rule: linorder_wlog)
  case (le i j)
  then have "n dvd (c + j) - (c + i)"
    by (metis add_le_cancel_left mod_eq_dvd_iff_nat)
  with le have "j - i = 0" by (metis diff_add_inverse diff_cancel2 add.commute dvd_imp_le le_less_trans not_less less_imp_diff_less neq0_conv diff_cancel)
  with le show ?case by simp
next
  case (sym i j)
  then show ?case by metis
qed

locale round_robin =
  fixes next_item :: "'s \<Rightarrow> nat \<times> 's"
    and cursor :: "'s \<Rightarrow> nat"
    and size_of :: "'s \<Rightarrow> nat"
    and ok :: "'s \<Rightarrow> bool"
  assumes next_index: "ok s \<Longrightarrow> fst (next_item s) = cursor s mod size_of s"
    and next_cursor: "ok s \<Longrightarrow> cursor (snd (next_item s)) mod size_of s = (cursor s + 1) mod size_of s"
    and next_size: "ok s \<Longrightarrow> size_of (snd (next_item s)) = size_of s"
    and next_ok: "ok s \<Longrightarrow> ok (snd (next_item s))"
    and ok_pos: "ok s \<Longrightarrow> 0 < size_of s"
begin

lemma iter_next_eq:
  "ok s \<Longrightarrow> iter_next next_item k s = map (\<lambda>i. (cursor s + i) mod size_of s) [0..<k]"
proof (induction k arbitrary: s)
  case 0
  then show ?case by simp
next
  case (Suc k)
  let ?s' = "snd (next_item s)" and ?n = "size_of s"
  have "(cursor ?s' + i) mod ?n = (cursor s + Suc i) mod ?n" for i
  proof -
    have "(cursor ?s' + i) mod ?n = (cursor ?s' mod ?n + i) mod ?n" by (simp add: mod_add_left_eq)
    also have "\<dots> = ((cursor s + 1) mod ?n + i) mod ?n" using Suc.prems by (simp only: next_cursor)
    also have "\<dots> = (cursor s + Suc i) mod ?n" by (simp add: mod_add_left_eq)
    finally show ?thesis .
  qed
  with Suc show ?case
    by (simp add: next_index next_size next_ok upt_conv_Cons map_Suc_upt[symmetric] del: upt_Suc)
qed

text \<open>Fairness: in as many consecutive calls as there are items, every item is handed
  out exactly once, wherever the cursor stands.\<close>

lemma one_round:
  assumes "ok s"
  shows "distinct (iter_next next_item (size_of s) s)"
    and "set (iter_next next_item (size_of s) s) = {..<size_of s}"
proof -
  let ?n = "size_of s" and ?f = "\<lambda>i. (cursor s + i) mod size_of s"
  have n: "0 < ?n" using assms by (rule ok_pos)
  have inj: "inj_on ?f {0..<?n}"
    by (rule inj_onI) (auto intro: mod_add_inj)
  then show "distinct (iter_next next_item ?n s)"
    by (simp add: iter_next_eq[OF assms] distinct_map)
  have "?f ` {0..<?n} \<subseteq> {..<?n}" using n by auto
  moreover have "card (?f ` {0..<?n}) = card {..<?n}" using inj by (simp add: card_image)
  ultimately have "?f ` {0..<?n} = {..<?n}" by (intro card_subset_eq) auto
  then show "set (iter_next next_item ?n s) = {..<?n}"
    by (simp add: iter_next_eq[OF assms])
qed

end

end
