(* ===== verification/Rdma_Queue.thy ===== *)
theory Rdma_Queue
  imports Rdma_Packet Go_Chan
begin

text \<open>
  A UD queue pair at work (internal/rdma/packet.go, internal/rdma/cq.go, the queue type and
  address handles of internal/rdma/queue.go): send and receive slots, sending of probes
  and ACKs, the completion handlers and the poller. The hardware's receive queue is the
  list of slots posted to it; what a send puts on the wire is a log. The return codes of
  the verbs and the choice of a select statement are arguments; a chosen case that is not
  ready gives None.
\<close>

subsection \<open>State\<close>

datatype UDQueueType = UDQueueTypeSender | UDQueueTypeResponder

record ah_attr =
  ah_port :: u8
  ah_flow_label :: u32
  ah_sgid_index :: u8
  ah_hop_limit :: u8
  ah_dgid :: ip_bytes

record wire_send =
  ws_ah :: ah_attr
  ws_qpn :: u32
  ws_qkey :: u32
  ws_wrid :: u64
  ws_bytes :: "byte list"

record UDQueue =
  uq_rnic :: RNIC
  uq_QPN :: u32
  uq_QueueType :: UDQueueType
  uq_NumRecvSlots :: nat
  uq_NextRecvSlot :: nat
  uq_NumSendSlots :: nat
  uq_NextSendSlot :: nat
  uq_recv_mem :: "nat \<Rightarrow> byte list"
  uq_send_mem :: "nat \<Rightarrow> byte list"
  uq_posted :: "nat list"
  uq_sent :: "wire_send list"
  uq_sendCompChan :: "GoWorkCompletion gchan"
  uq_recvCompChan :: "GoWorkCompletion gchan"
  uq_errChan :: "string gchan"
  uq_has_handler :: bool
  uq_delivered :: "IncomingAckInfo list"

definition InitialRecvBuffers :: nat where "InitialRecvBuffers = 32"
definition DefaultQKey :: u32 where "DefaultQKey = 0x11111111"

definition getQueueTypeString :: "UDQueueType \<Rightarrow> string" where
  "getQueueTypeString t = (case t of UDQueueTypeSender \<Rightarrow> ''Sender'' | UDQueueTypeResponder \<Rightarrow> ''Responder'')"

subsection \<open>Slots\<close>

text \<open>The return code of ibv_post_recv, as a function of the queue and the slot.\<close>

type_synonym post_ret = "UDQueue \<Rightarrow> nat \<Rightarrow> int"

definition PostRecvSlot :: "post_ret \<Rightarrow> int \<Rightarrow> UDQueue \<Rightarrow> unit res \<times> UDQueue" where
  "PostRecvSlot pr slot u =
     (if slot < 0 \<or> slot \<ge> int (uq_NumRecvSlots u) then
        (Inl (''invalid slot index '' @ dec_int slot @ '', must be between 0 and '' @ dec_int (int (uq_NumRecvSlots u) - 1)), u)
      else let ret = pr u (nat slot) in
        if ret \<noteq> 0 then (Inl (''ibv_post_recv failed for slot '' @ dec_int slot @ '': '' @ dec_int ret), u)
        else (Inr (), u\<lparr>uq_posted := uq_posted u @ [nat slot]\<rparr>))"

text \<open>The counters grow by one with each call (below 2 to the 63, which they do not reach); the remainder
  by a number of slots that is zero is a run-time panic.\<close>

definition PostRecv :: "post_ret \<Rightarrow> UDQueue \<Rightarrow> (unit res \<times> UDQueue) go" where
  "PostRecv pr u =
     (if uq_NumRecvSlots u = 0 then Panic ''integer divide by zero''
      else let slot = uq_NextRecvSlot u mod uq_NumRecvSlots u; u1 = u\<lparr>uq_NextRecvSlot := Suc (uq_NextRecvSlot u)\<rparr> in
        Ret (PostRecvSlot pr (int slot) u1))"

definition GetNextSendSlot :: "UDQueue \<Rightarrow> (nat \<times> UDQueue) go" where
  "GetNextSendSlot u =
     (if uq_NumSendSlots u = 0 then Panic ''integer divide by zero''
      else Ret (uq_NextSendSlot u mod uq_NumSendSlots u, u\<lparr>uq_NextSendSlot := Suc (uq_NextSendSlot u)\<rparr>))"

text \<open>The recurring fallback: the completion's own slot when it is valid, else the next one.\<close>

definition slot_of :: "GoWorkCompletion \<Rightarrow> int" where
  "slot_of wc = sint (wc_WRID wc)"

definition valid_slot :: "UDQueue \<Rightarrow> int \<Rightarrow> bool" where
  "valid_slot u slot \<longleftrightarrow> slot \<ge> 0 \<and> slot < int (uq_NumRecvSlots u)"

definition repost :: "post_ret \<Rightarrow> int \<Rightarrow> UDQueue \<Rightarrow> (unit res \<times> UDQueue) go" where
  "repost pr slot u = (if valid_slot u slot then Ret (PostRecvSlot pr slot u) else PostRecv pr u)"

subsection \<open>Sending\<close>

definition CreateAddressHandle :: "bool \<Rightarrow> string \<Rightarrow> u32 \<Rightarrow> UDQueue \<Rightarrow> ah_attr res" where
  "CreateAddressHandle created targetGID flowLabel u =
     (case ParseIP targetGID of
        None \<Rightarrow> Inl (''failed to parse target GID '' @ [CHR 0x27] @ targetGID @ [CHR 0x27] @ '' as IP address for AH creation'')
      | Some ipAddr \<Rightarrow>
        (case To16 ipAddr of
           None \<Rightarrow> Inl (''target GID '' @ [CHR 0x27] @ targetGID @ [CHR 0x27] @ '' is not a valid IPv6 address'')
         | Some ipv6 \<Rightarrow>
             if \<not> created then Inl (''failed to create address handle for GID '' @ rn_GID (uq_rnic u))
             else Inr \<lparr>ah_port = rn_ActivePortNum (uq_rnic u), ah_flow_label = flowLabel,
                       ah_sgid_index = rn_ActiveGIDIndex (uq_rnic u), ah_hop_limit = 255, ah_dgid = ipv6\<rparr>))"

text \<open>What a send meets outside: whether ibv_create_ah succeeds, the clock, the return
  code of ibv_post_send, and the send completions that the poller queues between the post
  and the sender's select.\<close>

record send_env =
  se_ah :: bool
  se_now :: gtime
  se_ret :: int
  se_arrivals :: "GoWorkCompletion list"

text \<open>The part the three senders share: address handle, send slot, packet, post.\<close>

definition post_packet :: "send_env \<Rightarrow> string \<Rightarrow> u32 \<Rightarrow> u32 \<Rightarrow> ProbePacket \<Rightarrow> UDQueue \<Rightarrow> (unit res \<times> UDQueue) go" where
  "post_packet e targetGID targetQPN flowLabel packet u =
     (case CreateAddressHandle (se_ah e) targetGID flowLabel u of
        Inl err \<Rightarrow> Ret (Inl err, u)
      | Inr ah \<Rightarrow> go_bind (GetNextSendSlot u) (\<lambda>(sendSlot, u1).
        let sendWRID = of_nat (sendSlot + uq_NumRecvSlots u);
            mem = packet_bytes packet @ drop sizeof_ProbePacket (uq_send_mem u1 sendSlot);
            u2 = u1\<lparr>uq_send_mem := (uq_send_mem u1)(sendSlot := mem)\<rparr> in
        if se_ret e \<noteq> 0 then Ret (Inl (''ibv_post_send failed: '' @ dec_int (se_ret e)), u2)
        else Ret (Inr (), u2\<lparr>uq_sent := uq_sent u2 @ [\<lparr>ws_ah = ah, ws_qpn = targetQPN, ws_qkey = DefaultQKey,
                ws_wrid = sendWRID, ws_bytes = take sizeof_ProbePacket mem\<rparr>]\<rparr>)))"

datatype select_choice = SelComp | SelErr | SelTimeout string

text \<open>Waiting for the completion: the channel's oldest element, whatever its WRID.\<close>

definition await_send :: "string \<Rightarrow> string \<Rightarrow> GoWorkCompletion list \<Rightarrow> select_choice \<Rightarrow> UDQueue \<Rightarrow> (gtime res \<times> UDQueue) go option" where
  "await_send failed_msg err_msg arrivals sel u0 =
     (case send_all nb_send (uq_sendCompChan u0) arrivals of
        Panic m \<Rightarrow> Some (Panic m)
      | Ret ch0 \<Rightarrow>
        let u = u0\<lparr>uq_sendCompChan := ch0\<rparr> in
        (case sel of
           SelComp \<Rightarrow> (case chan_recv (uq_sendCompChan u) of
               (Got wc, ch) \<Rightarrow> Some (Ret (if wc_Status wc \<noteq> IBV_WC_SUCCESS then Inl (failed_msg @ dec_int (wc_Status wc))
                                  else Inr (unix_ns (wc_WallclockNS wc)), u\<lparr>uq_sendCompChan := ch\<rparr>))
             | (GotClosed, ch) \<Rightarrow> Some (Panic ''nil pointer dereference: wc.Status'')
             | (WouldBlock, ch) \<Rightarrow> None)
         | SelErr \<Rightarrow> (case chan_recv (uq_errChan u) of
               (Got err, ch) \<Rightarrow> Some (Ret (Inl (err_msg @ err), u\<lparr>uq_errChan := ch\<rparr>))
             | (GotClosed, ch) \<Rightarrow> Some (Ret (Inl (err_msg @ ''%!w(<nil>)''), u))
             | (WouldBlock, ch) \<Rightarrow> None)
         | SelTimeout msg \<Rightarrow> Some (Ret (Inl msg, u))))"

definition SendProbePacket ::
  "send_env \<Rightarrow> select_choice \<Rightarrow> string \<Rightarrow> u32 \<Rightarrow> u64 \<Rightarrow> u32 \<Rightarrow> UDQueue \<Rightarrow> ((gtime \<times> gtime) res \<times> UDQueue) go option" where
  "SendProbePacket e sel targetGID targetQPN sequenceNum flowLabel u =
     (case post_packet e targetGID targetQPN flowLabel
         \<lparr>pp_SequenceNum = sequenceNum, pp_T1 = unix_nano_u64 (se_now e), pp_T3 = 0, pp_T4 = 0,
          pp_IsAck = 0, pp_AckType = 0, pp_Flags = 0\<rparr> u of
        Panic m \<Rightarrow> Some (Panic m)
      | Ret (Inl err, u1) \<Rightarrow> Some (Ret (Inl err, u1))
      | Ret (Inr _, u1) \<Rightarrow>
        (case await_send ''send completion failed: '' ''error during send: '' (se_arrivals e) sel u1 of
           None \<Rightarrow> None
         | Some (Panic m) \<Rightarrow> Some (Panic m)
         | Some (Ret (Inl err, u2)) \<Rightarrow> Some (Ret (Inl err, u2))
         | Some (Ret (Inr t2, u2)) \<Rightarrow> Some (Ret (Inr (se_now e, t2), u2))))"

definition SendFirstAckPacket ::
  "send_env \<Rightarrow> select_choice \<Rightarrow> string \<Rightarrow> u32 \<Rightarrow> u32 \<Rightarrow> ProbePacket \<Rightarrow> gtime \<Rightarrow> UDQueue \<Rightarrow> (gtime res \<times> UDQueue) go option" where
  "SendFirstAckPacket e sel targetGID targetQPN flowLabel originalPacket receiveTime u =
     (case post_packet e targetGID targetQPN flowLabel
         \<lparr>pp_SequenceNum = pp_SequenceNum originalPacket, pp_T1 = pp_T1 originalPacket, pp_T3 = unix_nano_u64 receiveTime,
          pp_T4 = 0, pp_IsAck = 1, pp_AckType = 1, pp_Flags = 0\<rparr> u of
        Panic m \<Rightarrow> Some (Panic m)
      | Ret (Inl err, u1) \<Rightarrow> Some (Ret (Inl err, u1))
      | Ret (Inr _, u1) \<Rightarrow> await_send ''First ACK send completion failed: '' ''error during First ACK send: '' (se_arrivals e) sel u1)"

definition SendSecondAckPacket ::
  "send_env \<Rightarrow> select_choice \<Rightarrow> string \<Rightarrow> u32 \<Rightarrow> u32 \<Rightarrow> ProbePacket \<Rightarrow> gtime \<Rightarrow> gtime \<Rightarrow> UDQueue
     \<Rightarrow> (unit res \<times> UDQueue) go option" where
  "SendSecondAckPacket e sel targetGID targetQPN flowLabel originalPacket receiveTime sendCompletionTime u =
     (case post_packet e targetGID targetQPN flowLabel
         \<lparr>pp_SequenceNum = pp_SequenceNum originalPacket, pp_T1 = pp_T1 originalPacket, pp_T3 = unix_nano_u64 receiveTime,
          pp_T4 = unix_nano_u64 sendCompletionTime, pp_IsAck = 1, pp_AckType = 2, pp_Flags = 0\<rparr> u of
        Panic m \<Rightarrow> Some (Panic m)
      | Ret (Inl err, u1) \<Rightarrow> Some (Ret (Inl err, u1))
      | Ret (Inr _, u1) \<Rightarrow>
        (case await_send ''Second ACK send completion failed: '' ''error during Second ACK send: '' (se_arrivals e) sel u1 of
           None \<Rightarrow> None
         | Some (Panic m) \<Rightarrow> Some (Panic m)
         | Some (Ret (Inl err, u2)) \<Rightarrow> Some (Ret (Inl err, u2))
         | Some (Ret (Inr _, u2)) \<Rightarrow> Some (Ret (Inr (), u2))))"

subsection \<open>Receiving\<close>

datatype recv_choice = RSelErr | RSelDone string | RSelComp

text \<open>The four results of ReceivePacket: an error alone, an error with the completion, or
  a packet.\<close>

datatype rx_result = RxErr string | RxBad gtime ProcessedWorkCompletion string | RxPacket ProbePacket gtime ProcessedWorkCompletion

definition slot_buffer :: "UDQueue \<Rightarrow> int \<Rightarrow> byte list" where
  "slot_buffer u slot = (if valid_slot u slot then uq_recv_mem u (nat slot) else uq_recv_mem u 0)"

definition receive_completion :: "post_ret \<Rightarrow> hdr_parsers \<Rightarrow> GoWorkCompletion \<Rightarrow> UDQueue \<Rightarrow> (rx_result \<times> UDQueue) go" where
  "receive_completion pr h goWC u =
     (let receiveTime = unix_ns (wc_WallclockNS goWC); slot = slot_of goWC; recvBuffer = slot_buffer u slot in
      case parseGRH h goWC recvBuffer of
        Inl err \<Rightarrow> Ret (RxBad receiveTime \<lparr>pw_WC = goWC, pw_SGID = '''', pw_DGID = '''', pw_FlowLabel = 0\<rparr> err, u)
      | Inr (sgid, dgid, flowLabel, payload, actualPayloadLength) \<Rightarrow>
        let processedWC = \<lparr>pw_WC = goWC, pw_SGID = sgid, pw_DGID = dgid, pw_FlowLabel = flowLabel\<rparr> in
        go_bind (repost pr slot u) (\<lambda>(_, u1).
          Ret (case deserializeProbePacket payload actualPayloadLength of
              Inl err \<Rightarrow> (RxBad receiveTime processedWC err, u1)
            | Inr packet \<Rightarrow> (RxPacket packet receiveTime processedWC, u1))))"

definition ReceivePacket :: "post_ret \<Rightarrow> hdr_parsers \<Rightarrow> recv_choice \<Rightarrow> UDQueue \<Rightarrow> (rx_result \<times> UDQueue) go option" where
  "ReceivePacket pr h sel u =
     (case sel of
        RSelErr \<Rightarrow> (case chan_recv (uq_errChan u) of
            (Got err, ch) \<Rightarrow> Some (Ret (RxErr (''error during receive: '' @ err), u\<lparr>uq_errChan := ch\<rparr>))
          | (GotClosed, ch) \<Rightarrow> Some (Ret (RxErr ''error during receive: %!w(<nil>)'', u))
          | (WouldBlock, ch) \<Rightarrow> None)
      | RSelDone err \<Rightarrow> Some (Ret (RxErr err, u))
      | RSelComp \<Rightarrow> (case chan_recv (uq_recvCompChan u) of
            (Got goWC, ch) \<Rightarrow> Some (receive_completion pr h goWC (u\<lparr>uq_recvCompChan := ch\<rparr>))
          | (GotClosed, ch) \<Rightarrow> Some (Panic ''nil pointer dereference: goWC.CompletionWallclockNS'')
          | (WouldBlock, ch) \<Rightarrow> None))"

subsection \<open>Completion handlers\<close>

definition send_err :: "string \<Rightarrow> UDQueue \<Rightarrow> UDQueue go" where
  "send_err e u = go_bind (nb_send (uq_errChan u) e) (\<lambda>ch. Ret (u\<lparr>uq_errChan := ch\<rparr>))"

definition handleWCError :: "GoWorkCompletion \<Rightarrow> UDQueue \<Rightarrow> UDQueue go" where
  "handleWCError gwc u = send_err (''CQ Poller: WC error, Status: '' @ dec_int (wc_Status gwc)) u"

definition handleSendCompletion :: "GoWorkCompletion \<Rightarrow> UDQueue \<Rightarrow> UDQueue go" where
  "handleSendCompletion gwc u = go_bind (nb_send (uq_sendCompChan u) gwc) (\<lambda>ch. Ret (u\<lparr>uq_sendCompChan := ch\<rparr>))"

definition ack_grh :: "hdr_parsers \<Rightarrow> GoWorkCompletion \<Rightarrow> byte list \<Rightarrow> (string \<times> string \<times> u32) go" where
  "ack_grh h gwc buf =
     (if wc_GRH gwc \<and> GRHSize \<le> unat (wc_ByteLen gwc) then
        let grhBytes = take GRHSize buf; ipVersion = and (drop_bit 4 (grhBytes ! 0)) 0x0f in
        if ipVersion = 6 then
          Ret (case parseIPv6GRHFromBytes h grhBytes of Inr x \<Rightarrow> x | Inl _ \<Rightarrow> ('''', '''', 0))
        else if ipVersion = 4 then
          go_bind (parseIPv4GRHFromBytes h grhBytes) (\<lambda>r. Ret (case r of Inr (s, d) \<Rightarrow> (s, d, 0) | Inl _ \<Rightarrow> ('''', '''', 0)))
        else Ret ('''', '''', 0)
      else Ret ('''', '''', 0))"

text \<open>The ACK handler of the queue runs on the poller's goroutine. What a call of it does is given by its
  outcome, as a function of the queue at the call (its log of earlier calls included) and of the ACK
  handed over: it returns, or it panics. The agent's handler is the prober's
  HandleIncomingRDMAPacket, which can panic (theory Prober_Runs).\<close>

type_synonym ack_call = "UDQueue \<Rightarrow> IncomingAckInfo \<Rightarrow> unit go"

text \<open>handleRecvCompletion: True when an ACK was handled and its slot already reposted. The
  defensive branches after the packet pointer is known to be set are unreachable and left
  out.\<close>

definition handleRecvCompletion :: "post_ret \<Rightarrow> ack_call \<Rightarrow> hdr_parsers \<Rightarrow> GoWorkCompletion \<Rightarrow> UDQueue \<Rightarrow> (bool \<times> UDQueue) go" where
  "handleRecvCompletion pr ak h gwc u =
     (let slot = slot_of gwc in
      if \<not> valid_slot u slot then go_bind (PostRecv pr u) (\<lambda>(_, u1). Ret (False, u1))
      else
        let buf = uq_recv_mem u (nat slot);
            currentExpectedMinLength = (if wc_GRH gwc then GRHSize + sizeof_ProbePacket else sizeof_ProbePacket) in
        if unat (wc_ByteLen gwc) < currentExpectedMinLength then Ret (False, snd (PostRecvSlot pr slot u))
        else
          let probePkt = read_packet (if wc_GRH gwc then drop GRHSize buf else buf) in
          if uq_QueueType u = UDQueueTypeSender \<and> uq_has_handler u \<and> pp_IsAck probePkt = 1 then
            go_bind (ack_grh h gwc buf) (\<lambda>(sgid, dgid, flowLabel).
              let ackInfo = \<lparr>ai_Packet = probePkt, ai_ReceivedAt = unix_ns (wc_WallclockNS gwc),
                    ai_ProcessedWC = \<lparr>pw_WC = gwc, pw_SGID = sgid, pw_DGID = dgid, pw_FlowLabel = flowLabel\<rparr>,
                    ai_AckStatusOK = (wc_Status gwc = IBV_WC_SUCCESS)\<rparr>;
                  u1 = u\<lparr>uq_delivered := uq_delivered u @ [ackInfo]\<rparr> in
              go_bind (ak u ackInfo) (\<lambda>_. Ret (True, snd (PostRecvSlot pr slot u1))))
          else go_bind (nb_send (uq_recvCompChan u) gwc) (\<lambda>ch. Ret (False, u\<lparr>uq_recvCompChan := ch\<rparr>)))"

definition processSingleWC :: "post_ret \<Rightarrow> ack_call \<Rightarrow> hdr_parsers \<Rightarrow> GoWorkCompletion \<Rightarrow> UDQueue \<Rightarrow> UDQueue go" where
  "processSingleWC pr ak h gwc u =
     (if wc_Status gwc \<noteq> IBV_WC_SUCCESS then handleWCError gwc u
      else case wc_Opcode gwc of
        WC_RECV \<Rightarrow> go_bind (handleRecvCompletion pr ak h gwc u) (\<lambda>(ackHandled, u1).
          if ackHandled then Ret u1
          else go_bind (repost pr (slot_of gwc) u1) (\<lambda>(r, u2).
            case r of Inl errPost \<Rightarrow> send_err (''CQ Poller: Failed to repost receive buffer: '' @ errPost) u2
            | Inr _ \<Rightarrow> Ret u2))
      | WC_SEND \<Rightarrow> handleSendCompletion gwc u
      | WC_OTHER _ \<Rightarrow> Ret u)"

datatype next_poll = NextWC GoWorkCompletion | NextEnoent | NextErr int

fun next_polls :: "post_ret \<Rightarrow> ack_call \<Rightarrow> hdr_parsers \<Rightarrow> next_poll list \<Rightarrow> UDQueue \<Rightarrow> UDQueue go" where
  "next_polls pr ak h [] u = Ret u"
| "next_polls pr ak h (NextEnoent # ps) u = Ret u"
| "next_polls pr ak h (NextErr ret # ps) u = send_err (''CQ Poller: ibv_next_poll failed, Ret: '' @ dec_int ret) u"
| "next_polls pr ak h (NextWC gwc # ps) u = go_bind (processSingleWC pr ak h gwc u) (next_polls pr ak h ps)"

definition processCQCompletions :: "post_ret \<Rightarrow> ack_call \<Rightarrow> hdr_parsers \<Rightarrow> GoWorkCompletion \<Rightarrow> next_poll list \<Rightarrow> UDQueue \<Rightarrow> UDQueue go" where
  "processCQCompletions pr ak h gwc ps u = go_bind (processSingleWC pr ak h gwc u) (next_polls pr ak h ps)"

subsection \<open>The poller\<close>

text \<open>One round of the poller's loop: the done signal, a failed wait for an event (during
  shutdown or not), an event without a CQ or for another CQ, or an event for this CQ with
  the outcome of re-arming and of ibv_start_poll.\<close>

datatype start_poll = StartOk GoWorkCompletion "next_poll list" | StartEnoent | StartErr int

datatype poll_round = PollDone | PollEventFailed bool string | PollNoCQ | PollOtherCQ | PollEvent "string option" start_poll

text \<open>The result says whether the loop goes on.\<close>

definition poll_step :: "post_ret \<Rightarrow> ack_call \<Rightarrow> hdr_parsers \<Rightarrow> poll_round \<Rightarrow> UDQueue \<Rightarrow> (bool \<times> UDQueue) go" where
  "poll_step pr ak h r u =
     (case r of
        PollDone \<Rightarrow> Ret (False, u)
      | PollEventFailed stopping e \<Rightarrow>
          if stopping then Ret (False, u)
          else go_bind (send_err (''ibv_get_cq_event failed: '' @ e) u) (\<lambda>u1. Ret (False, u1))
      | PollNoCQ \<Rightarrow> Ret (True, u)
      | PollOtherCQ \<Rightarrow> Ret (True, u)
      | PollEvent rearm_err sp \<Rightarrow>
          go_bind (case rearm_err of None \<Rightarrow> Ret u
                   | Some e \<Rightarrow> send_err (''CQ Poller: Failed to re-request CQ notification: '' @ e) u) (\<lambda>u1.
          go_bind (case sp of
              StartOk gwc ps \<Rightarrow> processCQCompletions pr ak h gwc ps u1
            | StartEnoent \<Rightarrow> Ret u1
            | StartErr ret \<Rightarrow> send_err (''CQ Poller: ibv_start_poll failed, Ret: '' @ dec_int ret) u1)
          (\<lambda>u2. Ret (True, u2))))"

fun poll_loop :: "post_ret \<Rightarrow> ack_call \<Rightarrow> hdr_parsers \<Rightarrow> poll_round list \<Rightarrow> UDQueue \<Rightarrow> (bool \<times> UDQueue) go" where
  "poll_loop pr ak h [] u = Ret (True, u)"
| "poll_loop pr ak h (r # rs) u =
     go_bind (poll_step pr ak h r u) (\<lambda>(goes_on, u1). if goes_on then poll_loop pr ak h rs u1 else Ret (False, u1))"

text \<open>The goroutine: its three checks before the loop, then the loop. The flag returned is
  whether it is still running after the rounds given.\<close>

record poller_start =
  ps_has_channel :: bool
  ps_base_cq :: bool
  ps_notify_err :: "string option"

definition cq_poller :: "post_ret \<Rightarrow> ack_call \<Rightarrow> hdr_parsers \<Rightarrow> poller_start \<Rightarrow> poll_round list \<Rightarrow> UDQueue \<Rightarrow> (bool \<times> UDQueue) go" where
  "cq_poller pr ak h s rs u =
     (if \<not> ps_has_channel s then go_bind (send_err ''CQ Poller: Completion channel is nil'' u) (\<lambda>u1. Ret (False, u1))
      else if \<not> ps_base_cq s then go_bind (send_err ''CQ Poller: Failed to get base CQ from extended CQ'' u) (\<lambda>u1. Ret (False, u1))
      else case ps_notify_err s of
        Some e \<Rightarrow> go_bind (send_err (''CQ Poller: Failed to request initial CQ notification: '' @ e) u) (\<lambda>u1. Ret (False, u1))
      | None \<Rightarrow> poll_loop pr ak h rs u)"

subsection \<open>Slots are handed out in turn\<close>

text \<open>What a call that returns gives, and a default otherwise.\<close>

definition next_send_slot :: "UDQueue \<Rightarrow> nat \<times> UDQueue" where
  "next_send_slot u = (case GetNextSendSlot u of Ret x \<Rightarrow> x | Panic _ \<Rightarrow> (0, u))"

interpretation send_rr: round_robin next_send_slot uq_NextSendSlot uq_NumSendSlots "\<lambda>u. 0 < uq_NumSendSlots u"
  by unfold_locales (simp_all add: next_send_slot_def GetNextSendSlot_def)

text \<open>Consecutive sends use the send slots in turn: as many sends as there are slots use
  every slot exactly once, from wherever the cursor stands, so a send buffer is
  overwritten only after all others have been used.\<close>

theorem send_slots_one_round:
  assumes "0 < uq_NumSendSlots u"
  shows "GetNextSendSlot u = Ret (next_send_slot u) \<and> distinct (iter_next next_send_slot (uq_NumSendSlots u) u)
       \<and> set (iter_next next_send_slot (uq_NumSendSlots u) u) = {..<uq_NumSendSlots u}"
  using send_rr.one_round[OF assms] assms by (auto simp: next_send_slot_def GetNextSendSlot_def)

subsection \<open>Posting receive slots\<close>

lemma PostRecvSlot_valid:
  "valid_slot u slot \<Longrightarrow> pr u (nat slot) = 0 \<Longrightarrow> PostRecvSlot pr slot u = (Inr (), u\<lparr>uq_posted := uq_posted u @ [nat slot]\<rparr>)"
  by (simp add: PostRecvSlot_def valid_slot_def)

lemma PostRecvSlot_frame:
  "\<exists>ps. snd (PostRecvSlot pr slot u) = u\<lparr>uq_posted := ps\<rparr>"
  by (cases "slot < 0 \<or> slot \<ge> int (uq_NumRecvSlots u)"; cases "pr u (nat slot) = 0")
    (auto simp: PostRecvSlot_def Let_def intro: exI[of _ "uq_posted u"])

lemma PostRecv_frame:
  assumes "0 < uq_NumRecvSlots u"
  shows "\<exists>r ps n. PostRecv pr u = Ret (r, u\<lparr>uq_NextRecvSlot := n, uq_posted := ps\<rparr>)"
proof -
  let ?u = "u\<lparr>uq_NextRecvSlot := Suc (uq_NextRecvSlot u)\<rparr>" and ?s = "int (uq_NextRecvSlot u mod uq_NumRecvSlots u)"
  obtain ps where "snd (PostRecvSlot pr ?s ?u) = ?u\<lparr>uq_posted := ps\<rparr>" using PostRecvSlot_frame by blast
  then have "PostRecvSlot pr ?s ?u = (fst (PostRecvSlot pr ?s ?u), ?u\<lparr>uq_posted := ps\<rparr>)" by (simp add: prod_eq_iff)
  with assms show ?thesis
    by (intro exI[of _ "fst (PostRecvSlot pr ?s ?u)"] exI[of _ ps] exI[of _ "Suc (uq_NextRecvSlot u)"]) (simp add: PostRecv_def Let_def)
qed

lemma valid_slot_pos: "valid_slot u slot \<Longrightarrow> 0 < uq_NumRecvSlots u"
  by (cases "uq_NumRecvSlots u") (auto simp: valid_slot_def)

lemma repost_frame:
  assumes "0 < uq_NumRecvSlots u"
  shows "\<exists>r ps n. repost pr slot u = Ret (r, u\<lparr>uq_NextRecvSlot := n, uq_posted := ps\<rparr>)"
proof (cases "valid_slot u slot")
  case True
  obtain ps where "snd (PostRecvSlot pr slot u) = u\<lparr>uq_posted := ps\<rparr>" using PostRecvSlot_frame by blast
  with True show ?thesis
    by (intro exI[of _ "fst (PostRecvSlot pr slot u)"] exI[of _ ps] exI[of _ "uq_NextRecvSlot u"]) (simp add: repost_def prod_eq_iff)
next
  case False
  then show ?thesis using PostRecv_frame[OF assms, of pr] by (simp add: repost_def)
qed

subsection \<open>What a receive completion does\<close>

definition too_small :: "GoWorkCompletion \<Rightarrow> bool" where
  "too_small gwc \<longleftrightarrow> unat (wc_ByteLen gwc) < (if wc_GRH gwc then 80 else 40)"

definition packet_in :: "GoWorkCompletion \<Rightarrow> UDQueue \<Rightarrow> ProbePacket" where
  "packet_in gwc u = read_packet (if wc_GRH gwc then drop 40 (uq_recv_mem u (nat (slot_of gwc))) else uq_recv_mem u (nat (slot_of gwc)))"

definition is_ack_for :: "GoWorkCompletion \<Rightarrow> UDQueue \<Rightarrow> bool" where
  "is_ack_for gwc u \<longleftrightarrow> uq_QueueType u = UDQueueTypeSender \<and> uq_has_handler u \<and> pp_IsAck (packet_in gwc u) = 1"

text \<open>There are receive slots, their buffers have room for a route header, and the channels are open.\<close>

definition queue_ok :: "UDQueue \<Rightarrow> bool" where
  "queue_ok u \<longleftrightarrow> \<not> ch_closed (uq_sendCompChan u) \<and> \<not> ch_closed (uq_recvCompChan u) \<and> \<not> ch_closed (uq_errChan u)
     \<and> length (ch_buf (uq_sendCompChan u)) \<le> ch_cap (uq_sendCompChan u)
     \<and> length (ch_buf (uq_recvCompChan u)) \<le> ch_cap (uq_recvCompChan u)
     \<and> length (ch_buf (uq_errChan u)) \<le> ch_cap (uq_errChan u)
     \<and> 0 < uq_NumRecvSlots u \<and> (\<forall>s. GRHSize \<le> length (uq_recv_mem u s))"

lemma ack_grh_returns: "GRHSize \<le> length buf \<Longrightarrow> \<exists>x. ack_grh h gwc buf = Ret x"
  unfolding not_panics_iff[symmetric]
  by (simp add: ack_grh_def parseIPv4GRHFromBytes_def GRHSize_def Let_def)

lemma handleRecv_ack:
  assumes "valid_slot u (slot_of gwc)" and "\<not> too_small gwc" and "is_ack_for gwc u"
    and "GRHSize \<le> length (uq_recv_mem u (nat (slot_of gwc)))"
  shows "\<exists>ai. handleRecvCompletion pr ak h gwc u =
      go_bind (ak u ai) (\<lambda>_. Ret (True, snd (PostRecvSlot pr (slot_of gwc) (u\<lparr>uq_delivered := uq_delivered u @ [ai]\<rparr>))))
    \<and> ai_Packet ai = packet_in gwc u \<and> ai_ReceivedAt ai = unix_ns (wc_WallclockNS gwc)"
proof -
  obtain s d f where "ack_grh h gwc (uq_recv_mem u (nat (slot_of gwc))) = Ret (s, d, f)"
    using ack_grh_returns[OF assms(4)] by (metis prod_cases3)
  with assms show ?thesis
    by (auto simp: handleRecvCompletion_def too_small_def is_ack_for_def packet_in_def GRHSize_def sizeof_ProbePacket_def Let_def)
qed

lemma handleRecv_other:
  assumes "valid_slot u (slot_of gwc)" and "\<not> too_small gwc" and "\<not> is_ack_for gwc u" and "\<not> ch_closed (uq_recvCompChan u)"
  shows "handleRecvCompletion pr ak h gwc u = Ret (False, u\<lparr>uq_recvCompChan :=
      (if length (ch_buf (uq_recvCompChan u)) < ch_cap (uq_recvCompChan u)
       then (uq_recvCompChan u)\<lparr>ch_buf := ch_buf (uq_recvCompChan u) @ [gwc]\<rparr> else uq_recvCompChan u)\<rparr>)"
  using assms
  by (auto simp: handleRecvCompletion_def too_small_def is_ack_for_def packet_in_def GRHSize_def sizeof_ProbePacket_def Let_def chan_simps)

lemma handleRecv_small:
  "valid_slot u (slot_of gwc) \<Longrightarrow> too_small gwc \<Longrightarrow>
     handleRecvCompletion pr ak h gwc u = Ret (False, snd (PostRecvSlot pr (slot_of gwc) u))"
  by (auto simp: handleRecvCompletion_def too_small_def GRHSize_def sizeof_ProbePacket_def Let_def)

lemma handleRecv_invalid:
  "\<not> valid_slot u (slot_of gwc) \<Longrightarrow> handleRecvCompletion pr ak h gwc u = go_bind (PostRecv pr u) (\<lambda>(_, u1). Ret (False, u1))"
  by (simp add: handleRecvCompletion_def Let_def)

text \<open>C18: an ACK that arrives on a sender queue with a handler goes to the handler once,
  with the packet that lies in the completion's slot and the hardware's time stamp; it
  does not reach the receive channel, and its slot is posted again exactly once, after the handler
  has returned. A panic of the handler is a panic of the poller.\<close>

theorem ack_completion_delivered_once:
  assumes "wc_Status gwc = IBV_WC_SUCCESS" and "wc_Opcode gwc = WC_RECV" and "valid_slot u (slot_of gwc)"
    and "\<not> too_small gwc" and "is_ack_for gwc u" and "queue_ok u" and "\<forall>v s. pr v s = 0"
  shows "\<exists>u' ai. processSingleWC pr ak h gwc u = go_bind (ak u ai) (\<lambda>_. Ret u') \<and> uq_delivered u' = uq_delivered u @ [ai]
     \<and> ai_Packet ai = packet_in gwc u \<and> ai_ReceivedAt ai = unix_ns (wc_WallclockNS gwc)
     \<and> uq_recvCompChan u' = uq_recvCompChan u \<and> uq_posted u' = uq_posted u @ [nat (slot_of gwc)]"
proof -
  have "GRHSize \<le> length (uq_recv_mem u (nat (slot_of gwc)))" using assms(6) by (simp add: queue_ok_def)
  from handleRecv_ack[OF assms(3,4,5) this, of pr ak h] obtain ai where
    ai: "handleRecvCompletion pr ak h gwc u =
      go_bind (ak u ai) (\<lambda>_. Ret (True, snd (PostRecvSlot pr (slot_of gwc) (u\<lparr>uq_delivered := uq_delivered u @ [ai]\<rparr>))))"
    "ai_Packet ai = packet_in gwc u" "ai_ReceivedAt ai = unix_ns (wc_WallclockNS gwc)" by blast
  let ?u = "u\<lparr>uq_delivered := uq_delivered u @ [ai], uq_posted := uq_posted u @ [nat (slot_of gwc)]\<rparr>"
  have "snd (PostRecvSlot pr (slot_of gwc) (u\<lparr>uq_delivered := uq_delivered u @ [ai]\<rparr>)) = ?u"
    using assms(3,7) by (simp add: PostRecvSlot_valid valid_slot_def)
  then have "processSingleWC pr ak h gwc u = go_bind (ak u ai) (\<lambda>_. Ret ?u)"
    using ai(1) assms(1,2) by (cases "ak u ai") (simp_all add: processSingleWC_def)
  with ai(2,3) show ?thesis by (intro exI[of _ ?u] exI[of _ ai]) simp
qed

text \<open>A packet that is not an ACK is posted back twice. When its slot has been consumed
  by the hardware, the poller posts the slot again after queueing the completion, and
  ReceivePacket posts it once more after reading the packet, so the slot is in the receive
  queue twice, and two later packets can be written to the same buffer.\<close>

theorem probe_slot_posted_twice:
  assumes "wc_Status gwc = IBV_WC_SUCCESS" and "wc_Opcode gwc = WC_RECV" and "valid_slot u (slot_of gwc)"
    and "\<not> too_small gwc" and "\<not> is_ack_for gwc u" and "queue_ok u" and "\<forall>v s. pr v s = 0"
    and "ch_buf (uq_recvCompChan u) = []" and "0 < ch_cap (uq_recvCompChan u)"
    and "parseGRH h gwc (uq_recv_mem u (nat (slot_of gwc))) = Inr (sg, dg, fl, payload, n)"
  shows "\<exists>u1 r u2. processSingleWC pr ak h gwc u = Ret u1 \<and> ReceivePacket pr h RSelComp u1 = Some (Ret (r, u2))
     \<and> uq_posted u2 = uq_posted u @ [nat (slot_of gwc), nat (slot_of gwc)]"
proof -
  define s where "s = slot_of gwc"
  note vs = assms(3)[folded s_def]
  have "processSingleWC pr ak h gwc u = Ret (u\<lparr>uq_recvCompChan := (uq_recvCompChan u)\<lparr>ch_buf := [gwc]\<rparr>, uq_posted := uq_posted u @ [nat s]\<rparr>)"
    (is "_ = Ret ?u1")
    using assms(1,2,6-9) vs handleRecv_other[OF assms(3-5), of pr ak h]
    by (simp add: processSingleWC_def repost_def PostRecvSlot_valid valid_slot_def queue_ok_def s_def[symmetric])
  moreover have "\<exists>r u2. ReceivePacket pr h RSelComp ?u1 = Some (Ret (r, u2)) \<and> uq_posted u2 = uq_posted u @ [nat s, nat s]"
    using assms(7,10) vs
    by (auto simp: ReceivePacket_def chan_recv_def receive_completion_def slot_buffer_def repost_def PostRecvSlot_valid
        valid_slot_def s_def[symmetric] Let_def split: sum.splits)
  ultimately show ?thesis unfolding s_def by blast
qed

subsection \<open>The poller keeps the queue in order\<close>

text \<open>An operation of the poller leaves the queue in order, or a call of the ACK handler has panicked.\<close>

definition ack_panics :: "ack_call \<Rightarrow> string \<Rightarrow> bool" where
  "ack_panics ak m \<longleftrightarrow> (\<exists>u ai. ak u ai = Panic m)"

definition keeps_queue :: "ack_call \<Rightarrow> ('a \<times> UDQueue) go \<Rightarrow> bool" where
  "keeps_queue ak g = (case g of Ret (_, u) \<Rightarrow> queue_ok u | Panic m \<Rightarrow> ack_panics ak m)"

definition queue_keeps :: "ack_call \<Rightarrow> UDQueue go \<Rightarrow> bool" where
  "queue_keeps ak g = (case g of Ret u \<Rightarrow> queue_ok u | Panic m \<Rightarrow> ack_panics ak m)"

lemma queue_keeps_simps [simp]:
  "queue_keeps ak (Ret u) = queue_ok u" "queue_keeps ak (Panic m) = ack_panics ak m"
  "keeps_queue ak (Ret (x, u)) = queue_ok u" "keeps_queue ak (Panic m) = ack_panics ak m"
  by (simp_all add: queue_keeps_def keeps_queue_def)

lemma queue_keeps_bind: "queue_keeps ak g \<Longrightarrow> (\<And>u. queue_ok u \<Longrightarrow> queue_keeps ak (f u)) \<Longrightarrow> queue_keeps ak (go_bind g f)"
  by (cases g) auto

lemma queue_keeps_bind2: "queue_keeps ak g \<Longrightarrow> (\<And>u. queue_ok u \<Longrightarrow> keeps_queue ak (f u)) \<Longrightarrow> keeps_queue ak (go_bind g f)"
  by (cases g) auto

lemma keeps_queue_bind: "keeps_queue ak g \<Longrightarrow> (\<And>x u. queue_ok u \<Longrightarrow> queue_keeps ak (f (x, u))) \<Longrightarrow> queue_keeps ak (go_bind g f)"
  by (cases g) auto

lemma keeps_queue_bind2: "keeps_queue ak g \<Longrightarrow> (\<And>x u. queue_ok u \<Longrightarrow> keeps_queue ak (f (x, u))) \<Longrightarrow> keeps_queue ak (go_bind g f)"
  by (cases g) auto

lemma queue_ok_frame [simp]:
  "queue_ok (u\<lparr>uq_posted := ps\<rparr>) = queue_ok u" "queue_ok (u\<lparr>uq_NextRecvSlot := n\<rparr>) = queue_ok u"
  "queue_ok (u\<lparr>uq_delivered := ds\<rparr>) = queue_ok u"
  by (simp_all add: queue_ok_def)

lemma queue_ok_slots: "queue_ok u \<Longrightarrow> 0 < uq_NumRecvSlots u"
  by (simp add: queue_ok_def)

lemma queue_ok_PostRecvSlot [simp]: "queue_ok (snd (PostRecvSlot pr slot u)) = queue_ok u"
proof -
  obtain ps where "snd (PostRecvSlot pr slot u) = u\<lparr>uq_posted := ps\<rparr>" using PostRecvSlot_frame by blast
  then show ?thesis by simp
qed

lemma posts_keep:
  assumes "queue_ok u"
  shows "keeps_queue ak (PostRecv pr u)" "keeps_queue ak (repost pr slot u)"
proof -
  note n = queue_ok_slots[OF assms]
  from PostRecv_frame[OF n, of pr] assms show "keeps_queue ak (PostRecv pr u)" by auto
  from repost_frame[OF n, of pr slot] assms show "keeps_queue ak (repost pr slot u)" by auto
qed

lemma send_err_ok: "queue_ok u \<Longrightarrow> \<exists>u'. send_err e u = Ret u' \<and> queue_ok u'"
  by (auto simp: send_err_def nb_send_def queue_ok_def)

lemma send_err_keeps: "queue_ok u \<Longrightarrow> queue_keeps ak (send_err e u)"
  using send_err_ok[of u e] by auto

lemma handleSendCompletion_keeps: "queue_ok u \<Longrightarrow> queue_keeps ak (handleSendCompletion gwc u)"
  by (auto simp: handleSendCompletion_def nb_send_def queue_ok_def)

lemma handleRecvCompletion_keeps:
  assumes "queue_ok u"
  shows "keeps_queue ak (handleRecvCompletion pr ak h gwc u)"
proof -
  have m: "GRHSize \<le> length (uq_recv_mem u (nat (slot_of gwc)))" and c: "\<not> ch_closed (uq_recvCompChan u)"
    using assms by (simp_all add: queue_ok_def)
  consider "\<not> valid_slot u (slot_of gwc)" | "valid_slot u (slot_of gwc)" "too_small gwc"
    | "valid_slot u (slot_of gwc)" "\<not> too_small gwc" "is_ack_for gwc u"
    | "valid_slot u (slot_of gwc)" "\<not> too_small gwc" "\<not> is_ack_for gwc u" by blast
  then show ?thesis
  proof cases
    case 1
    then show ?thesis unfolding handleRecv_invalid[OF 1] using assms by (intro keeps_queue_bind2[OF posts_keep(1)]) auto
  next
    case 3
    from handleRecv_ack[OF 3 m, of pr ak h] obtain ai where "handleRecvCompletion pr ak h gwc u =
      go_bind (ak u ai) (\<lambda>_. Ret (True, snd (PostRecvSlot pr (slot_of gwc) (u\<lparr>uq_delivered := uq_delivered u @ [ai]\<rparr>))))" by blast
    with assms show ?thesis by (cases "ak u ai") (auto simp: ack_panics_def)
  next
    case 4
    with assms handleRecv_other[OF 4 c, of pr ak h] show ?thesis by (auto simp: queue_ok_def)
  qed (use assms in \<open>auto simp: handleRecv_small\<close>)
qed

lemma processSingleWC_keeps:
  assumes "queue_ok u"
  shows "queue_keeps ak (processSingleWC pr ak h gwc u)"
proof -
  have "queue_keeps ak (if b then Ret u1 else go_bind (repost pr (slot_of gwc) u1) (\<lambda>(r, u2).
      case r of Inl e \<Rightarrow> send_err (''CQ Poller: Failed to repost receive buffer: '' @ e) u2 | Inr _ \<Rightarrow> Ret u2))" if "queue_ok u1" for b u1
    using that by (auto intro!: keeps_queue_bind[OF posts_keep(2)] simp: send_err_keeps split: sum.split)
  then have "queue_keeps ak (go_bind (handleRecvCompletion pr ak h gwc u) (\<lambda>(b, u1).
      if b then Ret u1 else go_bind (repost pr (slot_of gwc) u1) (\<lambda>(r, u2).
      case r of Inl e \<Rightarrow> send_err (''CQ Poller: Failed to repost receive buffer: '' @ e) u2 | Inr _ \<Rightarrow> Ret u2)))"
    by (intro keeps_queue_bind[OF handleRecvCompletion_keeps[OF assms]]) simp
  with assms show ?thesis
    by (auto simp: processSingleWC_def handleWCError_def send_err_keeps handleSendCompletion_keeps split: wc_opcode.split)
qed

lemma next_polls_keeps: "queue_ok u \<Longrightarrow> queue_keeps ak (next_polls pr ak h ps u)"
  by (induction pr ak h ps u rule: next_polls.induct) (auto simp: send_err_keeps intro!: queue_keeps_bind processSingleWC_keeps)

lemma poll_step_keeps:
  assumes "queue_ok u"
  shows "keeps_queue ak (poll_step pr ak h r u)"
proof (cases r)
  case (PollEvent re sp)
  show ?thesis unfolding PollEvent poll_step_def poll_round.case
  proof (intro queue_keeps_bind2)
    show "queue_keeps ak (case re of None \<Rightarrow> Ret u
        | Some e \<Rightarrow> send_err (''CQ Poller: Failed to re-request CQ notification: '' @ e) u)"
      using assms by (auto simp: send_err_keeps split: option.split)
    fix u1 assume "queue_ok u1"
    then show "queue_keeps ak (case sp of StartOk gwc ps \<Rightarrow> processCQCompletions pr ak h gwc ps u1 | StartEnoent \<Rightarrow> Ret u1
        | StartErr ret \<Rightarrow> send_err (''CQ Poller: ibv_start_poll failed, Ret: '' @ dec_int ret) u1)"
      by (auto simp: send_err_keeps processCQCompletions_def split: start_poll.split
          intro!: queue_keeps_bind processSingleWC_keeps next_polls_keeps)
  qed simp
qed (use assms in \<open>auto simp: poll_step_def intro!: queue_keeps_bind2 send_err_keeps\<close>)

lemma poll_loop_keeps: "queue_ok u \<Longrightarrow> keeps_queue ak (poll_loop pr ak h rs u)"
  by (induction rs arbitrary: u) (auto intro!: keeps_queue_bind2 poll_step_keeps)

text \<open>C19: whatever the hardware reports, in any order and with any failures, after any sequence of
  rounds either the queue is again in order, with its channels open and within their
  capacities, or the poller has panicked, and then with the panic of a call of the ACK handler,
  which runs on the poller's goroutine: the poller adds no panic of its own. With a handler that
  always returns the poller never panics. (The prober's handler can panic: a late ACK
  finds the channel of its session closed.)\<close>

theorem cq_poller_safe:
  assumes "queue_ok u"
  shows "(\<exists>running u'. cq_poller pr ak h s rounds u = Ret (running, u') \<and> queue_ok u')
     \<or> (\<exists>m v ai. cq_poller pr ak h s rounds u = Panic m \<and> ak v ai = Panic m)"
proof -
  have "keeps_queue ak (cq_poller pr ak h s rounds u)"
    using assms by (auto simp: cq_poller_def poll_loop_keeps split: option.split intro!: queue_keeps_bind2 send_err_keeps)
  then show ?thesis by (cases "cq_poller pr ak h s rounds u") (auto simp: ack_panics_def)
qed

subsection \<open>Sends\<close>

lemma post_packet_ok:
  assumes "post_packet e gid qpn fl p u = Ret (Inr x, u')"
  shows "\<exists>ip ws. ParseIP gid = Some ip \<and> To16 ip = Some (ah_dgid (ws_ah ws)) \<and> ah_flow_label (ws_ah ws) = fl
     \<and> ws_qpn ws = qpn \<and> ws_bytes ws = packet_bytes p
     \<and> ws_wrid ws = of_nat (uq_NextSendSlot u mod uq_NumSendSlots u + uq_NumRecvSlots u)
     \<and> uq_sent u' = uq_sent u @ [ws] \<and> uq_sendCompChan u' = uq_sendCompChan u \<and> uq_errChan u' = uq_errChan u"
  using assms
  by (auto simp: post_packet_def CreateAddressHandle_def GetNextSendSlot_def go_bind_eq_Ret Let_def
      split: sum.splits option.splits if_splits)

lemma post_packet_chans:
  "post_packet e gid qpn fl p u = Ret (r, u') \<Longrightarrow>
     uq_sendCompChan u' = uq_sendCompChan u \<and> uq_errChan u' = uq_errChan u \<and> uq_NumSendSlots u' = uq_NumSendSlots u"
  by (auto simp: post_packet_def GetNextSendSlot_def go_bind_eq_Ret Let_def split: sum.splits if_splits)

lemma send_all_nb_send: "send_all nb_send c xs = Ret c' \<Longrightarrow> ch_buf c' = ch_buf c @ take (ch_cap c - length (ch_buf c)) xs"
proof (induction xs arbitrary: c)
  case (Cons x xs)
  then show ?case
    by (cases "length (ch_buf c) < ch_cap c") (auto simp: nb_send_def take_Cons' split: if_splits)
qed simp

lemma await_send_ok:
  "await_send fm em arr sel u = Some (Ret (Inr t, u')) \<longleftrightarrow>
     (\<exists>ch wc rest. sel = SelComp \<and> send_all nb_send (uq_sendCompChan u) arr = Ret ch \<and> ch_buf ch = wc # rest \<and> wc_Status wc = IBV_WC_SUCCESS
        \<and> t = unix_ns (wc_WallclockNS wc) \<and> u' = u\<lparr>uq_sendCompChan := ch\<lparr>ch_buf := rest\<rparr>\<rparr>)"
  by (auto simp: await_send_def chan_recv_def Let_def split: select_choice.splits list.splits recv.splits if_splits go.splits)

lemma await_send_oldest:
  assumes "await_send fm em arr sel u = Some (Ret (Inr t, u'))"
  shows "\<exists>wc rest. ch_buf (uq_sendCompChan u) @ arr = wc # rest \<and> t = unix_ns (wc_WallclockNS wc) \<and> uq_sent u' = uq_sent u"
proof -
  obtain ch wc rest where c: "send_all nb_send (uq_sendCompChan u) arr = Ret ch" "ch_buf ch = wc # rest" "t = unix_ns (wc_WallclockNS wc)" "uq_sent u' = uq_sent u"
    using assms by (auto simp: await_send_ok)
  from send_all_nb_send[OF c(1)] c(2-4) show ?thesis
    by (cases "ch_buf (uq_sendCompChan u)"; cases arr) (auto simp: take_Cons' split: if_splits)
qed

text \<open>C21: a probe that SendProbePacket reports as sent has gone out as exactly one work
  request, to the address the target GID parses to, with the target's QP number and flow
  label; its bytes decode to the sequence number and the send time T1, and T1 is the time
  returned. T2 is the time stamp of the oldest completion in the channel when the
  sender gets to read it, queued before the send or while it waits.\<close>

theorem SendProbePacket_sent:
  assumes "SendProbePacket e sel gid qpn seq fl u = Some (Ret (Inr (t1, t2), u'))"
  shows "t1 = se_now e \<and> (\<exists>ip ws. ParseIP gid = Some ip \<and> To16 ip = Some (ah_dgid (ws_ah ws)) \<and> ah_flow_label (ws_ah ws) = fl
       \<and> ws_qpn ws = qpn \<and> uq_sent u' = uq_sent u @ [ws]
       \<and> read_packet (ws_bytes ws) = \<lparr>pp_SequenceNum = seq, pp_T1 = unix_nano_u64 t1, pp_T3 = 0, pp_T4 = 0, pp_IsAck = 0,
            pp_AckType = 0, pp_Flags = 0\<rparr>)
     \<and> (\<exists>wc rest. ch_buf (uq_sendCompChan u) @ se_arrivals e = wc # rest \<and> t2 = unix_ns (wc_WallclockNS wc))"
proof -
  let ?p = "\<lparr>pp_SequenceNum = seq, pp_T1 = unix_nano_u64 (se_now e), pp_T3 = 0, pp_T4 = 0, pp_IsAck = 0, pp_AckType = 0, pp_Flags = 0\<rparr>"
  obtain x u1 where p: "post_packet e gid qpn fl ?p u = Ret (Inr x, u1)"
    and a: "await_send ''send completion failed: '' ''error during send: '' (se_arrivals e) sel u1 = Some (Ret (Inr t2, u'))" and "t1 = se_now e"
    using assms by (auto simp: SendProbePacket_def split: sum.splits prod.splits option.splits go.splits)
  from post_packet_ok[OF p] await_send_oldest[OF a] \<open>t1 = se_now e\<close> read_packet_bytes[of ?p "[]"]
  show ?thesis by fastforce
qed

text \<open>A completion that arrives after its sender has given up is credited to the next
  probe. When a probe times out, its completion is queued later, and another probe is then
  reported as sent, the T2 of the second probe is the time stamp of the first probe's
  completion: the WRID of a completion is never compared with the one that was posted.\<close>

theorem late_completion_credited_to_next_probe:
  assumes "ch_buf (uq_sendCompChan u) = []" and "queue_ok u" and "0 < ch_cap (uq_sendCompChan u)"
    and "se_arrivals e1 = []" and "SendProbePacket e1 (SelTimeout m) gid1 qpn1 seq1 fl1 u = Some (Ret (Inl m, u1))"
    and "handleSendCompletion late u1 = Ret u2"
    and "SendProbePacket e2 sel gid2 qpn2 seq2 fl2 u2 = Some (Ret (Inr (t1, t2), u3))"
  shows "t2 = unix_ns (wc_WallclockNS late)"
proof -
  have "uq_sendCompChan u1 = uq_sendCompChan u"
    using assms(4,5) by (auto simp: SendProbePacket_def await_send_def dest: post_packet_chans
        split: sum.splits prod.splits option.splits go.splits)
  then have "ch_buf (uq_sendCompChan u2) = [late]"
    using assms(1-3,6) by (auto simp: handleSendCompletion_def nb_send_def queue_ok_def)
  moreover obtain u4 where "uq_sendCompChan u4 = uq_sendCompChan u2"
    "await_send ''send completion failed: '' ''error during send: '' (se_arrivals e2) sel u4 = Some (Ret (Inr t2, u3))"
    using assms(7) by (auto simp: SendProbePacket_def dest: post_packet_chans split: sum.splits prod.splits option.splits go.splits)
  ultimately show ?thesis by (auto dest!: await_send_oldest)
qed

subsection \<open>A concrete queue\<close>

definition sample_ack :: ProbePacket where
  "sample_ack = \<lparr>pp_SequenceNum = 5, pp_T1 = 100, pp_T3 = 150, pp_T4 = 0, pp_IsAck = 1, pp_AckType = 1, pp_Flags = 0\<rparr>"

definition sample_queue :: "UDQueueType \<Rightarrow> UDQueue" where
  "sample_queue t = \<lparr>uq_rnic = new_rnic ''mlx5_0'', uq_QPN = 77, uq_QueueType = t,
     uq_NumRecvSlots = 32, uq_NextRecvSlot = 0, uq_NumSendSlots = 32, uq_NextSendSlot = 30,
     uq_recv_mem = \<lambda>_. replicate 40 0 @ packet_bytes sample_ack @ replicate 4056 0, uq_send_mem = \<lambda>_. replicate 4136 0,
     uq_posted = [0, 1, 2], uq_sent = [], uq_sendCompChan = chan_make 100, uq_recvCompChan = chan_make 100,
     uq_errChan = chan_make 100, uq_has_handler = True, uq_delivered = []\<rparr>"

lemma sample_queue_ok [simp]: "queue_ok (sample_queue t)"
  by (simp add: queue_ok_def sample_queue_def chan_make_def GRHSize_def)

lemma sample_queue_slots [simp]: "uq_NumSendSlots (sample_queue t) = 32" "uq_NumRecvSlots (sample_queue t) = 32"
  by (simp_all add: sample_queue_def)

lemma sample_slot: "slot_of sample_wc = 3" "slot_of (sample_wc\<lparr>wc_GRH := g\<rparr>) = 3" "valid_slot (sample_queue t) 3"
  by (simp_all add: slot_of_def sample_wc_def valid_slot_def sample_queue_def)

lemma sample_packet_in [simp]: "packet_in sample_wc (sample_queue t) = sample_ack"
proof -
  have "drop 40 (replicate 40 0 @ packet_bytes sample_ack @ replicate 4056 0) = packet_bytes sample_ack @ replicate 4056 (0 :: byte)"
    by (metis append_eq_conv_conj length_replicate)
  then show ?thesis by (simp add: packet_in_def sample_wc_def sample_queue_def)
qed

theorem send_slots_one_round_witness:
  "set (iter_next next_send_slot 32 (sample_queue UDQueueTypeSender)) = {..<32}"
  using send_slots_one_round[of "sample_queue UDQueueTypeSender"] by (simp add: sample_queue_def)

theorem ack_completion_delivered_once_witness:
  "\<exists>u' ai. processSingleWC (\<lambda>_ _. 0) (\<lambda>_ _. Ret ()) spec_parsers sample_wc (sample_queue UDQueueTypeSender) = Ret u'
     \<and> uq_delivered u' = [ai] \<and> ai_Packet ai = sample_ack \<and> uq_posted u' = [0, 1, 2, 3]"
proof -
  have "is_ack_for sample_wc (sample_queue UDQueueTypeSender)"
    by (simp add: is_ack_for_def) (simp add: sample_queue_def sample_ack_def)
  moreover have "\<not> too_small sample_wc" "wc_Status sample_wc = IBV_WC_SUCCESS" "wc_Opcode sample_wc = WC_RECV"
    "uq_delivered (sample_queue UDQueueTypeSender) = []" "uq_posted (sample_queue UDQueueTypeSender) = [0, 1, 2]"
    by (simp_all add: too_small_def sample_wc_def IBV_WC_SUCCESS_def sample_queue_def)
  ultimately show ?thesis
    using ack_completion_delivered_once[of sample_wc "sample_queue UDQueueTypeSender" "\<lambda>_ _. 0" "\<lambda>_ _. Ret ()" spec_parsers]
    by (auto simp: sample_slot)
qed

theorem probe_slot_posted_twice_witness:
  "\<exists>u1 r u2. processSingleWC (\<lambda>_ _. 0) (\<lambda>_ _. Ret ()) spec_parsers (sample_wc\<lparr>wc_GRH := False\<rparr>) (sample_queue UDQueueTypeResponder) = Ret u1
     \<and> ReceivePacket (\<lambda>_ _. 0) spec_parsers RSelComp u1 = Some (Ret (r, u2)) \<and> uq_posted u2 = [0, 1, 2, 3, 3]"
proof -
  let ?w = "sample_wc\<lparr>wc_GRH := False\<rparr>" and ?u = "sample_queue UDQueueTypeResponder"
  have "\<not> too_small ?w" "wc_Status ?w = IBV_WC_SUCCESS" "wc_Opcode ?w = WC_RECV" "\<not> is_ack_for ?w ?u"
    "ch_buf (uq_recvCompChan ?u) = []" "0 < ch_cap (uq_recvCompChan ?u)" "uq_posted ?u = [0, 1, 2]"
    by (simp_all add: too_small_def sample_wc_def IBV_WC_SUCCESS_def sample_queue_def is_ack_for_def chan_make_def)
  moreover have "parseGRH spec_parsers ?w (uq_recv_mem ?u (nat (slot_of ?w))) =
      Inr ('''', '''', 0, uq_recv_mem ?u (nat (slot_of ?w)), unat (wc_ByteLen ?w))"
    by (simp add: parseGRH_def)
  ultimately show ?thesis
    using probe_slot_posted_twice[where gwc = ?w and u = ?u and pr = "\<lambda>_ _. 0" and h = spec_parsers and ak = "\<lambda>_ _. Ret ()"] by (auto simp: sample_slot)
qed

text \<open>Rounds with failures and the sample ACK.\<close>

definition sample_rounds :: "poll_round list" where
  "sample_rounds = [PollEvent (Some ''e'') (StartOk sample_wc [NextErr 5]), PollDone]"

definition sample_start :: poller_start where
  "sample_start = \<lparr>ps_has_channel = True, ps_base_cq = True, ps_notify_err = None\<rparr>"

theorem cq_poller_safe_witness:
  "\<exists>running u'. cq_poller (\<lambda>_ _. 12) (\<lambda>_ _. Ret ()) spec_parsers sample_start sample_rounds (sample_queue UDQueueTypeSender) = Ret (running, u') \<and> queue_ok u'"
  using cq_poller_safe[OF sample_queue_ok, of "\<lambda>_ _. 12" "\<lambda>_ _. Ret ()" spec_parsers sample_start sample_rounds UDQueueTypeSender] by simp

text \<open>The panic of a handler is the poller's.\<close>

lemma poller_crashes:
  "\<exists>m. cq_poller (\<lambda>_ _. 0) (\<lambda>_ _. Panic ''send on closed channel'') spec_parsers sample_start [PollEvent None (StartOk sample_wc [])]
     (sample_queue UDQueueTypeSender) = Panic m"
proof -
  let ?u = "sample_queue UDQueueTypeSender"
  have "is_ack_for sample_wc ?u" by (simp add: is_ack_for_def) (simp add: sample_queue_def sample_ack_def)
  moreover have "\<not> too_small sample_wc" "wc_Status sample_wc = IBV_WC_SUCCESS" "wc_Opcode sample_wc = WC_RECV"
    by (simp_all add: too_small_def sample_wc_def IBV_WC_SUCCESS_def)
  moreover have "GRHSize \<le> length (uq_recv_mem ?u (nat (slot_of sample_wc)))" using sample_queue_ok by (simp add: queue_ok_def)
  ultimately have "processSingleWC (\<lambda>_ _. 0) (\<lambda>_ _. Panic ''send on closed channel'') spec_parsers sample_wc ?u = Panic ''send on closed channel''"
    using handleRecv_ack[of ?u sample_wc "\<lambda>_ _. 0" "\<lambda>_ _. Panic ''send on closed channel''" spec_parsers]
    by (auto simp: processSingleWC_def sample_slot)
  then show ?thesis by (simp add: cq_poller_def poll_step_def processCQCompletions_def sample_start_def)
qed

definition sample_target :: string where
  "sample_target = ''::ffff:'' @ dotted [10, 0, 0, 1]"

lemma sample_send:
  assumes "0 < uq_NumSendSlots u"
  shows "\<exists>u'. SendProbePacket \<lparr>se_ah = True, se_now = t, se_ret = 0, se_arrivals = arr\<rparr> sel sample_target 9 seq 7 u =
     (case await_send ''send completion failed: '' ''error during send: '' arr sel u' of None \<Rightarrow> None
      | Some (Panic m) \<Rightarrow> Some (Panic m) | Some (Ret (Inl err, u2)) \<Rightarrow> Some (Ret (Inl err, u2))
      | Some (Ret (Inr t2, u2)) \<Rightarrow> Some (Ret (Inr (t, t2), u2)))
   \<and> uq_sendCompChan u' = uq_sendCompChan u \<and> uq_NumSendSlots u' = uq_NumSendSlots u"
proof -
  have "ParseIP sample_target = Some (mapped4 10 0 0 1)" unfolding sample_target_def by (rule ParseIP_mapped)
  then obtain u' where "post_packet \<lparr>se_ah = True, se_now = t, se_ret = 0, se_arrivals = arr\<rparr> sample_target 9 7
      \<lparr>pp_SequenceNum = seq, pp_T1 = unix_nano_u64 t, pp_T3 = 0, pp_T4 = 0, pp_IsAck = 0, pp_AckType = 0, pp_Flags = 0\<rparr> u = Ret (Inr (), u')"
    using assms by (simp add: post_packet_def CreateAddressHandle_def mapped4_def To16_def GetNextSendSlot_def Let_def)
  with post_packet_chans[OF this] show ?thesis
    by (intro exI[of _ u']) (simp add: SendProbePacket_def split: option.split go.split sum.split prod.split)
qed

lemma sample_send_comp:
  "ch_buf (uq_sendCompChan u) @ arr = wc # rest \<Longrightarrow> wc_Status wc = IBV_WC_SUCCESS \<Longrightarrow> \<not> ch_closed (uq_sendCompChan u) \<Longrightarrow>
   length (ch_buf (uq_sendCompChan u)) \<le> ch_cap (uq_sendCompChan u) \<Longrightarrow> 0 < ch_cap (uq_sendCompChan u) \<Longrightarrow> 0 < uq_NumSendSlots u \<Longrightarrow>
   \<exists>u'. SendProbePacket \<lparr>se_ah = True, se_now = t, se_ret = 0, se_arrivals = arr\<rparr> SelComp sample_target 9 seq 7 u =
     Some (Ret (Inr (t, unix_ns (wc_WallclockNS wc)), u'))"
  using sample_send[of u t arr SelComp seq] gch.send_all_contents[of "uq_sendCompChan u" arr]
  by (auto simp: await_send_def chan_recv_def take_Cons' split: list.splits)

definition sample_env :: "gtime \<Rightarrow> GoWorkCompletion list \<Rightarrow> send_env" where
  "sample_env t arr = \<lparr>se_ah = True, se_now = t, se_ret = 0, se_arrivals = arr\<rparr>"

theorem SendProbePacket_sent_witness:
  "\<exists>u' ws. SendProbePacket (sample_env 50 [sample_wc]) SelComp sample_target 9 5 7 (sample_queue UDQueueTypeSender)
       = Some (Ret (Inr (50, unix_ns 1000), u')) \<and> uq_sent u' = [ws] \<and> pp_SequenceNum (read_packet (ws_bytes ws)) = 5"
proof -
  let ?u = "sample_queue UDQueueTypeSender"
  have w: "wc_WallclockNS sample_wc = 1000" "wc_Status sample_wc = IBV_WC_SUCCESS" by (simp_all add: sample_wc_def IBV_WC_SUCCESS_def)
  have c: "uq_sendCompChan ?u = chan_make 100" "uq_sent ?u = []" by (simp_all add: sample_queue_def)
  obtain u' where u: "SendProbePacket (sample_env 50 [sample_wc]) SelComp sample_target 9 5 7 ?u = Some (Ret (Inr (50, unix_ns 1000), u'))"
    using sample_send_comp[of ?u "[sample_wc]" sample_wc "[]" 50 5] w c by (auto simp: chan_make_def sample_env_def)
  from SendProbePacket_sent[OF u] u c show ?thesis by auto
qed

theorem late_completion_credited_to_next_probe_witness:
  "\<exists>u1 u2 u3 t1 t2. SendProbePacket (sample_env 50 []) (SelTimeout ''late'') sample_target 9 5 7
        (sample_queue UDQueueTypeSender) = Some (Ret (Inl ''late'', u1))
     \<and> handleSendCompletion sample_wc u1 = Ret u2
     \<and> SendProbePacket (sample_env 5000 [sample_wc\<lparr>wc_WallclockNS := 5005\<rparr>]) SelComp sample_target 9 6 7 u2 = Some (Ret (Inr (t1, t2), u3))
     \<and> t2 = unix_ns 1000"
proof -
  let ?u = "sample_queue UDQueueTypeSender" and ?own = "sample_wc\<lparr>wc_WallclockNS := 5005\<rparr>"
  have w: "wc_WallclockNS sample_wc = 1000" "wc_Status sample_wc = IBV_WC_SUCCESS" by (simp_all add: sample_wc_def IBV_WC_SUCCESS_def)
  have c: "uq_sendCompChan ?u = chan_make 100" by (simp add: sample_queue_def)
  obtain u1 where 1: "SendProbePacket (sample_env 50 []) (SelTimeout ''late'') sample_target 9 5 7 ?u
      = Some (Ret (Inl ''late'', u1))" "uq_sendCompChan u1 = chan_make 100" "0 < uq_NumSendSlots u1"
    using sample_send[of ?u 50 "[]" "SelTimeout ''late''" 5] c by (auto simp: await_send_def sample_env_def)
  define u2 where "u2 = u1\<lparr>uq_sendCompChan := (chan_make 100)\<lparr>ch_buf := [sample_wc]\<rparr>\<rparr>"
  have 2: "handleSendCompletion sample_wc u1 = Ret u2"
    by (simp add: handleSendCompletion_def nb_send_def 1(2) u2_def) (simp add: chan_make_def)
  obtain u3 where 3: "SendProbePacket (sample_env 5000 [?own]) SelComp sample_target 9 6 7 u2
      = Some (Ret (Inr (5000, unix_ns (wc_WallclockNS sample_wc)), u3))"
    using sample_send_comp[of u2 "[?own]" sample_wc "[?own]" 5000 6] w 1(3) by (auto simp: u2_def chan_make_def sample_env_def)
  have "ch_buf (uq_sendCompChan ?u) = []" "0 < ch_cap (uq_sendCompChan ?u)" by (simp_all add: c chan_make_def)
  moreover have "se_arrivals (sample_env 50 []) = []" by (simp add: sample_env_def)
  ultimately show ?thesis
    using late_completion_credited_to_next_probe[OF _ sample_queue_ok _ _ 1(1) 2 3] 1(1) 2 3 w by auto
qed

end
