(* ===== verification/Rdma_Manager.thy ===== *)
theory Rdma_Manager
  imports Rdma_Queue
begin

text \<open>
  Life cycle of queues (internal/rdma/queue.go, StartCQPoller and StopCQPoller of
  internal/rdma/cq.go): creation of a queue pair step by step with the clean-up of every
  failure path, the manager's maps, destruction and shutdown. The resources that the verbs
  library and the C allocator have handed out are an explicit list, so leaks and double
  releases are visible; queue objects live in a heap, since the maps keep pointers to them.
\<close>

subsection \<open>State\<close>

datatype qres = ResChannel nat | ResCQ nat | ResQP nat | ResSendBuf nat | ResRecvBuf nat | ResSendMR nat | ResRecvMR nat

datatype qp_state = QPS_RESET | QPS_INIT | QPS_RTR | QPS_RTS

instantiation qp_state :: linorder
begin

definition qp_rank :: "qp_state \<Rightarrow> nat" where
  "qp_rank s = (case s of QPS_RESET \<Rightarrow> 0 | QPS_INIT \<Rightarrow> 1 | QPS_RTR \<Rightarrow> 2 | QPS_RTS \<Rightarrow> 3)"

definition less_eq_qp_state :: "qp_state \<Rightarrow> qp_state \<Rightarrow> bool" where
  "s \<le> t \<longleftrightarrow> qp_rank s \<le> qp_rank t"

definition less_qp_state :: "qp_state \<Rightarrow> qp_state \<Rightarrow> bool" where
  "s < t \<longleftrightarrow> qp_rank s < qp_rank t"

instance
  by standard
    (auto simp: less_eq_qp_state_def less_qp_state_def qp_rank_def split: qp_state.splits)

end

text \<open>A queue object: its working state, which of its pointers are set, whether its poller
  runs.\<close>

record queue_obj =
  qo_queue :: UDQueue
  qo_QP :: bool
  qo_CQ :: bool
  qo_CompChannel :: bool
  qo_SendMR :: bool
  qo_RecvMR :: bool
  qo_SendBuf :: bool
  qo_RecvBuf :: bool
  qo_pollerRunning :: bool

record RDMAManager =
  mg_Devices :: "RNIC list"
  mg_Sender :: "(string \<times> nat) list"
  mg_Responder :: "(string \<times> nat) list"
  mg_heap :: "nat \<Rightarrow> queue_obj option"
  mg_next :: nat
  mg_live :: "qres list"
  mg_handles :: handles

subsection \<open>Queue pair creation\<close>

definition destroyCQEx :: "bool \<Rightarrow> nat \<Rightarrow> qres list \<Rightarrow> qres list" where
  "destroyCQEx base q live = (if base then remove1 (ResCQ q) live else live)"

record qp_env =
  qe_channel :: bool
  qe_cq_err :: "string option"
  qe_base :: bool
  qe_qp :: "u32 option"
  qe_init :: int
  qe_rtr :: int
  qe_rts :: int

definition modifyQPToInit :: "int \<Rightarrow> qp_state \<Rightarrow> unit res \<times> qp_state" where
  "modifyQPToInit ret st = (if ret \<noteq> 0 then (Inl (''failed to modify QP to INIT: '' @ dec_int ret), st) else (Inr (), QPS_INIT))"

definition modifyQPToRTR :: "int \<Rightarrow> qp_state \<Rightarrow> unit res \<times> qp_state" where
  "modifyQPToRTR ret st = (if ret \<noteq> 0 then (Inl (''failed to modify QP to RTR: '' @ dec_int ret), st) else (Inr (), QPS_RTR))"

definition modifyQPToRTS :: "int \<Rightarrow> qp_state \<Rightarrow> unit res \<times> qp_state" where
  "modifyQPToRTS ret st = (if ret \<noteq> 0 then (Inl (''failed to modify QP to RTS: '' @ dec_int ret), st) else (Inr (), QPS_RTS))"

definition createQueuePair :: "qp_env \<Rightarrow> nat \<Rightarrow> string \<Rightarrow> qres list \<Rightarrow> (u32 \<times> qp_state) res \<times> qres list" where
  "createQueuePair e q dev live =
     (if \<not> qe_channel e then (Inl (''failed to create completion channel for device '' @ dev), live)
      else let live1 = ResChannel q # live in
      case qe_cq_err e of
        Some err \<Rightarrow> (Inl (''failed to create extended CQ for device '' @ dev @ '': '' @ err), remove1 (ResChannel q) live1)
      | None \<Rightarrow>
        let live2 = ResCQ q # live1 in
        if \<not> qe_base e then
          (Inl (''failed to get base CQ from extended CQ for device '' @ dev), destroyCQEx (qe_base e) q (remove1 (ResChannel q) live2))
        else case qe_qp e of
          None \<Rightarrow> (Inl (''failed to create QP for device '' @ dev), remove1 (ResChannel q) (destroyCQEx (qe_base e) q live2))
        | Some qpn \<Rightarrow>
          let live3 = ResQP q # live2;
              undo = remove1 (ResChannel q) (destroyCQEx (qe_base e) q (remove1 (ResQP q) live3)) in
          case modifyQPToInit (qe_init e) QPS_RESET of (Inl err, _) \<Rightarrow> (Inl err, undo)
          | (Inr _, st1) \<Rightarrow> (case modifyQPToRTR (qe_rtr e) st1 of (Inl err, _) \<Rightarrow> (Inl err, undo)
            | (Inr _, st2) \<Rightarrow> (case modifyQPToRTS (qe_rts e) st2 of (Inl err, _) \<Rightarrow> (Inl err, undo)
              | (Inr _, st3) \<Rightarrow> (Inr (qpn, st3), live3))))"

record alloc_env =
  al_send :: bool
  al_recv :: bool
  al_send_mr :: bool
  al_recv_mr :: bool

definition allocateMemoryResources :: "alloc_env \<Rightarrow> nat \<Rightarrow> qres list \<Rightarrow> unit res \<times> qres list" where
  "allocateMemoryResources e q live =
     (if \<not> al_send e then (Inl ''failed to allocate send buffer for 32 slots'', live)
      else let live1 = ResSendBuf q # live in
      if \<not> al_recv e then (Inl ''failed to allocate receive buffer for 32 slots'', remove1 (ResSendBuf q) live1)
      else let live2 = ResRecvBuf q # live1 in
      if \<not> al_send_mr e then
        (Inl ''failed to register send buffer MR for 32 slots'', remove1 (ResSendBuf q) (remove1 (ResRecvBuf q) live2))
      else let live3 = ResSendMR q # live2 in
      if \<not> al_recv_mr e then
        (Inl ''failed to register receive buffer MR for 32 slots'',
         remove1 (ResSendBuf q) (remove1 (ResRecvBuf q) (remove1 (ResSendMR q) live3)))
      else (Inr (), ResRecvMR q # live3))"

subsection \<open>Destruction\<close>

text \<open>StopCQPoller waits until the poller's goroutine has cleared its flag, which it does only
  when ibv_get_cq_event returns once more: when an event arrives for the queue. Whether one does
  is an argument; if not, the call does not return (None). Theory Cq_Poller has the threads,
  the mutex and the waiting, and proves that the call returns only if an event arrives.\<close>

definition StopCQPoller :: "bool \<Rightarrow> queue_obj \<Rightarrow> queue_obj option" where
  "StopCQPoller ends ob =
     (if \<not> qo_pollerRunning ob then Some ob else if ends then Some (ob\<lparr>qo_pollerRunning := False\<rparr>) else None)"

definition release_if :: "bool \<Rightarrow> qres \<Rightarrow> qres list \<Rightarrow> qres list" where
  "release_if set_ptr r live = (if set_ptr then remove1 r live else live)"

definition Destroy :: "bool \<Rightarrow> nat \<Rightarrow> RDMAManager \<Rightarrow> RDMAManager go option" where
  "Destroy ends q m =
     (case mg_heap m q of None \<Rightarrow> Some (Panic ''nil pointer dereference'')
      | Some o0 \<Rightarrow>
        (case StopCQPoller ends o0 of None \<Rightarrow> None
         | Some o1 \<Rightarrow>
           let u = qo_queue o1 in
           Some (go_bind (chan_close (uq_sendCompChan u)) (\<lambda>sc.
                 go_bind (chan_close (uq_recvCompChan u)) (\<lambda>rc.
                 go_bind (chan_close (uq_errChan u)) (\<lambda>ec.
             let u1 = u\<lparr>uq_sendCompChan := sc, uq_recvCompChan := rc, uq_errChan := ec\<rparr>;
                 live = release_if (qo_CompChannel o1) (ResChannel q) (release_if (qo_CQ o1) (ResCQ q)
                   (release_if (qo_QP o1) (ResQP q) (release_if (qo_SendBuf o1) (ResSendBuf q)
                   (release_if (qo_RecvBuf o1) (ResRecvBuf q) (release_if (qo_SendMR o1) (ResSendMR q)
                   (release_if (qo_RecvMR o1) (ResRecvMR q) (mg_live m)))))));
                 o2 = \<lparr>qo_queue = u1, qo_QP = False, qo_CQ = False, qo_CompChannel = False, qo_SendMR = False,
                       qo_RecvMR = False, qo_SendBuf = False, qo_RecvBuf = False, qo_pollerRunning = qo_pollerRunning o1\<rparr> in
             Ret (m\<lparr>mg_heap := (mg_heap m)(q := Some o2), mg_live := live\<rparr>)))))))"

text \<open>Which queues' pollers end.\<close>

fun destroy_all :: "(nat \<Rightarrow> bool) \<Rightarrow> (string \<times> nat) list \<Rightarrow> RDMAManager \<Rightarrow> RDMAManager go option" where
  "destroy_all ends [] m = Some (Ret m)"
| "destroy_all ends ((gid, q) # rest) m =
     (case Destroy (ends q) q m of None \<Rightarrow> None | Some (Panic e) \<Rightarrow> Some (Panic e) | Some (Ret m1) \<Rightarrow> destroy_all ends rest m1)"

fun close_devices :: "RNIC list \<Rightarrow> handles \<Rightarrow> RNIC list \<times> handles" where
  "close_devices [] hs = ([], hs)"
| "close_devices (r # rs) hs = (let (r', hs1) = CloseDevice r hs; (rs', hs2) = close_devices rs hs1 in (r' # rs', hs2))"

definition Manager_Close :: "(nat \<Rightarrow> bool) \<Rightarrow> RDMAManager \<Rightarrow> RDMAManager go option" where
  "Manager_Close ends m =
     (case destroy_all ends (mg_Sender m) m of
        Some (Ret m1) \<Rightarrow> (case destroy_all ends (mg_Responder m) m1 of
            Some (Ret m2) \<Rightarrow> (let (ds, hs) = close_devices (mg_Devices m2) (mg_handles m2) in
              Some (Ret (m2\<lparr>mg_Sender := [], mg_Responder := [], mg_Devices := ds, mg_handles := hs\<rparr>)))
          | r \<Rightarrow> r)
      | r \<Rightarrow> r)"

subsection \<open>Creation\<close>

record create_env =
  ce_qp :: qp_env
  ce_alloc :: alloc_env
  ce_post :: post_ret
  ce_ends :: bool

definition fresh_queue :: "RNIC \<Rightarrow> UDQueueType \<Rightarrow> u32 \<Rightarrow> bool \<Rightarrow> UDQueue" where
  "fresh_queue rnic t qpn handler = \<lparr>uq_rnic = rnic, uq_QPN = qpn, uq_QueueType = t,
     uq_NumRecvSlots = InitialRecvBuffers, uq_NextRecvSlot = 0, uq_NumSendSlots = InitialRecvBuffers, uq_NextSendSlot = 0,
     uq_recv_mem = \<lambda>_. replicate (MRSize + GRHSize) 0, uq_send_mem = \<lambda>_. replicate (MRSize + GRHSize) 0,
     uq_posted = [], uq_sent = [], uq_sendCompChan = chan_make 100, uq_recvCompChan = chan_make 100,
     uq_errChan = chan_make 100, uq_has_handler = handler, uq_delivered = []\<rparr>"

text \<open>\<^verbatim>\<open>for i := 0; i < n; i++ { PostRecvSlot(i) }\<close>: the first failure ends it.\<close>

fun post_initial :: "post_ret \<Rightarrow> nat \<Rightarrow> nat \<Rightarrow> UDQueue \<Rightarrow> (nat \<times> string) option \<times> UDQueue" where
  "post_initial pr i 0 u = (None, u)"
| "post_initial pr i (Suc n) u =
     (case PostRecvSlot pr (int i) u of (Inl e, u1) \<Rightarrow> (Some (i, e), u1) | (Inr _, u1) \<Rightarrow> post_initial pr (Suc i) n u1)"

definition CreateUDQueue :: "create_env \<Rightarrow> nat \<Rightarrow> UDQueueType \<Rightarrow> bool \<Rightarrow> RDMAManager \<Rightarrow> (queue_ref res \<times> RDMAManager) go option" where
  "CreateUDQueue e d queueType handler m =
     (let rnic = mg_Devices m ! d; q = mg_next m in
      if \<not> rn_IsOpen rnic then
        Some (Ret (Inl (''RNIC device '' @ rn_DeviceName rnic @ '' is not open. CreateUDQueue requires an already opened RNIC.''), m))
      else case createQueuePair (ce_qp e) q (rn_DeviceName rnic) (mg_live m) of
        (Inl err, live) \<Rightarrow> Some (Ret (Inl err, m\<lparr>mg_live := live\<rparr>))
      | (Inr (qpn, _), live) \<Rightarrow>
        (case allocateMemoryResources (ce_alloc e) q live of
           (Inl err, live1) \<Rightarrow>
             Some (Ret (Inl err, m\<lparr>mg_live := remove1 (ResChannel q) (destroyCQEx (qe_base (ce_qp e)) q (remove1 (ResQP q) live1))\<rparr>))
         | (Inr _, live1) \<Rightarrow>
           let ref = \<lparr>qr_id = q, qr_QPN = qpn\<rparr>;
               rnic1 = (case queueType of UDQueueTypeSender \<Rightarrow> rnic\<lparr>rn_ProberQueue := Some ref\<rparr>
                        | UDQueueTypeResponder \<Rightarrow> rnic\<lparr>rn_ResponderQueue := Some ref\<rparr>);
               (posted, u) = post_initial (ce_post e) 0 InitialRecvBuffers (fresh_queue rnic queueType qpn handler);
               m1 = m\<lparr>mg_Devices := (mg_Devices m)[d := rnic1],
                      mg_Sender := (if queueType = UDQueueTypeSender then AList.update (rn_GID rnic) q (mg_Sender m) else mg_Sender m),
                      mg_Responder := (if queueType = UDQueueTypeSender then mg_Responder m else AList.update (rn_GID rnic) q (mg_Responder m)),
                      mg_heap := (mg_heap m)(q := Some \<lparr>qo_queue = u, qo_QP = True, qo_CQ = True, qo_CompChannel = True, qo_SendMR = True,
                         qo_RecvMR = True, qo_SendBuf = True, qo_RecvBuf = True, qo_pollerRunning = True\<rparr>),
                      mg_next := Suc q, mg_live := live1\<rparr> in
           (case posted of
              None \<Rightarrow> Some (Ret (Inr ref, m1))
            | Some (i, err) \<Rightarrow>
              (case Destroy (ce_ends e) q m1 of None \<Rightarrow> None
               | Some (Panic p) \<Rightarrow> Some (Panic p)
               | Some (Ret m2) \<Rightarrow> Some (Ret (Inl (''failed to post initial receive buffer '' @ dec_string (Suc i) @ ''/32: '' @ err), m2))))))"

definition CreateSenderAndResponderQueues ::
  "create_env \<Rightarrow> create_env \<Rightarrow> nat \<Rightarrow> bool \<Rightarrow> RDMAManager \<Rightarrow> (unit res \<times> RDMAManager) go option" where
  "CreateSenderAndResponderQueues es er d handler m =
     (let rnic = mg_Devices m ! d in
      if \<not> rn_IsOpen rnic then
        Some (Ret (Inl (''RNIC device '' @ rn_DeviceName rnic @ '' is not open. CreateSenderAndResponderQueues requires an already opened RNIC.''), m))
      else case CreateUDQueue es d UDQueueTypeSender handler m of
        None \<Rightarrow> None
      | Some (Panic p) \<Rightarrow> Some (Panic p)
      | Some (Ret (Inl err, m1)) \<Rightarrow> Some (Ret (Inl (''failed to create sender queue for device '' @ rn_DeviceName rnic @ '': '' @ err), m1))
      | Some (Ret (Inr sref, m1)) \<Rightarrow>
        (case CreateUDQueue er d UDQueueTypeResponder False m1 of
           None \<Rightarrow> None
         | Some (Panic p) \<Rightarrow> Some (Panic p)
         | Some (Ret (Inl err, m2)) \<Rightarrow>
           (case Destroy (ce_ends es) (qr_id sref) m2 of None \<Rightarrow> None
            | Some (Panic p) \<Rightarrow> Some (Panic p)
            | Some (Ret m3) \<Rightarrow> Some (Ret (Inl (''failed to create responder queue for device '' @ rn_DeviceName rnic @ '': '' @ err), m3)))
         | Some (Ret (Inr rref, m2)) \<Rightarrow>
             Some (Ret (Inr (), m2\<lparr>mg_Devices := (mg_Devices m2)[d := (mg_Devices m2 ! d)\<lparr>rn_ProberQueue := Some sref, rn_ResponderQueue := Some rref\<rparr>]\<rparr>))))"

subsection \<open>Resources of the creation steps\<close>

definition qp_resources :: "nat \<Rightarrow> qres list" where
  "qp_resources q = [ResQP q, ResCQ q, ResChannel q]"

definition queue_resources :: "nat \<Rightarrow> qres list" where
  "queue_resources q = [ResRecvMR q, ResSendMR q, ResRecvBuf q, ResSendBuf q] @ qp_resources q"

text \<open>Every verb of the set-up succeeds; and the one failure that leaves something behind: an extended
  CQ whose base CQ cannot be had is not destroyed.\<close>

definition qp_setup :: "qp_env \<Rightarrow> bool" where
  "qp_setup e \<longleftrightarrow> qe_channel e \<and> qe_cq_err e = None \<and> qe_base e \<and> qe_qp e \<noteq> None \<and> qe_init e = 0 \<and> qe_rtr e = 0 \<and> qe_rts e = 0"

definition alloc_setup :: "alloc_env \<Rightarrow> bool" where
  "alloc_setup a \<longleftrightarrow> al_send a \<and> al_recv a \<and> al_send_mr a \<and> al_recv_mr a"

definition no_base_cq :: "qp_env \<Rightarrow> bool" where
  "no_base_cq e \<longleftrightarrow> qe_channel e \<and> qe_cq_err e = None \<and> \<not> qe_base e"

lemma createQueuePair_resources:
  assumes "createQueuePair e q dev live = (r, live')"
  shows "case r of Inl _ \<Rightarrow> \<not> qp_setup e \<and> live' = (if no_base_cq e then ResCQ q # live else live)
    | Inr (qpn, st) \<Rightarrow> qp_setup e \<and> st = QPS_RTS \<and> qe_qp e = Some qpn \<and> live' = qp_resources q @ live"
  using assms
  by (auto simp: createQueuePair_def destroyCQEx_def qp_resources_def modifyQPToInit_def modifyQPToRTR_def modifyQPToRTS_def
      qp_setup_def no_base_cq_def Let_def split: if_splits option.splits)

text \<open>The bring-up only ever moves the QP forward, through all states in order.\<close>

lemma bring_up_monotone:
  "modifyQPToInit ret st = (Inr x, st') \<Longrightarrow> st = QPS_RESET \<Longrightarrow> st < st'"
  "modifyQPToRTR ret st = (Inr x, st') \<Longrightarrow> st = QPS_INIT \<Longrightarrow> st < st'"
  "modifyQPToRTS ret st = (Inr x, st') \<Longrightarrow> st = QPS_RTR \<Longrightarrow> st < st'"
  by (auto simp: modifyQPToInit_def modifyQPToRTR_def modifyQPToRTS_def less_qp_state_def qp_rank_def split: if_splits)

lemma allocateMemoryResources_resources:
  "allocateMemoryResources e q live = (r, live') \<Longrightarrow>
     (case r of Inl _ \<Rightarrow> \<not> alloc_setup e \<and> live' = live | Inr _ \<Rightarrow> alloc_setup e \<and> live' = [ResRecvMR q, ResSendMR q, ResRecvBuf q, ResSendBuf q] @ live)"
  by (auto simp: allocateMemoryResources_def alloc_setup_def Let_def split: if_splits)

lemma post_initial_ok:
  "post_initial pr i n u = (None, u') \<Longrightarrow> i + n \<le> uq_NumRecvSlots u \<Longrightarrow> u' = u\<lparr>uq_posted := uq_posted u @ [i..<i + n]\<rparr>"
proof (induction pr i n u rule: post_initial.induct)
  case (2 pr i n u)
  then have "PostRecvSlot pr (int i) u = (Inr (), u\<lparr>uq_posted := uq_posted u @ [i]\<rparr>)"
    by (auto simp: PostRecvSlot_def Let_def split: if_splits)
  with 2 show ?case by (simp add: upt_conv_Cons)
qed simp

lemma post_initial_frame: "\<exists>ps. snd (post_initial pr i n u) = u\<lparr>uq_posted := ps\<rparr>"
proof (induction pr i n u rule: post_initial.induct)
  case (2 pr i n u)
  obtain r v where rv: "PostRecvSlot pr (int i) u = (r, v)" by fastforce
  moreover obtain ps where "v = u\<lparr>uq_posted := ps\<rparr>" using PostRecvSlot_frame[of pr "int i" u] rv by auto
  ultimately show ?case using 2 by (cases r) auto
next
  case (1 pr i u)
  show ?case by (intro exI[of _ "uq_posted u"]) simp
qed

lemma fresh_queue_ok: "queue_ok (fresh_queue rnic t qpn h)"
  by (simp add: queue_ok_def fresh_queue_def chan_make_def MRSize_def GRHSize_def InitialRecvBuffers_def)

subsection \<open>Destruction\<close>

definition full_obj :: "UDQueue \<Rightarrow> bool \<Rightarrow> queue_obj" where
  "full_obj u running = \<lparr>qo_queue = u, qo_QP = True, qo_CQ = True, qo_CompChannel = True, qo_SendMR = True,
     qo_RecvMR = True, qo_SendBuf = True, qo_RecvBuf = True, qo_pollerRunning = running\<rparr>"

definition destroyed_obj :: "queue_obj \<Rightarrow> bool" where
  "destroyed_obj ob \<longleftrightarrow> \<not> qo_pollerRunning ob \<and> ch_closed (uq_sendCompChan (qo_queue ob))"

definition closed_obj :: "UDQueue \<Rightarrow> queue_obj" where
  "closed_obj u = \<lparr>qo_queue = u\<lparr>uq_sendCompChan := (uq_sendCompChan u)\<lparr>ch_closed := True\<rparr>,
       uq_recvCompChan := (uq_recvCompChan u)\<lparr>ch_closed := True\<rparr>, uq_errChan := (uq_errChan u)\<lparr>ch_closed := True\<rparr>\<rparr>,
     qo_QP = False, qo_CQ = False, qo_CompChannel = False, qo_SendMR = False, qo_RecvMR = False, qo_SendBuf = False,
     qo_RecvBuf = False, qo_pollerRunning = False\<rparr>"

lemma destroyed_closed_obj [simp]: "destroyed_obj (closed_obj u)"
  by (simp add: destroyed_obj_def closed_obj_def)

lemma Destroy_full:
  assumes "mg_heap m q = Some (full_obj u True)" and "queue_ok u"
  shows "Destroy True q m = Some (Ret (m\<lparr>mg_heap := (mg_heap m)(q := Some (closed_obj u)),
      mg_live := fold remove1 (queue_resources q) (mg_live m)\<rparr>))"
  using assms
  by (simp add: Destroy_def StopCQPoller_def full_obj_def chan_close_def queue_ok_def release_if_def queue_resources_def qp_resources_def
      closed_obj_def Let_def)

text \<open>While the poller does not end, Destroy hangs before it has released anything.\<close>

lemma Destroy_hangs: "mg_heap m q = Some (full_obj u True) \<Longrightarrow> Destroy False q m = None"
  by (simp add: Destroy_def StopCQPoller_def full_obj_def)

text \<open>A queue that was destroyed once cannot be destroyed again: its channels are closed.\<close>

lemma Destroy_twice: "mg_heap m q = Some ob \<Longrightarrow> destroyed_obj ob \<Longrightarrow> Destroy ends q m = Some (Panic ''close of closed channel'')"
  by (simp add: Destroy_def StopCQPoller_def destroyed_obj_def chan_close_def Let_def)

lemma fold_remove1_prefix: "fold remove1 xs (xs @ ys) = ys"
  by (induction xs) auto

subsection \<open>Creation\<close>

definition created :: "RDMAManager \<Rightarrow> nat \<Rightarrow> UDQueueType \<Rightarrow> nat \<Rightarrow> u32 \<Rightarrow> UDQueue \<Rightarrow> bool \<Rightarrow> queue_obj \<Rightarrow> qres list \<Rightarrow> RDMAManager" where
  "created m d t q qpn u ok ob live = m\<lparr>mg_Devices := (mg_Devices m)[d :=
       (case t of UDQueueTypeSender \<Rightarrow> (mg_Devices m ! d)\<lparr>rn_ProberQueue := Some \<lparr>qr_id = q, qr_QPN = qpn\<rparr>\<rparr>
        | UDQueueTypeResponder \<Rightarrow> (mg_Devices m ! d)\<lparr>rn_ResponderQueue := Some \<lparr>qr_id = q, qr_QPN = qpn\<rparr>\<rparr>)],
     mg_Sender := (if t = UDQueueTypeSender then AList.update (rn_GID (mg_Devices m ! d)) q (mg_Sender m) else mg_Sender m),
     mg_Responder := (if t = UDQueueTypeSender then mg_Responder m else AList.update (rn_GID (mg_Devices m ! d)) q (mg_Responder m)),
     mg_heap := (mg_heap m)(q := Some ob), mg_next := Suc q, mg_live := live\<rparr>"

text \<open>The set-up of a queue succeeds; one of its initial posts fails.\<close>

definition setup_succeeds :: "create_env \<Rightarrow> bool" where
  "setup_succeeds e \<longleftrightarrow> qp_setup (ce_qp e) \<and> alloc_setup (ce_alloc e)"

definition initial_post_fails :: "create_env \<Rightarrow> RNIC \<Rightarrow> UDQueueType \<Rightarrow> bool \<Rightarrow> bool" where
  "initial_post_fails e rnic t h \<longleftrightarrow> fst (post_initial (ce_post e) 0 InitialRecvBuffers (fresh_queue rnic t (the (qe_qp (ce_qp e))) h)) \<noteq> None"

text \<open>The ways CreateUDQueue ends on an open device, or does not.\<close>

lemma CreateUDQueue_cases:
  assumes "rn_IsOpen (mg_Devices m ! d)"
  obtains (no_setup) err where "CreateUDQueue e d t h m = Some (Ret (Inl err, m\<lparr>mg_live := if no_base_cq (ce_qp e) then ResCQ (mg_next m) # mg_live m else mg_live m\<rparr>))"
      "\<not> setup_succeeds e"
  | (no_post) err u ob qpn where "CreateUDQueue e d t h m = Some (Ret (Inl err, created m d t (mg_next m) qpn u False ob (mg_live m)))"
      "destroyed_obj ob" "ce_ends e" "\<not> no_base_cq (ce_qp e)"
  | (hangs) "CreateUDQueue e d t h m = None" "setup_succeeds e" "initial_post_fails e (mg_Devices m ! d) t h" "\<not> ce_ends e"
  | (success) qpn u where "CreateUDQueue e d t h m = Some (Ret (Inr \<lparr>qr_id = mg_next m, qr_QPN = qpn\<rparr>,
        created m d t (mg_next m) qpn u True (full_obj u True) (queue_resources (mg_next m) @ mg_live m)))"
      "u = (fresh_queue (mg_Devices m ! d) t qpn h)\<lparr>uq_posted := [0..<32]\<rparr>" "qe_qp (ce_qp e) = Some qpn"
      "\<not> initial_post_fails e (mg_Devices m ! d) t h"
proof -
  let ?q = "mg_next m" and ?rnic = "mg_Devices m ! d"
  obtain r live where c: "createQueuePair (ce_qp e) ?q (rn_DeviceName ?rnic) (mg_live m) = (r, live)" by fastforce
  note C = createQueuePair_resources[OF c]
  show thesis
  proof (cases r)
    case (Inl err)
    with C c assms show thesis by (intro no_setup[of err]) (auto simp: CreateUDQueue_def setup_succeeds_def Let_def)
  next
    case (Inr x)
    obtain qpn st where x: "x = (qpn, st)" by fastforce
    with C Inr have qp: "qe_qp (ce_qp e) = Some qpn" and live: "live = qp_resources ?q @ mg_live m" and s: "qp_setup (ce_qp e)" by auto
    then have b: "qe_base (ce_qp e)" "\<not> no_base_cq (ce_qp e)" by (auto simp: qp_setup_def no_base_cq_def)
    obtain r2 live1 where a: "allocateMemoryResources (ce_alloc e) ?q live = (r2, live1)" by fastforce
    note A = allocateMemoryResources_resources[OF a]
    show thesis
    proof (cases r2)
      case (Inl err)
      with A a c assms b \<open>r = Inr x\<close> x live show thesis
        by (intro no_setup[of err]) (simp_all add: CreateUDQueue_def setup_succeeds_def Let_def destroyCQEx_def qp_resources_def)
    next
      case r2: (Inr y)
      with s A have ok: "setup_succeeds e" by (simp add: setup_succeeds_def)
      define f where "f = fresh_queue ?rnic t qpn h"
      obtain p u where p: "post_initial (ce_post e) 0 InitialRecvBuffers f = (p, u)" by fastforce
      then have fails: "initial_post_fails e ?rnic t h \<longleftrightarrow> p \<noteq> None" by (simp add: initial_post_fails_def qp f_def)
      have live1: "live1 = queue_resources ?q @ mg_live m" using A r2 live by (simp add: queue_resources_def)
      let ?m1 = "created m d t ?q qpn u True (full_obj u True) live1"
      show thesis
      proof (cases p)
        case None
        then have "u = f\<lparr>uq_posted := [0..<32]\<rparr>"
          using post_initial_ok[of "ce_post e" 0 InitialRecvBuffers f u] p
          by (simp add: f_def fresh_queue_def InitialRecvBuffers_def)
        with None p assms c a \<open>r = Inr x\<close> x r2 qp live1 fails show thesis
          by (intro success[of qpn u]) (auto simp: CreateUDQueue_def Let_def created_def full_obj_def f_def[symmetric] split: UDQueueType.splits)
      next
        case (Some ie)
        have heap: "mg_heap ?m1 ?q = Some (full_obj u True)" by (simp add: created_def)
        obtain msg where run: "CreateUDQueue e d t h m = (case Destroy (ce_ends e) ?q ?m1 of None \<Rightarrow> None | Some (Panic p) \<Rightarrow> Some (Panic p)
            | Some (Ret m2) \<Rightarrow> Some (Ret (Inl msg, m2)))"
          using Some p assms c a \<open>r = Inr x\<close> x r2
          by (cases ie) (auto simp: CreateUDQueue_def Let_def created_def full_obj_def f_def[symmetric] split: UDQueueType.splits)
        show thesis
        proof (cases "ce_ends e")
          case True
          obtain ps where "u = f\<lparr>uq_posted := ps\<rparr>" using post_initial_frame[of "ce_post e" 0 InitialRecvBuffers f] p by auto
          then have "queue_ok u" using fresh_queue_ok by (simp add: f_def)
          with heap obtain ob where ob: "destroyed_obj ob" "Destroy True ?q ?m1 =
              Some (Ret (?m1\<lparr>mg_heap := (mg_heap ?m1)(?q := Some ob), mg_live := fold remove1 (queue_resources ?q) (mg_live ?m1)\<rparr>))"
            using Destroy_full destroyed_closed_obj by blast
          have "?m1\<lparr>mg_heap := (mg_heap ?m1)(?q := Some ob), mg_live := fold remove1 (queue_resources ?q) (mg_live ?m1)\<rparr>
              = created m d t ?q qpn u False ob (mg_live m)"
            by (simp add: created_def live1 fold_remove1_prefix)
          with ob run True b show thesis by (intro no_post[of msg qpn u ob]) simp_all
        next
          case False
          with Destroy_hangs[OF heap] run ok fails Some show thesis by (intro hangs) auto
        qed
      qed
    qed
  qed
qed

text \<open>C22: creating a queue on an open device never panics. It returns, unless an initial post of the
  finished set-up fails and the poller, started before, does not end: then, and only then, the
  clean-up hangs in StopCQPoller, before anything is released (on a queue for which no event arrives,
  see C20). When it returns with an error, at whichever step, every resource has been given back,
  except the extended CQ when its base CQ cannot be had. A success adds exactly the seven
  resources of the queue, which then has an empty channel of each kind and its 32 receive
  slots posted once each.\<close>

theorem CreateUDQueue_resources:
  assumes "rn_IsOpen (mg_Devices m ! d)"
  shows "(CreateUDQueue e d t h m = None \<longleftrightarrow> setup_succeeds e \<and> initial_post_fails e (mg_Devices m ! d) t h \<and> \<not> ce_ends e)
    \<and> (\<forall>p. CreateUDQueue e d t h m \<noteq> Some (Panic p))
    \<and> (\<forall>r m'. CreateUDQueue e d t h m = Some (Ret (r, m')) \<longrightarrow>
        (case r of Inl _ \<Rightarrow> mg_live m' = (if no_base_cq (ce_qp e) then ResCQ (mg_next m) # mg_live m else mg_live m)
         | Inr ref \<Rightarrow> mg_live m' = queue_resources (qr_id ref) @ mg_live m
             \<and> (\<exists>ob. mg_heap m' (qr_id ref) = Some ob \<and> queue_ok (qo_queue ob) \<and> uq_posted (qo_queue ob) = [0..<32]
                  \<and> uq_QPN (qo_queue ob) = qr_QPN ref \<and> qo_pollerRunning ob)))"
proof (rule CreateUDQueue_cases[OF assms, of e t h])
  fix qpn u
  assume "CreateUDQueue e d t h m = Some (Ret (Inr \<lparr>qr_id = mg_next m, qr_QPN = qpn\<rparr>,
        created m d t (mg_next m) qpn u True (full_obj u True) (queue_resources (mg_next m) @ mg_live m)))"
    and u: "u = (fresh_queue (mg_Devices m ! d) t qpn h)\<lparr>uq_posted := [0..<32]\<rparr>" and "\<not> initial_post_fails e (mg_Devices m ! d) t h"
  moreover have "queue_ok u" using u fresh_queue_ok by simp
  moreover have "uq_QPN u = qpn" "uq_posted u = [0..<32]" using u by (simp_all add: fresh_queue_def)
  ultimately show ?thesis by (auto simp: created_def full_obj_def)
qed (auto simp: created_def)

text \<open>Shutting the manager down after a failed queue creation panics. When the responder
  queue of a device cannot be created, the sender queue is destroyed but stays in the
  manager's map; Close destroys it again and closes a closed channel.\<close>

theorem Close_after_failed_responder_panics:
  assumes "rn_IsOpen (mg_Devices m ! d)" and "d < length (mg_Devices m)" and "mg_Sender m = []"
    and "CreateUDQueue es d UDQueueTypeSender h m = Some (Ret (Inr ref, m1))"
    and "CreateSenderAndResponderQueues es er d h m = Some (Ret (Inl err, m'))"
  shows "Manager_Close ends m' = Some (Panic ''close of closed channel'')"
proof -
  let ?q = "mg_next m" and ?g = "rn_GID (mg_Devices m ! d)"
  obtain qpn u where ref: "ref = \<lparr>qr_id = ?q, qr_QPN = qpn\<rparr>" and u: "queue_ok u"
    and m1: "m1 = created m d UDQueueTypeSender ?q qpn u True (full_obj u True) (queue_resources ?q @ mg_live m)"
  proof (rule CreateUDQueue_cases[OF assms(1), of es UDQueueTypeSender h])
    fix qpn u
    assume "CreateUDQueue es d UDQueueTypeSender h m = Some (Ret (Inr \<lparr>qr_id = ?q, qr_QPN = qpn\<rparr>,
        created m d UDQueueTypeSender ?q qpn u True (full_obj u True) (queue_resources ?q @ mg_live m)))"
      and "u = (fresh_queue (mg_Devices m ! d) UDQueueTypeSender qpn h)\<lparr>uq_posted := [0..<32]\<rparr>"
    with assms(4) fresh_queue_ok show thesis by (intro that[of qpn u]) auto
  qed (use assms(4) in auto)
  have open1: "rn_IsOpen (mg_Devices m1 ! d)" using assms(1,2) m1 by (simp add: created_def)
  have s1: "mg_Sender m1 = [(?g, ?q)]" "mg_heap m1 ?q = Some (full_obj u True)" "mg_next m1 = Suc ?q"
    using m1 assms(3) by (simp_all add: created_def)
  obtain e2 m2 where m2: "CreateUDQueue er d UDQueueTypeResponder False m1 = Some (Ret (Inl e2, m2))"
      "mg_Sender m2 = [(?g, ?q)]" "mg_heap m2 ?q = Some (full_obj u True)"
  proof (rule CreateUDQueue_cases[OF open1, of er UDQueueTypeResponder False])
    fix e assume "CreateUDQueue er d UDQueueTypeResponder False m1 = Some (Ret (Inl e,
        m1\<lparr>mg_live := if no_base_cq (ce_qp er) then ResCQ (mg_next m1) # mg_live m1 else mg_live m1\<rparr>))"
    from that[OF this] s1 show thesis by simp
  next
    fix e u' ob qpn'
    assume A: "CreateUDQueue er d UDQueueTypeResponder False m1 =
      Some (Ret (Inl e, created m1 d UDQueueTypeResponder (mg_next m1) qpn' u' False ob (mg_live m1)))"
    show thesis by (rule that[OF A]) (simp_all add: created_def s1)
  next
    fix qpn' u'
    assume "CreateUDQueue er d UDQueueTypeResponder False m1 = Some (Ret (Inr \<lparr>qr_id = mg_next m1, qr_QPN = qpn'\<rparr>,
        created m1 d UDQueueTypeResponder (mg_next m1) qpn' u' True (full_obj u' True) (queue_resources (mg_next m1) @ mg_live m1)))"
    with assms(1,4,5) show thesis by (simp add: CreateSenderAndResponderQueues_def Let_def)
  next
    assume "CreateUDQueue er d UDQueueTypeResponder False m1 = None"
    with assms(1,4,5) show thesis by (simp add: CreateSenderAndResponderQueues_def Let_def)
  qed
  have "ce_ends es" using assms(1,4,5) m2(1) ref Destroy_hangs[OF m2(3)] by (cases "ce_ends es") (auto simp: CreateSenderAndResponderQueues_def Let_def)
  with Destroy_full[OF m2(3) u] have "m' = m2\<lparr>mg_heap := (mg_heap m2)(?q := Some (closed_obj u)),
      mg_live := fold remove1 (queue_resources ?q) (mg_live m2)\<rparr>"
    using assms(1,4,5) m2(1) ref by (simp add: CreateSenderAndResponderQueues_def Let_def)
  then have "mg_Sender m' = [(?g, ?q)]" "mg_heap m' ?q = Some (closed_obj u)" using m2 by simp_all
  then show ?thesis by (simp add: Manager_Close_def Destroy_twice)
qed

text \<open>C23: on a manager without queues, creating both queues of a device registers one queue in each
  map. Shutting down then returns exactly when the pollers of both queues end (an event arrives
  for each, see C20); otherwise Close hangs in StopCQPoller. When it returns it has given
  everything back: the maps are empty again and the library holds no resource it did not
  hold before the creation.\<close>

theorem CreateSenderAndResponderQueues_then_Close:
  assumes "rn_IsOpen (mg_Devices m ! d)" and "d < length (mg_Devices m)" and "mg_Sender m = []" "mg_Responder m = []"
    and "CreateSenderAndResponderQueues es er d h m = Some (Ret (Inr (), m'))"
  shows "\<exists>g1 q1 g2 q2. mg_Sender m' = [(g1, q1)] \<and> mg_Responder m' = [(g2, q2)] \<and> q1 \<noteq> q2
    \<and> (if ends q1 \<and> ends q2
       then \<exists>m2. Manager_Close ends m' = Some (Ret m2) \<and> mg_live m2 = mg_live m \<and> mg_Sender m2 = [] \<and> mg_Responder m2 = []
       else Manager_Close ends m' = None)"
proof -
  let ?q = "mg_next m" and ?g = "rn_GID (mg_Devices m ! d)"
  obtain ref m1 where c1: "CreateUDQueue es d UDQueueTypeSender h m = Some (Ret (Inr ref, m1))"
    using assms(1,5) by (auto simp: CreateSenderAndResponderQueues_def Let_def split: option.splits go.splits sum.splits prod.splits)
  obtain qpn u where ref: "ref = \<lparr>qr_id = ?q, qr_QPN = qpn\<rparr>" and u: "queue_ok u"
    and m1: "m1 = created m d UDQueueTypeSender ?q qpn u True (full_obj u True) (queue_resources ?q @ mg_live m)"
  proof (rule CreateUDQueue_cases[OF assms(1), of es UDQueueTypeSender h])
    fix qpn u
    assume "CreateUDQueue es d UDQueueTypeSender h m = Some (Ret (Inr \<lparr>qr_id = ?q, qr_QPN = qpn\<rparr>,
        created m d UDQueueTypeSender ?q qpn u True (full_obj u True) (queue_resources ?q @ mg_live m)))"
      and "u = (fresh_queue (mg_Devices m ! d) UDQueueTypeSender qpn h)\<lparr>uq_posted := [0..<32]\<rparr>"
    with c1 fresh_queue_ok show thesis by (intro that[of qpn u]) auto
  qed (use c1 in auto)
  have s1: "rn_IsOpen (mg_Devices m1 ! d)" "mg_Sender m1 = [(?g, ?q)]" "mg_heap m1 ?q = Some (full_obj u True)" "mg_next m1 = Suc ?q"
      "mg_Responder m1 = []" "mg_live m1 = queue_resources ?q @ mg_live m"
    using assms(1-4) m1 by (simp_all add: created_def)
  obtain rref m2 where c2: "CreateUDQueue er d UDQueueTypeResponder False m1 = Some (Ret (Inr rref, m2))"
    using assms(1,5) c1 s1(1)
    by (auto simp: CreateSenderAndResponderQueues_def Let_def split: option.splits go.splits sum.splits prod.splits)
  obtain g2 u2 where u2: "queue_ok u2" and m2: "mg_Sender m2 = [(?g, ?q)]" "mg_Responder m2 = [(g2, Suc ?q)]"
      "mg_heap m2 ?q = Some (full_obj u True)" "mg_heap m2 (Suc ?q) = Some (full_obj u2 True)"
      "mg_live m2 = queue_resources (Suc ?q) @ queue_resources ?q @ mg_live m"
  proof (rule CreateUDQueue_cases[OF s1(1), of er UDQueueTypeResponder False])
    fix qpn' u'
    assume A: "CreateUDQueue er d UDQueueTypeResponder False m1 = Some (Ret (Inr \<lparr>qr_id = mg_next m1, qr_QPN = qpn'\<rparr>,
        created m1 d UDQueueTypeResponder (mg_next m1) qpn' u' True (full_obj u' True) (queue_resources (mg_next m1) @ mg_live m1)))"
      and B: "u' = (fresh_queue (mg_Devices m1 ! d) UDQueueTypeResponder qpn' False)\<lparr>uq_posted := [0..<32]\<rparr>"
    have "m2 = created m1 d UDQueueTypeResponder (mg_next m1) qpn' u' True (full_obj u' True) (queue_resources (mg_next m1) @ mg_live m1)"
      using A c2 by simp
    with B fresh_queue_ok s1 show thesis
      by (intro that[of u' "rn_GID (mg_Devices m1 ! d)"]) (simp_all add: created_def)
  qed (use c2 in auto)
  let ?b = "\<lambda>ds. m2\<lparr>mg_Devices := ds\<rparr>"
  obtain ds where m': "m' = ?b ds"
    using assms(1,5) c1 c2 by (auto simp: CreateSenderAndResponderQueues_def Let_def)
  have "fold remove1 (queue_resources ?q) (queue_resources (Suc ?q) @ queue_resources ?q @ mg_live m) = queue_resources (Suc ?q) @ mg_live m"
    by (simp add: queue_resources_def qp_resources_def)
  with m' m2 Destroy_full[of m' ?q u, OF _ u]
  have D1: "Destroy True ?q m' = Some (Ret (m'\<lparr>mg_heap := (mg_heap m')(?q := Some (closed_obj u)), mg_live := queue_resources (Suc ?q) @ mg_live m\<rparr>))"
    (is "_ = Some (Ret ?m3)") by simp
  have "mg_heap ?m3 (Suc ?q) = Some (full_obj u2 True)" using m' m2 by simp
  from Destroy_full[OF this u2] have D2: "Destroy True (Suc ?q) ?m3 =
      Some (Ret (?m3\<lparr>mg_heap := (mg_heap ?m3)(Suc ?q := Some (closed_obj u2)), mg_live := mg_live m\<rparr>))"
    by (simp add: fold_remove1_prefix)
  have H1: "Destroy False ?q m' = None" using Destroy_hangs[of m' ?q u] m' m2 by simp
  have H2: "Destroy False (Suc ?q) ?m3 = None" by (rule Destroy_hangs) fact
  have maps: "mg_Sender m' = [(?g, ?q)]" "mg_Responder m' = [(g2, Suc ?q)]" using m' m2 by simp_all
  have "if ends ?q \<and> ends (Suc ?q)
       then \<exists>m2. Manager_Close ends m' = Some (Ret m2) \<and> mg_live m2 = mg_live m \<and> mg_Sender m2 = [] \<and> mg_Responder m2 = []
       else Manager_Close ends m' = None"
  proof (cases "ends ?q")
    case True
    with D1 D2 H2 maps show ?thesis
      by (cases "ends (Suc ?q)") (simp_all add: Manager_Close_def Let_def split: prod.splits)
  next
    case False
    with H1 maps show ?thesis by (simp add: Manager_Close_def)
  qed
  with maps show ?thesis
    by (intro exI[of _ ?g] exI[of _ ?q] exI[of _ g2] exI[of _ "Suc ?q"] conjI) simp_all
qed

subsection \<open>A concrete manager\<close>

definition good_create :: create_env where
  "good_create = \<lparr>ce_qp = \<lparr>qe_channel = True, qe_cq_err = None, qe_base = True, qe_qp = Some 77, qe_init = 0, qe_rtr = 0, qe_rts = 0\<rparr>,
     ce_alloc = \<lparr>al_send = True, al_recv = True, al_send_mr = True, al_recv_mr = True\<rparr>, ce_post = \<lambda>_ _. 0, ce_ends = True\<rparr>"

definition bad_create :: create_env where
  "bad_create = good_create\<lparr>ce_alloc := \<lparr>al_send = True, al_recv = True, al_send_mr = True, al_recv_mr = False\<rparr>\<rparr>"

definition bad_post :: "bool \<Rightarrow> create_env" where
  "bad_post ends = good_create\<lparr>ce_post := \<lambda>_ _. 12, ce_ends := ends\<rparr>"

definition sample_manager :: RDMAManager where
  "sample_manager = \<lparr>mg_Devices = [(new_rnic ''mlx5_0'')\<lparr>rn_IsOpen := True, rn_GID := ''fe80::1''\<rparr>], mg_Sender = [], mg_Responder = [],
     mg_heap = \<lambda>_. None, mg_next = 0, mg_live = [], mg_handles = []\<rparr>"

lemma post_initial_zero: "i + n \<le> uq_NumRecvSlots u \<Longrightarrow> fst (post_initial (\<lambda>_ _. 0) i n u) = None"
  by (induction "(\<lambda>_ _. 0) :: post_ret" i n u rule: post_initial.induct) (simp_all add: PostRecvSlot_def)

lemma good_create_ok:
  assumes "rn_IsOpen (mg_Devices m ! d)" and "d < length (mg_Devices m)"
  shows "\<exists>ref m1. CreateUDQueue good_create d t h m = Some (Ret (Inr ref, m1)) \<and> rn_IsOpen (mg_Devices m1 ! d) \<and> length (mg_Devices m1) = length (mg_Devices m)
    \<and> rn_GID (mg_Devices m1 ! d) = rn_GID (mg_Devices m ! d)"
proof -
  obtain p u where p: "post_initial (\<lambda>_ _. 0) 0 InitialRecvBuffers (fresh_queue (mg_Devices m ! d) t 77 h) = (p, u)" by fastforce
  then have "p = None"
    using post_initial_zero[of 0 InitialRecvBuffers "fresh_queue (mg_Devices m ! d) t 77 h"] by (simp add: fresh_queue_def)
  with p assms show ?thesis
    by (auto simp: CreateUDQueue_def good_create_def createQueuePair_def allocateMemoryResources_def
        modifyQPToInit_def modifyQPToRTR_def modifyQPToRTS_def Let_def split: UDQueueType.splits)
qed

lemma bad_create_fails:
  "rn_IsOpen (mg_Devices m ! d) \<Longrightarrow> \<exists>err m1. CreateUDQueue bad_create d t h m = Some (Ret (Inl err, m1)) \<and> mg_heap m1 = mg_heap m"
  by (simp add: CreateUDQueue_def bad_create_def good_create_def createQueuePair_def allocateMemoryResources_def
        modifyQPToInit_def modifyQPToRTR_def modifyQPToRTS_def Let_def)

lemma good_create_ends [simp]: "ce_ends good_create"
  by (simp add: good_create_def)

lemma sample_manager_open: "rn_IsOpen (mg_Devices sample_manager ! 0)" "0 < length (mg_Devices sample_manager)"
    "mg_Sender sample_manager = []" "mg_Responder sample_manager = []"
  by (simp_all add: sample_manager_def)

theorem CreateUDQueue_resources_witness:
  "(\<exists>err m'. CreateUDQueue bad_create 0 UDQueueTypeSender True sample_manager = Some (Ret (Inl err, m')) \<and> mg_live m' = [])
   \<and> CreateUDQueue (bad_post False) 0 UDQueueTypeSender True sample_manager = None
   \<and> CreateUDQueue (bad_post True) 0 UDQueueTypeSender True sample_manager \<noteq> None"
proof -
  note r = CreateUDQueue_resources[OF sample_manager_open(1)]
  have "setup_succeeds (bad_post b)" for b
    by (simp add: setup_succeeds_def qp_setup_def alloc_setup_def bad_post_def good_create_def)
  moreover have "initial_post_fails (bad_post b) rnic t h" for b rnic t h
    by (simp add: initial_post_fails_def bad_post_def InitialRecvBuffers_def eval_nat_numeral PostRecvSlot_def fresh_queue_def Let_def)
  moreover have "ce_ends (bad_post b) = b" for b by (simp add: bad_post_def)
  moreover have "\<not> no_base_cq (ce_qp bad_create)" "mg_live sample_manager = []"
    by (simp_all add: no_base_cq_def bad_create_def good_create_def sample_manager_def)
  moreover obtain err m1 where "CreateUDQueue bad_create 0 UDQueueTypeSender True sample_manager = Some (Ret (Inl err, m1))"
    using bad_create_fails[OF sample_manager_open(1)] by blast
  ultimately show ?thesis
    using r[of bad_create UDQueueTypeSender True] r[of "bad_post False" UDQueueTypeSender True] r[of "bad_post True" UDQueueTypeSender True] by auto
qed

theorem CreateSenderAndResponderQueues_then_Close_witness:
  "\<exists>m' m2. CreateSenderAndResponderQueues good_create good_create 0 True sample_manager = Some (Ret (Inr (), m'))
     \<and> Manager_Close (\<lambda>_. True) m' = Some (Ret m2) \<and> mg_live m2 = [] \<and> Manager_Close (\<lambda>_. False) m' = None"
proof -
  obtain ref m1 where 1: "CreateUDQueue good_create 0 UDQueueTypeSender True sample_manager = Some (Ret (Inr ref, m1))"
      "rn_IsOpen (mg_Devices m1 ! 0)" "0 < length (mg_Devices m1)"
    using good_create_ok[OF sample_manager_open(1,2)] sample_manager_open(2) by metis
  obtain ref2 m2 where 2: "CreateUDQueue good_create 0 UDQueueTypeResponder False m1 = Some (Ret (Inr ref2, m2))"
    using good_create_ok[OF 1(2,3)] by blast
  obtain m' where m': "CreateSenderAndResponderQueues good_create good_create 0 True sample_manager = Some (Ret (Inr (), m'))"
    using 1 2 sample_manager_open(1) by (simp add: CreateSenderAndResponderQueues_def Let_def)
  note c = CreateSenderAndResponderQueues_then_Close[OF sample_manager_open m']
  from c[of "\<lambda>_. True"] c[of "\<lambda>_. False"]
  have "(\<exists>m2. Manager_Close (\<lambda>_. True) m' = Some (Ret m2) \<and> mg_live m2 = []) \<and> Manager_Close (\<lambda>_. False) m' = None" by (auto simp: sample_manager_def)
  with m' show ?thesis by blast
qed

theorem Close_after_failed_responder_panics_witness:
  "\<exists>err m'. CreateSenderAndResponderQueues good_create bad_create 0 True sample_manager = Some (Ret (Inl err, m'))
     \<and> Manager_Close (\<lambda>_. True) m' = Some (Panic ''close of closed channel'')"
proof -
  obtain ref m1 where 1: "CreateUDQueue good_create 0 UDQueueTypeSender True sample_manager = Some (Ret (Inr ref, m1))"
      "rn_IsOpen (mg_Devices m1 ! 0)"
    using good_create_ok[OF sample_manager_open(1,2)] by blast
  obtain q u where q: "qr_id ref = q" "mg_heap m1 q = Some (full_obj u True)" "queue_ok u"
  proof (rule CreateUDQueue_cases[OF sample_manager_open(1), of good_create UDQueueTypeSender True])
    fix qpn u
    assume "CreateUDQueue good_create 0 UDQueueTypeSender True sample_manager = Some (Ret (Inr \<lparr>qr_id = mg_next sample_manager, qr_QPN = qpn\<rparr>,
        created sample_manager 0 UDQueueTypeSender (mg_next sample_manager) qpn u True (full_obj u True) (queue_resources (mg_next sample_manager) @ mg_live sample_manager)))"
      "u = (fresh_queue (mg_Devices sample_manager ! 0) UDQueueTypeSender qpn True)\<lparr>uq_posted := [0..<32]\<rparr>"
    with 1(1) fresh_queue_ok show thesis by (intro that[of "mg_next sample_manager" u]) (auto simp: created_def)
  qed (use 1(1) in auto)
  obtain e2 m2 where 2: "CreateUDQueue bad_create 0 UDQueueTypeResponder False m1 = Some (Ret (Inl e2, m2))" "mg_heap m2 = mg_heap m1"
    using bad_create_fails[OF 1(2)] by blast
  have "Destroy True q m2 = Some (Ret (m2\<lparr>mg_heap := (mg_heap m2)(q := Some (closed_obj u)), mg_live := fold remove1 (queue_resources q) (mg_live m2)\<rparr>))"
    using Destroy_full[of m2 q u] q 2(2) by simp
  then obtain err m' where c: "CreateSenderAndResponderQueues good_create bad_create 0 True sample_manager = Some (Ret (Inl err, m'))"
    using 1(1) 2(1) q(1) sample_manager_open(1) by (simp add: CreateSenderAndResponderQueues_def Let_def)
  from Close_after_failed_responder_panics[OF sample_manager_open(1-3) 1(1) c] c show ?thesis by blast
qed

end
