(* ===== verification/Agent_State.thy ===== *)
theory Agent_State
  imports Rdma_Manager
begin

text \<open>
  The agent's shared state (internal/state/state.go): the opened RNICs, the maps from GID to
  queue and RNIC, start-up in its two phases and shutdown. Pointers to RNICs are positions
  in the manager's device list; a map that Close has set to nil is None, and assigning to
  it panics.
\<close>

subsection \<open>State\<close>

record AgentState =
  as_agentID :: string
  as_hostName :: string
  as_agentIP :: string
  as_localTorID :: string
  as_rdmaManager :: "RDMAManager option"
  as_primaryRNIC :: "nat option"
  as_detectedRNICs :: "nat list"
  as_senderQueues :: "(string \<times> queue_ref option) list option"
  as_responderQueues :: "(string \<times> queue_ref option) list option"
  as_rnicByGID :: "(string \<times> nat) list option"
  as_gidIndex :: int
  as_ackHandler :: bool

definition DefaultLocalTorID :: string where "DefaultLocalTorID = ''''"

definition NewAgentState :: "string \<Rightarrow> string \<Rightarrow> string \<Rightarrow> int \<Rightarrow> AgentState" where
  "NewAgentState agentID hostName localTorID gidIndex =
     \<lparr>as_agentID = agentID, as_hostName = hostName, as_agentIP = '''', as_localTorID = DefaultLocalTorID,
      as_rdmaManager = None, as_primaryRNIC = None, as_detectedRNICs = [], as_senderQueues = Some [],
      as_responderQueues = Some [], as_rnicByGID = None, as_gidIndex = gidIndex, as_ackHandler = False\<rparr>"

definition SetAckHandler :: "bool \<Rightarrow> AgentState \<Rightarrow> AgentState" where
  "SetAckHandler handler a = a\<lparr>as_ackHandler := handler\<rparr>"

definition SetLocalTorID :: "string \<Rightarrow> AgentState \<Rightarrow> AgentState" where
  "SetLocalTorID torID a = a\<lparr>as_localTorID := torID\<rparr>"

text \<open>The getters read a field under the mutex, so what they return is the field.\<close>

definition GetLocalTorID :: "AgentState \<Rightarrow> string" where
  [simp]: "GetLocalTorID a = as_localTorID a"

definition GetAgentID :: "AgentState \<Rightarrow> string" where
  [simp]: "GetAgentID a = as_agentID a"

definition GetHostName :: "AgentState \<Rightarrow> string" where
  [simp]: "GetHostName a = as_hostName a"

definition GetAgentIP :: "AgentState \<Rightarrow> string" where
  [simp]: "GetAgentIP a = as_agentIP a"

definition GetRDMAManager :: "AgentState \<Rightarrow> RDMAManager option" where
  [simp]: "GetRDMAManager a = as_rdmaManager a"

subsection \<open>Local address\<close>

definition IsLoopback :: "ip_bytes \<Rightarrow> bool" where
  "IsLoopback ip = (case To4 ip of Some v4 \<Rightarrow> v4 ! 0 = 127 | None \<Rightarrow> ip = replicate 15 0 @ [1])"

text \<open>The addresses of all interfaces; None stands for one that is not an IPNet. A result of
  None is Go's nil address without an error.\<close>

fun first_local :: "ip_bytes option list \<Rightarrow> ip_bytes option" where
  "first_local [] = None"
| "first_local (None # as) = first_local as"
| "first_local (Some ip # as) = (if \<not> IsLoopback ip \<and> To4 ip \<noteq> None then Some ip else first_local as)"

definition getLocalIP :: "ip_bytes option list res \<Rightarrow> ip_bytes option res" where
  "getLocalIP addrs = (case addrs of Inl e \<Rightarrow> Inl e | Inr as \<Rightarrow> Inr (first_local as))"

subsection \<open>Start-up\<close>

text \<open>Opening the devices to process, in order: the devices opened and the rest of the state.
  The reply of the library is given per position.\<close>

fun open_loop :: "(nat \<Rightarrow> open_reply) \<Rightarrow> int \<Rightarrow> nat list \<Rightarrow> RNIC list \<Rightarrow> handles \<Rightarrow> nat list \<Rightarrow> (nat list \<times> RNIC list \<times> handles) option" where
  "open_loop rep gi [] ds hs acc = Some (acc, ds, hs)"
| "open_loop rep gi (i # is) ds hs acc =
     (case OpenDevice (rep i) gi (ds ! i) hs of
        None \<Rightarrow> None
      | Some (Inl err, r, hs1) \<Rightarrow> open_loop rep gi is (ds[i := r]) hs1 acc
      | Some (Inr _, r, hs1) \<Rightarrow> open_loop rep gi is (ds[i := r]) hs1 (acc @ [i]))"

definition devices_to_process :: "string list \<Rightarrow> RNIC list \<Rightarrow> nat list" where
  "devices_to_process allowed ds =
     (if length allowed > 0 then filter (\<lambda>i. rn_DeviceName (ds ! i) \<in> set allowed) [0..<length ds] else [0..<length ds])"

definition new_manager :: "RNIC list \<Rightarrow> RDMAManager" where
  "new_manager ds = \<lparr>mg_Devices = ds, mg_Sender = [], mg_Responder = [], mg_heap = \<lambda>_. None, mg_next = 0, mg_live = [], mg_handles = []\<rparr>"

definition InitializeRDMAInfrastructure ::
  "ip_bytes option list res \<Rightarrow> string option list option \<Rightarrow> (nat \<Rightarrow> open_reply) \<Rightarrow> string list \<Rightarrow> AgentState \<Rightarrow> (unit res \<times> AgentState) option" where
  "InitializeRDMAInfrastructure addrs deviceList rep allowed a =
     (case getLocalIP addrs of Inl err \<Rightarrow> Some (Inl err, a)
      | Inr ip \<Rightarrow>
        let a1 = a\<lparr>as_agentIP := IP_String (case ip of None \<Rightarrow> [] | Some x \<Rightarrow> x)\<rparr> in
        (case NewRDMAManager_devices deviceList of Inl err \<Rightarrow> Some (Inl err, a1)
         | Inr ds \<Rightarrow>
           (case open_loop rep (as_gidIndex a1) (devices_to_process allowed ds) ds [] (as_detectedRNICs a1) of
              None \<Rightarrow> None
            | Some (detected, ds1, hs) \<Rightarrow>
              let a2 = a1\<lparr>as_rdmaManager := Some ((new_manager ds1)\<lparr>mg_handles := hs\<rparr>), as_detectedRNICs := detected,
                          as_primaryRNIC := (case as_primaryRNIC a1 of Some p \<Rightarrow> Some p
                             | None \<Rightarrow> (case drop (length (as_detectedRNICs a1)) detected of [] \<Rightarrow> None | p # _ \<Rightarrow> Some p))\<rparr> in
              if length detected = 0 then
                Some (Inl (if length allowed > 0 then ''no RDMA devices available after filtering by allowed names''
                           else ''no RDMA devices found or initialized successfully''), a2)
              else Some (Inr (), a2))))"

text \<open>An assignment to an entry of a map that may be nil.\<close>

definition map_assign :: "'k \<Rightarrow> 'v \<Rightarrow> ('k \<times> 'v) list option \<Rightarrow> ('k \<times> 'v) list option go" where
  "map_assign k v m = (case m of None \<Rightarrow> Panic ''assignment to entry in nil map'' | Some al \<Rightarrow> Ret (Some (AList.update k v al)))"

fun queue_loop :: "(nat \<Rightarrow> create_env \<times> create_env) \<Rightarrow> nat list \<Rightarrow> RDMAManager \<Rightarrow> AgentState \<Rightarrow> (RDMAManager \<times> AgentState) go option" where
  "queue_loop env [] m a = Some (Ret (m, a))"
| "queue_loop env (i # is) m a =
     (case CreateSenderAndResponderQueues (fst (env i)) (snd (env i)) i (as_ackHandler a) m of
        None \<Rightarrow> None
      | Some (Panic p) \<Rightarrow> Some (Panic p)
      | Some (Ret (Inl err, m1)) \<Rightarrow> queue_loop env is m1 a
      | Some (Ret (Inr _, m1)) \<Rightarrow>
        let rnic = mg_Devices m1 ! i in
        (case map_assign (rn_GID rnic) (rn_ProberQueue rnic) (as_senderQueues a) of Panic p \<Rightarrow> Some (Panic p)
         | Ret sq \<Rightarrow> (case map_assign (rn_GID rnic) (rn_ResponderQueue rnic) (as_responderQueues a) of Panic p \<Rightarrow> Some (Panic p)
           | Ret rq \<Rightarrow> (case (if rn_GID rnic \<noteq> '''' then map_assign (rn_GID rnic) i (as_rnicByGID a) else Ret (as_rnicByGID a)) of
                Panic p \<Rightarrow> Some (Panic p)
              | Ret by_gid \<Rightarrow> queue_loop env is m1 (a\<lparr>as_senderQueues := sq, as_responderQueues := rq, as_rnicByGID := by_gid\<rparr>)))))"

definition InitializeUDQueues :: "(nat \<Rightarrow> create_env \<times> create_env) \<Rightarrow> AgentState \<Rightarrow> (unit res \<times> AgentState) go option" where
  "InitializeUDQueues env a =
     (if \<not> as_ackHandler a then Some (Ret (Inl ''ackHandler not set in AgentState'', a))
      else if length (as_detectedRNICs a) = 0 then Some (Ret (Inl ''no detected RNICs to initialize UD queues for'', a))
      else case as_rdmaManager a of None \<Rightarrow> Some (Ret (Inl ''RDMA manager not initialized'', a))
      | Some m \<Rightarrow>
        (case queue_loop env (as_detectedRNICs a) m (a\<lparr>as_rnicByGID := Some []\<rparr>) of
           None \<Rightarrow> None
         | Some (Panic p) \<Rightarrow> Some (Panic p)
         | Some (Ret (m1, a1)) \<Rightarrow> Some (Ret (Inr (), a1\<lparr>as_rdmaManager := Some m1\<rparr>))))"

subsection \<open>Lookups and shutdown\<close>

definition lookup :: "('k \<times> 'v) list option \<Rightarrow> 'k \<Rightarrow> 'v option" where
  "lookup m k = (case m of None \<Rightarrow> None | Some al \<Rightarrow> map_of al k)"

definition GetSenderUDQueue :: "AgentState \<Rightarrow> string \<Rightarrow> queue_ref option" where
  "GetSenderUDQueue a gid = (case lookup (as_senderQueues a) gid of None \<Rightarrow> None | Some q \<Rightarrow> q)"

definition GetResponderUDQueue :: "AgentState \<Rightarrow> string \<Rightarrow> queue_ref option" where
  "GetResponderUDQueue a gid = (case lookup (as_responderQueues a) gid of None \<Rightarrow> None | Some q \<Rightarrow> q)"

definition rnic_at :: "AgentState \<Rightarrow> nat \<Rightarrow> RNIC option" where
  "rnic_at a i = map_option (\<lambda>m. mg_Devices m ! i) (as_rdmaManager a)"

definition GetRnicByGID :: "AgentState \<Rightarrow> string \<Rightarrow> RNIC option" where
  "GetRnicByGID a gid = (case lookup (as_rnicByGID a) gid of None \<Rightarrow> None | Some i \<Rightarrow> rnic_at a i)"

fun find_rnic :: "string \<Rightarrow> RNIC list \<Rightarrow> RNIC option" where
  "find_rnic ipAddress [] = None"
| "find_rnic ipAddress (rnic # rnics) =
     (if rn_IPAddr rnic = ipAddress then Some rnic
      else case ParseIP (rn_GID rnic) of
        None \<Rightarrow> find_rnic ipAddress rnics
      | Some parsed \<Rightarrow>
          if IP_String parsed = ipAddress then Some rnic
          else (case To4 parsed of Some ipv4 \<Rightarrow> if IP_String ipv4 = ipAddress then Some rnic else find_rnic ipAddress rnics
                | None \<Rightarrow> find_rnic ipAddress rnics))"

definition FindRNICByIP :: "AgentState \<Rightarrow> string \<Rightarrow> RNIC option" where
  "FindRNICByIP a ipAddress =
     (case as_rdmaManager a of None \<Rightarrow> None
      | Some m \<Rightarrow> find_rnic ipAddress (map (\<lambda>i. mg_Devices m ! i) (as_detectedRNICs a)))"

definition AgentState_Close :: "(nat \<Rightarrow> bool) \<Rightarrow> AgentState \<Rightarrow> AgentState go option" where
  "AgentState_Close ends a =
     (let cleared = a\<lparr>as_rdmaManager := None, as_primaryRNIC := None, as_detectedRNICs := [], as_senderQueues := None,
                      as_responderQueues := None, as_rnicByGID := None\<rparr> in
      case as_rdmaManager a of None \<Rightarrow> Some (Ret cleared)
      | Some m \<Rightarrow> (case Manager_Close ends m of None \<Rightarrow> None | Some (Panic p) \<Rightarrow> Some (Panic p) | Some (Ret _) \<Rightarrow> Some (Ret cleared)))"

subsection \<open>Devices after start-up\<close>

lemma OpenDevice_ok_open: "OpenDevice e gi r hs = Some (Inr x, r', hs') \<Longrightarrow> rn_IsOpen r' \<and> rn_DeviceName r' = rn_DeviceName r"
  by (auto simp: OpenDevice_def Let_def split: if_splits option.splits prod.splits)

lemma OpenDevice_name: "OpenDevice e gi r hs = Some (x, r', hs') \<Longrightarrow> rn_DeviceName r' = rn_DeviceName r"
  by (auto simp: OpenDevice_def releaseDeviceResources_def Let_def split: if_splits option.splits prod.splits)

lemma open_loop_spec:
  "open_loop rep gi is ds hs acc = Some (acc', ds', hs') \<Longrightarrow> distinct is \<Longrightarrow> set is \<subseteq> {..<length ds} \<Longrightarrow> set acc \<inter> set is = {} \<Longrightarrow>
   \<forall>i \<in> set acc. i < length ds \<and> rn_IsOpen (ds ! i) \<Longrightarrow>
   length ds' = length ds \<and> (\<forall>i < length ds. rn_DeviceName (ds' ! i) = rn_DeviceName (ds ! i))
     \<and> (\<forall>i \<in> set acc'. i < length ds \<and> rn_IsOpen (ds' ! i) \<and> i \<in> set acc \<union> set is)"
proof (induction "is" arbitrary: ds hs acc)
  case (Cons i "is")
  note prems = Cons.prems
  obtain r d1 hs1 where o: "OpenDevice (rep i) gi (ds ! i) hs = Some (r, d1, hs1)"
    using prems(1) by (cases "OpenDevice (rep i) gi (ds ! i) hs") auto
  note name = OpenDevice_name[OF o]
  have names: "rn_DeviceName (ds[i := d1] ! j) = rn_DeviceName (ds ! j)" if "j < length ds" for j
    using name that prems(3) by (cases "j = i") auto
  show ?case
  proof (cases r)
    case (Inl err)
    have pre: "\<forall>j \<in> set acc. j < length (ds[i := d1]) \<and> rn_IsOpen (ds[i := d1] ! j)"
      using prems(3-5) by (auto simp: nth_list_update)
    have "open_loop rep gi is (ds[i := d1]) hs1 acc = Some (acc', ds', hs')" using prems(1) o Inl by simp
    from Cons.IH[OF this] pre prems(2-4) names show ?thesis by auto
  next
    case (Inr x)
    have "rn_IsOpen d1" using OpenDevice_ok_open o Inr by blast
    then have pre: "\<forall>j \<in> set (acc @ [i]). j < length (ds[i := d1]) \<and> rn_IsOpen (ds[i := d1] ! j)"
      using prems(3-5) by (auto simp: nth_list_update)
    have "open_loop rep gi is (ds[i := d1]) hs1 (acc @ [i]) = Some (acc', ds', hs')" using prems(1) o Inr by simp
    from Cons.IH[OF this] pre prems(2-4) names show ?thesis by auto
  qed
qed auto

lemma devices_to_process_props:
  "distinct (devices_to_process allowed ds)" "set (devices_to_process allowed ds) \<subseteq> {..<length ds}"
  "i \<in> set (devices_to_process allowed ds) \<Longrightarrow> allowed = [] \<or> rn_DeviceName (ds ! i) \<in> set allowed"
  by (auto simp: devices_to_process_def split: if_splits)

definition detected_ok :: "string list \<Rightarrow> AgentState \<Rightarrow> bool" where
  "detected_ok allowed a \<longleftrightarrow> (\<exists>m. as_rdmaManager a = Some m \<and> as_detectedRNICs a \<noteq> [] \<and>
     (\<forall>i \<in> set (as_detectedRNICs a). i < length (mg_Devices m) \<and> rn_IsOpen (mg_Devices m ! i)
        \<and> (allowed = [] \<or> rn_DeviceName (mg_Devices m ! i) \<in> set allowed)))"

text \<open>When the agent's RDMA start-up succeeds on a fresh state, at least one device is
  detected, every detected device is open, and with an allow list each of them has an
  allowed name.\<close>

theorem InitializeRDMAInfrastructure_detected:
  assumes "InitializeRDMAInfrastructure addrs devs rep allowed a = Some (Inr (), a')" and "as_detectedRNICs a = []"
  shows "detected_ok allowed a'"
proof -
  obtain ds det ds1 hs where
    o: "open_loop rep (as_gidIndex a) (devices_to_process allowed ds) ds [] [] = Some (det, ds1, hs)"
    and a': "as_rdmaManager a' = Some ((new_manager ds1)\<lparr>mg_handles := hs\<rparr>)" "as_detectedRNICs a' = det" "det \<noteq> []"
    using assms by (auto simp: InitializeRDMAInfrastructure_def Let_def split: sum.splits option.splits prod.splits if_splits)
  from open_loop_spec[OF o devices_to_process_props(1,2)]
  have "length ds1 = length ds" "\<forall>i<length ds. rn_DeviceName (ds1 ! i) = rn_DeviceName (ds ! i)"
    "\<forall>i \<in> set det. i < length ds \<and> rn_IsOpen (ds1 ! i) \<and> i \<in> set (devices_to_process allowed ds)" by auto
  with a' devices_to_process_props(3) show ?thesis by (auto simp: detected_ok_def new_manager_def)
qed

subsection \<open>The maps after queue creation\<close>

lemma Destroy_devices: "Destroy ends q m = Some (Ret m') \<Longrightarrow> mg_Devices m' = mg_Devices m"
  by (auto simp: Destroy_def chan_close_def Let_def split: option.splits if_splits)

lemma CreateUDQueue_length: "CreateUDQueue e d t h m = Some (Ret (r, m')) \<Longrightarrow> length (mg_Devices m') = length (mg_Devices m)"
  by (auto simp: CreateUDQueue_def Let_def dest: Destroy_devices
      split: if_splits sum.splits option.splits prod.splits go.splits)

lemma CreateSenderAndResponderQueues_ok:
  assumes "CreateSenderAndResponderQueues es er d h m = Some (Ret (r, m'))"
  shows "length (mg_Devices m') = length (mg_Devices m)"
    and "r = Inr () \<Longrightarrow> d < length (mg_Devices m) \<Longrightarrow>
      (\<exists>s t. rn_ProberQueue (mg_Devices m' ! d) = Some s \<and> rn_ResponderQueue (mg_Devices m' ! d) = Some t)"
proof -
  show "length (mg_Devices m') = length (mg_Devices m)"
    using assms
    by (auto simp: CreateSenderAndResponderQueues_def Let_def dest!: Destroy_devices CreateUDQueue_length
        split: if_splits sum.splits option.splits prod.splits go.splits)
  show "\<exists>s t. rn_ProberQueue (mg_Devices m' ! d) = Some s \<and> rn_ResponderQueue (mg_Devices m' ! d) = Some t"
    if "r = Inr ()" "d < length (mg_Devices m)"
    using assms that
    by (auto simp: CreateSenderAndResponderQueues_def Let_def dest!: CreateUDQueue_length
        split: if_splits sum.splits option.splits prod.splits go.splits)
qed

definition maps_ok :: "nat set \<Rightarrow> AgentState \<Rightarrow> bool" where
  "maps_ok D a \<longleftrightarrow> (\<forall>g i. lookup (as_rnicByGID a) g = Some i \<longrightarrow>
     i \<in> D \<and> GetSenderUDQueue a g \<noteq> None \<and> GetResponderUDQueue a g \<noteq> None)"

lemma lookup_assign: "map_assign k v m = Ret m' \<Longrightarrow> lookup m' k' = (if k' = k then Some v else lookup m k')"
  by (auto simp: map_assign_def lookup_def store_simps split: option.splits)

lemma queue_loop_maps:
  "queue_loop env is m a = Some (Ret (m', a')) \<Longrightarrow> maps_ok D a \<Longrightarrow> set is \<subseteq> D \<Longrightarrow> set is \<subseteq> {..<length (mg_Devices m)} \<Longrightarrow> maps_ok D a'"
proof (induction "is" arbitrary: m a)
  case (Cons i "is")
  note prems = Cons.prems
  obtain r m1 where c: "CreateSenderAndResponderQueues (fst (env i)) (snd (env i)) i (as_ackHandler a) m = Some (Ret (r, m1))"
    using prems(1) by (auto split: option.splits go.splits)
  note C = CreateSenderAndResponderQueues_ok[OF c]
  show ?case
  proof (cases r)
    case (Inl err)
    with Cons.IH[of m1 a] prems c C(1) show ?thesis by simp
  next
    case (Inr x)
    let ?rnic = "mg_Devices m1 ! i"
    obtain s t where st: "rn_ProberQueue ?rnic = Some s" "rn_ResponderQueue ?rnic = Some t"
      using C(2) Inr prems(4) by auto
    obtain sq rq bg where q: "map_assign (rn_GID ?rnic) (Some s) (as_senderQueues a) = Ret sq"
      "map_assign (rn_GID ?rnic) (Some t) (as_responderQueues a) = Ret rq"
      "(if rn_GID ?rnic \<noteq> '''' then map_assign (rn_GID ?rnic) i (as_rnicByGID a) else Ret (as_rnicByGID a)) = Ret bg"
      and rest: "queue_loop env is m1 (a\<lparr>as_senderQueues := sq, as_responderQueues := rq, as_rnicByGID := bg\<rparr>) = Some (Ret (m', a'))"
      using prems(1) c Inr st by (auto simp: Let_def split: go.splits)
    let ?a = "a\<lparr>as_senderQueues := sq, as_responderQueues := rq, as_rnicByGID := bg\<rparr>"
    have bg: "(k = rn_GID ?rnic \<and> j = i) \<or> lookup (as_rnicByGID a) k = Some j" if "lookup bg k = Some j" for k j
      using that q(3) lookup_assign[of "rn_GID ?rnic" i "as_rnicByGID a" bg k] by (auto split: if_splits)
    have "GetSenderUDQueue ?a k = (if k = rn_GID ?rnic then Some s else GetSenderUDQueue a k)"
      "GetResponderUDQueue ?a k = (if k = rn_GID ?rnic then Some t else GetResponderUDQueue a k)" for k
      using lookup_assign[OF q(1), of k] lookup_assign[OF q(2), of k]
      by (simp_all add: GetSenderUDQueue_def GetResponderUDQueue_def)
    with bg prems(2,3) have "maps_ok D ?a" by (fastforce simp: maps_ok_def)
    with Cons.IH[OF rest] prems(3,4) C(1) show ?thesis by simp
  qed
qed simp

text \<open>C24: after the queues have been created, every RNIC that can be found by its GID is a
  detected one and has both a sender and a responder queue under that GID.\<close>

theorem InitializeUDQueues_maps:
  assumes "detected_ok allowed a" and "InitializeUDQueues env a = Some (Ret (Inr (), a'))" and "lookup (as_rnicByGID a') g = Some i"
  shows "i \<in> set (as_detectedRNICs a) \<and> GetSenderUDQueue a' g \<noteq> None \<and> GetResponderUDQueue a' g \<noteq> None"
proof -
  obtain m m1 a1 where m: "as_rdmaManager a = Some m"
    and q: "queue_loop env (as_detectedRNICs a) m (a\<lparr>as_rnicByGID := Some []\<rparr>) = Some (Ret (m1, a1))"
    and a': "a' = a1\<lparr>as_rdmaManager := Some m1\<rparr>"
    using assms(2) by (auto simp: InitializeUDQueues_def split: if_splits option.splits go.splits)
  have "maps_ok (set (as_detectedRNICs a)) (a\<lparr>as_rnicByGID := Some []\<rparr>)" by (simp add: maps_ok_def lookup_def)
  from queue_loop_maps[OF q this] assms(1) m have "maps_ok (set (as_detectedRNICs a)) a1" by (auto simp: detected_ok_def)
  with assms(3) a' show ?thesis by (simp add: maps_ok_def GetSenderUDQueue_def GetResponderUDQueue_def)
qed

subsection \<open>A concrete start-up\<close>

lemma sample_open_ok: "\<exists>r hs. OpenDevice sample_open 3 (new_rnic n) [] = Some (Inr (), r, hs)"
proof -
  have z: "\<not> isZeroGid (mapped4 10 0 0 1)" by (simp add: isZeroGid_def mapped4_def)
  have "port_loop (or_port sample_open) 2 1 = Some (Some (2, mapped4 10 0 0 1))"
    by (simp add: port_loop.simps[of _ 2 1] port_loop.simps[of _ 2 2] sample_open_def usable_gid_def z)
  then show ?thesis by (simp add: OpenDevice_def sample_open_def new_rnic_def releaseDeviceResources_undo Let_def)
qed

theorem InitializeRDMAInfrastructure_detected_witness:
  "\<exists>a'. InitializeRDMAInfrastructure (Inr [Some [10, 0, 0, 9]]) (Some [Some ''mlx5_0'', Some ''eth1'']) (\<lambda>_. sample_open) [''mlx5_0'']
      (NewAgentState ''a'' ''h'' ''t'' 3) = Some (Inr (), a') \<and> detected_ok [''mlx5_0''] a'"
proof -
  obtain r hs where o: "OpenDevice sample_open 3 (new_rnic ''mlx5_0'') [] = Some (Inr (), r, hs)" using sample_open_ok by blast
  have "devices_to_process [''mlx5_0''] [new_rnic ''mlx5_0'', new_rnic ''eth1''] = [0]"
    by (simp add: devices_to_process_def new_rnic_def upt_rec)
  then obtain a' where "InitializeRDMAInfrastructure (Inr [Some [10, 0, 0, 9]]) (Some [Some ''mlx5_0'', Some ''eth1'']) (\<lambda>_. sample_open) [''mlx5_0'']
      (NewAgentState ''a'' ''h'' ''t'' 3) = Some (Inr (), a')"
    using o by (simp add: InitializeRDMAInfrastructure_def getLocalIP_def NewRDMAManager_devices_def NewAgentState_def Let_def)
  moreover from InitializeRDMAInfrastructure_detected[OF this] have "detected_ok [''mlx5_0''] a'" by (simp add: NewAgentState_def)
  ultimately show ?thesis by blast
qed

definition sample_agent :: AgentState where
  "sample_agent = (NewAgentState ''a'' ''h'' ''t'' 3)\<lparr>as_rdmaManager := Some sample_manager, as_detectedRNICs := [0], as_ackHandler := True\<rparr>"

lemma sample_manager_gid: "rn_GID (mg_Devices sample_manager ! 0) = ''fe80::1''"
  by (simp add: sample_manager_def)

theorem InitializeUDQueues_maps_witness:
  "\<exists>a'. InitializeUDQueues (\<lambda>_. (good_create, good_create)) sample_agent = Some (Ret (Inr (), a')) \<and> GetSenderUDQueue a' ''fe80::1'' \<noteq> None"
proof -
  obtain ref m1 where 1: "CreateUDQueue good_create 0 UDQueueTypeSender True sample_manager = Some (Ret (Inr ref, m1))"
      "rn_IsOpen (mg_Devices m1 ! 0)" "0 < length (mg_Devices m1)" "rn_GID (mg_Devices m1 ! 0) = ''fe80::1''"
    using good_create_ok[OF sample_manager_open(1,2), of UDQueueTypeSender True] sample_manager_open(2) sample_manager_gid by metis
  obtain ref2 m2 where 2: "CreateUDQueue good_create 0 UDQueueTypeResponder False m1 = Some (Ret (Inr ref2, m2))"
      "rn_GID (mg_Devices m2 ! 0) = ''fe80::1''" "0 < length (mg_Devices m2)"
    using good_create_ok[OF 1(2,3), of UDQueueTypeResponder False] 1(3,4) by metis
  obtain a' where a': "InitializeUDQueues (\<lambda>_. (good_create, good_create)) sample_agent = Some (Ret (Inr (), a'))"
      "lookup (as_rnicByGID a') ''fe80::1'' = Some 0"
    using 1 2 sample_manager_open(1)
    by (simp add: InitializeUDQueues_def sample_agent_def NewAgentState_def CreateSenderAndResponderQueues_def map_assign_def lookup_def Let_def)
  have "detected_ok [] sample_agent" by (simp add: detected_ok_def sample_agent_def sample_manager_def)
  from InitializeUDQueues_maps[OF this a'] a'(1) show ?thesis by blast
qed

end
