(* ===== verification/Proto.thy ===== *)
theory Proto
  imports Go_Base
begin

text \<open>
  The messages of the protocol between agent, controller and analyzer
  (proto/controller_agent, proto/agent_analyzer), one record per message with the
  fields of the generated Go structs. A pointer to a message that may be nil is an
  option.
\<close>

subsection \<open>Agent and controller\<close>

record RnicInfo =
  ri_Gid :: string
  ri_Qpn :: u32
  ri_IpAddress :: string
  ri_HostName :: string
  ri_TorId :: string
  ri_DeviceName :: string

text \<open>An open enum: the wire may carry any int32.\<close>

datatype PinglistType = TOR_MESH | INTER_TOR | PinglistType_Other int

record AgentRegistrationRequest =
  arq_AgentId :: string
  arq_AgentIp :: string
  arq_Rnics :: "RnicInfo list"

record AgentRegistrationResponse =
  arp_Success :: bool
  arp_Message :: string

record PinglistRequest =
  plq_RequesterRnic :: "RnicInfo option"
  plq_Type :: PinglistType

record ProtoPingTarget =
  ppt_TargetRnic :: "RnicInfo option"
  ppt_SourceRnic :: "RnicInfo option"
  ppt_SourcePort :: u32
  ppt_FlowLabel :: u32
  ppt_Priority :: u32

record PinglistResponse =
  plp_Targets :: "ProtoPingTarget list"
  plp_ProbeIntervalMs :: u32
  plp_TimeoutMs :: u32

record TargetRnicInfoRequest =
  trq_TargetIp :: string
  trq_TargetGid :: string

record TargetRnicInfoResponse =
  trp_Success :: bool
  trp_Message :: string
  trp_TargetRnic :: "RnicInfo option"

subsection \<open>Agent and analyzer\<close>

record RnicIdentifier =
  rid_Gid :: string
  rid_Qpn :: u32
  rid_IpAddress :: string
  rid_HostName :: string
  rid_TorId :: string
  rid_DeviceName :: string

record ProbeFiveTuple =
  ft_SrcGid :: string
  ft_SrcQpn :: u32
  ft_DstGid :: string
  ft_DstQpn :: u32
  ft_FlowLabel :: u32

datatype ProbeStatus = STATUS_OK | STATUS_TIMEOUT | STATUS_ERROR | STATUS_UNKNOWN

record ProbeResult =
  pr_SourceRnic :: RnicIdentifier
  pr_DestinationRnic :: RnicIdentifier
  pr_T1 :: "gtime option"
  pr_T2 :: "gtime option"
  pr_T3 :: "gtime option"
  pr_T4 :: "gtime option"
  pr_T5 :: "gtime option"
  pr_T6 :: "gtime option"
  pr_NetworkRtt :: int
  pr_ProberDelay :: int
  pr_ResponderDelay :: int
  pr_Status :: ProbeStatus
  pr_FiveTuple :: ProbeFiveTuple
  pr_ProbeType :: string

record PathHop =
  hop_IpAddress :: string
  hop_RttNs :: int

record PathInfo =
  pi_FiveTuple :: ProbeFiveTuple
  pi_Hops :: "PathHop list"
  pi_Timestamp :: gtime

record UploadDataRequest =
  ud_AgentId :: string
  ud_ProbeResults :: "ProbeResult option list"
  ud_PathInfos :: "PathInfo option list"

record UploadDataResponse =
  udr_Success :: bool
  udr_Message :: string

end
