(* ===== verification/Prober.thy ===== *)
theory Prober
  imports Agent_State Proto
begin

text \<open>
  The prober (internal/probe/prober.go, internal/probe/types.go): probe sessions and their two
  indices, one probe from its start over the wait for the two ACKs to its result, dispatch of
  incoming ACKs to sessions, clean-up of expired sessions, and the responder. Session objects
  live in a heap (a list, addressed by position), since the session map, a waiting probe and
  an ACK handler share them. ProbeTarget is given as its phases; the theory of concurrent
  runs composes them with the handler's steps in between.
\<close>

subsection \<open>Data\<close>

definition ProbeTypeTorMesh :: string where "ProbeTypeTorMesh = ''TOR_MESH''"
definition ProbeTypeInterTor :: string where "ProbeTypeInterTor = ''INTER_TOR''"
definition ProbeTypeServiceTracing :: string where "ProbeTypeServiceTracing = ''SERVICE_TRACING''"

record ServiceFlowTuple =
  sf_SrcGID :: string
  sf_SrcQPN :: u32
  sf_DstGID :: string
  sf_DstQPN :: u32
  sf_FlowLabel :: u32

record PingTarget =
  pt_GID :: string
  pt_QPN :: u32
  pt_IPAddress :: string
  pt_HostName :: string
  pt_TorID :: string
  pt_DeviceName :: string
  pt_SourceRnicGID :: string
  pt_SourceRnicQPN :: u32
  pt_SourceRnicIP :: string
  pt_SourceHostName :: string
  pt_SourceTorID :: string
  pt_SourceDeviceName :: string
  pt_SourcePort :: u32
  pt_FlowLabel :: u32
  pt_Priority :: u32
  pt_ServiceFlowTuple :: "ServiceFlowTuple option"
  pt_ProbeType :: string

record ackEvent =
  ae_Packet :: ProbePacket
  ae_ReceivedAt :: gtime
  ae_WorkComp :: ProcessedWorkCompletion

text \<open>sn_closed: the channel \<^verbatim>\<open>closed\<close> is closed, which closeOnce does together with the two
  ACK channels, and nothing else closes them.\<close>

record PingSession =
  sn_SessionKey :: string
  sn_FlowLabel :: u32
  sn_SequenceNum :: u64
  sn_SourceRnicGid :: string
  sn_TargetGid :: string
  sn_ProbeType :: string
  sn_Ack1Chan :: "ackEvent gchan"
  sn_Ack2Chan :: "ackEvent gchan"
  sn_CreationTime :: gtime
  sn_closed :: bool

record probe_stats =
  st_SessionsCreated :: u64
  st_SessionsFoundByFlow :: u64
  st_SessionsFoundBySeqNum :: u64
  st_SessionsNotFound :: u64
  st_AckTimeouts :: u64
  st_SuccessfulProbes :: u64
  st_FailedProbes :: u64
  st_SessionCleanups :: u64

record Prober =
  pb_agentState :: AgentState
  pb_probeResults :: "ProbeResult gchan"
  pb_stopped :: bool
  pb_heap :: "PingSession list"
  pb_sessions :: "(string \<times> nat) list"
  pb_seqNumIndex :: "(u64 \<times> string) list"
  pb_nextSeqNum :: u64
  pb_stats :: probe_stats
  pb_serviceFlowTargets :: "PingTarget option list"

definition probeResultChanBufferSize :: nat where "probeResultChanBufferSize = 1000"
definition sessionTimeout :: duration where "sessionTimeout = 5 * 60 * 1000000000"

definition zero_stats :: probe_stats where
  "zero_stats = \<lparr>st_SessionsCreated = 0, st_SessionsFoundByFlow = 0, st_SessionsFoundBySeqNum = 0, st_SessionsNotFound = 0,
     st_AckTimeouts = 0, st_SuccessfulProbes = 0, st_FailedProbes = 0, st_SessionCleanups = 0\<rparr>"

definition NewProber :: "AgentState \<Rightarrow> Prober" where
  "NewProber a = \<lparr>pb_agentState = a, pb_probeResults = chan_make probeResultChanBufferSize, pb_stopped = False, pb_heap = [],
     pb_sessions = [], pb_seqNumIndex = [], pb_nextSeqNum = 0, pb_stats = zero_stats, pb_serviceFlowTargets = []\<rparr>"

definition UpdateServiceFlowTargets :: "PingTarget option list \<Rightarrow> Prober \<Rightarrow> Prober" where
  "UpdateServiceFlowTargets targets p = p\<lparr>pb_serviceFlowTargets := targets\<rparr>"

definition upd_stats :: "(probe_stats \<Rightarrow> probe_stats) \<Rightarrow> Prober \<Rightarrow> Prober" where
  "upd_stats f p = p\<lparr>pb_stats := f (pb_stats p)\<rparr>"

definition GetDiagnosticStats :: "Prober \<Rightarrow> (string \<times> u64) list" where
  "GetDiagnosticStats p = (let s = pb_stats p in
     [(''sessions_created'', st_SessionsCreated s), (''sessions_found_by_flow'', st_SessionsFoundByFlow s),
      (''sessions_found_by_seq_num'', st_SessionsFoundBySeqNum s), (''sessions_not_found'', st_SessionsNotFound s),
      (''ack_timeouts'', st_AckTimeouts s), (''successful_probes'', st_SuccessfulProbes s),
      (''failed_probes'', st_FailedProbes s), (''session_cleanups'', st_SessionCleanups s)])"

text \<open>The queues whose responder loops Start launches, one per detected RNIC that has one.\<close>

definition Start_responders :: "Prober \<Rightarrow> queue_ref list" where
  "Start_responders p = (let a = pb_agentState p in
     case as_rdmaManager a of None \<Rightarrow> []
     | Some m \<Rightarrow> List.map_filter (\<lambda>i. GetResponderUDQueue a (rn_GID (mg_Devices m ! i))) (as_detectedRNICs a))"

subsection \<open>Sessions\<close>

definition generateSessionKey :: "string \<Rightarrow> string \<Rightarrow> u64 \<Rightarrow> string" where
  "generateSessionKey sourceGid targetGid seqNum = sourceGid @ ''->'' @ targetGid @ '':'' @ dec_string (unat seqNum)"

text \<open>addSession of a session object: its address is the next free position of the heap.\<close>

definition addSession :: "PingSession \<Rightarrow> Prober \<Rightarrow> Prober" where
  "addSession session p = upd_stats (\<lambda>s. s\<lparr>st_SessionsCreated := st_SessionsCreated s + 1\<rparr>)
     (p\<lparr>pb_heap := pb_heap p @ [session], pb_sessions := AList.update (sn_SessionKey session) (length (pb_heap p)) (pb_sessions p),
        pb_seqNumIndex := AList.update (sn_SequenceNum session) (sn_SessionKey session) (pb_seqNumIndex p)\<rparr>)"

definition close_session :: "PingSession \<Rightarrow> PingSession" where
  "close_session s = (if sn_closed s then s
     else s\<lparr>sn_closed := True, sn_Ack1Chan := (sn_Ack1Chan s)\<lparr>ch_closed := True\<rparr>, sn_Ack2Chan := (sn_Ack2Chan s)\<lparr>ch_closed := True\<rparr>\<rparr>)"

definition removeSession :: "string \<Rightarrow> Prober \<Rightarrow> Prober" where
  "removeSession sessionKey p =
     (case map_of (pb_sessions p) sessionKey of None \<Rightarrow> p
      | Some i \<Rightarrow> let session = pb_heap p ! i in
          p\<lparr>pb_sessions := AList.delete sessionKey (pb_sessions p),
            pb_seqNumIndex := AList.delete (sn_SequenceNum session) (pb_seqNumIndex p),
            pb_heap := (pb_heap p)[i := close_session session]\<rparr>)"

definition getSession :: "Prober \<Rightarrow> string \<Rightarrow> nat option" where
  "getSession p sessionKey = map_of (pb_sessions p) sessionKey"

text \<open>Range over the session map, stopping at the first session that satisfies a test.\<close>

fun range_find :: "(PingSession \<Rightarrow> bool) \<Rightarrow> PingSession list \<Rightarrow> (string \<times> nat) list \<Rightarrow> nat option" where
  "range_find P hp [] = None"
| "range_find P hp ((k, i) # m) = (if P (hp ! i) then Some i else range_find P hp m)"

definition getSessionByFlowLabel :: "Prober \<Rightarrow> u32 \<Rightarrow> nat option" where
  "getSessionByFlowLabel p flowLabel = range_find (\<lambda>s. sn_FlowLabel s = flowLabel) (pb_heap p) (pb_sessions p)"

definition findSessionByPacketInfo :: "Prober \<Rightarrow> u64 \<Rightarrow> string \<Rightarrow> nat option" where
  "findSessionByPacketInfo p seqNum sourceGid =
     (let linear = range_find (\<lambda>s. sn_SequenceNum s = seqNum \<and> sn_TargetGid s = sourceGid) (pb_heap p) (pb_sessions p) in
      case map_of (pb_seqNumIndex p) seqNum of None \<Rightarrow> linear
      | Some sessionKey \<Rightarrow> (case getSession p sessionKey of None \<Rightarrow> linear
          | Some i \<Rightarrow> if sn_TargetGid (pb_heap p ! i) = sourceGid then Some i else linear))"

definition cleanupExpiredSessions :: "gtime \<Rightarrow> Prober \<Rightarrow> Prober" where
  "cleanupExpiredSessions now p =
     (let expiredKeys = map fst (filter (\<lambda>(k, i). time_sub now (sn_CreationTime (pb_heap p ! i)) > sessionTimeout) (pb_sessions p));
          p1 = fold removeSession expiredKeys p in
      if length expiredKeys > 0
      then upd_stats (\<lambda>s. s\<lparr>st_SessionCleanups := st_SessionCleanups s + of_nat (length expiredKeys)\<rparr>) p1 else p1)"

subsection \<open>Incoming ACKs\<close>

text \<open>The first half of HandleIncomingRDMAPacket: which session the ACK is for.\<close>

definition lookup_ack :: "IncomingAckInfo \<Rightarrow> Prober \<Rightarrow> nat option \<times> Prober" where
  "lookup_ack ackInfo p =
     (case getSessionByFlowLabel p (pw_FlowLabel (ai_ProcessedWC ackInfo)) of
        Some i \<Rightarrow> (Some i, upd_stats (\<lambda>s. s\<lparr>st_SessionsFoundByFlow := st_SessionsFoundByFlow s + 1\<rparr>) p)
      | None \<Rightarrow>
        (case findSessionByPacketInfo p (pp_SequenceNum (ai_Packet ackInfo)) (pw_SGID (ai_ProcessedWC ackInfo)) of
           Some i \<Rightarrow> (Some i, upd_stats (\<lambda>s. s\<lparr>st_SessionsFoundBySeqNum := st_SessionsFoundBySeqNum s + 1\<rparr>) p)
         | None \<Rightarrow> (None, upd_stats (\<lambda>s. s\<lparr>st_SessionsNotFound := st_SessionsNotFound s + 1\<rparr>) p)))"

text \<open>
  The second half: delivery to the session found. The select has a case that receives from
  the session's closed channel and a case that sends to the ACK channel. When the session is
  closed both are ready and the runtime picks one: \<open>pick_send\<close> says which.
\<close>

definition deliver_ack :: "bool \<Rightarrow> nat \<Rightarrow> IncomingAckInfo \<Rightarrow> Prober \<Rightarrow> Prober go" where
  "deliver_ack pick_send i ackInfo p =
     (let session = pb_heap p ! i;
          probeEvent = \<lparr>ae_Packet = ai_Packet ackInfo, ae_ReceivedAt = ai_ReceivedAt ackInfo, ae_WorkComp = ai_ProcessedWC ackInfo\<rparr> in
      if \<not> ai_AckStatusOK ackInfo then Ret p
      else if pp_AckType (ai_Packet ackInfo) = 1 then
        if sn_closed session \<and> \<not> pick_send then Ret p
        else go_bind (nb_send (sn_Ack1Chan session) probeEvent) (\<lambda>ch. Ret (p\<lparr>pb_heap := (pb_heap p)[i := session\<lparr>sn_Ack1Chan := ch\<rparr>]\<rparr>))
      else if pp_AckType (ai_Packet ackInfo) = 2 then
        if sn_closed session \<and> \<not> pick_send then Ret p
        else go_bind (nb_send (sn_Ack2Chan session) probeEvent) (\<lambda>ch. Ret (p\<lparr>pb_heap := (pb_heap p)[i := session\<lparr>sn_Ack2Chan := ch\<rparr>]\<rparr>))
      else Ret p)"

text \<open>The handler without interruption; None is a nil argument.\<close>

definition HandleIncomingRDMAPacket :: "bool \<Rightarrow> IncomingAckInfo option \<Rightarrow> Prober \<Rightarrow> Prober go" where
  "HandleIncomingRDMAPacket pick_send ackInfo p =
     (case ackInfo of None \<Rightarrow> Ret p
      | Some info \<Rightarrow> (case lookup_ack info p of (None, p1) \<Rightarrow> Ret p1 | (Some i, p1) \<Rightarrow> deliver_ack pick_send i info p1))"

subsection \<open>One probe\<close>

definition target_identifier :: "PingTarget \<Rightarrow> RnicIdentifier" where
  "target_identifier t = \<lparr>rid_Gid = pt_GID t, rid_Qpn = pt_QPN t, rid_IpAddress = pt_IPAddress t, rid_HostName = pt_HostName t,
     rid_TorId = pt_TorID t, rid_DeviceName = pt_DeviceName t\<rparr>"

definition source_identifier :: "AgentState \<Rightarrow> string \<Rightarrow> u32 \<Rightarrow> RNIC \<Rightarrow> RnicIdentifier" where
  "source_identifier a gid qpn r = \<lparr>rid_Gid = gid, rid_Qpn = qpn, rid_IpAddress = rn_IPAddr r, rid_HostName = GetHostName a,
     rid_TorId = '''', rid_DeviceName = rn_DeviceName r\<rparr>"

definition new_result :: "RnicIdentifier \<Rightarrow> PingTarget \<Rightarrow> ProbeFiveTuple \<Rightarrow> ProbeStatus \<Rightarrow> ProbeResult" where
  "new_result src t ft status = \<lparr>pr_SourceRnic = src, pr_DestinationRnic = target_identifier t, pr_T1 = None, pr_T2 = None,
     pr_T3 = None, pr_T4 = None, pr_T5 = None, pr_T6 = None, pr_NetworkRtt = 0, pr_ProberDelay = 0, pr_ResponderDelay = 0,
     pr_Status = status, pr_FiveTuple = ft, pr_ProbeType = pt_ProbeType t\<rparr>"

text \<open>The start of ProbeTarget: sequence number, session key, session. The result is the
  session's address, None when a nil argument makes the call return at once.\<close>

definition probe_begin :: "gtime \<Rightarrow> RNIC option \<Rightarrow> PingTarget option \<Rightarrow> Prober \<Rightarrow> nat option \<times> Prober" where
  "probe_begin now sourceRnic target p =
     (case (sourceRnic, target) of
        (Some r, Some t) \<Rightarrow>
          let seqNum = pb_nextSeqNum p + 1; sessionKey = generateSessionKey (rn_GID r) (pt_GID t) seqNum;
              session = \<lparr>sn_SessionKey = sessionKey, sn_FlowLabel = pt_FlowLabel t, sn_SequenceNum = seqNum,
                sn_SourceRnicGid = rn_GID r, sn_TargetGid = pt_GID t, sn_ProbeType = pt_ProbeType t,
                sn_Ack1Chan = chan_make 1, sn_Ack2Chan = chan_make 1, sn_CreationTime = now, sn_closed = False\<rparr> in
          (Some (length (pb_heap p)), addSession session (p\<lparr>pb_nextSeqNum := seqNum\<rparr>))
      | _ \<Rightarrow> (None, p))"

text \<open>Which queue, destination and flow label the probe uses, and the result it starts
  with; Inl is the error result published when there is no sender queue.\<close>

record endpoints =
  ep_queue :: queue_ref
  ep_dstGid :: string
  ep_dstQpn :: u32
  ep_flowLabel :: u32
  ep_result :: ProbeResult

definition plain_tuple :: "string \<Rightarrow> u32 \<Rightarrow> PingTarget \<Rightarrow> ProbeFiveTuple" where
  "plain_tuple gid qpn t = \<lparr>ft_SrcGid = gid, ft_SrcQpn = qpn, ft_DstGid = pt_GID t, ft_DstQpn = pt_QPN t, ft_FlowLabel = pt_FlowLabel t\<rparr>"

definition flow_tuple :: "u32 \<Rightarrow> ServiceFlowTuple \<Rightarrow> ProbeFiveTuple" where
  "flow_tuple qpn f = \<lparr>ft_SrcGid = sf_SrcGID f, ft_SrcQpn = qpn, ft_DstGid = sf_DstGID f, ft_DstQpn = sf_DstQPN f, ft_FlowLabel = sf_FlowLabel f\<rparr>"

definition with_source :: "AgentState \<Rightarrow> RNIC \<Rightarrow> PingTarget \<Rightarrow> queue_ref \<Rightarrow> ProbeFiveTuple \<Rightarrow> endpoints" where
  "with_source a sourceRnic t q ft =
     (let info = (case GetRnicByGID a (ft_SrcGid ft) of None \<Rightarrow> sourceRnic | Some r \<Rightarrow> r) in
      \<lparr>ep_queue = q, ep_dstGid = ft_DstGid ft, ep_dstQpn = ft_DstQpn ft, ep_flowLabel = ft_FlowLabel ft,
       ep_result = new_result (source_identifier a (ft_SrcGid ft) (qr_QPN q) info) t ft STATUS_UNKNOWN\<rparr>)"

definition probe_endpoints :: "AgentState \<Rightarrow> RNIC \<Rightarrow> PingTarget \<Rightarrow> (ProbeResult + endpoints) go" where
  "probe_endpoints a sourceRnic t =
     (case GetSenderUDQueue a (rn_GID sourceRnic) of
        None \<Rightarrow> Ret (Inl (new_result (source_identifier a (rn_GID sourceRnic) 0 sourceRnic) t (plain_tuple (rn_GID sourceRnic) 0 t) STATUS_ERROR))
      | Some q \<Rightarrow>
        (case (if pt_ProbeType t = ProbeTypeServiceTracing then pt_ServiceFlowTuple t else None) of
           None \<Rightarrow> Ret (Inr (with_source a sourceRnic t q (plain_tuple (rn_GID sourceRnic) (qr_QPN q) t)))
         | Some flow \<Rightarrow>
           (case GetSenderUDQueue a (sf_SrcGID flow) of
              None \<Rightarrow> (case GetRnicByGID a (sf_SrcGID flow) of
                  None \<Rightarrow> Panic ''nil pointer dereference: getRnicByGid(...).IPAddr''
                | Some r \<Rightarrow> Ret (Inl (new_result (source_identifier a (sf_SrcGID flow) 0 r) t (flow_tuple (sf_SrcQPN flow) flow) STATUS_ERROR)))
            | Some q2 \<Rightarrow> Ret (Inr (with_source a sourceRnic t q2 (flow_tuple (qr_QPN q2) flow))))))"

text \<open>A probe that waits for its ACKs: its session, its result so far, the time stamps of the
  send and the ACKs seen.\<close>

record waiting =
  wt_session :: nat
  wt_result :: ProbeResult
  wt_t1 :: gtime
  wt_t2 :: gtime
  wt_ack1 :: "ackEvent option"
  wt_ack2 :: "ackEvent option"
  wt_t5 :: gtime

text \<open>Sending: the queue object is updated in the agent's manager. A result on the left is
  published next.\<close>

definition set_queue :: "nat \<Rightarrow> UDQueue \<Rightarrow> Prober \<Rightarrow> Prober" where
  "set_queue n u p = (let a = pb_agentState p in
     case as_rdmaManager a of None \<Rightarrow> p
     | Some m \<Rightarrow> (case mg_heap m n of None \<Rightarrow> p
        | Some ob \<Rightarrow> p\<lparr>pb_agentState := a\<lparr>as_rdmaManager := Some (m\<lparr>mg_heap := (mg_heap m)(n := Some (ob\<lparr>qo_queue := u\<rparr>))\<rparr>)\<rparr>\<rparr>))"

definition get_queue :: "nat \<Rightarrow> Prober \<Rightarrow> UDQueue option" where
  "get_queue n p = (case as_rdmaManager (pb_agentState p) of None \<Rightarrow> None | Some m \<Rightarrow> map_option qo_queue (mg_heap m n))"

definition probe_send ::
  "send_env \<Rightarrow> select_choice \<Rightarrow> nat \<Rightarrow> RNIC \<Rightarrow> PingTarget \<Rightarrow> Prober \<Rightarrow> ((ProbeResult + waiting) \<times> Prober) go option" where
  "probe_send e sel i sourceRnic t p =
     (case probe_endpoints (pb_agentState p) sourceRnic t of
        Panic m \<Rightarrow> Some (Panic m)
      | Ret (Inl result) \<Rightarrow> Some (Ret (Inl result, p))
      | Ret (Inr ep) \<Rightarrow>
        (case get_queue (qr_id (ep_queue ep)) p of
           None \<Rightarrow> Some (Panic ''nil pointer dereference: srcUdQueue'')
         | Some u \<Rightarrow>
           (case SendProbePacket e sel (ep_dstGid ep) (ep_dstQpn ep) (sn_SequenceNum (pb_heap p ! i)) (ep_flowLabel ep) u of
              None \<Rightarrow> None
            | Some (Panic m) \<Rightarrow> Some (Panic m)
            | Some (Ret (Inl err, u1)) \<Rightarrow>
                Some (Ret (Inl ((ep_result ep)\<lparr>pr_Status := STATUS_ERROR\<rparr>),
                  upd_stats (\<lambda>s. s\<lparr>st_FailedProbes := st_FailedProbes s + 1\<rparr>) (set_queue (qr_id (ep_queue ep)) u1 p)))
            | Some (Ret (Inr (t1, t2), u1)) \<Rightarrow>
                Some (Ret (Inr \<lparr>wt_session = i, wt_result = (ep_result ep)\<lparr>pr_T1 := Some t1, pr_T2 := Some t2\<rparr>, wt_t1 = t1, wt_t2 = t2,
                    wt_ack1 = None, wt_ack2 = None, wt_t5 = 0\<rparr>, set_queue (qr_id (ep_queue ep)) u1 p)))))"

text \<open>The loop that waits for both ACKs, one select at a time. A select whose chosen case
  is not ready gives None.\<close>

datatype wait_choice = WaitDone | WaitAck1 | WaitAck2

definition both_acks :: "waiting \<Rightarrow> bool" where
  "both_acks w \<longleftrightarrow> wt_ack1 w \<noteq> None \<and> wt_ack2 w \<noteq> None"

definition first_seen :: "ackEvent \<Rightarrow> waiting \<Rightarrow> waiting" where
  "first_seen ev w = (if wt_ack1 w = None \<and> wt_ack2 w = None
     then w\<lparr>wt_t5 := ae_ReceivedAt ev, wt_result := (wt_result w)\<lparr>pr_T5 := Some (ae_ReceivedAt ev)\<rparr>\<rparr> else w)"

definition closed_early :: "waiting \<Rightarrow> Prober \<Rightarrow> (ProbeResult + waiting) \<times> Prober" where
  "closed_early w p = (Inl ((wt_result w)\<lparr>pr_Status := STATUS_ERROR\<rparr>), upd_stats (\<lambda>s. s\<lparr>st_FailedProbes := st_FailedProbes s + 1\<rparr>) p)"

definition wait_step :: "wait_choice \<Rightarrow> waiting \<Rightarrow> Prober \<Rightarrow> ((ProbeResult + waiting) \<times> Prober) option" where
  "wait_step c w p =
     (let i = wt_session w; session = pb_heap p ! i in
      case c of
        WaitDone \<Rightarrow> Some (Inl ((wt_result w)\<lparr>pr_Status := STATUS_TIMEOUT\<rparr>),
                     upd_stats (\<lambda>s. s\<lparr>st_AckTimeouts := st_AckTimeouts s + 1\<rparr>) p)
      | WaitAck1 \<Rightarrow> (case chan_recv (sn_Ack1Chan session) of
            (WouldBlock, ch) \<Rightarrow> None
          | (GotClosed, ch) \<Rightarrow> Some (closed_early w p)
          | (Got ev, ch) \<Rightarrow> Some (Inr (if wt_ack1 w = None then (first_seen ev w)\<lparr>wt_ack1 := Some ev\<rparr> else w),
                             p\<lparr>pb_heap := (pb_heap p)[i := session\<lparr>sn_Ack1Chan := ch\<rparr>]\<rparr>))
      | WaitAck2 \<Rightarrow> (case chan_recv (sn_Ack2Chan session) of
            (WouldBlock, ch) \<Rightarrow> None
          | (GotClosed, ch) \<Rightarrow> Some (closed_early w p)
          | (Got ev, ch) \<Rightarrow> Some (Inr (if wt_ack2 w = None then (first_seen ev w)\<lparr>wt_ack2 := Some ev\<rparr> else w),
                             p\<lparr>pb_heap := (pb_heap p)[i := session\<lparr>sn_Ack2Chan := ch\<rparr>]\<rparr>)))"

text \<open>The end of ProbeTarget once both ACKs are there.\<close>

definition ack_of_type :: "u8 \<Rightarrow> ackEvent option \<Rightarrow> ackEvent option \<Rightarrow> ackEvent option" where
  "ack_of_type ty a1 a2 =
     (case a1 of Some ev \<Rightarrow> if pp_AckType (ae_Packet ev) = ty then a1 else (case a2 of Some ev2 \<Rightarrow> if pp_AckType (ae_Packet ev2) = ty then a2 else None | None \<Rightarrow> None)
      | None \<Rightarrow> (case a2 of Some ev2 \<Rightarrow> if pp_AckType (ae_Packet ev2) = ty then a2 else None | None \<Rightarrow> None))"

definition probe_finish :: "gtime \<Rightarrow> waiting \<Rightarrow> ProbeResult" where
  "probe_finish t6 w =
     (let r1 = (wt_result w)\<lparr>pr_Status := STATUS_OK, pr_T6 := Some t6\<rparr>;
          t3 = map_option (\<lambda>ev. unix_ns (pp_T3 (ae_Packet ev))) (ack_of_type 1 (wt_ack1 w) (wt_ack2 w));
          t4 = map_option (\<lambda>ev. unix_ns (pp_T4 (ae_Packet ev))) (ack_of_type 2 (wt_ack1 w) (wt_ack2 w));
          r2 = (case t3 of None \<Rightarrow> r1 | Some t \<Rightarrow> r1\<lparr>pr_T3 := Some t\<rparr>);
          r3 = (case t4 of None \<Rightarrow> r2 | Some t \<Rightarrow> r2\<lparr>pr_T4 := Some t\<rparr>) in
      case (pr_T2 r3, pr_T3 r3, pr_T4 r3, pr_T5 r3) of
        (Some _, Some u3, Some u4, Some _) \<Rightarrow>
          let t2 = wt_t2 w; t5 = wt_t5 w; responderDelay = time_sub u4 u3 in
          r3\<lparr>pr_ResponderDelay := responderDelay,
             pr_NetworkRtt := dur_sub (time_sub t5 t2) responderDelay,
             pr_ProberDelay := dur_sub (time_sub t6 (wt_t1 w)) (time_sub t5 t2)\<rparr>
      | _ \<Rightarrow> r3)"

definition count_success :: "Prober \<Rightarrow> Prober" where
  "count_success = upd_stats (\<lambda>s. s\<lparr>st_SuccessfulProbes := st_SuccessfulProbes s + 1\<rparr>)"

text \<open>Publishing a result: a blocking send (None while the buffer is full), then the
  deferred removal of the session.\<close>

definition publish :: "string \<Rightarrow> ProbeResult \<Rightarrow> Prober \<Rightarrow> Prober go option" where
  "publish sessionKey result p =
     (let ch = pb_probeResults p in
      if ch_closed ch then Some (Panic ''send on closed channel'')
      else if length (ch_buf ch) < ch_cap ch
      then Some (Ret (removeSession sessionKey (p\<lparr>pb_probeResults := ch\<lparr>ch_buf := ch_buf ch @ [result]\<rparr>\<rparr>)))
      else None)"

text \<open>Close, once the goroutines of the wait group have ended.\<close>

definition close_all :: "(string \<times> nat) list \<Rightarrow> PingSession list \<Rightarrow> PingSession list" where
  "close_all m hp = fold (\<lambda>(k, i) h. h[i := close_session (h ! i)]) m hp"

definition Prober_Close :: "Prober \<Rightarrow> Prober go" where
  "Prober_Close p =
     (if pb_stopped p then Panic ''close of closed channel''
      else go_bind (chan_close (pb_probeResults p)) (\<lambda>ch.
        Ret (p\<lparr>pb_stopped := True, pb_heap := close_all (pb_sessions p) (pb_heap p), pb_sessions := [], pb_seqNumIndex := [],
               pb_probeResults := ch\<rparr>)))"

subsection \<open>Service flow probing\<close>

text \<open>One tick of runServiceProbingLoop: the targets with a wrong type are corrected in
  place, and a probe is launched for each one whose source RNIC is local.\<close>

definition correct_type :: "PingTarget \<Rightarrow> PingTarget" where
  "correct_type t = (if pt_ProbeType t \<noteq> ProbeTypeServiceTracing then t\<lparr>pt_ProbeType := ProbeTypeServiceTracing\<rparr> else t)"

fun service_tick :: "AgentState \<Rightarrow> PingTarget option list \<Rightarrow> (RNIC \<times> PingTarget) list \<times> PingTarget option list" where
  "service_tick a [] = ([], [])"
| "service_tick a (target # ts) =
     (let (launched, ts') = service_tick a ts in
      case target of None \<Rightarrow> (launched, target # ts')
      | Some t \<Rightarrow> (case pt_ServiceFlowTuple t of None \<Rightarrow> (launched, target # ts')
         | Some f \<Rightarrow> (case GetRnicByGID a (sf_SrcGID f) of None \<Rightarrow> (launched, target # ts')
            | Some r \<Rightarrow> ((r, correct_type t) # launched, Some (correct_type t) # ts'))))"

definition runServiceProbingLoop_tick :: "Prober \<Rightarrow> (RNIC \<times> PingTarget) list \<times> Prober" where
  "runServiceProbingLoop_tick p =
     (let (launched, ts) = service_tick (pb_agentState p) (pb_serviceFlowTargets p) in
      (launched, p\<lparr>pb_serviceFlowTargets := ts\<rparr>))"

subsection \<open>The responder\<close>

record responder_stats =
  rs_totalPackets :: u64
  rs_probePackets :: u64
  rs_invalidPackets :: u64
  rs_errorPackets :: u64
  rs_timeoutCount :: u64

definition DeadlineExceeded :: string where "DeadlineExceeded = ''context deadline exceeded''"

text \<open>One pass of responderLoop's default case.\<close>

definition count_error :: "responder_stats \<Rightarrow> responder_stats" where
  "count_error s = s\<lparr>rs_errorPackets := rs_errorPackets s + 1\<rparr>"

definition responder_reply ::
  "send_env \<times> select_choice \<Rightarrow> send_env \<times> select_choice \<Rightarrow> ProbePacket \<Rightarrow> gtime \<Rightarrow> ProcessedWorkCompletion \<Rightarrow> UDQueue \<Rightarrow> responder_stats
     \<Rightarrow> (UDQueue \<times> responder_stats) go option" where
  "responder_reply e1 e2 packet receiveTime processedWC u s =
     (let s1 = s\<lparr>rs_totalPackets := rs_totalPackets s + 1\<rparr> in
      if pp_IsAck packet \<noteq> 0 then Some (Ret (u, s1))
      else
        let s2 = s1\<lparr>rs_probePackets := rs_probePackets s1 + 1\<rparr>;
            sourceGID = pw_SGID processedWC; sourceQPN = wc_SrcQP (pw_WC processedWC); fl = pw_FlowLabel processedWC in
        if sourceGID = '''' \<or> sourceGID = ''::'' \<or> sourceQPN = 0 then Some (Ret (u, s2\<lparr>rs_invalidPackets := rs_invalidPackets s2 + 1\<rparr>))
        else case SendFirstAckPacket (fst e1) (snd e1) sourceGID sourceQPN fl packet receiveTime u of
          None \<Rightarrow> None
        | Some (Panic m) \<Rightarrow> Some (Panic m)
        | Some (Ret (Inl err, u1)) \<Rightarrow> Some (Ret (u1, count_error s2))
        | Some (Ret (Inr firstAckCompletionTime, u1)) \<Rightarrow>
          (case SendSecondAckPacket (fst e2) (snd e2) sourceGID sourceQPN fl packet receiveTime firstAckCompletionTime u1 of
             None \<Rightarrow> None
           | Some (Panic m) \<Rightarrow> Some (Panic m)
           | Some (Ret (Inl err, u2)) \<Rightarrow> Some (Ret (u2, count_error s2))
           | Some (Ret (Inr _, u2)) \<Rightarrow> Some (Ret (u2, s2))))"

definition responder_step ::
  "post_ret \<Rightarrow> hdr_parsers \<Rightarrow> recv_choice \<Rightarrow> send_env \<times> select_choice \<Rightarrow> send_env \<times> select_choice \<Rightarrow> UDQueue \<Rightarrow> responder_stats
     \<Rightarrow> (UDQueue \<times> responder_stats) go option" where
  "responder_step pr h sel e1 e2 u s =
     (case ReceivePacket pr h sel u of
        None \<Rightarrow> None
      | Some (Panic m) \<Rightarrow> Some (Panic m)
      | Some (Ret (RxErr err, u1)) \<Rightarrow>
          Some (Ret (u1, if err \<noteq> DeadlineExceeded then count_error s else s\<lparr>rs_timeoutCount := rs_timeoutCount s + 1\<rparr>))
      | Some (Ret (RxBad rt pw err, u1)) \<Rightarrow> Some (Ret (u1, count_error s))
      | Some (Ret (RxPacket packet receiveTime processedWC, u1)) \<Rightarrow> responder_reply e1 e2 packet receiveTime processedWC u1 s)"

subsection \<open>Sessions as a keyed store\<close>

definition session_at :: "Prober \<Rightarrow> string \<Rightarrow> PingSession option" where
  "session_at p k = map_option (\<lambda>i. pb_heap p ! i) (getSession p k)"

definition map_sound :: "Prober \<Rightarrow> bool" where
  "map_sound p \<longleftrightarrow> (\<forall>k i. map_of (pb_sessions p) k = Some i \<longrightarrow> i < length (pb_heap p) \<and> sn_SessionKey (pb_heap p ! i) = k)"

lemma upd_stats_simps [simp]:
  "pb_heap (upd_stats f p) = pb_heap p" "pb_sessions (upd_stats f p) = pb_sessions p" "pb_seqNumIndex (upd_stats f p) = pb_seqNumIndex p"
  "pb_nextSeqNum (upd_stats f p) = pb_nextSeqNum p" "pb_probeResults (upd_stats f p) = pb_probeResults p"
  "pb_stopped (upd_stats f p) = pb_stopped p" "pb_agentState (upd_stats f p) = pb_agentState p"
  by (simp_all add: upd_stats_def)

lemma close_session_simps [simp]:
  "sn_SessionKey (close_session s) = sn_SessionKey s" "sn_SequenceNum (close_session s) = sn_SequenceNum s"
  "sn_SourceRnicGid (close_session s) = sn_SourceRnicGid s" "sn_TargetGid (close_session s) = sn_TargetGid s"
  "sn_closed (close_session s)" "ch_cap (sn_Ack1Chan (close_session s)) = ch_cap (sn_Ack1Chan s)"
  "ch_cap (sn_Ack2Chan (close_session s)) = ch_cap (sn_Ack2Chan s)" "ch_buf (sn_Ack1Chan (close_session s)) = ch_buf (sn_Ack1Chan s)"
  "ch_buf (sn_Ack2Chan (close_session s)) = ch_buf (sn_Ack2Chan s)"
  by (simp_all add: close_session_def)

lemma addSession_simps [simp]:
  "pb_heap (addSession s p) = pb_heap p @ [s]" "pb_sessions (addSession s p) = AList.update (sn_SessionKey s) (length (pb_heap p)) (pb_sessions p)"
  "pb_seqNumIndex (addSession s p) = AList.update (sn_SequenceNum s) (sn_SessionKey s) (pb_seqNumIndex p)"
  "pb_nextSeqNum (addSession s p) = pb_nextSeqNum p" "pb_probeResults (addSession s p) = pb_probeResults p"
  "pb_stopped (addSession s p) = pb_stopped p" "pb_agentState (addSession s p) = pb_agentState p"
  by (simp_all add: addSession_def)

lemma map_sound_add: "map_sound p \<Longrightarrow> map_sound (addSession s p)"
  by (auto simp: map_sound_def store_simps nth_append less_Suc_eq split: if_splits)

lemma map_sound_remove: "map_sound p \<Longrightarrow> map_sound (removeSession k p)"
  by (auto simp: map_sound_def removeSession_def store_simps nth_list_update Let_def split: option.splits if_splits)

interpretation sess_store: keyed_store session_at addSession removeSession sn_SessionKey map_sound
proof
  fix s :: Prober and v k
  assume "map_sound s"
  then show "session_at (addSession v s) k = (if k = sn_SessionKey v then Some v else session_at s k)"
    by (cases "map_of (pb_sessions s) k") (auto simp: session_at_def getSession_def store_simps map_sound_def nth_append)
next
  fix s :: Prober and k k'
  assume "map_sound s"
  then show "session_at (removeSession k s) k' = (if k' = k then None else session_at s k')"
    by (cases "map_of (pb_sessions s) k"; cases "map_of (pb_sessions s) k'")
      (auto simp: session_at_def getSession_def removeSession_def store_simps map_sound_def nth_list_update Let_def)
qed (auto intro: map_sound_add map_sound_remove)

subsection \<open>The session invariant\<close>

text \<open>Each session object at its address: its sequence number counts the probes, its key is
  built from it, its channels are closed with it and hold ACKs of their own type only.\<close>

definition chan_wf :: "u8 \<Rightarrow> bool \<Rightarrow> ackEvent gchan \<Rightarrow> bool" where
  "chan_wf ty closed c \<longleftrightarrow> ch_closed c = closed \<and> ch_cap c = 1 \<and> (\<forall>ev \<in> set (ch_buf c). pp_AckType (ae_Packet ev) = ty)"

definition session_wf :: "nat \<Rightarrow> PingSession \<Rightarrow> bool" where
  "session_wf i s \<longleftrightarrow> sn_SequenceNum s = of_nat (Suc i)
     \<and> sn_SessionKey s = generateSessionKey (sn_SourceRnicGid s) (sn_TargetGid s) (sn_SequenceNum s)
     \<and> chan_wf 1 (sn_closed s) (sn_Ack1Chan s) \<and> chan_wf 2 (sn_closed s) (sn_Ack2Chan s)"

definition is_open_at :: "Prober \<Rightarrow> nat \<Rightarrow> bool" where
  "is_open_at p i \<longleftrightarrow> i < length (pb_heap p) \<and> \<not> sn_closed (pb_heap p ! i)"

definition sessions_ok :: "Prober \<Rightarrow> bool" where
  "sessions_ok p \<longleftrightarrow> Suc (length (pb_heap p)) < 2 ^ 64 \<and> pb_nextSeqNum p = of_nat (length (pb_heap p))
     \<and> distinct (map fst (pb_sessions p))
     \<and> (\<forall>i < length (pb_heap p). session_wf i (pb_heap p ! i))
     \<and> (\<forall>k i. map_of (pb_sessions p) k = Some i \<longleftrightarrow> is_open_at p i \<and> sn_SessionKey (pb_heap p ! i) = k)
     \<and> (\<forall>s k. map_of (pb_seqNumIndex p) s = Some k \<longleftrightarrow> (\<exists>i. is_open_at p i \<and> sn_SequenceNum (pb_heap p ! i) = s \<and> sn_SessionKey (pb_heap p ! i) = k))"

lemma sessions_ok_sound: "sessions_ok p \<Longrightarrow> map_sound p"
  by (auto simp: sessions_ok_def map_sound_def is_open_at_def)

lemma sessions_ok_map: "sessions_ok p \<Longrightarrow> map_of (pb_sessions p) k = Some i \<longleftrightarrow> is_open_at p i \<and> sn_SessionKey (pb_heap p ! i) = k"
  by (simp add: sessions_ok_def)

lemma sessions_ok_index:
  "sessions_ok p \<Longrightarrow> map_of (pb_seqNumIndex p) s = Some k \<longleftrightarrow>
     (\<exists>i. is_open_at p i \<and> sn_SequenceNum (pb_heap p ! i) = s \<and> sn_SessionKey (pb_heap p ! i) = k)"
  by (simp add: sessions_ok_def)

lemma is_open_at_less: "is_open_at p i \<Longrightarrow> i < length (pb_heap p)"
  by (simp add: is_open_at_def)

lemma generateSessionKey_seq: "generateSessionKey a b s = generateSessionKey c d t \<Longrightarrow> s = t"
proof -
  assume "generateSessionKey a b s = generateSessionKey c d t"
  then have "(a @ ''->'' @ b) @ CHR '':'' # dec_string (unat s) = (c @ ''->'' @ d) @ CHR '':'' # dec_string (unat t)"
    by (simp add: generateSessionKey_def)
  moreover have "CHR '':'' \<notin> set (dec_string n)" for n by (rule dec_string_no_char) (simp add: is_digit_def)
  ultimately have "dec_string (unat s) = dec_string (unat t)" by (blast dest: append_sep_inj)
  then have "unat s = unat t" by (rule dec_string_inj)
  then show "s = t" by (rule unsigned_word_eqI)
qed

lemma of_nat_u64_inj: "i < 2 ^ 64 \<Longrightarrow> j < 2 ^ 64 \<Longrightarrow> (of_nat i :: u64) = of_nat j \<Longrightarrow> i = j"
  by (drule arg_cong[of _ _ unat]) (simp add: unsigned_of_nat take_bit_nat_eq_self)

lemma session_key_inj:
  assumes "sessions_ok p" and "i < length (pb_heap p)" and "j < length (pb_heap p)"
    and "sn_SessionKey (pb_heap p ! i) = sn_SessionKey (pb_heap p ! j) \<or> sn_SequenceNum (pb_heap p ! i) = sn_SequenceNum (pb_heap p ! j)"
  shows "i = j"
proof -
  have "session_wf i (pb_heap p ! i)" "session_wf j (pb_heap p ! j)" "Suc i < 2 ^ 64" "Suc j < 2 ^ 64"
    using assms(1-3) by (auto simp: sessions_ok_def)
  moreover then have "(of_nat (Suc i) :: u64) = of_nat (Suc j)"
    using assms(4) unfolding session_wf_def by (metis generateSessionKey_seq)
  ultimately show ?thesis by (blast dest: of_nat_u64_inj)
qed

text \<open>A change of a session that keeps its identity and its status, such as an ACK put into or
  taken from a channel.\<close>

lemma sessions_ok_update:
  assumes "sessions_ok p" and "i < length (pb_heap p)" and "session_wf i s"
    and "sn_SessionKey s = sn_SessionKey (pb_heap p ! i)" and "sn_closed s = sn_closed (pb_heap p ! i)"
  shows "sessions_ok (p\<lparr>pb_heap := (pb_heap p)[i := s]\<rparr>)"
proof -
  have seq: "sn_SequenceNum s = sn_SequenceNum (pb_heap p ! i)"
    using assms(1-3) by (simp add: sessions_ok_def session_wf_def)
  have o: "is_open_at (p\<lparr>pb_heap := (pb_heap p)[i := s]\<rparr>) j \<longleftrightarrow> is_open_at p j" for j
    using assms(2,5) by (cases "j = i") (auto simp: is_open_at_def)
  have k: "sn_SessionKey ((pb_heap p)[i := s] ! j) = sn_SessionKey (pb_heap p ! j)"
    "sn_SequenceNum ((pb_heap p)[i := s] ! j) = sn_SequenceNum (pb_heap p ! j)" for j
    using assms(2,4) seq by (cases "j = i"; simp)+
  have wf: "\<forall>j < length (pb_heap p). session_wf j ((pb_heap p)[i := s] ! j)"
    using assms(1,3) by (auto simp: sessions_ok_def nth_update_at)
  show ?thesis using assms(1) wf by (simp add: sessions_ok_def o k)
qed

lemma sessions_ok_frame:
  "sessions_ok p \<Longrightarrow> pb_heap p' = pb_heap p \<Longrightarrow> pb_sessions p' = pb_sessions p \<Longrightarrow> pb_seqNumIndex p' = pb_seqNumIndex p \<Longrightarrow>
   pb_nextSeqNum p' = pb_nextSeqNum p \<Longrightarrow> sessions_ok p'"
  by (simp add: sessions_ok_def is_open_at_def)

lemma sessions_ok_begin:
  assumes "sessions_ok p" and "probe_begin now sr tg p = (Some i, p')" and "Suc (length (pb_heap p')) < 2 ^ 64"
  shows "sessions_ok p' \<and> i = length (pb_heap p) \<and> is_open_at p' i \<and> (\<exists>s. pb_heap p' = pb_heap p @ [s])"
proof -
  obtain r t where rt: "sr = Some r" "tg = Some t" using assms(2) by (auto simp: probe_begin_def split: option.splits)
  define s where "s = \<lparr>sn_SessionKey = generateSessionKey (rn_GID r) (pt_GID t) (pb_nextSeqNum p + 1), sn_FlowLabel = pt_FlowLabel t,
    sn_SequenceNum = pb_nextSeqNum p + 1, sn_SourceRnicGid = rn_GID r, sn_TargetGid = pt_GID t, sn_ProbeType = pt_ProbeType t,
    sn_Ack1Chan = chan_make 1, sn_Ack2Chan = chan_make 1, sn_CreationTime = now, sn_closed = False\<rparr>"
  have p': "p' = addSession s (p\<lparr>pb_nextSeqNum := pb_nextSeqNum p + 1\<rparr>)" and i: "i = length (pb_heap p)"
    using assms(2) by (auto simp: probe_begin_def rt s_def Let_def)
  have n: "pb_nextSeqNum p = of_nat (length (pb_heap p))" using assms(1) by (simp add: sessions_ok_def)
  have wf: "session_wf i s" by (simp add: session_wf_def s_def i n chan_wf_def chan_make_def)
  have len: "length (pb_heap p') = Suc (length (pb_heap p))" by (simp add: p')
  have new: "sn_SequenceNum s \<noteq> sn_SequenceNum (pb_heap p ! j)" "sn_SessionKey s \<noteq> sn_SessionKey (pb_heap p ! j)" if "j < length (pb_heap p)" for j
  proof -
    have w: "session_wf j (pb_heap p ! j)" "Suc j < 2 ^ 64" "Suc (length (pb_heap p)) < 2 ^ 64"
      using assms(1) that by (auto simp: sessions_ok_def)
    then show seq: "sn_SequenceNum s \<noteq> sn_SequenceNum (pb_heap p ! j)"
      using of_nat_u64_inj[of "Suc j" "Suc (length (pb_heap p))"] that wf i by (auto simp: session_wf_def)
    then show "sn_SessionKey s \<noteq> sn_SessionKey (pb_heap p ! j)"
      using w wf unfolding session_wf_def by (metis generateSessionKey_seq)
  qed
  have o: "is_open_at p' j \<longleftrightarrow> is_open_at p j \<or> j = i" for j
    by (auto simp: is_open_at_def p' i nth_append less_Suc_eq) (simp_all add: s_def)
  have h: "pb_heap p' ! j = (if j = i then s else pb_heap p ! j)" if "is_open_at p' j" for j
    using that by (auto simp: p' i nth_append is_open_at_def)
  have "sessions_ok p'"
    unfolding sessions_ok_def
  proof (intro conjI allI impI)
    fix j assume "j < length (pb_heap p')"
    then show "session_wf j (pb_heap p' ! j)"
      using assms(1) wf i by (auto simp: p' nth_append less_Suc_eq sessions_ok_def)
  next
    fix k j
    show "map_of (pb_sessions p') k = Some j \<longleftrightarrow> is_open_at p' j \<and> sn_SessionKey (pb_heap p' ! j) = k"
      using assms(1) new[of j] by (auto simp: p' store_simps sessions_ok_def i is_open_at_def nth_append less_Suc_eq s_def)
  next
    fix q k
    have "map_of (pb_seqNumIndex p') q = Some k \<longleftrightarrow> (if q = sn_SequenceNum s then k = sn_SessionKey s else map_of (pb_seqNumIndex p) q = Some k)"
      by (auto simp: p' store_simps)
    also have "\<dots> \<longleftrightarrow> (\<exists>j. is_open_at p' j \<and> sn_SequenceNum (pb_heap p' ! j) = q \<and> sn_SessionKey (pb_heap p' ! j) = k)"
      using assms(1) new h o by (auto simp: sessions_ok_def is_open_at_def) (metis i less_irrefl)+
    finally show "map_of (pb_seqNumIndex p') q = Some k \<longleftrightarrow> (\<exists>j. is_open_at p' j \<and> sn_SequenceNum (pb_heap p' ! j) = q \<and> sn_SessionKey (pb_heap p' ! j) = k)" .
  qed (use assms(1,3) n in \<open>simp_all add: p' sessions_ok_def store_simps\<close>)
  with o i p' show ?thesis by auto
qed

lemma sessions_ok_remove:
  assumes "sessions_ok p"
  shows "sessions_ok (removeSession k p)"
proof (cases "map_of (pb_sessions p) k")
  case None
  with assms show ?thesis by (simp add: removeSession_def)
next
  case (Some i)
  let ?p = "removeSession k p"
  have i: "is_open_at p i" "sn_SessionKey (pb_heap p ! i) = k" "i < length (pb_heap p)"
    using assms Some by (auto simp: sessions_ok_def is_open_at_def)
  have wf: "session_wf i (pb_heap p ! i)" using assms i(3) by (simp add: sessions_ok_def)
  have hp: "pb_heap ?p = (pb_heap p)[i := close_session (pb_heap p ! i)]"
    and ix: "pb_seqNumIndex ?p = AList.delete (sn_SequenceNum (pb_heap p ! i)) (pb_seqNumIndex p)"
    and ss: "pb_sessions ?p = AList.delete k (pb_sessions p)" "pb_nextSeqNum ?p = pb_nextSeqNum p"
    by (simp_all add: removeSession_def Some Let_def)
  have cwf: "session_wf i (close_session (pb_heap p ! i))"
    using wf i(1) by (simp add: session_wf_def close_session_def chan_wf_def is_open_at_def)
  have o: "is_open_at ?p j \<longleftrightarrow> is_open_at p j \<and> j \<noteq> i" for j
    using i(3) by (cases "j = i") (auto simp: is_open_at_def hp)
  have same: "pb_heap ?p ! j = pb_heap p ! j" if "j \<noteq> i" for j using that by (simp add: hp)
  note inj = session_key_inj[OF assms i(3)]
  show ?thesis
    unfolding sessions_ok_def
  proof (intro conjI allI impI)
    fix j assume "j < length (pb_heap ?p)"
    then show "session_wf j (pb_heap ?p ! j)" using assms cwf by (cases "j = i") (auto simp: hp sessions_ok_def)
  next
    fix k' j
    have "map_of (pb_sessions ?p) k' = Some j \<longleftrightarrow> k' \<noteq> k \<and> map_of (pb_sessions p) k' = Some j" by (auto simp: ss store_simps)
    also have "\<dots> \<longleftrightarrow> is_open_at ?p j \<and> sn_SessionKey (pb_heap ?p ! j) = k'"
      using i(2) inj[of j] is_open_at_less[of p j] by (cases "j = i") (auto simp: sessions_ok_map[OF assms] o same)
    finally show "map_of (pb_sessions ?p) k' = Some j \<longleftrightarrow> is_open_at ?p j \<and> sn_SessionKey (pb_heap ?p ! j) = k'" .
  next
    fix q k'
    have "map_of (pb_seqNumIndex ?p) q = Some k' \<longleftrightarrow> q \<noteq> sn_SequenceNum (pb_heap p ! i) \<and> map_of (pb_seqNumIndex p) q = Some k'"
      by (auto simp: ix store_simps)
    also have "\<dots> \<longleftrightarrow> (\<exists>j. is_open_at ?p j \<and> sn_SequenceNum (pb_heap ?p ! j) = q \<and> sn_SessionKey (pb_heap ?p ! j) = k')"
      unfolding sessions_ok_index[OF assms] o using inj same is_open_at_less by metis
    finally show "map_of (pb_seqNumIndex ?p) q = Some k' \<longleftrightarrow> (\<exists>j. is_open_at ?p j \<and> sn_SequenceNum (pb_heap ?p ! j) = q \<and> sn_SessionKey (pb_heap ?p ! j) = k')" .
  qed (use assms in \<open>simp_all add: sessions_ok_def hp ss store_simps\<close>)
qed

lemma removeSession_frame [simp]:
  "length (pb_heap (removeSession k p)) = length (pb_heap p)" "pb_probeResults (removeSession k p) = pb_probeResults p"
  "pb_stopped (removeSession k p) = pb_stopped p" "pb_agentState (removeSession k p) = pb_agentState p"
  "pb_nextSeqNum (removeSession k p) = pb_nextSeqNum p"
  by (simp_all add: removeSession_def Let_def split: option.split)

lemma removeSession_closed_stays:
  "j < length (pb_heap p) \<Longrightarrow> sn_closed (pb_heap p ! j) \<Longrightarrow> sn_closed (pb_heap (removeSession k p) ! j)"
  by (auto simp: removeSession_def nth_update_at Let_def split: option.split)

text \<open>Removing a session by its own key closes it, or it was closed before.\<close>

lemma removeSession_closes:
  assumes "sessions_ok p" and "i < length (pb_heap p)"
  shows "sn_closed (pb_heap (removeSession (sn_SessionKey (pb_heap p ! i)) p) ! i)"
proof (cases "sn_closed (pb_heap p ! i)")
  case False
  with assms have "map_of (pb_sessions p) (sn_SessionKey (pb_heap p ! i)) = Some i"
    by (simp add: sessions_ok_def is_open_at_def)
  with assms(2) show ?thesis by (simp add: removeSession_def Let_def)
qed (use assms(2) removeSession_closed_stays in blast)

lemma fold_removeSession:
  "sessions_ok p \<Longrightarrow> sessions_ok (fold removeSession ks p) \<and> length (pb_heap (fold removeSession ks p)) = length (pb_heap p)
     \<and> pb_probeResults (fold removeSession ks p) = pb_probeResults p \<and> pb_stopped (fold removeSession ks p) = pb_stopped p
     \<and> (\<forall>j < length (pb_heap p). sn_closed (pb_heap p ! j) \<longrightarrow> sn_closed (pb_heap (fold removeSession ks p) ! j))"
  by (induction ks arbitrary: p) (auto simp: sessions_ok_remove removeSession_closed_stays)

lemma cleanup_keeps:
  assumes "sessions_ok p"
  shows "sessions_ok (cleanupExpiredSessions now p)" "length (pb_heap (cleanupExpiredSessions now p)) = length (pb_heap p)"
    "pb_probeResults (cleanupExpiredSessions now p) = pb_probeResults p" "pb_stopped (cleanupExpiredSessions now p) = pb_stopped p"
    "j < length (pb_heap p) \<Longrightarrow> sn_closed (pb_heap p ! j) \<Longrightarrow> sn_closed (pb_heap (cleanupExpiredSessions now p) ! j)"
  using fold_removeSession[OF assms, of "map fst (filter (\<lambda>(k, i). time_sub now (sn_CreationTime (pb_heap p ! i)) > sessionTimeout) (pb_sessions p))"]
  by (auto simp: cleanupExpiredSessions_def Let_def intro: sessions_ok_frame)

subsection \<open>Dispatch of ACKs\<close>

lemma range_find_Some: "range_find P hp m = Some i \<Longrightarrow> \<exists>k. (k, i) \<in> set m \<and> P (hp ! i)"
  by (induction m) (auto split: if_splits)

lemma range_find_None: "range_find P hp m = None \<longleftrightarrow> (\<forall>k i. (k, i) \<in> set m \<longrightarrow> \<not> P (hp ! i))"
  by (induction m) (auto split: if_splits)

lemma sessions_entries: "sessions_ok p \<Longrightarrow> (k, i) \<in> set (pb_sessions p) \<longleftrightarrow> is_open_at p i \<and> sn_SessionKey (pb_heap p ! i) = k"
  using sessions_ok_map[of p k i] map_of_eq_Some_iff[of "pb_sessions p" k i] sessions_ok_def by metis

lemma range_find_sessions:
  assumes "sessions_ok p"
  shows "range_find P (pb_heap p) (pb_sessions p) = Some i \<Longrightarrow> is_open_at p i \<and> P (pb_heap p ! i)"
    and "range_find P (pb_heap p) (pb_sessions p) = None \<longleftrightarrow> (\<forall>i. is_open_at p i \<longrightarrow> \<not> P (pb_heap p ! i))"
  using range_find_Some[of P "pb_heap p" "pb_sessions p" i] range_find_None[of P "pb_heap p" "pb_sessions p"] sessions_entries[OF assms]
  by auto

lemma getSessionByFlowLabel_unique:
  assumes "sessions_ok p" and "is_open_at p i" and "sn_FlowLabel (pb_heap p ! i) = fl"
    and "\<And>j. is_open_at p j \<Longrightarrow> sn_FlowLabel (pb_heap p ! j) = fl \<Longrightarrow> j = i"
  shows "getSessionByFlowLabel p fl = Some i"
  using range_find_sessions[OF assms(1), of "\<lambda>s. sn_FlowLabel s = fl"] assms(2-4)
  unfolding getSessionByFlowLabel_def by (metis (mono_tags, lifting) option.exhaust)

lemma findSessionByPacketInfo_open:
  assumes "sessions_ok p" and "is_open_at p i"
  shows "findSessionByPacketInfo p (sn_SequenceNum (pb_heap p ! i)) (sn_TargetGid (pb_heap p ! i)) = Some i"
proof -
  have "map_of (pb_seqNumIndex p) (sn_SequenceNum (pb_heap p ! i)) = Some (sn_SessionKey (pb_heap p ! i))"
    unfolding sessions_ok_index[OF assms(1)] using assms(2) by blast
  moreover have "map_of (pb_sessions p) (sn_SessionKey (pb_heap p ! i)) = Some i"
    unfolding sessions_ok_map[OF assms(1)] using assms(2) by simp
  ultimately show ?thesis by (simp add: findSessionByPacketInfo_def getSession_def Let_def)
qed

definition ack_chan :: "u8 \<Rightarrow> PingSession \<Rightarrow> ackEvent gchan" where
  "ack_chan ty s = (if ty = 1 then sn_Ack1Chan s else sn_Ack2Chan s)"

definition event_of :: "IncomingAckInfo \<Rightarrow> ackEvent" where
  "event_of info = \<lparr>ae_Packet = ai_Packet info, ae_ReceivedAt = ai_ReceivedAt info, ae_WorkComp = ai_ProcessedWC info\<rparr>"

text \<open>A valid ACK delivered to an open session that does not have this ACK yet.\<close>

lemma deliver_ack_open:
  assumes "sessions_ok p" and "is_open_at p i" and "ai_AckStatusOK info"
    and "pp_AckType (ai_Packet info) = 1 \<or> pp_AckType (ai_Packet info) = 2"
    and "ch_buf (ack_chan (pp_AckType (ai_Packet info)) (pb_heap p ! i)) = []"
  shows "\<exists>p'. deliver_ack pick i info p = Ret p' \<and> length (pb_heap p') = length (pb_heap p)
    \<and> ch_buf (ack_chan (pp_AckType (ai_Packet info)) (pb_heap p' ! i)) = [event_of info] \<and> (\<forall>j. j \<noteq> i \<longrightarrow> pb_heap p' ! j = pb_heap p ! j)"
proof -
  have i: "i < length (pb_heap p)" "\<not> sn_closed (pb_heap p ! i)" using assms(2) by (simp_all add: is_open_at_def)
  with assms(1) have "session_wf i (pb_heap p ! i)" by (simp add: sessions_ok_def)
  with i(2) have "\<not> ch_closed (sn_Ack1Chan (pb_heap p ! i))" "ch_cap (sn_Ack1Chan (pb_heap p ! i)) = 1"
    "\<not> ch_closed (sn_Ack2Chan (pb_heap p ! i))" "ch_cap (sn_Ack2Chan (pb_heap p ! i)) = 1"
    by (simp_all add: session_wf_def chan_wf_def)
  with assms(3-5) i show ?thesis
    by (auto simp: deliver_ack_def ack_chan_def event_of_def nb_send_room Let_def)
qed

lemma lookup_ack_heap: "lookup_ack info p = (x, p') \<Longrightarrow> pb_heap p' = pb_heap p \<and> (sessions_ok p \<longrightarrow> sessions_ok p')
    \<and> pb_probeResults p' = pb_probeResults p \<and> pb_stopped p' = pb_stopped p"
  by (auto simp: lookup_ack_def intro: sessions_ok_frame split: option.splits)

lemma Handle_found:
  assumes "lookup_ack info p = (Some i, p1)" and "sessions_ok p" and "is_open_at p i" and "ai_AckStatusOK info"
    and "pp_AckType (ai_Packet info) = 1 \<or> pp_AckType (ai_Packet info) = 2"
    and "ch_buf (ack_chan (pp_AckType (ai_Packet info)) (pb_heap p ! i)) = []"
  shows "\<exists>p'. HandleIncomingRDMAPacket pick (Some info) p = Ret p' \<and> length (pb_heap p') = length (pb_heap p)
    \<and> ch_buf (ack_chan (pp_AckType (ai_Packet info)) (pb_heap p' ! i)) = [event_of info] \<and> (\<forall>j. j \<noteq> i \<longrightarrow> pb_heap p' ! j = pb_heap p ! j)"
proof -
  have h: "pb_heap p1 = pb_heap p" "sessions_ok p1" using lookup_ack_heap[OF assms(1)] assms(2) by auto
  then have "is_open_at p1 i" using assms(3) by (simp add: is_open_at_def)
  from deliver_ack_open[OF h(2) this assms(4,5), of pick] assms(1,6) h(1) show ?thesis
    by (simp add: HandleIncomingRDMAPacket_def)
qed

text \<open>C9: an ACK reaches the session of the probe it answers, and only that one, whenever no
  other open session carries the flow label the ACK arrived with. The session is recognised
  by sequence number and responder GID, even when the ACK's flow label is not the probe's.\<close>

theorem ack_reaches_its_probe:
  assumes "sessions_ok p" and "is_open_at p i"
    and "pp_SequenceNum (ai_Packet info) = sn_SequenceNum (pb_heap p ! i)" and "pw_SGID (ai_ProcessedWC info) = sn_TargetGid (pb_heap p ! i)"
    and "\<forall>j. is_open_at p j \<and> sn_FlowLabel (pb_heap p ! j) = pw_FlowLabel (ai_ProcessedWC info) \<longrightarrow> j = i"
    and "ai_AckStatusOK info" and "pp_AckType (ai_Packet info) = 1 \<or> pp_AckType (ai_Packet info) = 2"
    and "ch_buf (ack_chan (pp_AckType (ai_Packet info)) (pb_heap p ! i)) = []"
  shows "\<exists>p'. HandleIncomingRDMAPacket pick (Some info) p = Ret p' \<and> length (pb_heap p') = length (pb_heap p)
    \<and> ch_buf (ack_chan (pp_AckType (ai_Packet info)) (pb_heap p' ! i)) = [event_of info] \<and> (\<forall>j. j \<noteq> i \<longrightarrow> pb_heap p' ! j = pb_heap p ! j)"
proof -
  let ?fl = "pw_FlowLabel (ai_ProcessedWC info)"
  have "\<exists>p1. lookup_ack info p = (Some i, p1)"
  proof (cases "sn_FlowLabel (pb_heap p ! i) = ?fl")
    case True
    from getSessionByFlowLabel_unique[OF assms(1,2) this] assms(5) show ?thesis by (auto simp: lookup_ack_def)
  next
    case False
    with assms(5) range_find_sessions[OF assms(1), of "\<lambda>s. sn_FlowLabel s = ?fl"] have "getSessionByFlowLabel p ?fl = None"
      unfolding getSessionByFlowLabel_def by auto
    then show ?thesis using findSessionByPacketInfo_open[OF assms(1,2)] assms(3,4) by (simp add: lookup_ack_def)
  qed
  then show ?thesis using Handle_found[OF _ assms(1,2,6-8)] by blast
qed

text \<open>The flow label is tried before the sequence number, so an ACK that arrives with
  the flow label of another open session is handed to that session: the probe it answers
  does not get it, whatever sequence number and responder it names. ACKs received over IPv4
  always arrive with flow label 0.\<close>

theorem ack_misdelivered:
  assumes "sessions_ok p" and "is_open_at p i" and "is_open_at p j" and "i \<noteq> j"
    and "pp_SequenceNum (ai_Packet info) = sn_SequenceNum (pb_heap p ! i)" and "pw_SGID (ai_ProcessedWC info) = sn_TargetGid (pb_heap p ! i)"
    and "\<forall>l. is_open_at p l \<longrightarrow> (sn_FlowLabel (pb_heap p ! l) = pw_FlowLabel (ai_ProcessedWC info) \<longleftrightarrow> l = j)"
    and "ai_AckStatusOK info" and "pp_AckType (ai_Packet info) = 1 \<or> pp_AckType (ai_Packet info) = 2"
    and "ch_buf (ack_chan (pp_AckType (ai_Packet info)) (pb_heap p ! j)) = []"
  shows "\<exists>p'. HandleIncomingRDMAPacket pick (Some info) p = Ret p' \<and> pb_heap p' ! i = pb_heap p ! i
    \<and> ch_buf (ack_chan (pp_AckType (ai_Packet info)) (pb_heap p' ! j)) = [event_of info]"
proof -
  have "getSessionByFlowLabel p (pw_FlowLabel (ai_ProcessedWC info)) = Some j"
    using assms(3,7) by (intro getSessionByFlowLabel_unique[OF assms(1,3)]) auto
  then obtain p1 where "lookup_ack info p = (Some j, p1)" by (auto simp: lookup_ack_def)
  from Handle_found[OF this assms(1,3,8-10)] assms(4) show ?thesis by blast
qed

subsection \<open>The responder answers\<close>

lemma SendFirstAckPacket_ok:
  assumes "SendFirstAckPacket e sel gid qpn fl p rt u = Some (Ret (Inr t, u'))"
  shows "\<exists>ip ws wc rest. ParseIP gid = Some ip \<and> To16 ip = Some (ah_dgid (ws_ah ws)) \<and> ah_flow_label (ws_ah ws) = fl \<and> ws_qpn ws = qpn
    \<and> uq_sent u' = uq_sent u @ [ws] \<and> ch_buf (uq_sendCompChan u) @ se_arrivals e = wc # rest \<and> t = unix_ns (wc_WallclockNS wc)
    \<and> read_packet (ws_bytes ws) = \<lparr>pp_SequenceNum = pp_SequenceNum p, pp_T1 = pp_T1 p, pp_T3 = unix_nano_u64 rt, pp_T4 = 0,
         pp_IsAck = 1, pp_AckType = 1, pp_Flags = 0\<rparr>"
proof -
  let ?q = "\<lparr>pp_SequenceNum = pp_SequenceNum p, pp_T1 = pp_T1 p, pp_T3 = unix_nano_u64 rt, pp_T4 = 0, pp_IsAck = 1, pp_AckType = 1, pp_Flags = 0\<rparr>"
  obtain x u1 where q: "post_packet e gid qpn fl ?q u = Ret (Inr x, u1)"
    and a: "await_send ''First ACK send completion failed: '' ''error during First ACK send: '' (se_arrivals e) sel u1 = Some (Ret (Inr t, u'))"
    using assms by (auto simp: SendFirstAckPacket_def split: sum.splits prod.splits go.splits)
  from post_packet_ok[OF q] await_send_oldest[OF a] read_packet_bytes[of ?q "[]"] show ?thesis by fastforce
qed

lemma SendSecondAckPacket_ok:
  assumes "SendSecondAckPacket e sel gid qpn fl p rt ct u = Some (Ret (Inr y, u'))"
  shows "\<exists>ip ws. ParseIP gid = Some ip \<and> To16 ip = Some (ah_dgid (ws_ah ws)) \<and> ah_flow_label (ws_ah ws) = fl \<and> ws_qpn ws = qpn
    \<and> uq_sent u' = uq_sent u @ [ws]
    \<and> read_packet (ws_bytes ws) = \<lparr>pp_SequenceNum = pp_SequenceNum p, pp_T1 = pp_T1 p, pp_T3 = unix_nano_u64 rt, pp_T4 = unix_nano_u64 ct,
         pp_IsAck = 1, pp_AckType = 2, pp_Flags = 0\<rparr>"
proof -
  let ?q = "\<lparr>pp_SequenceNum = pp_SequenceNum p, pp_T1 = pp_T1 p, pp_T3 = unix_nano_u64 rt, pp_T4 = unix_nano_u64 ct, pp_IsAck = 1, pp_AckType = 2, pp_Flags = 0\<rparr>"
  obtain x t u1 where q: "post_packet e gid qpn fl ?q u = Ret (Inr x, u1)"
    and a: "await_send ''Second ACK send completion failed: '' ''error during Second ACK send: '' (se_arrivals e) sel u1 = Some (Ret (Inr t, u'))"
    using assms by (auto simp: SendSecondAckPacket_def split: sum.splits prod.splits option.splits go.splits)
  from post_packet_ok[OF q] await_send_oldest[OF a] read_packet_bytes[of ?q "[]"] show ?thesis by fastforce
qed

text \<open>C25: a probe packet for which the responder counts no error and no invalid source is
  answered by exactly two packets, both to the GID, QP number and flow label the probe came
  from. Both repeat the probe's sequence number and T1 and carry its arrival time as T3; the
  second one also carries T4, the time stamp of the oldest completion queued when the first
  one was waited for.\<close>

theorem responder_sends_two_acks:
  assumes "ReceivePacket pr h sel u = Some (Ret (RxPacket packet rt pw, u0))" and "pp_IsAck packet = 0"
    and "responder_step pr h sel e1 e2 u s = Some (Ret (u', s'))"
    and "rs_errorPackets s' = rs_errorPackets s" and "rs_invalidPackets s' = rs_invalidPackets s"
  shows "\<exists>a1 a2 wc rest. uq_sent u' = uq_sent u0 @ [a1, a2]
    \<and> (\<forall>a \<in> {a1, a2}. \<exists>ip. ParseIP (pw_SGID pw) = Some ip \<and> To16 ip = Some (ah_dgid (ws_ah a))
         \<and> ah_flow_label (ws_ah a) = pw_FlowLabel pw \<and> ws_qpn a = wc_SrcQP (pw_WC pw))
    \<and> ch_buf (uq_sendCompChan u0) @ se_arrivals (fst e1) = wc # rest
    \<and> read_packet (ws_bytes a1) = \<lparr>pp_SequenceNum = pp_SequenceNum packet, pp_T1 = pp_T1 packet, pp_T3 = unix_nano_u64 rt, pp_T4 = 0,
         pp_IsAck = 1, pp_AckType = 1, pp_Flags = 0\<rparr>
    \<and> read_packet (ws_bytes a2) = \<lparr>pp_SequenceNum = pp_SequenceNum packet, pp_T1 = pp_T1 packet, pp_T3 = unix_nano_u64 rt,
         pp_T4 = unix_nano_u64 (unix_ns (wc_WallclockNS wc)), pp_IsAck = 1, pp_AckType = 2, pp_Flags = 0\<rparr>"
proof -
  have "responder_reply e1 e2 packet rt pw u0 s = Some (Ret (u', s'))" using assms(1,3) by (simp add: responder_step_def)
  then obtain t u1 y where
    1: "SendFirstAckPacket (fst e1) (snd e1) (pw_SGID pw) (wc_SrcQP (pw_WC pw)) (pw_FlowLabel pw) packet rt u0 = Some (Ret (Inr t, u1))" and
    2: "SendSecondAckPacket (fst e2) (snd e2) (pw_SGID pw) (wc_SrcQP (pw_WC pw)) (pw_FlowLabel pw) packet rt t u1 = Some (Ret (Inr y, u'))"
    using assms(2,4,5)
    by (auto simp: responder_reply_def count_error_def Let_def split: if_splits option.splits go.splits sum.splits prod.splits)
  obtain ip a1 wc rest where A: "ParseIP (pw_SGID pw) = Some ip" "To16 ip = Some (ah_dgid (ws_ah a1))" "ah_flow_label (ws_ah a1) = pw_FlowLabel pw"
    "ws_qpn a1 = wc_SrcQP (pw_WC pw)" "uq_sent u1 = uq_sent u0 @ [a1]" "ch_buf (uq_sendCompChan u0) @ se_arrivals (fst e1) = wc # rest"
    "t = unix_ns (wc_WallclockNS wc)" "read_packet (ws_bytes a1) = \<lparr>pp_SequenceNum = pp_SequenceNum packet, pp_T1 = pp_T1 packet,
       pp_T3 = unix_nano_u64 rt, pp_T4 = 0, pp_IsAck = 1, pp_AckType = 1, pp_Flags = 0\<rparr>"
    using SendFirstAckPacket_ok[OF 1] by blast
  obtain ip2 a2 where B: "ParseIP (pw_SGID pw) = Some ip2" "To16 ip2 = Some (ah_dgid (ws_ah a2))" "ah_flow_label (ws_ah a2) = pw_FlowLabel pw"
    "ws_qpn a2 = wc_SrcQP (pw_WC pw)" "uq_sent u' = uq_sent u1 @ [a2]" "read_packet (ws_bytes a2) = \<lparr>pp_SequenceNum = pp_SequenceNum packet,
       pp_T1 = pp_T1 packet, pp_T3 = unix_nano_u64 rt, pp_T4 = unix_nano_u64 t, pp_IsAck = 1, pp_AckType = 2, pp_Flags = 0\<rparr>"
    using SendSecondAckPacket_ok[OF 2] by blast
  show ?thesis
    using A B by (intro exI[of _ a1] exI[of _ a2] exI[of _ wc] exI[of _ rest]) auto
qed

subsection \<open>Concrete probes and replies\<close>

definition sample_rnic :: RNIC where
  "sample_rnic = (new_rnic ''mlx5_0'')\<lparr>rn_GID := ''fe80::1''\<rparr>"

definition sample_ping :: "string \<Rightarrow> u32 \<Rightarrow> PingTarget" where
  "sample_ping g fl = \<lparr>pt_GID = g, pt_QPN = 9, pt_IPAddress = '''', pt_HostName = '''', pt_TorID = '''', pt_DeviceName = '''',
     pt_SourceRnicGID = '''', pt_SourceRnicQPN = 0, pt_SourceRnicIP = '''', pt_SourceHostName = '''', pt_SourceTorID = '''',
     pt_SourceDeviceName = '''', pt_SourcePort = 0, pt_FlowLabel = fl, pt_Priority = 0, pt_ServiceFlowTuple = None,
     pt_ProbeType = ProbeTypeTorMesh\<rparr>"

text \<open>Two probes under way: to fe80::2 with flow label 7 and to fe80::3 with flow label 0.\<close>

definition two_probes :: Prober where
  "two_probes = snd (probe_begin 0 (Some sample_rnic) (Some (sample_ping ''fe80::3'' 0))
     (snd (probe_begin 0 (Some sample_rnic) (Some (sample_ping ''fe80::2'' 7)) (NewProber sample_agent))))"

definition sample_info :: "u64 \<Rightarrow> u8 \<Rightarrow> string \<Rightarrow> u32 \<Rightarrow> IncomingAckInfo" where
  "sample_info seq ty gid fl = \<lparr>ai_Packet = \<lparr>pp_SequenceNum = seq, pp_T1 = 0, pp_T3 = 0, pp_T4 = 0, pp_IsAck = 1, pp_AckType = ty, pp_Flags = 0\<rparr>,
     ai_ReceivedAt = 50, ai_ProcessedWC = \<lparr>pw_WC = sample_wc, pw_SGID = gid, pw_DGID = '''', pw_FlowLabel = fl\<rparr>, ai_AckStatusOK = True\<rparr>"

lemma sessions_ok_new: "sessions_ok (NewProber a)"
  by (simp add: sessions_ok_def NewProber_def is_open_at_def)

lemma two_probes_ok: "sessions_ok two_probes" "is_open_at two_probes j \<longleftrightarrow> j = 0 \<or> j = 1"
    "sn_FlowLabel (pb_heap two_probes ! 0) = 7" "sn_FlowLabel (pb_heap two_probes ! Suc 0) = 0"
    "sn_SequenceNum (pb_heap two_probes ! 0) = 1" "sn_TargetGid (pb_heap two_probes ! 0) = ''fe80::2''"
    "ch_buf (ack_chan ty (pb_heap two_probes ! 0)) = []" "ch_buf (ack_chan ty (pb_heap two_probes ! Suc 0)) = []"
proof -
  let ?p1 = "snd (probe_begin 0 (Some sample_rnic) (Some (sample_ping ''fe80::2'' 7)) (NewProber sample_agent))"
  have 1: "probe_begin 0 (Some sample_rnic) (Some (sample_ping ''fe80::2'' 7)) (NewProber sample_agent) = (Some 0, ?p1)"
    by (simp add: probe_begin_def NewProber_def Let_def)
  have l1: "length (pb_heap ?p1) = 1" by (simp add: probe_begin_def NewProber_def Let_def)
  then have 2: "probe_begin 0 (Some sample_rnic) (Some (sample_ping ''fe80::3'' 0)) ?p1 = (Some 1, two_probes)"
    by (simp add: two_probes_def) (simp add: probe_begin_def Let_def)
  have "sessions_ok ?p1" using sessions_ok_begin[OF sessions_ok_new 1] l1 by simp
  moreover have l2: "length (pb_heap two_probes) = 2" by (simp add: two_probes_def probe_begin_def NewProber_def Let_def)
  ultimately show "sessions_ok two_probes" using sessions_ok_begin[OF _ 2] by simp
  show "is_open_at two_probes j \<longleftrightarrow> j = 0 \<or> j = 1"
    unfolding is_open_at_def l2
    by (auto simp: less_2_cases_iff) (simp_all add: two_probes_def probe_begin_def NewProber_def Let_def)
  show "sn_FlowLabel (pb_heap two_probes ! 0) = 7" "sn_FlowLabel (pb_heap two_probes ! Suc 0) = 0"
    "sn_SequenceNum (pb_heap two_probes ! 0) = 1" "sn_TargetGid (pb_heap two_probes ! 0) = ''fe80::2''"
    "ch_buf (ack_chan ty (pb_heap two_probes ! 0)) = []" "ch_buf (ack_chan ty (pb_heap two_probes ! Suc 0)) = []"
    by (simp_all add: two_probes_def probe_begin_def NewProber_def sample_ping_def ack_chan_def chan_make_def Let_def)
qed

lemma sample_info_simps [simp]:
  "pp_SequenceNum (ai_Packet (sample_info seq ty gid fl)) = seq" "pp_AckType (ai_Packet (sample_info seq ty gid fl)) = ty"
  "pw_SGID (ai_ProcessedWC (sample_info seq ty gid fl)) = gid" "pw_FlowLabel (ai_ProcessedWC (sample_info seq ty gid fl)) = fl"
  "ai_AckStatusOK (sample_info seq ty gid fl)"
  by (simp_all add: sample_info_def)

theorem ack_reaches_its_probe_witness:
  "\<exists>p'. HandleIncomingRDMAPacket False (Some (sample_info 1 2 ''fe80::2'' 99)) two_probes = Ret p'
     \<and> ch_buf (ack_chan 2 (pb_heap p' ! 0)) = [event_of (sample_info 1 2 ''fe80::2'' 99)]"
proof -
  have "\<forall>j. is_open_at two_probes j \<and> sn_FlowLabel (pb_heap two_probes ! j) = pw_FlowLabel (ai_ProcessedWC (sample_info 1 2 ''fe80::2'' 99)) \<longrightarrow> j = 0"
    by (auto simp: two_probes_ok)
  from ack_reaches_its_probe[OF two_probes_ok(1) _ _ _ this, of False] show ?thesis by (auto simp: two_probes_ok)
qed

theorem ack_misdelivered_witness:
  "\<exists>p'. HandleIncomingRDMAPacket False (Some (sample_info 1 1 ''fe80::2'' 0)) two_probes = Ret p'
     \<and> pb_heap p' ! 0 = pb_heap two_probes ! 0 \<and> ch_buf (ack_chan 1 (pb_heap p' ! 1)) = [event_of (sample_info 1 1 ''fe80::2'' 0)]"
  using ack_misdelivered[OF two_probes_ok(1), of 0 1 "sample_info 1 1 ''fe80::2'' 0" False]
  by (auto simp: two_probes_ok)

lemma post_packet_succeeds:
  assumes "ParseIP gid = Some (mapped4 a b c d)" and "0 < uq_NumSendSlots u"
  shows "\<exists>u1. post_packet (sample_env t arr) gid qpn fl p u = Ret (Inr (), u1) \<and> uq_sendCompChan u1 = uq_sendCompChan u
     \<and> uq_NumSendSlots u1 = uq_NumSendSlots u"
proof -
  obtain u1 where "post_packet (sample_env t arr) gid qpn fl p u = Ret (Inr (), u1)"
    using assms by (simp add: post_packet_def CreateAddressHandle_def mapped4_def To16_def GetNextSendSlot_def sample_env_def Let_def)
  with post_packet_chans show ?thesis by blast
qed

lemma await_succeeds:
  "uq_sendCompChan u = chan_make 100 \<Longrightarrow>
   \<exists>u'. await_send fm em [sample_wc] SelComp u = Some (Ret (Inr (unix_ns 1000), u')) \<and> uq_sendCompChan u' = chan_make 100
     \<and> uq_NumSendSlots u' = uq_NumSendSlots u"
  by (simp add: await_send_def chan_recv_def nb_send_def chan_make_def sample_wc_def IBV_WC_SUCCESS_def)

definition sample_responder :: UDQueue where
  "sample_responder = (sample_queue UDQueueTypeResponder)\<lparr>uq_recv_mem := \<lambda>_. sample_buf4,
     uq_recvCompChan := \<lparr>ch_buf = [sample_wc], ch_cap = 100, ch_closed = False\<rparr>\<rparr>"

definition zero_rstats :: responder_stats where
  "zero_rstats = \<lparr>rs_totalPackets = 0, rs_probePackets = 0, rs_invalidPackets = 0, rs_errorPackets = 0, rs_timeoutCount = 0\<rparr>"

lemma sample_receive:
  "\<exists>sgid packet pw u0. ReceivePacket (\<lambda>_ _. 0) spec_parsers RSelComp sample_responder = Some (Ret (RxPacket packet (unix_ns 1000) pw, u0))
     \<and> pw_SGID pw = sgid \<and> ParseIP sgid = Some (mapped4 10 0 0 1) \<and> wc_SrcQP (pw_WC pw) = 9 \<and> pp_IsAck packet = 0
     \<and> uq_sendCompChan u0 = chan_make 100 \<and> uq_sent u0 = [] \<and> 0 < uq_NumSendSlots u0"
proof -
  have l: "40 \<le> unat (wc_ByteLen sample_wc)" "wc_GRH sample_wc" "40 \<le> length sample_buf4"
    by (simp_all add: sample_wc_def sample_buf4_def)
  have v: "and (drop_bit 4 (sample_buf4 ! 0)) 0x0f = 4" "sample_buf4 ! 20 = 0x45"
    "sample_buf4 ! 32 = 10" "sample_buf4 ! 33 = 0" "sample_buf4 ! 34 = 0" "sample_buf4 ! 35 = 1" "drop 40 sample_buf4 ! 32 = 0"
    by code_simp+
  obtain sgid dgid where g: "parseGRH spec_parsers sample_wc sample_buf4 = Inr (sgid, dgid, 0, drop 40 sample_buf4, unat (wc_ByteLen sample_wc) - 40)"
    "ParseIP sgid = Some (mapped4 10 0 0 1)"
    using parseGRH_ipv4[OF spec_parsers_ok l(2,1,3) v(1,2)] v by auto
  have w: "wc_WallclockNS sample_wc = 1000" "wc_SrcQP sample_wc = 9" "unat (wc_ByteLen sample_wc) - 40 = 40" by (simp_all add: sample_wc_def)
  have d: "deserializeProbePacket (drop 40 sample_buf4) 40 = Inr (read_packet (drop 40 sample_buf4))"
    by (simp add: deserializeProbePacket_def sizeof_ProbePacket_def)
  have a: "pp_IsAck (read_packet (drop 40 sample_buf4)) = 0" using v(7) by (simp add: read_packet_def)
  let ?u = "sample_responder\<lparr>uq_recvCompChan := \<lparr>ch_buf = [], ch_cap = 100, ch_closed = False\<rparr>\<rparr>"
  have "valid_slot ?u 3" by (simp add: valid_slot_def sample_responder_def sample_queue_def)
  then have "ReceivePacket (\<lambda>_ _. 0) spec_parsers RSelComp sample_responder =
      Some (Ret (RxPacket (read_packet (drop 40 sample_buf4)) (unix_ns 1000) \<lparr>pw_WC = sample_wc, pw_SGID = sgid, pw_DGID = dgid, pw_FlowLabel = 0\<rparr>,
        ?u\<lparr>uq_posted := uq_posted ?u @ [3]\<rparr>))"
    using g(1) w d
    by (simp add: ReceivePacket_def chan_recv_def sample_responder_def receive_completion_def slot_buffer_def sample_slot repost_def
        PostRecvSlot_valid Let_def)
  with g(2) w a show ?thesis by (auto simp: sample_responder_def sample_queue_def)
qed

theorem responder_sends_two_acks_witness:
  "\<exists>u' s' a1 a2. responder_step (\<lambda>_ _. 0) spec_parsers RSelComp (sample_env 1 [sample_wc], SelComp) (sample_env 2 [sample_wc], SelComp)
       sample_responder zero_rstats = Some (Ret (u', s')) \<and> uq_sent u' = [a1, a2] \<and> pp_AckType (read_packet (ws_bytes a2)) = 2"
proof -
  obtain packet pw u0 where r: "ReceivePacket (\<lambda>_ _. 0) spec_parsers RSelComp sample_responder = Some (Ret (RxPacket packet (unix_ns 1000) pw, u0))"
    "ParseIP (pw_SGID pw) = Some (mapped4 10 0 0 1)" "wc_SrcQP (pw_WC pw) = 9" "pp_IsAck packet = 0" "uq_sendCompChan u0 = chan_make 100" "uq_sent u0 = []" "0 < uq_NumSendSlots u0"
    using sample_receive by blast
  have ne: "pw_SGID pw \<noteq> ''''" "pw_SGID pw \<noteq> ''::''"
  proof -
    have "replicate 16 0 \<noteq> mapped4 10 0 0 1" by (simp add: mapped4_def numeral_eq_Suc)
    then show "pw_SGID pw \<noteq> ''''" "pw_SGID pw \<noteq> ''::''" using r(2) by (auto simp: ParseIP_def parseIPv6_def)
  qed
  let ?e = "sample_env 1 [sample_wc]" and ?f = "sample_env 2 [sample_wc]"
  obtain u1 where 1: "SendFirstAckPacket ?e SelComp (pw_SGID pw) 9 (pw_FlowLabel pw) packet (unix_ns 1000) u0 = Some (Ret (Inr (unix_ns 1000), u1))"
    "uq_sendCompChan u1 = chan_make 100" "0 < uq_NumSendSlots u1"
  proof -
    fix thesis assume t: "\<And>u1. SendFirstAckPacket ?e SelComp (pw_SGID pw) 9 (pw_FlowLabel pw) packet (unix_ns 1000) u0 = Some (Ret (Inr (unix_ns 1000), u1)) \<Longrightarrow>
      uq_sendCompChan u1 = chan_make 100 \<Longrightarrow> 0 < uq_NumSendSlots u1 \<Longrightarrow> thesis"
    obtain v where "post_packet ?e (pw_SGID pw) 9 (pw_FlowLabel pw) \<lparr>pp_SequenceNum = pp_SequenceNum packet, pp_T1 = pp_T1 packet,
        pp_T3 = unix_nano_u64 (unix_ns 1000), pp_T4 = 0, pp_IsAck = 1, pp_AckType = 1, pp_Flags = 0\<rparr> u0 = Ret (Inr (), v)" "uq_sendCompChan v = chan_make 100" "0 < uq_NumSendSlots v"
      using post_packet_succeeds[OF r(2,7)] r(5,7) by metis
    with await_succeeds[of v] t show thesis by (fastforce simp: SendFirstAckPacket_def sample_env_def)
  qed
  obtain v2 where v2: "post_packet ?f (pw_SGID pw) 9 (pw_FlowLabel pw) \<lparr>pp_SequenceNum = pp_SequenceNum packet, pp_T1 = pp_T1 packet,
      pp_T3 = unix_nano_u64 (unix_ns 1000), pp_T4 = unix_nano_u64 (unix_ns 1000), pp_IsAck = 1, pp_AckType = 2, pp_Flags = 0\<rparr> u1 = Ret (Inr (), v2)" "uq_sendCompChan v2 = chan_make 100"
    using post_packet_succeeds[OF r(2) 1(3)] 1(2) by metis
  obtain u2 where "await_send ''Second ACK send completion failed: '' ''error during Second ACK send: '' [sample_wc] SelComp v2 = Some (Ret (Inr (unix_ns 1000), u2))"
    using await_succeeds[OF v2(2)] by blast
  with v2 have 2: "SendSecondAckPacket ?f SelComp (pw_SGID pw) 9 (pw_FlowLabel pw) packet (unix_ns 1000) (unix_ns 1000) u1 = Some (Ret (Inr (), u2))"
    by (simp add: SendSecondAckPacket_def) (simp add: sample_env_def)
  define s' where "s' = zero_rstats\<lparr>rs_totalPackets := 1, rs_probePackets := 1\<rparr>"
  have step: "responder_step (\<lambda>_ _. 0) spec_parsers RSelComp (?e, SelComp) (?f, SelComp) sample_responder zero_rstats = Some (Ret (u2, s'))"
    using r(1,3,4) ne 1(1) 2 by (simp add: responder_step_def responder_reply_def s'_def zero_rstats_def Let_def)
  have s': "rs_errorPackets s' = rs_errorPackets zero_rstats" "rs_invalidPackets s' = rs_invalidPackets zero_rstats" by (simp_all add: s'_def)
  from responder_sends_two_acks[OF r(1) r(4) step s'] r(6) step show ?thesis by fastforce
qed

end
