(* ===== verification/Prober_Runs.thy ===== *)
theory Prober_Runs
  imports Prober "HOL-Library.Multiset"
begin

text \<open>
  Probes, ACK handlers and clean-up running concurrently (internal/probe/prober.go). A run is one
  call of ProbeTarget, which goes through the phases of theory Prober; a pending delivery is
  a call of HandleIncomingRDMAPacket that has looked up its session and not yet sent to it.
  A step relation interleaves them with the clean-up of expired sessions, the consumer of
  the results and Close. Invariants are proved by rule induction over the reachable states.
\<close>

subsection \<open>Runs and worlds\<close>

datatype run = Sending nat RNIC PingTarget | Waiting waiting | Publishing nat ProbeResult | Finished nat ProbeResult

text \<open>What the environment decides in one step of a run: the send's outcome, the case a
  select takes, the clock.\<close>

datatype env_choice = EnvSend send_env select_choice | EnvWait wait_choice | EnvNow gtime | EnvNone

definition lift_phase :: "nat \<Rightarrow> (ProbeResult + waiting) \<times> Prober \<Rightarrow> run \<times> Prober" where
  "lift_phase i x = (case x of (Inl r, p) \<Rightarrow> (Publishing i r, p) | (Inr w, p) \<Rightarrow> (Waiting w, p))"

fun run_step :: "env_choice \<Rightarrow> run \<Rightarrow> Prober \<Rightarrow> (run \<times> Prober) go option" where
  "run_step (EnvSend e sel) (Sending i r t) p =
     (case probe_send e sel i r t p of None \<Rightarrow> None | Some (Panic m) \<Rightarrow> Some (Panic m) | Some (Ret x) \<Rightarrow> Some (Ret (lift_phase i x)))"
| "run_step (EnvWait c) (Waiting w) p =
     (if both_acks w then None else map_option (\<lambda>x. Ret (lift_phase (wt_session w) x)) (wait_step c w p))"
| "run_step (EnvNow t6) (Waiting w) p =
     (if both_acks w then Some (Ret (Publishing (wt_session w) (probe_finish t6 w), count_success p)) else None)"
| "run_step EnvNone (Publishing i r) p =
     (case publish (sn_SessionKey (pb_heap p ! i)) r p of None \<Rightarrow> None | Some (Panic m) \<Rightarrow> Some (Panic m) | Some (Ret p') \<Rightarrow> Some (Ret (Finished i r, p')))"
| "run_step _ _ p = None"

fun run_session :: "run \<Rightarrow> nat" where
  "run_session (Sending i r t) = i"
| "run_session (Waiting w) = wt_session w"
| "run_session (Publishing i r) = i"
| "run_session (Finished i r) = i"

fun run_result :: "run \<Rightarrow> ProbeResult list" where
  "run_result (Finished i r) = [r]"
| "run_result _ = []"

text \<open>w_consumed is what the consumer of GetProbeResults has received from the channel so far.\<close>

record world =
  w_prober :: Prober
  w_runs :: "run list"
  w_pending :: "(nat \<times> IncomingAckInfo) list"
  w_consumed :: "ProbeResult list"
  w_panic :: "string option"

definition init_world :: "AgentState \<Rightarrow> world" where
  "init_world a = \<lparr>w_prober = NewProber a, w_runs = [], w_pending = [], w_consumed = [], w_panic = None\<rparr>"

inductive prober_step :: "world \<Rightarrow> world \<Rightarrow> bool" where
  start: "w_panic w = None \<Longrightarrow> probe_begin now (Some r) (Some t) (w_prober w) = (Some i, p') \<Longrightarrow>
    prober_step w (w\<lparr>w_prober := p', w_runs := w_runs w @ [Sending i r t]\<rparr>)"
| run: "w_panic w = None \<Longrightarrow> n < length (w_runs w) \<Longrightarrow> run_step c (w_runs w ! n) (w_prober w) = Some (Ret (x, p')) \<Longrightarrow>
    prober_step w (w\<lparr>w_prober := p', w_runs := (w_runs w)[n := x]\<rparr>)"
| run_panic: "w_panic w = None \<Longrightarrow> n < length (w_runs w) \<Longrightarrow> run_step c (w_runs w ! n) (w_prober w) = Some (Panic m) \<Longrightarrow>
    prober_step w (w\<lparr>w_panic := Some m\<rparr>)"
| ack: "w_panic w = None \<Longrightarrow> lookup_ack info (w_prober w) = (x, p') \<Longrightarrow>
    prober_step w (w\<lparr>w_prober := p', w_pending := w_pending w @ (case x of None \<Rightarrow> [] | Some i \<Rightarrow> [(i, info)])\<rparr>)"
| deliver: "w_panic w = None \<Longrightarrow> (i, info) \<in> set (w_pending w) \<Longrightarrow> deliver_ack pick i info (w_prober w) = Ret p' \<Longrightarrow>
    prober_step w (w\<lparr>w_prober := p', w_pending := remove1 (i, info) (w_pending w)\<rparr>)"
| deliver_panic: "w_panic w = None \<Longrightarrow> (i, info) \<in> set (w_pending w) \<Longrightarrow> deliver_ack pick i info (w_prober w) = Panic m \<Longrightarrow>
    prober_step w (w\<lparr>w_panic := Some m\<rparr>)"
| cleanup: "w_panic w = None \<Longrightarrow> prober_step w (w\<lparr>w_prober := cleanupExpiredSessions now (w_prober w)\<rparr>)"
| consume: "w_panic w = None \<Longrightarrow> chan_recv (pb_probeResults (w_prober w)) = (Got r, ch) \<Longrightarrow>
    prober_step w (w\<lparr>w_prober := (w_prober w)\<lparr>pb_probeResults := ch\<rparr>, w_consumed := w_consumed w @ [r]\<rparr>)"
| close: "w_panic w = None \<Longrightarrow> Prober_Close (w_prober w) = Ret p' \<Longrightarrow> prober_step w (w\<lparr>w_prober := p'\<rparr>)"

inductive reach_world :: "AgentState \<Rightarrow> world \<Rightarrow> bool" for a where
  init: "reach_world a (init_world a)"
| step: "reach_world a w \<Longrightarrow> prober_step w w' \<Longrightarrow> reach_world a w'"

inductive_cases prober_stepE: "prober_step w w'"

subsection \<open>What a step of a run keeps\<close>

text \<open>A waiting run: its T2 is set; once an ACK has been seen, T5 is the time one of them
  was received; the two ACKs kept are of the two types.\<close>

definition waiting_ok :: "waiting \<Rightarrow> bool" where
  "waiting_ok w \<longleftrightarrow> pr_T2 (wt_result w) = Some (wt_t2 w)
     \<and> (\<forall>ev. wt_ack1 w = Some ev \<longrightarrow> pp_AckType (ae_Packet ev) = 1) \<and> (\<forall>ev. wt_ack2 w = Some ev \<longrightarrow> pp_AckType (ae_Packet ev) = 2)
     \<and> (wt_ack1 w \<noteq> None \<or> wt_ack2 w \<noteq> None \<longrightarrow> pr_T5 (wt_result w) = Some (wt_t5 w)
          \<and> (\<exists>ev. (wt_ack1 w = Some ev \<or> wt_ack2 w = Some ev) \<and> ae_ReceivedAt ev = wt_t5 w))"

fun run_ok :: "Prober \<Rightarrow> nat \<Rightarrow> run \<Rightarrow> bool" where
  "run_ok p n (Sending i r t) = (i = n)"
| "run_ok p n (Waiting w) = (wt_session w = n \<and> waiting_ok w)"
| "run_ok p n (Publishing i r) = (i = n)"
| "run_ok p n (Finished i r) = (i = n \<and> sn_closed (pb_heap p ! n))"

text \<open>The results that wait in the channel.\<close>

definition queued :: "Prober \<Rightarrow> ProbeResult list" where
  "queued p = ch_buf (pb_probeResults p)"

lemma set_queue_frame [simp]:
  "pb_heap (set_queue n u p) = pb_heap p" "pb_sessions (set_queue n u p) = pb_sessions p" "pb_seqNumIndex (set_queue n u p) = pb_seqNumIndex p"
  "pb_nextSeqNum (set_queue n u p) = pb_nextSeqNum p" "pb_probeResults (set_queue n u p) = pb_probeResults p" "pb_stopped (set_queue n u p) = pb_stopped p"
  by (simp_all add: set_queue_def Let_def split: option.split)

lemma probe_send_keeps:
  assumes "probe_send e sel i r t p = Some (Ret (x, p'))"
  shows "pb_heap p' = pb_heap p" "sessions_ok p \<Longrightarrow> sessions_ok p'" "x = Inr w \<Longrightarrow> waiting_ok w \<and> wt_session w = i"
  using assms
  by (auto simp: probe_send_def waiting_ok_def intro: sessions_ok_frame split: go.splits sum.splits option.splits prod.splits)

text \<open>Only publish puts a result into the channel, and only a receive takes one out.\<close>

lemma queued_frame:
  "probe_send e sel i r t p = Some (Ret (x, p')) \<Longrightarrow> queued p' = queued p"
  "wait_step c wt p = Some (y, p') \<Longrightarrow> queued p' = queued p"
  "deliver_ack pick i info p = Ret p' \<Longrightarrow> queued p' = queued p"
  "Prober_Close p = Ret p' \<Longrightarrow> queued p' = queued p"
  "probe_begin now ro tg p = (b, p') \<Longrightarrow> queued p' = queued p"
  by (auto simp: queued_def probe_send_def wait_step_def closed_early_def deliver_ack_def Prober_Close_def chan_close_def probe_begin_def addSession_def go_bind_eq_Ret Let_def
      split: go.splits sum.splits option.splits prod.splits recv.splits wait_choice.splits if_splits)

lemma queued_publish: "publish k r p = Some (Ret p') \<Longrightarrow> queued p' = queued p @ [r]"
  by (auto simp: queued_def publish_def Let_def split: if_splits)

lemma queued_run_step:
  assumes "run_step c x p = Some (Ret (x', p'))"
  shows "queued p' = queued p @ run_result x'"
proof (cases "(c, x, p)" rule: run_step.cases)
  case (1 e sel i r t q)
  then obtain y q' where "probe_send e sel i r t p = Some (Ret (y, q'))" "lift_phase i (y, q') = (x', p')"
    using assms by (auto split: option.splits go.splits)
  then show ?thesis using queued_frame(1) by (auto simp: lift_phase_def split: sum.splits)
next
  case (2 ch w q)
  then obtain y q' where "wait_step ch w p = Some (y, q')" "lift_phase (wt_session w) (y, q') = (x', p')"
    using assms by (auto split: if_splits)
  then show ?thesis using queued_frame(2) by (auto simp: lift_phase_def split: sum.splits)
next
  case (3 t6 w q)
  then show ?thesis using assms by (auto simp: count_success_def queued_def split: if_splits)
next
  case (4 i r q)
  then show ?thesis using assms queued_publish by (auto split: option.splits go.splits)
qed (use assms in auto)

lemma session_wf_recv1:
  "session_wf i s \<Longrightarrow> chan_recv (sn_Ack1Chan s) = (Got ev, ch) \<Longrightarrow> session_wf i (s\<lparr>sn_Ack1Chan := ch\<rparr>) \<and> pp_AckType (ae_Packet ev) = 1"
  by (auto simp: session_wf_def chan_wf_def chan_recv_def split: list.splits if_splits)

lemma session_wf_recv2:
  "session_wf i s \<Longrightarrow> chan_recv (sn_Ack2Chan s) = (Got ev, ch) \<Longrightarrow> session_wf i (s\<lparr>sn_Ack2Chan := ch\<rparr>) \<and> pp_AckType (ae_Packet ev) = 2"
  by (auto simp: session_wf_def chan_wf_def chan_recv_def split: list.splits if_splits)

lemma waiting_ok_first_seen1:
  "waiting_ok w \<Longrightarrow> wt_ack1 w = None \<Longrightarrow> pp_AckType (ae_Packet ev) = 1 \<Longrightarrow> waiting_ok ((first_seen ev w)\<lparr>wt_ack1 := Some ev\<rparr>)"
  by (cases "wt_ack2 w") (auto simp: waiting_ok_def first_seen_def)

lemma waiting_ok_first_seen2:
  "waiting_ok w \<Longrightarrow> wt_ack2 w = None \<Longrightarrow> pp_AckType (ae_Packet ev) = 2 \<Longrightarrow> waiting_ok ((first_seen ev w)\<lparr>wt_ack2 := Some ev\<rparr>)"
  by (cases "wt_ack1 w") (auto simp: waiting_ok_def first_seen_def)

lemma first_seen_session [simp]: "wt_session (first_seen ev w) = wt_session w"
  by (simp add: first_seen_def)

text \<open>What a step may do to the heap: sessions stay where they are, closed ones stay closed.\<close>

definition heap_keeps :: "Prober \<Rightarrow> Prober \<Rightarrow> bool" where
  "heap_keeps p p' \<longleftrightarrow> length (pb_heap p') = length (pb_heap p)
     \<and> (\<forall>j < length (pb_heap p). sn_closed (pb_heap p ! j) \<longrightarrow> sn_closed (pb_heap p' ! j))"

lemma heap_keeps_same: "pb_heap p' = pb_heap p \<Longrightarrow> heap_keeps p p'"
  by (simp add: heap_keeps_def)

lemma heap_keeps_update: "sn_closed s = sn_closed (pb_heap p ! i) \<Longrightarrow> heap_keeps p (p\<lparr>pb_heap := (pb_heap p)[i := s]\<rparr>)"
  by (auto simp: heap_keeps_def nth_update_at)

lemma wait_step_keeps:
  assumes "wait_step c w p = Some (x, p')" and "sessions_ok p" and "wt_session w < length (pb_heap p)" and "waiting_ok w"
  shows "sessions_ok p' \<and> heap_keeps p p' \<and> (\<forall>w'. x = Inr w' \<longrightarrow> waiting_ok w' \<and> wt_session w' = wt_session w)"
proof -
  let ?i = "wt_session w" and ?s = "pb_heap p ! wt_session w"
  have wf: "session_wf ?i ?s" using assms(2,3) by (simp add: sessions_ok_def)
  have stats: "sessions_ok (upd_stats f p) \<and> heap_keeps p (upd_stats f p)" for f
    using assms(2) by (auto intro: sessions_ok_frame heap_keeps_same)
  show ?thesis
  proof (cases c)
    case WaitDone
    then show ?thesis using assms(1) stats by (auto simp: wait_step_def)
  next
    case WaitAck1
    obtain g ch where r: "chan_recv (sn_Ack1Chan ?s) = (g, ch)" by (metis prod.exhaust)
    have "sessions_ok (p\<lparr>pb_heap := (pb_heap p)[?i := ?s\<lparr>sn_Ack1Chan := ch\<rparr>]\<rparr>)" if "g = Got ev" for ev
      using sessions_ok_update[OF assms(2,3)] session_wf_recv1[OF wf] r that by simp
    moreover have "heap_keeps p (p\<lparr>pb_heap := (pb_heap p)[?i := ?s\<lparr>sn_Ack1Chan := ch\<rparr>]\<rparr>)" by (rule heap_keeps_update) simp
    ultimately show ?thesis
      using assms(1,4) WaitAck1 r stats session_wf_recv1[OF wf] waiting_ok_first_seen1
      by (auto simp: wait_step_def closed_early_def Let_def split: recv.splits)
  next
    case WaitAck2
    obtain g ch where r: "chan_recv (sn_Ack2Chan ?s) = (g, ch)" by (metis prod.exhaust)
    have "sessions_ok (p\<lparr>pb_heap := (pb_heap p)[?i := ?s\<lparr>sn_Ack2Chan := ch\<rparr>]\<rparr>)" if "g = Got ev" for ev
      using sessions_ok_update[OF assms(2,3)] session_wf_recv2[OF wf] r that by simp
    moreover have "heap_keeps p (p\<lparr>pb_heap := (pb_heap p)[?i := ?s\<lparr>sn_Ack2Chan := ch\<rparr>]\<rparr>)" by (rule heap_keeps_update) simp
    ultimately show ?thesis
      using assms(1,4) WaitAck2 r stats session_wf_recv2[OF wf] waiting_ok_first_seen2
      by (auto simp: wait_step_def closed_early_def Let_def split: recv.splits)
  qed
qed

lemma publish_keeps:
  assumes "publish (sn_SessionKey (pb_heap p ! i)) r p = Some (Ret p')" and "sessions_ok p" and "i < length (pb_heap p)"
  shows "sessions_ok p' \<and> heap_keeps p p' \<and> sn_closed (pb_heap p' ! i)"
proof -
  let ?q = "p\<lparr>pb_probeResults := (pb_probeResults p)\<lparr>ch_buf := ch_buf (pb_probeResults p) @ [r]\<rparr>\<rparr>"
  have p': "p' = removeSession (sn_SessionKey (pb_heap ?q ! i)) ?q" using assms(1) by (auto simp: publish_def Let_def split: if_splits)
  have q: "sessions_ok ?q" using assms(2) by (rule sessions_ok_frame) simp_all
  show ?thesis
    using sessions_ok_remove[OF q] removeSession_closes[OF q, of i] assms(3) removeSession_closed_stays[of _ ?q]
    unfolding p' heap_keeps_def by auto
qed

lemma deliver_ack_keeps:
  assumes "deliver_ack pick i info p = Ret p'" and "sessions_ok p" and "i < length (pb_heap p)"
  shows "sessions_ok p' \<and> heap_keeps p p'"
proof -
  let ?s = "pb_heap p ! i" and ?ev = "\<lparr>ae_Packet = ai_Packet info, ae_ReceivedAt = ai_ReceivedAt info, ae_WorkComp = ai_ProcessedWC info\<rparr>"
  have wf: "session_wf i ?s" using assms(2,3) by (simp add: sessions_ok_def)
  have 1: "session_wf i (?s\<lparr>sn_Ack1Chan := ch\<rparr>)" if "nb_send (sn_Ack1Chan ?s) ?ev = Ret ch" "pp_AckType (ai_Packet info) = 1" for ch
    using wf that by (auto simp: session_wf_def chan_wf_def nb_send_def split: if_splits)
  have 2: "session_wf i (?s\<lparr>sn_Ack2Chan := ch\<rparr>)" if "nb_send (sn_Ack2Chan ?s) ?ev = Ret ch" "pp_AckType (ai_Packet info) = 2" for ch
    using wf that by (auto simp: session_wf_def chan_wf_def nb_send_def split: if_splits)
  consider "p' = p" | ch where "nb_send (sn_Ack1Chan ?s) ?ev = Ret ch" "pp_AckType (ai_Packet info) = 1" "p' = p\<lparr>pb_heap := (pb_heap p)[i := ?s\<lparr>sn_Ack1Chan := ch\<rparr>]\<rparr>"
    | ch where "nb_send (sn_Ack2Chan ?s) ?ev = Ret ch" "pp_AckType (ai_Packet info) = 2" "p' = p\<lparr>pb_heap := (pb_heap p)[i := ?s\<lparr>sn_Ack2Chan := ch\<rparr>]\<rparr>"
    using assms(1) unfolding deliver_ack_def Let_def
    by (cases "nb_send (sn_Ack1Chan ?s) ?ev"; cases "nb_send (sn_Ack2Chan ?s) ?ev") (auto split: if_splits)
  then show ?thesis
  proof cases
    case 1
    with assms(2) show ?thesis by (simp add: heap_keeps_def)
  next
    case (2 ch)
    then show ?thesis using sessions_ok_update[OF assms(2,3) 1] by (simp add: heap_keeps_update)
  next
    case (3 ch)
    then show ?thesis using sessions_ok_update[OF assms(2,3) 2] by (simp add: heap_keeps_update)
  qed
qed

lemma close_all_nth:
  "length (close_all m hp) = length hp \<and> (\<forall>j < length hp. close_all m hp ! j = (if j \<in> snd ` set m then close_session (hp ! j) else hp ! j))"
proof (induction m arbitrary: hp)
  case (Cons e m)
  have idem: "close_session (close_session s) = close_session s" for s by (simp add: close_session_def)
  obtain k i where e: "e = (k, i)" by (cases e)
  have "close_all (e # m) hp = close_all m (hp[i := close_session (hp ! i)])" by (simp add: close_all_def e)
  with Cons.IH[of "hp[i := close_session (hp ! i)]"] show ?case by (auto simp: e nth_update_at idem)
qed (simp add: close_all_def)

lemma Prober_Close_keeps:
  assumes "Prober_Close p = Ret p'" and "sessions_ok p"
  shows "sessions_ok p' \<and> heap_keeps p p'"
proof -
  have p': "pb_heap p' = close_all (pb_sessions p) (pb_heap p)" "pb_sessions p' = []" "pb_seqNumIndex p' = []" "pb_nextSeqNum p' = pb_nextSeqNum p"
    using assms(1) by (auto simp: Prober_Close_def chan_close_def split: if_splits)
  have at: "pb_heap p' ! j = (if is_open_at p j then close_session (pb_heap p ! j) else pb_heap p ! j)" if "j < length (pb_heap p)" for j
  proof -
    have "j \<in> snd ` set (pb_sessions p) \<longleftrightarrow> (\<exists>k. (k, j) \<in> set (pb_sessions p))" by force
    then have "j \<in> snd ` set (pb_sessions p) \<longleftrightarrow> is_open_at p j" by (simp add: sessions_entries[OF assms(2)])
    with close_all_nth[of "pb_sessions p" "pb_heap p"] that show ?thesis by (simp add: p')
  qed
  have len: "length (pb_heap p') = length (pb_heap p)" using close_all_nth[of "pb_sessions p" "pb_heap p"] by (simp add: p')
  have closed: "\<not> is_open_at p' j" for j using at[of j] by (auto simp: is_open_at_def len)
  have "session_wf j (pb_heap p' ! j)" if "j < length (pb_heap p)" for j
  proof -
    have "session_wf j (pb_heap p ! j)" using assms(2) that by (simp add: sessions_ok_def)
    then show ?thesis using at[OF that] by (simp add: session_wf_def close_session_def chan_wf_def is_open_at_def)
  qed
  with closed len assms(2) have "sessions_ok p'" by (simp add: sessions_ok_def p')
  with at len show ?thesis by (auto simp: heap_keeps_def)
qed

lemma run_step_keeps:
  assumes "run_step c x p = Some (Ret (x', p'))" and "sessions_ok p" and "run_ok p n x" and "n < length (pb_heap p)"
  shows "sessions_ok p' \<and> heap_keeps p p' \<and> run_ok p' n x' \<and> run_result x = []"
  using assms(1)
proof (cases "(c, x, p)" rule: run_step.cases)
  case (1 e sel i r t q)
  obtain y q' where y: "probe_send e sel i r t p = Some (Ret (y, q'))" "lift_phase i (y, q') = (x', p')"
    using assms(1) 1 by (auto split: option.splits go.splits)
  have "q' = p'" using y(2) by (auto simp: lift_phase_def split: sum.splits)
  with probe_send_keeps[OF y(1)] assms(2,3) 1 y(2) show ?thesis
    by (auto simp: lift_phase_def heap_keeps_same split: sum.splits)
next
  case (2 ch w q)
  obtain y q' where y: "wait_step ch w p = Some (y, q')" "lift_phase (wt_session w) (y, q') = (x', p')"
    using assms(1) 2 by (auto split: if_splits)
  have q': "q' = p'" using y(2) by (auto simp: lift_phase_def split: sum.splits)
  have "sessions_ok p' \<and> heap_keeps p p' \<and> (\<forall>w'. y = Inr w' \<longrightarrow> waiting_ok w' \<and> wt_session w' = n)"
    using wait_step_keeps[OF y(1) assms(2)] assms(3,4) 2 q' by auto
  with y(2) 2 assms(3) show ?thesis by (auto simp: lift_phase_def split: sum.splits)
next
  case (3 t6 w q)
  then show ?thesis
    using assms by (auto simp: count_success_def intro: sessions_ok_frame heap_keeps_same split: if_splits)
next
  case (4 i r q)
  then have "publish (sn_SessionKey (pb_heap p ! i)) r p = Some (Ret p')" "x' = Finished i r" "i = n"
    using assms(1,3) by (auto split: option.splits go.splits)
  with publish_keeps[of p i r p'] assms(2,4) 4 show ?thesis by auto
qed auto

text \<open>The invariant of a world.\<close>

definition world_ok :: "world \<Rightarrow> bool" where
  "world_ok w \<longleftrightarrow> sessions_ok (w_prober w) \<and> length (w_runs w) = length (pb_heap (w_prober w))
     \<and> (\<forall>n < length (w_runs w). run_ok (w_prober w) n (w_runs w ! n))
     \<and> (\<forall>(i, info) \<in> set (w_pending w). i < length (pb_heap (w_prober w)))
     \<and> mset (w_consumed w) + mset (queued (w_prober w)) = mset (concat (map run_result (w_runs w)))"

lemma run_ok_keeps: "run_ok p n x \<Longrightarrow> heap_keeps p p' \<Longrightarrow> n < length (pb_heap p) \<Longrightarrow> run_ok p' n x"
  by (cases x) (auto simp: heap_keeps_def)

lemma world_ok_prober:
  assumes "world_ok w" and "sessions_ok p'" and "heap_keeps (w_prober w) p'" and "queued p' = queued (w_prober w)"
  shows "world_ok (w\<lparr>w_prober := p'\<rparr>)"
  using assms run_ok_keeps[OF _ assms(3)] by (auto simp: world_ok_def heap_keeps_def)

lemma mset_concat_update:
  assumes "n < length xs" and "f (xs ! n) = []"
  shows "mset (concat (map f (xs[n := x]))) = mset (concat (map f xs)) + mset (f x)"
proof -
  have "xs = take n xs @ xs ! n # drop (Suc n) xs" using assms(1) by (rule id_take_nth_drop)
  then have "concat (map f xs) = concat (map f (take n xs @ xs ! n # drop (Suc n) xs))" by (rule arg_cong)
  then have "concat (map f xs) = concat (map f (take n xs)) @ concat (map f (drop (Suc n) xs))" using assms(2) by simp
  moreover have "concat (map f (xs[n := x])) = concat (map f (take n xs)) @ f x @ concat (map f (drop (Suc n) xs))"
    using assms(1) by (simp add: upd_conv_take_nth_drop)
  ultimately show ?thesis by simp
qed

lemma world_ok_run:
  assumes "world_ok w" and "n < length (w_runs w)" and "run_step c (w_runs w ! n) (w_prober w) = Some (Ret (x, p'))"
  shows "world_ok (w\<lparr>w_prober := p', w_runs := (w_runs w)[n := x]\<rparr>)"
proof -
  have pre: "sessions_ok (w_prober w)" "run_ok (w_prober w) n (w_runs w ! n)" "n < length (pb_heap (w_prober w))"
    using assms(1,2) by (auto simp: world_ok_def)
  note k = run_step_keeps[OF assms(3) pre]
  have "run_ok p' m ((w_runs w)[n := x] ! m)" if "m < length (w_runs w)" for m
    using that k assms(1) run_ok_keeps[of "w_prober w" m "w_runs w ! m" p'] by (auto simp: nth_update_at world_ok_def)
  moreover have "mset (concat (map run_result ((w_runs w)[n := x]))) = mset (concat (map run_result (w_runs w))) + mset (run_result x)"
    using k assms(2) by (intro mset_concat_update) auto
  ultimately show ?thesis using assms(1) k queued_run_step[OF assms(3)] by (auto simp: world_ok_def heap_keeps_def add.assoc[symmetric])
qed

lemma world_ok_start:
  assumes "world_ok w" and "probe_begin now (Some r) (Some t) (w_prober w) = (Some i, p')" and "Suc (Suc (length (w_runs w))) < 2 ^ 64"
  shows "world_ok (w\<lparr>w_prober := p', w_runs := w_runs w @ [Sending i r t]\<rparr>)"
proof -
  have l: "length (pb_heap p') = Suc (length (pb_heap (w_prober w)))"
    using assms(2) by (auto simp: probe_begin_def Let_def)
  from sessions_ok_begin[OF _ assms(2)] assms(1,3) l obtain s where
    k: "sessions_ok p'" "i = length (pb_heap (w_prober w))" "pb_heap p' = pb_heap (w_prober w) @ [s]" by (auto simp: world_ok_def)
  have "run_ok p' n (w_runs w ! n)" if "n < length (w_runs w)" for n
    using that assms(1) k(3) by (cases "w_runs w ! n") (auto simp: world_ok_def nth_append dest!: spec[of _ n])
  with assms(1) k l queued_frame(5)[OF assms(2)] show ?thesis by (fastforce simp: world_ok_def nth_append less_Suc_eq)
qed

lemma lookup_ack_open: "sessions_ok p \<Longrightarrow> lookup_ack info p = (Some i, p') \<Longrightarrow> is_open_at p i"
  using range_find_sessions(1)[of p] sessions_ok_map[of p]
  by (auto simp: lookup_ack_def getSessionByFlowLabel_def findSessionByPacketInfo_def getSession_def Let_def split: option.splits if_splits)

lemma step_runs_mono: "prober_step w w' \<Longrightarrow> length (w_runs w) \<le> length (w_runs w')"
  by (induction rule: prober_step.induct) auto

lemma world_ok_step:
  assumes "prober_step w w'" and "world_ok w" and "Suc (length (w_runs w')) < 2 ^ 64"
  shows "world_ok w'"
  using assms
proof (induction rule: prober_step.induct)
  case (start w now r t i p')
  then show ?case using world_ok_start[of w] by simp
next
  case (run w n c x p')
  then show ?case using world_ok_run[of w] by simp
next
  case (ack w info x p')
  have "sessions_ok (w_prober w)" using ack.prems by (simp add: world_ok_def)
  with lookup_ack_heap[OF ack.hyps(2)] have p': "sessions_ok p'" "heap_keeps (w_prober w) p'" "queued p' = queued (w_prober w)" by (auto simp: queued_def intro: heap_keeps_same)
  have "\<forall>(i, info) \<in> set (case x of None \<Rightarrow> [] | Some i \<Rightarrow> [(i, info)]). i < length (pb_heap p')"
    using lookup_ack_open[of "w_prober w" info _ p'] ack.hyps(2) \<open>sessions_ok (w_prober w)\<close> p'(2)
    by (auto simp: is_open_at_def heap_keeps_def split: option.splits)
  with world_ok_prober[OF ack.prems(1) p'] show ?case by (auto simp: world_ok_def)
next
  case (deliver w i info pick p')
  have "sessions_ok (w_prober w)" "i < length (pb_heap (w_prober w))" using deliver by (auto simp: world_ok_def)
  with deliver_ack_keeps[OF deliver.hyps(3)] have "world_ok (w\<lparr>w_prober := p'\<rparr>)" using world_ok_prober[OF deliver.prems(1)] queued_frame(3)[OF deliver.hyps(3)] by blast
  then show ?case using notin_set_remove1 by (fastforce simp: world_ok_def dest: in_set_remove1)
next
  case (cleanup w now)
  then have "sessions_ok (w_prober w)" by (simp add: world_ok_def)
  from cleanup_keeps[OF this, where now = now] show ?case by (intro world_ok_prober[OF cleanup.prems(1)]) (auto simp: heap_keeps_def queued_def)
next
  case (consume w r ch)
  let ?p = "(w_prober w)\<lparr>pb_probeResults := ch\<rparr>"
  have "queued (w_prober w) = r # queued ?p" using consume.hyps(2) by (auto simp: queued_def chan_recv_def split: list.splits if_splits)
  moreover have "sessions_ok ?p" using consume.prems(1) by (auto simp: world_ok_def intro: sessions_ok_frame)
  ultimately show ?case using consume.prems(1) run_ok_keeps[OF _ heap_keeps_same[of ?p]] by (auto simp: world_ok_def)
next
  case (close w p')
  then show ?case using Prober_Close_keeps[of "w_prober w" p'] queued_frame(4)[OF close.hyps(2)] by (intro world_ok_prober) (auto simp: world_ok_def)
qed (simp_all add: world_ok_def)

lemma reach_world_ok: "reach_world a w \<Longrightarrow> Suc (length (w_runs w)) < 2 ^ 64 \<Longrightarrow> world_ok w"
proof (induction rule: reach_world.induct)
  case init
  then show ?case by (simp add: world_ok_def init_world_def sessions_ok_new) (simp add: NewProber_def queued_def chan_make_def)
next
  case (step w w')
  then show ?case using step_runs_mono[OF step.hyps(2)] world_ok_step by simp
qed

subsection \<open>Every probe yields one result\<close>

text \<open>C3: in every reachable state, with any number of probes, ACK handlers and clean-ups
  interleaved, what the consumer has received from the result channel together with what
  still waits in it is exactly the results of the finished probes, one each: no result is
  lost, duplicated or made up; the session of a finished probe is gone; and every session that can be looked up
  belongs to an unfinished probe and is found by its sequence number and target.\<close>

theorem probe_runs_invariant:
  assumes "reach_world a w" and "Suc (length (w_runs w)) < 2 ^ 64"
  shows "mset (w_consumed w) + mset (ch_buf (pb_probeResults (w_prober w))) = mset (concat (map run_result (w_runs w)))
     \<and> (\<forall>n < length (w_runs w). \<forall>i r. w_runs w ! n = Finished i r \<longrightarrow> getSession (w_prober w) (sn_SessionKey (pb_heap (w_prober w) ! n)) = None)
     \<and> (\<forall>k i. getSession (w_prober w) k = Some i \<longrightarrow> i < length (w_runs w) \<and> (\<forall>j r. w_runs w ! i \<noteq> Finished j r)
          \<and> findSessionByPacketInfo (w_prober w) (sn_SequenceNum (pb_heap (w_prober w) ! i)) (sn_TargetGid (pb_heap (w_prober w) ! i)) = Some i)"
proof -
  let ?p = "w_prober w"
  have ok: "world_ok w" using assms by (rule reach_world_ok)
  then have s: "sessions_ok ?p" and l: "length (w_runs w) = length (pb_heap ?p)"
    and r: "\<And>n. n < length (w_runs w) \<Longrightarrow> run_ok ?p n (w_runs w ! n)" by (auto simp: world_ok_def)
  have fin: "\<not> is_open_at ?p n" if "n < length (w_runs w)" "w_runs w ! n = Finished i r" for n i r
    using r[OF that(1)] that(2) by (simp add: is_open_at_def)
  have "getSession ?p (sn_SessionKey (pb_heap ?p ! n)) = None" if "n < length (w_runs w)" "w_runs w ! n = Finished i r" for n i r
  proof (rule ccontr)
    assume "getSession ?p (sn_SessionKey (pb_heap ?p ! n)) \<noteq> None"
    then obtain m where m: "is_open_at ?p m" "sn_SessionKey (pb_heap ?p ! m) = sn_SessionKey (pb_heap ?p ! n)"
      by (auto simp: getSession_def sessions_ok_map[OF s])
    then have "m = n" using session_key_inj[OF s, of m n] that(1) l by (auto simp: is_open_at_def)
    with m(1) fin[OF that] show False by simp
  qed
  moreover have "i < length (w_runs w) \<and> (\<forall>j r. w_runs w ! i \<noteq> Finished j r)
      \<and> findSessionByPacketInfo ?p (sn_SequenceNum (pb_heap ?p ! i)) (sn_TargetGid (pb_heap ?p ! i)) = Some i"
    if "getSession ?p k = Some i" for k i
  proof -
    have "is_open_at ?p i" using that by (simp add: getSession_def sessions_ok_map[OF s])
    with fin findSessionByPacketInfo_open[OF s] l show ?thesis by (auto simp: is_open_at_def)
  qed
  ultimately show ?thesis using ok by (auto simp: world_ok_def queued_def)
qed

subsection \<open>Round-trip times\<close>

text \<open>C10: for a reachable probe that has both ACKs, with the responder's receive time c3 and
  completion time c4 read off a clock that is off by any amount, the published result has
  status OK, the responder delay is c4 - c3, the network round trip is (T5 - T2) - (c4 - c3)
  and the prober's delay (T6 - T1) - (T5 - T2): the clock offset cancels. T5 is the receive
  time of whichever ACK the select took first. The times are assumed to fit in 64 bits.\<close>

theorem probe_rtt:
  assumes "reach_world a w" and "Suc (length (w_runs w)) < 2 ^ 64" and "n < length (w_runs w)" and "w_runs w ! n = Waiting wt"
    and "wt_ack1 wt = Some ev1" and "wt_ack2 wt = Some ev2"
    and "pp_T3 (ae_Packet ev1) = unix_nano_u64 (c3 + off)" and "pp_T4 (ae_Packet ev2) = unix_nano_u64 (c4 + off)"
    and "in_i64 (c3 + off)" and "in_i64 (c4 + off)" and "in_i64 (c4 - c3)"
    and "in_i64 (wt_t5 wt - wt_t2 wt)" and "in_i64 (t6 - wt_t1 wt)"
    and "in_i64 (wt_t5 wt - wt_t2 wt - (c4 - c3))" and "in_i64 (t6 - wt_t1 wt - (wt_t5 wt - wt_t2 wt))"
  shows "\<exists>r. run_step (EnvNow t6) (Waiting wt) (w_prober w) = Some (Ret (Publishing n r, count_success (w_prober w)))
     \<and> pr_Status r = STATUS_OK \<and> pr_ResponderDelay r = c4 - c3 \<and> pr_NetworkRtt r = (wt_t5 wt - wt_t2 wt) - (c4 - c3)
     \<and> pr_ProberDelay r = (t6 - wt_t1 wt) - (wt_t5 wt - wt_t2 wt) \<and> wt_t5 wt \<in> {ae_ReceivedAt ev1, ae_ReceivedAt ev2}"
proof -
  have "run_ok (w_prober w) n (Waiting wt)" using reach_world_ok[OF assms(1,2)] assms(3,4) by (auto simp: world_ok_def)
  then have ok: "wt_session wt = n" "pr_T2 (wt_result wt) = Some (wt_t2 wt)" "pr_T5 (wt_result wt) = Some (wt_t5 wt)"
    "pp_AckType (ae_Packet ev1) = 1" "pp_AckType (ae_Packet ev2) = 2" "wt_t5 wt \<in> {ae_ReceivedAt ev1, ae_ReceivedAt ev2}"
    using assms(5,6) by (auto simp: waiting_ok_def)
  have a: "ack_of_type 1 (wt_ack1 wt) (wt_ack2 wt) = Some ev1" "ack_of_type 2 (wt_ack1 wt) (wt_ack2 wt) = Some ev2"
    using ok(4,5) assms(5,6) by (simp_all add: ack_of_type_def)
  have d: "time_sub (c4 + off) (c3 + off) = c4 - c3" using assms(11) by simp
  have r: "run_step (EnvNow t6) (Waiting wt) (w_prober w) = Some (Ret (Publishing n (probe_finish t6 wt), count_success (w_prober w)))"
    using assms(5,6) ok(1) by (simp add: both_acks_def)
  have "pr_Status (probe_finish t6 wt) = STATUS_OK \<and> pr_ResponderDelay (probe_finish t6 wt) = c4 - c3
     \<and> pr_NetworkRtt (probe_finish t6 wt) = (wt_t5 wt - wt_t2 wt) - (c4 - c3)
     \<and> pr_ProberDelay (probe_finish t6 wt) = (t6 - wt_t1 wt) - (wt_t5 wt - wt_t2 wt)"
    using assms(7-15) ok(2,3) a d by (simp add: probe_finish_def dur_sub_def Let_def)
  with r ok(6) show ?thesis by blast
qed

subsection \<open>A late ACK\<close>

text \<open>C26: the check of the closed channel does not protect the send. In every reachable state
  where a handler has looked up a session whose probe is about to publish its result, two
  steps lead to a run-time panic: the probe publishes and its deferred clean-up closes the
  channels, then the handler's select finds both of its cases ready and takes the send on
  the closed channel.\<close>

theorem late_ack_panics:
  assumes "reach_world a w" and "Suc (length (w_runs w)) < 2 ^ 64" and "w_panic w = None" and "(i, info) \<in> set (w_pending w)"
    and "ai_AckStatusOK info" and "pp_AckType (ai_Packet info) = 1 \<or> pp_AckType (ai_Packet info) = 2"
    and "w_runs w ! i = Publishing i r" and "\<not> ch_closed (pb_probeResults (w_prober w))"
    and "length (ch_buf (pb_probeResults (w_prober w))) < ch_cap (pb_probeResults (w_prober w))"
  shows "\<exists>w1 w2. prober_step w w1 \<and> prober_step w1 w2 \<and> w_panic w2 = Some ''send on closed channel''"
proof -
  let ?p = "w_prober w"
  have ok: "world_ok w" using assms(1,2) by (rule reach_world_ok)
  then have s: "sessions_ok ?p" and i: "i < length (pb_heap ?p)" "i < length (w_runs w)" using assms(4) by (auto simp: world_ok_def)
  obtain p' where p': "publish (sn_SessionKey (pb_heap ?p ! i)) r ?p = Some (Ret p')" using assms(8,9) by (simp add: publish_def Let_def)
  note k = publish_keeps[OF p' s i(1)]
  then have "session_wf i (pb_heap p' ! i)" "sn_closed (pb_heap p' ! i)" using i(1) by (auto simp: sessions_ok_def heap_keeps_def)
  then have panic: "deliver_ack True i info p' = Panic ''send on closed channel''"
    using assms(5,6) by (auto simp: deliver_ack_def session_wf_def chan_wf_def nb_send_def Let_def)
  define w1 where "w1 = w\<lparr>w_prober := p', w_runs := (w_runs w)[i := Finished i r]\<rparr>"
  have "run_step EnvNone (w_runs w ! i) ?p = Some (Ret (Finished i r, p'))" using p' by (simp add: assms(7))
  from prober_step.run[OF assms(3) i(2) this] have 1: "prober_step w w1" by (simp add: w1_def)
  have "prober_step w1 (w1\<lparr>w_panic := Some ''send on closed channel''\<rparr>)"
    using prober_step.deliver_panic[of w1 i info True] panic assms(3,4) by (simp add: w1_def)
  with 1 show ?thesis by (intro exI[of _ w1] exI[of _ "w1\<lparr>w_panic := Some ''send on closed channel''\<rparr>"]) simp
qed

subsection \<open>Concrete runs\<close>

definition quiet_agent :: AgentState where
  "quiet_agent = NewAgentState ''a'' ''h'' ''t'' 3"

definition one_probe :: Prober where
  "one_probe = snd (probe_begin 0 (Some sample_rnic) (Some (sample_ping ''fe80::2'' 7)) (NewProber quiet_agent))"

lemma one_probe_start: "probe_begin 0 (Some sample_rnic) (Some (sample_ping ''fe80::2'' 7)) (NewProber quiet_agent) = (Some 0, one_probe)"
  by (simp add: one_probe_def) (simp add: probe_begin_def NewProber_def Let_def)

text \<open>A probe without a sender queue, an ACK with its flow label looked up meanwhile.\<close>

lemma sample_race:
  "\<exists>w r. reach_world quiet_agent w \<and> w_panic w = None \<and> w_pending w = [(0, sample_info 1 1 ''fe80::2'' 7)] \<and> w_runs w = [Publishing 0 r]
     \<and> w_consumed w = [] \<and> queued (w_prober w) = [] \<and> \<not> ch_closed (pb_probeResults (w_prober w)) \<and> length (ch_buf (pb_probeResults (w_prober w))) < ch_cap (pb_probeResults (w_prober w))"
proof -
  let ?t = "sample_ping ''fe80::2'' 7" and ?info = "sample_info 1 1 ''fe80::2'' 7"
  define w1 where "w1 = (init_world quiet_agent)\<lparr>w_prober := one_probe, w_runs := [Sending 0 sample_rnic ?t]\<rparr>"
  have "prober_step (init_world quiet_agent) w1"
    using prober_step.start[of "init_world quiet_agent" 0 sample_rnic ?t 0 one_probe] one_probe_start by (simp add: init_world_def w1_def)
  then have 1: "reach_world quiet_agent w1" by (rule reach_world.step[OF reach_world.init])
  have "getSessionByFlowLabel one_probe 7 = Some 0"
    by (simp add: getSessionByFlowLabel_def one_probe_def probe_begin_def NewProber_def sample_ping_def Let_def)
  then obtain q where q: "lookup_ack ?info one_probe = (Some 0, q)" by (simp add: lookup_ack_def)
  have qf: "pb_probeResults q = chan_make 1000" "pb_agentState q = quiet_agent"
    using q \<open>getSessionByFlowLabel one_probe 7 = Some 0\<close>
    by (auto simp: lookup_ack_def one_probe_def probe_begin_def NewProber_def probeResultChanBufferSize_def Let_def)
  define w2 where "w2 = w1\<lparr>w_prober := q, w_pending := [(0, ?info)]\<rparr>"
  have "prober_step w1 w2" using prober_step.ack[of w1 ?info "Some 0" q] q by (simp add: w1_def w2_def init_world_def)
  then have 2: "reach_world quiet_agent w2" by (rule reach_world.step[OF 1])
  have "GetSenderUDQueue quiet_agent g = None" for g by (simp add: GetSenderUDQueue_def lookup_def quiet_agent_def NewAgentState_def)
  then obtain r where r: "probe_send (sample_env 1 []) SelComp 0 sample_rnic ?t q = Some (Ret (Inl r, q))"
    by (simp add: probe_send_def probe_endpoints_def qf)
  define w3 where "w3 = w2\<lparr>w_prober := q, w_runs := [Publishing 0 r]\<rparr>"
  have "prober_step w2 w3"
    using prober_step.run[of w2 0 "EnvSend (sample_env 1 []) SelComp" "Publishing 0 r" q] r
    by (simp add: w3_def w2_def w1_def init_world_def lift_phase_def)
  then have "reach_world quiet_agent w3" by (rule reach_world.step[OF 2])
  then show ?thesis
    by (intro exI[of _ w3] exI[of _ r]) (simp add: w3_def w2_def w1_def init_world_def qf chan_make_def queued_def)
qed

theorem late_ack_panics_witness:
  "\<exists>w w1 w2. reach_world quiet_agent w \<and> w_panic w = None \<and> prober_step w w1 \<and> prober_step w1 w2 \<and> w_panic w2 = Some ''send on closed channel''"
proof -
  obtain w r where w: "reach_world quiet_agent w" "w_panic w = None" "w_pending w = [(0, sample_info 1 1 ''fe80::2'' 7)]" "w_runs w = [Publishing 0 r]"
    "\<not> ch_closed (pb_probeResults (w_prober w))" "length (ch_buf (pb_probeResults (w_prober w))) < ch_cap (pb_probeResults (w_prober w))"
    using sample_race by blast
  have "\<exists>w1 w2. prober_step w w1 \<and> prober_step w1 w2 \<and> w_panic w2 = Some ''send on closed channel''"
    by (rule late_ack_panics[where i = 0 and r = r and info = "sample_info 1 1 ''fe80::2'' 7", OF w(1)]) (use w in simp_all)
  with w(1,2) show ?thesis by blast
qed

theorem probe_runs_invariant_witness:
  "\<exists>w r. reach_world quiet_agent w \<and> w_runs w = [Finished 0 r] \<and> w_consumed w = [r] \<and> ch_buf (pb_probeResults (w_prober w)) = []
     \<and> getSession (w_prober w) (sn_SessionKey (pb_heap (w_prober w) ! 0)) = None"
proof -
  obtain w r where w: "reach_world quiet_agent w" "w_panic w = None" "w_runs w = [Publishing 0 r]" "w_consumed w = []" "queued (w_prober w) = []"
    "\<not> ch_closed (pb_probeResults (w_prober w))" "length (ch_buf (pb_probeResults (w_prober w))) < ch_cap (pb_probeResults (w_prober w))"
    using sample_race by blast
  obtain p' where p': "publish (sn_SessionKey (pb_heap (w_prober w) ! 0)) r (w_prober w) = Some (Ret p')" using w(6,7) by (simp add: publish_def Let_def)
  let ?w1 = "w\<lparr>w_prober := p', w_runs := [Finished 0 r]\<rparr>"
  have "prober_step w ?w1" using prober_step.run[of w 0 EnvNone "Finished 0 r" p'] w p' by simp
  then have 1: "reach_world quiet_agent ?w1" by (rule reach_world.step[OF w(1)])
  obtain ch where ch: "chan_recv (pb_probeResults p') = (Got r, ch)"
    using queued_publish[OF p'] w(5) by (auto simp: queued_def chan_recv_def)
  let ?w = "?w1\<lparr>w_prober := p'\<lparr>pb_probeResults := ch\<rparr>, w_consumed := [r]\<rparr>"
  have "reach_world quiet_agent ?w" using prober_step.consume[of ?w1 r ch] ch w(2,4) by (intro reach_world.step[OF 1]) simp
  from this probe_runs_invariant[OF this] show ?thesis by (intro exI[of _ ?w] exI[of _ r]) simp
qed

text \<open>One probe through all its phases: an ACK that arrives while the probe waits is looked up,
  delivered and received, and leaves the session as it was.\<close>

definition lone_waiting :: "AgentState \<Rightarrow> PingSession \<Rightarrow> waiting \<Rightarrow> world \<Rightarrow> bool" where
  "lone_waiting a s wt w \<longleftrightarrow> reach_world a w \<and> w_panic w = None \<and> w_pending w = [] \<and> w_runs w = [Waiting wt] \<and> wt_session wt = 0
     \<and> pb_heap (w_prober w) = [s] \<and> (\<exists>k. pb_sessions (w_prober w) = [(k, 0)]) \<and> \<not> sn_closed s
     \<and> sn_Ack1Chan s = chan_make 1 \<and> sn_Ack2Chan s = chan_make 1"

lemma ack_received:
  assumes "lone_waiting a s wt w" and "sn_FlowLabel s = pw_FlowLabel (ai_ProcessedWC info)" and "ai_AckStatusOK info"
    and "pp_AckType (ai_Packet info) = 1 \<and> wt_ack1 wt = None \<and> c = WaitAck1 \<and> wt' = (first_seen (event_of info) wt)\<lparr>wt_ack1 := Some (event_of info)\<rparr>
       \<or> pp_AckType (ai_Packet info) = 2 \<and> wt_ack2 wt = None \<and> c = WaitAck2 \<and> wt' = (first_seen (event_of info) wt)\<lparr>wt_ack2 := Some (event_of info)\<rparr>"
  shows "\<exists>w'. lone_waiting a s wt' w'"
proof -
  obtain k where w: "reach_world a w" "w_panic w = None" "w_pending w = []" "w_runs w = [Waiting wt]" "wt_session wt = 0"
    "pb_heap (w_prober w) = [s]" "pb_sessions (w_prober w) = [(k, 0)]" "\<not> sn_closed s" "sn_Ack1Chan s = chan_make 1" "sn_Ack2Chan s = chan_make 1"
    using assms(1) by (auto simp: lone_waiting_def)
  obtain q where q: "lookup_ack info (w_prober w) = (Some 0, q)" "pb_heap q = [s]" "pb_sessions q = [(k, 0)]"
    using w(6,7) assms(2) by (simp add: lookup_ack_def getSessionByFlowLabel_def)
  define w1 where "w1 = w\<lparr>w_prober := q, w_pending := [(0, info)]\<rparr>"
  have 1: "reach_world a w1"
    using prober_step.ack[of w info "Some 0" q] q(1) w(2,3) by (intro reach_world.step[OF w(1)]) (simp add: w1_def)
  define s1 where "s1 = (if pp_AckType (ai_Packet info) = 1 then s\<lparr>sn_Ack1Chan := (chan_make 1)\<lparr>ch_buf := [event_of info]\<rparr>\<rparr>
    else s\<lparr>sn_Ack2Chan := (chan_make 1)\<lparr>ch_buf := [event_of info]\<rparr>\<rparr>)"
  define q1 where "q1 = q\<lparr>pb_heap := [s1]\<rparr>"
  have d: "deliver_ack False 0 info q = Ret q1"
    using assms(3,4) q(2) w(8-10) by (auto simp: deliver_ack_def nb_send_def q1_def s1_def event_of_def chan_make_def Let_def)
  define w2 where "w2 = w1\<lparr>w_prober := q1, w_pending := []\<rparr>"
  have 2: "reach_world a w2"
    using prober_step.deliver[of w1 0 info False q1] d w(2) by (intro reach_world.step[OF 1]) (simp add: w1_def w2_def)
  define q2 where "q2 = q1\<lparr>pb_heap := [s]\<rparr>"
  have same: "s\<lparr>sn_Ack1Chan := chan_make 1\<rparr> = s" "s\<lparr>sn_Ack2Chan := chan_make 1\<rparr> = s" using w(9,10) by auto
  have "wait_step c wt q1 = Some (Inr wt', q2)"
    using assms(4) w(5,9,10) same by (auto simp: wait_step_def q1_def q2_def s1_def chan_recv_def chan_make_def Let_def)
  moreover have "\<not> both_acks wt" using assms(4) by (auto simp: both_acks_def)
  moreover have "wt_session wt' = 0" using assms(4) w(5) by auto
  ultimately have r: "run_step (EnvWait c) (Waiting wt) q1 = Some (Ret (Waiting wt', q2))" by (simp add: lift_phase_def)
  define w3 where "w3 = w2\<lparr>w_prober := q2, w_runs := [Waiting wt']\<rparr>"
  have "reach_world a w3"
    using prober_step.run[of w2 0 "EnvWait c" "Waiting wt'" q2] r w(2,4) by (intro reach_world.step[OF 2]) (simp add: w3_def w2_def w1_def)
  then have "lone_waiting a s wt' w3"
    using w q(3) \<open>wt_session wt' = 0\<close> by (auto simp: lone_waiting_def w3_def w2_def w1_def q2_def q1_def)
  then show ?thesis by blast
qed

text \<open>An agent with one sender queue.\<close>

definition sender_agent :: AgentState where
  "sender_agent = quiet_agent\<lparr>as_senderQueues := Some [(''fe80::1'', Some \<lparr>qr_id = 0, qr_QPN = 77\<rparr>)],
     as_rdmaManager := Some (sample_manager\<lparr>mg_heap := (\<lambda>_. Some \<lparr>qo_queue = sample_queue UDQueueTypeSender, qo_QP = True, qo_CQ = True,
       qo_CompChannel = True, qo_SendMR = True, qo_RecvMR = True, qo_SendBuf = True, qo_RecvBuf = True, qo_pollerRunning = True\<rparr>)\<rparr>)\<rparr>"

definition sent_probe :: Prober where
  "sent_probe = snd (probe_begin 0 (Some sample_rnic) (Some (sample_ping sample_target 7)) (NewProber sender_agent))"

lemma sent_probe_simps:
  "probe_begin 0 (Some sample_rnic) (Some (sample_ping sample_target 7)) (NewProber sender_agent) = (Some 0, sent_probe)"
  "pb_agentState sent_probe = sender_agent" "sn_SequenceNum (pb_heap sent_probe ! 0) = 1"
  "\<exists>s k. pb_heap sent_probe = [s] \<and> pb_sessions sent_probe = [(k, 0)] \<and> \<not> sn_closed s \<and> sn_FlowLabel s = 7
     \<and> sn_Ack1Chan s = chan_make 1 \<and> sn_Ack2Chan s = chan_make 1"
  by (simp add: sent_probe_def) (simp_all add: sent_probe_def probe_begin_def NewProber_def sample_ping_def Let_def)

lemma sent_probe_send:
  "\<exists>wt q. probe_send (sample_env 50 [sample_wc]) SelComp 0 sample_rnic (sample_ping sample_target 7) sent_probe = Some (Ret (Inr wt, q))
     \<and> wt_session wt = 0 \<and> wt_t1 wt = 50 \<and> wt_t2 wt = unix_ns 1000 \<and> wt_ack1 wt = None \<and> wt_ack2 wt = None
     \<and> pb_heap q = pb_heap sent_probe \<and> pb_sessions q = pb_sessions sent_probe"
proof -
  have q: "GetSenderUDQueue sender_agent (rn_GID sample_rnic) = Some \<lparr>qr_id = 0, qr_QPN = 77\<rparr>"
    "get_queue 0 sent_probe = Some (sample_queue UDQueueTypeSender)"
    by (simp_all add: GetSenderUDQueue_def lookup_def sender_agent_def sample_rnic_def get_queue_def sent_probe_simps)
  have w: "wc_WallclockNS sample_wc = 1000" "wc_Status sample_wc = IBV_WC_SUCCESS" "uq_sendCompChan (sample_queue UDQueueTypeSender) = chan_make 100"
    by (simp_all add: sample_wc_def IBV_WC_SUCCESS_def sample_queue_def)
  obtain u' where "SendProbePacket (sample_env 50 [sample_wc]) SelComp sample_target 9 1 7 (sample_queue UDQueueTypeSender) = Some (Ret (Inr (50, unix_ns 1000), u'))"
    using sample_send_comp[of "sample_queue UDQueueTypeSender" "[sample_wc]" sample_wc "[]" 50 1] w by (auto simp: chan_make_def sample_env_def)
  with q show ?thesis
    by (simp add: probe_send_def probe_endpoints_def sent_probe_simps with_source_def plain_tuple_def sample_ping_def ProbeTypeTorMesh_def ProbeTypeServiceTracing_def Let_def)
qed

text \<open>The responder's clock reads 700 ns more than the prober's: it received the probe at 1300
  and completed the first ACK at 1400, which the ACKs carry as 2000 and 2100; the first ACK
  came back at 1500.\<close>

definition timed_ack :: "u8 \<Rightarrow> u64 \<Rightarrow> u64 \<Rightarrow> gtime \<Rightarrow> IncomingAckInfo" where
  "timed_ack ty t3 t4 rx = (sample_info 1 ty sample_target 7)\<lparr>ai_Packet := \<lparr>pp_SequenceNum = 1, pp_T1 = 50, pp_T3 = t3, pp_T4 = t4, pp_IsAck = 1, pp_AckType = ty, pp_Flags = 0\<rparr>,
     ai_ReceivedAt := rx\<rparr>"

lemma unix_ns_small: "unix_ns 1000 = 1000" "unix_nano_u64 2000 = 2000" "unix_nano_u64 2100 = 2100"
  by (simp_all add: go_defs)

lemma in_i64_small: "\<bar>x\<bar> \<le> 10000 \<Longrightarrow> in_i64 x"
  by (auto simp: go_defs)

theorem probe_rtt_witness:
  "\<exists>w wt r p. reach_world sender_agent w \<and> w_runs w = [Waiting wt] \<and> run_step (EnvNow 1700) (Waiting wt) (w_prober w) = Some (Ret (Publishing 0 r, p))
     \<and> pr_Status r = STATUS_OK \<and> pr_NetworkRtt r = 400 \<and> pr_ResponderDelay r = 100 \<and> pr_ProberDelay r = 1150"
proof -
  let ?t = "sample_ping sample_target 7"
  obtain wt q where q: "probe_send (sample_env 50 [sample_wc]) SelComp 0 sample_rnic ?t sent_probe = Some (Ret (Inr wt, q))"
    "wt_session wt = 0" "wt_t1 wt = 50" "wt_t2 wt = unix_ns 1000" "wt_ack1 wt = None" "wt_ack2 wt = None"
    "pb_heap q = pb_heap sent_probe" "pb_sessions q = pb_sessions sent_probe" using sent_probe_send by blast
  obtain s k where s: "pb_heap sent_probe = [s]" "pb_sessions sent_probe = [(k, 0)]" "\<not> sn_closed s" "sn_FlowLabel s = 7"
    "sn_Ack1Chan s = chan_make 1" "sn_Ack2Chan s = chan_make 1" using sent_probe_simps(4) by blast
  define w1 where "w1 = (init_world sender_agent)\<lparr>w_prober := sent_probe, w_runs := [Sending 0 sample_rnic ?t]\<rparr>"
  have 1: "reach_world sender_agent w1"
    using prober_step.start[of "init_world sender_agent" 0 sample_rnic ?t 0 sent_probe] sent_probe_simps(1)
    by (intro reach_world.step[OF reach_world.init]) (simp add: init_world_def w1_def)
  define w2 where "w2 = w1\<lparr>w_prober := q, w_runs := [Waiting wt]\<rparr>"
  have "reach_world sender_agent w2"
    using prober_step.run[of w1 0 "EnvSend (sample_env 50 [sample_wc]) SelComp" "Waiting wt" q] q(1)
    by (intro reach_world.step[OF 1]) (simp add: w1_def w2_def init_world_def lift_phase_def)
  then have 2: "lone_waiting sender_agent s wt w2"
    using q s by (auto simp: lone_waiting_def w2_def w1_def init_world_def)
  define e1 e2 where "e1 = event_of (timed_ack 1 2000 0 1500)" and "e2 = event_of (timed_ack 2 2000 2100 1600)"
  define wt1 where "wt1 = (first_seen e1 wt)\<lparr>wt_ack1 := Some e1\<rparr>"
  define wt2 where "wt2 = (first_seen e2 wt1)\<lparr>wt_ack2 := Some e2\<rparr>"
  obtain w3 where "lone_waiting sender_agent s wt1 w3"
    using ack_received[OF 2, of "timed_ack 1 2000 0 1500" WaitAck1 wt1] s(4) q(5) by (auto simp: timed_ack_def wt1_def e1_def)
  moreover have "wt_ack2 wt1 = None" using q(6) by (simp add: wt1_def first_seen_def)
  ultimately obtain w where w: "lone_waiting sender_agent s wt2 w"
    using ack_received[of sender_agent s wt1 w3 "timed_ack 2 2000 2100 1600" WaitAck2 wt2] s(4) by (auto simp: timed_ack_def wt2_def e2_def)
  have f: "wt_ack1 wt2 = Some e1" "wt_ack2 wt2 = Some e2" "wt_t1 wt2 = 50" "wt_t2 wt2 = 1000" "wt_t5 wt2 = 1500"
    using q(3-6) by (simp_all add: wt2_def wt1_def first_seen_def unix_ns_small) (simp_all add: e1_def event_of_def timed_ack_def)
  have t: "pp_T3 (ae_Packet e1) = unix_nano_u64 (1300 + 700)" "pp_T4 (ae_Packet e2) = unix_nano_u64 (1400 + 700)"
    by (simp_all add: e1_def e2_def event_of_def timed_ack_def unix_ns_small)
  have r: "reach_world sender_agent w" "w_runs w = [Waiting wt2]" using w by (auto simp: lone_waiting_def)
  have "\<exists>r. run_step (EnvNow 1700) (Waiting wt2) (w_prober w) = Some (Ret (Publishing 0 r, count_success (w_prober w)))
     \<and> pr_Status r = STATUS_OK \<and> pr_ResponderDelay r = 1400 - 1300 \<and> pr_NetworkRtt r = (wt_t5 wt2 - wt_t2 wt2) - (1400 - 1300)
     \<and> pr_ProberDelay r = (1700 - wt_t1 wt2) - (wt_t5 wt2 - wt_t2 wt2) \<and> wt_t5 wt2 \<in> {ae_ReceivedAt e1, ae_ReceivedAt e2}"
    by (rule probe_rtt[OF r(1) _ _ _ f(1,2) t]) (simp_all add: r(2) f in_i64_small)
  then obtain r' where "run_step (EnvNow 1700) (Waiting wt2) (w_prober w) = Some (Ret (Publishing 0 r', count_success (w_prober w)))"
    "pr_Status r' = STATUS_OK" "pr_NetworkRtt r' = 400" "pr_ResponderDelay r' = 100" "pr_ProberDelay r' = 1150" using f by auto
  with r show ?thesis by blast
qed

end
