(* ===== verification/Stopping.thy ===== *)
theory Stopping
  imports Main
begin

text \<open>
  What makes a call that stops a component return, as two contracts. In the first every step of the
  system brings the end closer. In the second other goroutines go on beside the stopping ones and
  may take any number of steps, as long as they do not put the end off.
\<close>

subsection \<open>Stopping that cannot hang\<close>

text \<open>What makes a stop return under every schedule: once it has begun, every step brings the system
  closer to its end, and a system that has not ended can take a step.\<close>

locale graceful_stop =
  fixes step :: "'w \<Rightarrow> 'w \<Rightarrow> bool"
    and ok :: "'w \<Rightarrow> bool"
    and stopping :: "'w \<Rightarrow> bool"
    and stopped :: "'w \<Rightarrow> bool"
    and left :: "'w \<Rightarrow> nat"
  assumes ok_step: "step w w' \<Longrightarrow> ok w \<Longrightarrow> ok w'"
    and keeps_stopping: "step w w' \<Longrightarrow> ok w \<Longrightarrow> stopping w \<Longrightarrow> stopping w'"
    and closer: "step w w' \<Longrightarrow> ok w \<Longrightarrow> stopping w \<Longrightarrow> left w' < left w"
    and progress: "ok w \<Longrightarrow> stopping w \<Longrightarrow> \<not> stopped w \<Longrightarrow> \<exists>w'. step w w'"
begin

lemma ok_steps: "step\<^sup>*\<^sup>* w w' \<Longrightarrow> ok w \<Longrightarrow> ok w'"
  by (induction rule: rtranclp_induct) (auto intro: ok_step)

lemma stopping_steps: "step\<^sup>*\<^sup>* w w' \<Longrightarrow> ok w \<Longrightarrow> stopping w \<Longrightarrow> stopping w'"
  by (induction rule: rtranclp_induct) (auto intro: keeps_stopping ok_steps)

lemma no_endless_run:
  assumes "ok w" "stopping w"
  shows "\<not> (\<exists>run. run 0 = w \<and> (\<forall>i. step (run i) (run (Suc i))))"
proof
  assume "\<exists>run. run 0 = w \<and> (\<forall>i. step (run i) (run (Suc i)))"
  then obtain run where run: "run 0 = w" "\<And>i. step (run i) (run (Suc i))" by blast
  have inv: "ok (run i) \<and> stopping (run i)" for i
    by (induction i) (use assms run ok_step keeps_stopping in \<open>auto intro: ok_step keeps_stopping\<close>)
  have "left (run i) + i \<le> left (run 0)" for i
  proof (induction i)
    case (Suc i)
    from closer[OF run(2)[of i]] inv[of i] Suc show ?case by simp
  qed simp
  from this[of "Suc (left (run 0))"] show False by simp
qed

lemma ends_stopped: "ok w \<Longrightarrow> stopping w \<Longrightarrow> step\<^sup>*\<^sup>* w w' \<Longrightarrow> \<not> (\<exists>w''. step w' w'') \<Longrightarrow> stopped w'"
  using progress ok_steps stopping_steps by blast

end

subsection \<open>Stopping beside others\<close>

locale stop_beside =
  fixes own :: "'w \<Rightarrow> 'w \<Rightarrow> bool"
    and other :: "'w \<Rightarrow> 'w \<Rightarrow> bool"
    and ok :: "'w \<Rightarrow> bool"
    and stopping :: "'w \<Rightarrow> bool"
    and stopped :: "'w \<Rightarrow> bool"
    and left :: "'w \<Rightarrow> nat"
  assumes own_keeps: "own w w' \<Longrightarrow> ok w \<Longrightarrow> stopping w \<Longrightarrow> ok w' \<and> stopping w' \<and> left w' < left w"
    and other_keeps: "other w w' \<Longrightarrow> ok w \<Longrightarrow> stopping w \<Longrightarrow> ok w' \<and> stopping w' \<and> left w' \<le> left w"
    and own_progress: "ok w \<Longrightarrow> stopping w \<Longrightarrow> \<not> stopped w \<Longrightarrow> \<exists>w'. own w w'"
begin

lemma run_keeps:
  assumes "ok (run 0)" "stopping (run 0)" "\<And>i. own (run i) (run (Suc i)) \<or> other (run i) (run (Suc i))"
  shows "ok (run i) \<and> stopping (run i)"
  by (induction i) (use assms own_keeps other_keeps in blast)+

text \<open>In a run that does not ignore the stopping goroutines for ever, the stop is reached.\<close>

lemma fair_run_stops:
  assumes "ok (run 0)" "stopping (run 0)" "\<And>i. own (run i) (run (Suc i)) \<or> other (run i) (run (Suc i))"
    and fair: "\<And>i. \<exists>j \<ge> i. stopped (run j) \<or> own (run j) (run (Suc j))"
  shows "\<exists>j. stopped (run j)"
proof (rule ccontr)
  assume never: "\<nexists>j. stopped (run j)"
  note inv = run_keeps[OF assms(1-3)]
  have down: "left (run (Suc i)) \<le> left (run i)" for i using assms(3)[of i] inv[of i] own_keeps other_keeps by (metis less_imp_le)
  have mono: "left (run (i + d)) \<le> left (run i)" for i d by (induction d) (use down order_trans in auto)
  have "\<exists>j. left (run j) + n \<le> left (run 0)" for n
  proof (induction n)
    case (Suc n)
    then obtain i where i: "left (run i) + n \<le> left (run 0)" by blast
    obtain j where j: "i \<le> j" "own (run j) (run (Suc j))" using fair[of i] never by blast
    have "left (run j) \<le> left (run i)" using mono[of i "j - i"] j(1) by simp
    moreover have "left (run (Suc j)) < left (run j)" using own_keeps[OF j(2)] inv[of j] by blast
    ultimately show ?case using i by (intro exI[of _ "Suc j"]) simp
  qed (intro exI[of _ 0], simp)
  from this[of "Suc (left (run 0))"] show False by simp
qed

end

text \<open>A stop that nothing runs beside is the special case.\<close>

sublocale graceful_stop \<subseteq> alone: stop_beside step "\<lambda>_ _. False" ok stopping stopped left
  by unfold_locales (auto intro: ok_step keeps_stopping closer progress)

end
