(* ===== verification/Prober_Life.thy ===== *)
theory Prober_Life
  imports Prober_Runs Stopping
begin

text \<open>
  The prober from Start to Close (internal/probe/prober.go): the loops that Start launches and the
  wait group counts, the goroutines of service probes that nobody counts, and Close beside them
  and beside the probes, ACK handlers and consumers of theory Prober_Runs. Whether a tick or the
  stop channel is taken when both are ready is left open, as Go's select leaves it.
\<close>

subsection \<open>Loops\<close>

datatype loop = ResponderLoop queue_ref responder_stats | ServiceProbing | SessionCleanup | StatsLogging

datatype close_pc = NotClosed | CloseWaits | CloseReturned

text \<open>lf_launched: goroutines of service probes that have not begun. lf_ticks: ticks of the four
  tickers not yet taken.\<close>

record life =
  lf_w :: world
  lf_loops :: "loop list"
  lf_wg :: nat
  lf_launched :: "(RNIC \<times> PingTarget) list"
  lf_ticks :: nat
  lf_close :: close_pc

definition new_life :: "AgentState \<Rightarrow> life" where
  "new_life a = \<lparr>lf_w = init_world a, lf_loops = [], lf_wg = 0, lf_launched = [], lf_ticks = 0, lf_close = NotClosed\<rparr>"

definition launch_loop :: "loop \<Rightarrow> life \<Rightarrow> life" where
  "launch_loop lp l = l\<lparr>lf_wg := lf_wg l + 1, lf_loops := lf_loops l @ [lp]\<rparr>"

definition Prober_Start :: "life \<Rightarrow> life" where
  "Prober_Start l =
     (launch_loop StatsLogging \<circ> launch_loop SessionCleanup \<circ> launch_loop ServiceProbing)
       (fold (\<lambda>q. launch_loop (ResponderLoop q zero_rstats)) (Start_responders (w_prober (lf_w l))) l)"

text \<open>responderLoop on its own, over what its select takes: the stop channel, a tick of its statistics
  (which only logs) or a pass of the default case. The last component of the result says whether
  the loop has returned.\<close>

datatype responder_event = RespStop | RespTick | RespPass post_ret hdr_parsers recv_choice "send_env \<times> select_choice" "send_env \<times> select_choice"

fun responderLoop :: "responder_event list \<Rightarrow> UDQueue \<Rightarrow> responder_stats \<Rightarrow> (UDQueue \<times> responder_stats \<times> bool) go option" where
  "responderLoop [] u s = Some (Ret (u, s, False))"
| "responderLoop (RespStop # es) u s = Some (Ret (u, s, True))"
| "responderLoop (RespTick # es) u s = responderLoop es u s"
| "responderLoop (RespPass pr h sel e1 e2 # es) u s =
     (case responder_step pr h sel e1 e2 u s of
        None \<Rightarrow> None
      | Some (Panic m) \<Rightarrow> Some (Panic m)
      | Some (Ret (u1, s1)) \<Rightarrow> responderLoop es u1 s1)"

text \<open>A pass sees at most one packet and counts it: the packets and the time-outs together are no more
  than the passes, and a probe is a packet.\<close>

lemma responder_step_counts:
  assumes "responder_step pr h sel e1 e2 u s = Some (Ret (u', s'))"
  shows "rs_totalPackets s' = rs_totalPackets s \<and> rs_probePackets s' = rs_probePackets s \<and> rs_timeoutCount s' \<in> {rs_timeoutCount s, rs_timeoutCount s + 1}
    \<or> rs_totalPackets s' = rs_totalPackets s + 1 \<and> rs_probePackets s' \<in> {rs_probePackets s, rs_probePackets s + 1} \<and> rs_timeoutCount s' = rs_timeoutCount s"
  using assms
  by (auto simp: responder_step_def responder_reply_def count_error_def Let_def split: option.splits go.splits sum.splits prod.splits rx_result.splits if_splits)

lemma responderLoop_counts:
  assumes "responderLoop es u s = Some (Ret (u', s', ended))"
  shows "\<exists>packets timeouts probes. rs_totalPackets s' = rs_totalPackets s + of_nat packets \<and> rs_timeoutCount s' = rs_timeoutCount s + of_nat timeouts
    \<and> rs_probePackets s' = rs_probePackets s + of_nat probes \<and> packets + timeouts \<le> length es \<and> probes \<le> packets"
  using assms
proof (induction es u s rule: responderLoop.induct)
  case (4 pr h sel e1 e2 es u s)
  obtain u1 s1 where s1: "responder_step pr h sel e1 e2 u s = Some (Ret (u1, s1))" using "4.prems" by (auto split: option.splits go.splits)
  with 4 obtain p t q where "rs_totalPackets s' = rs_totalPackets s1 + of_nat p" "rs_timeoutCount s' = rs_timeoutCount s1 + of_nat t"
    "rs_probePackets s' = rs_probePackets s1 + of_nat q" "p + t \<le> length es" "q \<le> p" by fastforce
  note IH = this
  from responder_step_counts[OF s1] obtain dp dt dq where
    "rs_totalPackets s1 = rs_totalPackets s + of_nat dp" "rs_timeoutCount s1 = rs_timeoutCount s + of_nat dt" "rs_probePackets s1 = rs_probePackets s + of_nat dq"
    "dp + dt \<le> 1" "dq \<le> dp"
  proof (elim disjE conjE)
    assume a: "rs_totalPackets s1 = rs_totalPackets s" "rs_probePackets s1 = rs_probePackets s" "rs_timeoutCount s1 \<in> {rs_timeoutCount s, rs_timeoutCount s + 1}"
    then show thesis using that[of 0 0 0] that[of 0 1 0] by auto
  next
    assume a: "rs_totalPackets s1 = rs_totalPackets s + 1" "rs_probePackets s1 \<in> {rs_probePackets s, rs_probePackets s + 1}" "rs_timeoutCount s1 = rs_timeoutCount s"
    then show thesis using that[of 1 0 0] that[of 1 0 1] by auto
  qed
  with IH show ?case by (intro exI[of _ "dp + p"] exI[of _ "dt + t"] exI[of _ "dq + q"]) simp
next
  case (3 es u s)
  then show ?case by (fastforce intro: le_SucI)
qed (auto intro!: exI[of _ 0])

subsection \<open>Steps\<close>

definition alive :: "life \<Rightarrow> bool" where
  "alive l \<longleftrightarrow> w_panic (lf_w l) = None"

definition on_prober :: "(Prober \<Rightarrow> Prober) \<Rightarrow> life \<Rightarrow> life" where
  "on_prober f l = l\<lparr>lf_w := (lf_w l)\<lparr>w_prober := f (w_prober (lf_w l))\<rparr>\<rparr>"

text \<open>What the ticks of the two housekeeping loops do: one removes expired sessions, the other logs the
  counters and the number of open sessions.\<close>

definition runSessionCleanupLoop_tick :: "gtime \<Rightarrow> life \<Rightarrow> life" where
  [simp]: "runSessionCleanupLoop_tick now l = on_prober (cleanupExpiredSessions now) l"

definition logDiagnosticStats :: "Prober \<Rightarrow> (string \<times> u64) list" where
  "logDiagnosticStats p = GetDiagnosticStats p @ [(''active_sessions'', of_nat (length (pb_sessions p)))]"

text \<open>The loops and Close. A pass of the responder's default case is one step; the select takes it
  only while neither channel is ready. Close closes the stop channel, waits for the wait
  group, then closes the sessions and the channel of results. After the stop channel is
  closed the tickers fire a finite number of times before the loops have looked.\<close>

inductive loop_step :: "life \<Rightarrow> life \<Rightarrow> bool" where
  responder_pass: "alive l \<Longrightarrow> lf_close l = NotClosed \<Longrightarrow> lf_loops l = xs @ ResponderLoop q s # ys \<Longrightarrow> get_queue (qr_id q) (w_prober (lf_w l)) = Some u \<Longrightarrow>
     responder_step pr h sel e1 e2 u s = Some (Ret (u', s')) \<Longrightarrow>
     loop_step l ((on_prober (set_queue (qr_id q) u') l)\<lparr>lf_loops := xs @ ResponderLoop q s' # ys\<rparr>)"
| responder_panic: "alive l \<Longrightarrow> lf_close l = NotClosed \<Longrightarrow> lf_loops l = xs @ ResponderLoop q s # ys \<Longrightarrow> get_queue (qr_id q) (w_prober (lf_w l)) = Some u \<Longrightarrow>
     responder_step pr h sel e1 e2 u s = Some (Panic m) \<Longrightarrow> loop_step l (l\<lparr>lf_w := (lf_w l)\<lparr>w_panic := Some m\<rparr>\<rparr>)"
| log_tick: "alive l \<Longrightarrow> lf_ticks l = Suc n \<Longrightarrow> lp \<in> set (lf_loops l) \<Longrightarrow> lp = StatsLogging \<or> (\<exists>q s. lp = ResponderLoop q s) \<Longrightarrow> loop_step l (l\<lparr>lf_ticks := n\<rparr>)"
| cleanup_tick: "alive l \<Longrightarrow> lf_ticks l = Suc n \<Longrightarrow> SessionCleanup \<in> set (lf_loops l) \<Longrightarrow> loop_step l ((runSessionCleanupLoop_tick now l)\<lparr>lf_ticks := n\<rparr>)"
| probing_tick: "alive l \<Longrightarrow> lf_ticks l = Suc n \<Longrightarrow> ServiceProbing \<in> set (lf_loops l) \<Longrightarrow> runServiceProbingLoop_tick (w_prober (lf_w l)) = (launched, p') \<Longrightarrow>
     loop_step l ((on_prober (\<lambda>_. p') l)\<lparr>lf_ticks := n, lf_launched := lf_launched l @ launched\<rparr>)"
| loop_ends: "alive l \<Longrightarrow> lf_close l \<noteq> NotClosed \<Longrightarrow> lf_loops l = xs @ lp # ys \<Longrightarrow> loop_step l (l\<lparr>lf_loops := xs @ ys, lf_wg := lf_wg l - 1\<rparr>)"
| close_called: "alive l \<Longrightarrow> lf_close l = NotClosed \<Longrightarrow> loop_step l (l\<lparr>lf_close := CloseWaits, lf_ticks := lf_ticks l + n\<rparr>)"
| close_returns: "alive l \<Longrightarrow> lf_close l = CloseWaits \<Longrightarrow> lf_wg l = 0 \<Longrightarrow> Prober_Close (w_prober (lf_w l)) = Ret p' \<Longrightarrow>
     loop_step l ((on_prober (\<lambda>_. p') l)\<lparr>lf_close := CloseReturned\<rparr>)"

text \<open>Everything else: probes, ACK handlers and consumers (a step of Prober_Runs that is not its
  Close), new service flow targets, the begin of a launched service probe, a tick.\<close>

inductive beside_step :: "life \<Rightarrow> life \<Rightarrow> bool" where
  others: "prober_step (lf_w l) w' \<Longrightarrow> pb_stopped (w_prober w') = pb_stopped (w_prober (lf_w l)) \<Longrightarrow> beside_step l (l\<lparr>lf_w := w'\<rparr>)"
| new_targets: "alive l \<Longrightarrow> beside_step l (on_prober (UpdateServiceFlowTargets ts) l)"
| service_probe: "alive l \<Longrightarrow> lf_launched l = xs @ (r, t) # ys \<Longrightarrow> probe_begin now (Some r) (Some t) (w_prober (lf_w l)) = (Some i, p') \<Longrightarrow>
     beside_step l (l\<lparr>lf_w := (lf_w l)\<lparr>w_prober := p', w_runs := w_runs (lf_w l) @ [Sending i r t]\<rparr>, lf_launched := xs @ ys\<rparr>)"
| tick_fires: "alive l \<Longrightarrow> lf_close l = NotClosed \<Longrightarrow> beside_step l (l\<lparr>lf_ticks := lf_ticks l + 1\<rparr>)"

inductive_cases loop_stepE: "loop_step l l'"

inductive_cases beside_stepE: "beside_step l l'"

inductive reach_life :: "AgentState \<Rightarrow> life \<Rightarrow> bool" for a where
  started: "reach_life a (Prober_Start (new_life a))"
| loops: "reach_life a l \<Longrightarrow> loop_step l l' \<Longrightarrow> reach_life a l'"
| beside: "reach_life a l \<Longrightarrow> beside_step l l' \<Longrightarrow> reach_life a l'"

subsection \<open>Stopped and closed\<close>

text \<open>The channel of results is closed exactly when the prober is: every operation but Close leaves
  both alone.\<close>

definition closing_of :: "Prober \<Rightarrow> bool \<times> bool" where
  "closing_of p = (pb_stopped p, ch_closed (pb_probeResults p))"

lemma closing_frames [simp]:
  "closing_of (upd_stats f p) = closing_of p" "closing_of (set_queue n u p) = closing_of p" "closing_of (addSession s p) = closing_of p"
  "closing_of (p\<lparr>pb_heap := hp\<rparr>) = closing_of p" "closing_of (UpdateServiceFlowTargets ts p) = closing_of p" "closing_of (count_success p) = closing_of p"
  by (simp_all add: closing_of_def upd_stats_def addSession_def UpdateServiceFlowTargets_def count_success_def)

lemma closing_removeSession [simp]: "closing_of (removeSession k p) = closing_of p"
  by (simp add: closing_of_def removeSession_def Let_def split: option.split)

lemma closing_cleanup [simp]: "closing_of (cleanupExpiredSessions now p) = closing_of p"
proof -
  have "closing_of (fold removeSession ks p) = closing_of p" for ks by (induction ks arbitrary: p) simp_all
  then show ?thesis by (simp add: cleanupExpiredSessions_def Let_def)
qed

lemma closing_probe_begin: "probe_begin now r t p = (x, p') \<Longrightarrow> closing_of p' = closing_of p"
  by (auto simp: probe_begin_def closing_of_def addSession_def upd_stats_def Let_def split: option.splits)

lemma closing_wait: "wait_step c w p = Some (y, p') \<Longrightarrow> closing_of p' = closing_of p"
  by (cases c) (auto simp: wait_step_def closed_early_def Let_def split: recv.splits if_splits option.splits prod.splits)

lemma closing_run_step:
  assumes "run_step c x p = Some (Ret (x', p'))"
  shows "closing_of p' = closing_of p"
  using assms
proof (cases "(c, x, p)" rule: run_step.cases)
  case (1 e sel i r t q)
  then show ?thesis using assms
    by (auto simp: probe_send_def lift_phase_def split: option.splits go.splits sum.splits prod.splits)
next
  case (2 ch w q)
  then obtain y q' where y: "wait_step ch w p = Some (y, q')" "lift_phase (wt_session w) (y, q') = (x', p')"
    using assms by (auto split: if_splits)
  moreover have "q' = p'" using y(2) by (auto simp: lift_phase_def split: sum.splits)
  ultimately show ?thesis using closing_wait by blast
next
  case (4 i r q)
  then show ?thesis using assms by (auto simp: publish_def closing_of_def Let_def split: option.splits go.splits if_splits dest: arg_cong[of _ _ closing_of])
qed (use assms in \<open>auto split: if_splits\<close>)

lemma closing_lookup: "lookup_ack info p = (x, p') \<Longrightarrow> closing_of p' = closing_of p"
  by (auto simp: lookup_ack_def Let_def split: option.splits if_splits)

lemma closing_deliver: "deliver_ack pick i info p = Ret p' \<Longrightarrow> closing_of p' = closing_of p"
  by (auto simp: deliver_ack_def Let_def split: if_splits elim!: go_bind.elims)


lemma closing_prober_step:
  assumes "prober_step w w'" "pb_stopped (w_prober w') = pb_stopped (w_prober w)"
  shows "closing_of (w_prober w') = closing_of (w_prober w)"
  using assms(1)
proof cases
  case (close p')
  then show ?thesis using assms(2) by (auto simp: Prober_Close_def chan_close_def split: if_splits)
next
  case (consume r ch)
  then show ?thesis by (auto simp: closing_of_def chan_recv_def split: list.splits if_splits)
qed (auto dest: closing_probe_begin closing_run_step closing_lookup closing_deliver)

subsection \<open>The wait group\<close>

definition life_ok :: "life \<Rightarrow> bool" where
  "life_ok l \<longleftrightarrow> lf_wg l = length (lf_loops l) \<and> closing_of (w_prober (lf_w l)) = (lf_close l = CloseReturned, lf_close l = CloseReturned)
     \<and> (lf_close l = CloseReturned \<longrightarrow> lf_loops l = [])"

fun close_rank :: "close_pc \<Rightarrow> nat" where
  "close_rank NotClosed = 2" | "close_rank CloseWaits = 1" | "close_rank CloseReturned = 0"

definition life_left :: "life \<Rightarrow> nat" where
  "life_left l = length (lf_loops l) + lf_ticks l + close_rank (lf_close l)"

lemma Prober_Start_ok: "life_ok (Prober_Start (new_life a))"
proof -
  let ?f = "\<lambda>qs l. fold (\<lambda>q. launch_loop (ResponderLoop q zero_rstats)) qs l"
  have "lf_w (?f qs l) = lf_w l \<and> lf_close (?f qs l) = lf_close l \<and> lf_ticks (?f qs l) = lf_ticks l
      \<and> (lf_wg l = length (lf_loops l) \<longrightarrow> lf_wg (?f qs l) = length (lf_loops (?f qs l)))" for qs l
    by (induction qs arbitrary: l) (simp_all add: launch_loop_def)
  then show ?thesis
    by (simp add: Prober_Start_def life_ok_def launch_loop_def new_life_def init_world_def NewProber_def closing_of_def chan_make_def)
qed

lemma closing_tick: "runServiceProbingLoop_tick p = (ls, p') \<Longrightarrow> closing_of p' = closing_of p"
  by (auto simp: runServiceProbingLoop_tick_def closing_of_def split: prod.splits)

lemma closing_Close: "Prober_Close p = Ret p' \<Longrightarrow> closing_of p' = (True, True)"
  by (auto simp: Prober_Close_def chan_close_def closing_of_def split: if_splits)

lemma life_ok_loop_step:
  assumes "loop_step l l'" "life_ok l"
  shows "life_ok l'"
  using assms(1)
proof cases
  case (close_returns p')
  then show ?thesis using assms(2) closing_Close by (auto simp: life_ok_def on_prober_def)
qed (use assms(2) closing_tick in \<open>auto simp: life_ok_def on_prober_def\<close>)

lemma life_ok_beside_step:
  assumes "beside_step l l'" "life_ok l"
  shows "life_ok l'"
  using assms(1)
proof cases
  case (others w')
  then show ?thesis using assms(2) closing_prober_step by (simp add: life_ok_def)
qed (use assms(2) closing_probe_begin in \<open>auto simp: life_ok_def on_prober_def\<close>)

lemma reach_life_ok: "reach_life a l \<Longrightarrow> life_ok l"
  by (induction rule: reach_life.induct) (auto intro: Prober_Start_ok life_ok_loop_step life_ok_beside_step)

lemma loop_step_closer: "loop_step l l' \<Longrightarrow> lf_close l \<noteq> NotClosed \<Longrightarrow> lf_close l' \<noteq> NotClosed \<and> life_left l' < life_left l"
  by (erule loop_stepE) (auto simp: life_left_def on_prober_def)

lemma beside_step_same: "beside_step l l' \<Longrightarrow> lf_close l \<noteq> NotClosed \<Longrightarrow> lf_close l' = lf_close l \<and> life_left l' = life_left l"
  by (erule beside_stepE) (auto simp: life_left_def on_prober_def)

lemma close_progress:
  assumes "life_ok l" "lf_close l \<noteq> NotClosed" "lf_close l \<noteq> CloseReturned" "alive l"
  shows "\<exists>l'. loop_step l l'"
proof (cases "lf_loops l")
  case Nil
  moreover have c: "lf_close l = CloseWaits" using assms(2,3) by (cases "lf_close l") auto
  moreover obtain p' where "Prober_Close (w_prober (lf_w l)) = Ret p'"
    using assms(1) c by (auto simp: Prober_Close_def chan_close_def life_ok_def closing_of_def)
  ultimately show ?thesis using close_returns[OF assms(4)] assms(1) by (auto simp: life_ok_def)
next
  case (Cons lp ys)
  then show ?thesis using loop_ends[OF assms(4,2), of "[]" lp ys] by auto
qed

interpretation closing: stop_beside loop_step beside_step life_ok "\<lambda>l. lf_close l \<noteq> NotClosed" "\<lambda>l. lf_close l = CloseReturned \<or> \<not> alive l" life_left
proof unfold_locales
  fix l l' assume "loop_step l l'" "life_ok l" "lf_close l \<noteq> NotClosed"
  then show "life_ok l' \<and> lf_close l' \<noteq> NotClosed \<and> life_left l' < life_left l" using life_ok_loop_step loop_step_closer by blast
next
  fix l l' assume "beside_step l l'" "life_ok l" "lf_close l \<noteq> NotClosed"
  then show "life_ok l' \<and> lf_close l' \<noteq> NotClosed \<and> life_left l' \<le> life_left l" using life_ok_beside_step beside_step_same[of l l'] by auto
qed (use close_progress in blast)

text \<open>C32: Close of the prober returns. In every state the prober can reach, the wait group counts the
  loops that run. Once Close has been called, whatever probes, ACK handlers and consumers do
  beside it: as long as it has not returned a loop or Close itself can go on, and in every run
  that does not ignore them for ever Close returns, with no loop left, unless the process has
  panicked.\<close>

theorem prober_Close_returns:
  assumes "reach_life a l" "lf_close l \<noteq> NotClosed"
  shows "lf_wg l = length (lf_loops l)
    \<and> (lf_close l = CloseReturned \<longrightarrow> lf_loops l = [])
    \<and> (lf_close l \<noteq> CloseReturned \<and> alive l \<longrightarrow> (\<exists>l'. loop_step l l'))
    \<and> (\<forall>run. run 0 = l \<and> (\<forall>i. loop_step (run i) (run (Suc i)) \<or> beside_step (run i) (run (Suc i)))
          \<and> (\<forall>i. \<exists>j \<ge> i. lf_close (run j) = CloseReturned \<or> \<not> alive (run j) \<or> loop_step (run j) (run (Suc j)))
        \<longrightarrow> (\<exists>j. lf_close (run j) = CloseReturned \<or> \<not> alive (run j)))"
proof -
  have ok: "life_ok l" using reach_life_ok[OF assms(1)] .
  have "\<exists>j. lf_close (run j) = CloseReturned \<or> \<not> alive (run j)"
    if "run 0 = l" "\<forall>i. loop_step (run i) (run (Suc i)) \<or> beside_step (run i) (run (Suc i))"
      "\<forall>i. \<exists>j \<ge> i. lf_close (run j) = CloseReturned \<or> \<not> alive (run j) \<or> loop_step (run j) (run (Suc j))" for run
    by (rule closing.fair_run_stops) (use that ok assms(2) in blast)+
  with ok close_progress[OF ok assms(2)] show ?thesis by (simp add: life_ok_def)
qed

text \<open>C35: Close does not wait for service probes. Their goroutines are not in the wait group: when
  Close waits for nobody any more and a probe is about to publish its result, two steps
  crash the process. Close closes the channel of results, and the probe sends on it.\<close>

theorem Close_races_with_probes:
  assumes "reach_life a l" "alive l" "lf_close l = CloseWaits" "lf_loops l = []"
    and "n < length (w_runs (lf_w l))" "w_runs (lf_w l) ! n = Publishing i r"
  shows "\<exists>l1 l2. loop_step l l1 \<and> lf_close l1 = CloseReturned \<and> beside_step l1 l2 \<and> w_panic (lf_w l2) = Some ''send on closed channel''"
proof -
  have ok: "life_ok l" using reach_life_ok[OF assms(1)] .
  obtain p' where p': "Prober_Close (w_prober (lf_w l)) = Ret p'"
    using ok assms(3) by (auto simp: Prober_Close_def chan_close_def life_ok_def closing_of_def)
  let ?l1 = "(on_prober (\<lambda>_. p') l)\<lparr>lf_close := CloseReturned\<rparr>"
  let ?w2 = "(lf_w ?l1)\<lparr>w_panic := Some ''send on closed channel''\<rparr>"
  have 1: "loop_step l ?l1" using close_returns[OF assms(2,3) _ p'] ok assms(4) by (simp add: life_ok_def)
  have "publish k r p' = Some (Panic ''send on closed channel'')" for k using closing_Close[OF p'] by (simp add: publish_def closing_of_def Let_def)
  then have "prober_step (lf_w ?l1) ?w2"
    using prober_step.run_panic[of "lf_w ?l1" n EnvNone "''send on closed channel''"] assms(2,5,6) by (simp add: on_prober_def alive_def)
  then have 2: "beside_step ?l1 (?l1\<lparr>lf_w := ?w2\<rparr>)" using others[of ?l1 ?w2] by simp
  from 1 2 show ?thesis by (intro exI[of _ ?l1] exI[of _ "?l1\<lparr>lf_w := ?w2\<rparr>"]) simp
qed


subsection \<open>A service probe under way when Close is called\<close>

definition flow_agent :: AgentState where
  "flow_agent = sample_agent\<lparr>as_rnicByGID := Some [(''fe80::1'', 0)]\<rparr>"

definition flow_target :: PingTarget where
  "flow_target = (sample_ping ''fe80::2'' 7)\<lparr>pt_ProbeType := ProbeTypeServiceTracing,
     pt_ServiceFlowTuple := Some \<lparr>sf_SrcGID = ''fe80::1'', sf_SrcQPN = 7, sf_DstGID = ''fe80::2'', sf_DstQPN = 8, sf_FlowLabel = 0\<rparr>\<rparr>"

lemma reach_loops_end:
  "reach_life a l \<Longrightarrow> alive l \<Longrightarrow> lf_close l \<noteq> NotClosed \<Longrightarrow> \<exists>wg. reach_life a (l\<lparr>lf_loops := [], lf_wg := wg\<rparr>)"
proof (induction "lf_loops l" arbitrary: l)
  case Nil
  then have "l\<lparr>lf_loops := [], lf_wg := lf_wg l\<rparr> = l" by simp
  with Nil(2) show ?case by metis
next
  case (Cons lp ys)
  let ?l = "l\<lparr>lf_loops := ys, lf_wg := lf_wg l - 1\<rparr>"
  have "loop_step l ?l" using loop_ends[OF Cons.prems(2,3), of "[]" lp ys] Cons.hyps(2)[symmetric] by simp
  then have "reach_life a ?l" by (rule reach_life.loops[OF Cons.prems(1)])
  from Cons.hyps(1)[OF _ this] Cons.prems(2,3) show ?case by (simp add: alive_def)
qed

lemma flow_probe_publishing:
  "\<exists>l r. reach_life flow_agent l \<and> alive l \<and> lf_close l = NotClosed \<and> w_runs (lf_w l) = [Publishing 0 r]"
proof -
  have q: "GetSenderUDQueue flow_agent g = None" "GetResponderUDQueue flow_agent g = None" for g
    by (simp_all add: GetSenderUDQueue_def GetResponderUDQueue_def lookup_def flow_agent_def sample_agent_def NewAgentState_def)
  obtain rn where rn: "GetRnicByGID flow_agent ''fe80::1'' = Some rn"
    by (simp add: GetRnicByGID_def lookup_def rnic_at_def flow_agent_def sample_agent_def)
  have "Start_responders (NewProber flow_agent) = []"
    by (simp add: Start_responders_def NewProber_def q List.map_filter_def split: option.split)
  then have l0: "Prober_Start (new_life flow_agent) = (new_life flow_agent)\<lparr>lf_loops := [ServiceProbing, SessionCleanup, StatsLogging], lf_wg := 3\<rparr>" (is "_ = ?l0")
    by (simp add: Prober_Start_def new_life_def init_world_def launch_loop_def)
  then have r0: "reach_life flow_agent ?l0" using reach_life.started[of flow_agent] by simp
  let ?p1 = "UpdateServiceFlowTargets [Some flow_target] (NewProber flow_agent)"
  let ?l1 = "?l0\<lparr>lf_w := (init_world flow_agent)\<lparr>w_prober := ?p1\<rparr>\<rparr>"
  have "beside_step ?l0 ?l1" using new_targets[of ?l0 "[Some flow_target]"] by (simp add: alive_def new_life_def init_world_def on_prober_def)
  note r1 = reach_life.beside[OF r0 this]
  let ?l2 = "?l1\<lparr>lf_ticks := 1\<rparr>"
  have "beside_step ?l1 ?l2" using tick_fires[of ?l1] by (simp add: alive_def new_life_def init_world_def)
  note r2 = reach_life.beside[OF r1 this]
  have t: "runServiceProbingLoop_tick ?p1 = ([(rn, flow_target)], ?p1)"
    using rn by (simp add: runServiceProbingLoop_tick_def UpdateServiceFlowTargets_def NewProber_def flow_target_def correct_type_def)
  let ?l3 = "?l2\<lparr>lf_ticks := 0, lf_launched := [(rn, flow_target)]\<rparr>"
  have "loop_step ?l2 ?l3" using probing_tick[of ?l2 0 "[(rn, flow_target)]" ?p1] t by (simp add: alive_def new_life_def init_world_def on_prober_def)
  note r3 = reach_life.loops[OF r2 this]
  obtain p4 where p4: "probe_begin 0 (Some rn) (Some flow_target) ?p1 = (Some 0, p4)" "pb_agentState p4 = flow_agent"
    by (simp add: probe_begin_def UpdateServiceFlowTargets_def NewProber_def addSession_def upd_stats_def Let_def)
  let ?l4 = "?l3\<lparr>lf_w := (init_world flow_agent)\<lparr>w_prober := p4, w_runs := [Sending 0 rn flow_target]\<rparr>, lf_launched := []\<rparr>"
  have "beside_step ?l3 ?l4" using service_probe[of ?l3 "[]" rn flow_target "[]" 0 0 p4] p4(1) by (simp add: alive_def new_life_def init_world_def)
  note r4 = reach_life.beside[OF r3 this]
  obtain r where r: "probe_send (sample_env 1 []) SelComp 0 rn flow_target p4 = Some (Ret (Inl r, p4))" by (simp add: probe_send_def probe_endpoints_def p4(2) q)
  let ?w5 = "(init_world flow_agent)\<lparr>w_prober := p4, w_runs := [Publishing 0 r]\<rparr>"
  have "prober_step (lf_w ?l4) ?w5"
    using prober_step.run[of "lf_w ?l4" 0 "EnvSend (sample_env 1 []) SelComp" "Publishing 0 r" p4] r by (simp add: init_world_def lift_phase_def)
  then have "beside_step ?l4 (?l4\<lparr>lf_w := ?w5\<rparr>)" using others[of ?l4 ?w5] by simp
  note r5 = reach_life.beside[OF r4 this]
  then show ?thesis by (intro exI[of _ "?l4\<lparr>lf_w := ?w5\<rparr>"] exI[of _ r]) (simp add: alive_def new_life_def init_world_def)
qed

lemma flow_probe_closing:
  "\<exists>l r. reach_life flow_agent l \<and> alive l \<and> lf_close l = CloseWaits \<and> lf_loops l = [] \<and> w_runs (lf_w l) = [Publishing 0 r]"
proof -
  obtain l r where l: "reach_life flow_agent l" "alive l" "lf_close l = NotClosed" "w_runs (lf_w l) = [Publishing 0 r]" using flow_probe_publishing by blast
  let ?l1 = "l\<lparr>lf_close := CloseWaits, lf_ticks := lf_ticks l + 0\<rparr>"
  have "reach_life flow_agent ?l1" using reach_life.loops[OF l(1) close_called[OF l(2,3)]] by blast
  then obtain wg where "reach_life flow_agent (?l1\<lparr>lf_loops := [], lf_wg := wg\<rparr>)" using reach_loops_end[of flow_agent ?l1] l(2) by (auto simp: alive_def)
  then show ?thesis using l(2,4) by (intro exI[of _ "?l1\<lparr>lf_loops := [], lf_wg := wg\<rparr>"] exI[of _ r]) (simp add: alive_def)
qed

theorem prober_Close_returns_witness:
  "\<exists>l l'. reach_life flow_agent l \<and> lf_close l = CloseWaits \<and> loop_step l l'"
proof -
  obtain l r where l: "reach_life flow_agent l" "alive l" "lf_close l = CloseWaits" using flow_probe_closing by blast
  with prober_Close_returns[OF l(1)] show ?thesis by (metis close_pc.distinct(1,5))
qed

theorem Close_races_with_probes_witness:
  "\<exists>l l1 l2. reach_life flow_agent l \<and> loop_step l l1 \<and> lf_close l1 = CloseReturned \<and> beside_step l1 l2 \<and> w_panic (lf_w l2) = Some ''send on closed channel''"
proof -
  obtain l r where l: "reach_life flow_agent l" "alive l" "lf_close l = CloseWaits" "lf_loops l = []" "w_runs (lf_w l) = [Publishing 0 r]"
    using flow_probe_closing by blast
  from Close_races_with_probes[OF l(1-4), of 0 0 r] l show ?thesis by (metis length_Cons list.size(3) nth_Cons_0 zero_less_one One_nat_def)
qed

end
