(* ===== verification/Cq_Poller.thy ===== *)
theory Cq_Poller
  imports Rdma_Queue
begin

text \<open>
  Starting and stopping the completion queue poller (StartCQPoller and StopCQPoller of
  internal/rdma/cq.go): the running flag, the done channel and the mutex, with the poller and
  one caller of StopCQPoller as threads. A pass of the poller's loop body is \<^verbatim>\<open>poll_step\<close> of
  Rdma_Queue, on the queue itself. What ibv_get_cq_event can deliver is a parameter: it blocks
  until there is an event or an error.
\<close>

subsection \<open>Threads\<close>

datatype poller_holder = PFree | PByPoller | PByStopper

text \<open>The poller is at its first checks, at the select of its loop, in ibv_get_cq_event, in its deferred
  function (before and after taking the mutex), or gone.\<close>

datatype poller_pc = AtChecks | AtSelect | AtGetEvent | AtDefer | InDefer | Gone

text \<open>StopCQPoller has been called, holds the mutex before its test, holds it at the loop's test,
  sleeps without it, or has returned.\<close>

datatype stopper_pc = NotCalled | StopEntry | StopTest | StopSleep | StopDone

record poller_world =
  pl_queue :: UDQueue
  pl_running :: bool
  pl_done :: bool
  pl_mutex :: poller_holder
  pl_pc :: poller_pc
  pl_stop :: stopper_pc
  pl_panic :: "string option"

text \<open>A panic on the poller's goroutine (of the ACK handler, which it calls) runs its deferred function and
  then ends the process: until the poller is gone the stopper can still move, and then nothing.\<close>

definition crashed :: "poller_world \<Rightarrow> bool" where
  "crashed w \<longleftrightarrow> pl_pc w = Gone \<and> pl_panic w \<noteq> None"

text \<open>StartCQPoller on a queue whose poller is not running launches the goroutine with a new done
  channel. Otherwise nothing changes.\<close>

definition StartCQPoller :: "poller_world \<Rightarrow> poller_world" where
  "StartCQPoller w =
     (if pl_running w then w else w\<lparr>pl_running := True, pl_done := False, pl_pc := AtChecks, pl_stop := NotCalled\<rparr>)"

inductive poller_step :: "post_ret \<Rightarrow> ack_call \<Rightarrow> hdr_parsers \<Rightarrow> poll_round set \<Rightarrow> poller_world \<Rightarrow> poller_world \<Rightarrow> bool"
  for pr ak h arrivals where
  checks: "pl_pc w = AtChecks \<Longrightarrow> cq_poller pr ak h s [] (pl_queue w) = Ret (goes_on, q) \<Longrightarrow>
     poller_step pr ak h arrivals w (w\<lparr>pl_queue := q, pl_pc := if goes_on then AtSelect else AtDefer\<rparr>)"
| done_seen: "pl_pc w = AtSelect \<Longrightarrow> pl_done w \<Longrightarrow> poll_step pr ak h PollDone (pl_queue w) = Ret (goes_on, q) \<Longrightarrow> \<not> goes_on \<Longrightarrow>
     poller_step pr ak h arrivals w (w\<lparr>pl_queue := q, pl_pc := AtDefer\<rparr>)"
| to_wait: "pl_pc w = AtSelect \<Longrightarrow> \<not> pl_done w \<Longrightarrow> poller_step pr ak h arrivals w (w\<lparr>pl_pc := AtGetEvent\<rparr>)"
| event: "pl_pc w = AtGetEvent \<Longrightarrow> r \<in> arrivals \<Longrightarrow> (\<forall>b e. r = PollEventFailed b e \<longrightarrow> b = pl_done w) \<Longrightarrow> r \<noteq> PollDone \<Longrightarrow>
     poll_step pr ak h r (pl_queue w) = Ret (goes_on, q) \<Longrightarrow>
     poller_step pr ak h arrivals w (w\<lparr>pl_queue := q, pl_pc := if goes_on then AtSelect else AtDefer\<rparr>)"
| event_panic: "pl_pc w = AtGetEvent \<Longrightarrow> r \<in> arrivals \<Longrightarrow> (\<forall>b e. r = PollEventFailed b e \<longrightarrow> b = pl_done w) \<Longrightarrow> r \<noteq> PollDone \<Longrightarrow>
     poll_step pr ak h r (pl_queue w) = Panic m \<Longrightarrow>
     poller_step pr ak h arrivals w (w\<lparr>pl_panic := Some m, pl_pc := AtDefer\<rparr>)"
| defer_lock: "pl_pc w = AtDefer \<Longrightarrow> pl_mutex w = PFree \<Longrightarrow>
     poller_step pr ak h arrivals w (w\<lparr>pl_pc := InDefer, pl_mutex := PByPoller, pl_running := False\<rparr>)"
| defer_unlock: "pl_pc w = InDefer \<Longrightarrow> poller_step pr ak h arrivals w (w\<lparr>pl_pc := Gone, pl_mutex := PFree\<rparr>)"
| stop_enter: "\<not> crashed w \<Longrightarrow> pl_stop w = NotCalled \<Longrightarrow> pl_mutex w = PFree \<Longrightarrow>
     poller_step pr ak h arrivals w (w\<lparr>pl_stop := StopEntry, pl_mutex := PByStopper\<rparr>)"
| stop_idle: "\<not> crashed w \<Longrightarrow> pl_stop w = StopEntry \<Longrightarrow> \<not> pl_running w \<Longrightarrow> poller_step pr ak h arrivals w (w\<lparr>pl_stop := StopDone, pl_mutex := PFree\<rparr>)"
| stop_close: "\<not> crashed w \<Longrightarrow> pl_stop w = StopEntry \<Longrightarrow> pl_running w \<Longrightarrow> poller_step pr ak h arrivals w (w\<lparr>pl_stop := StopTest, pl_done := True\<rparr>)"
| stop_sleep: "\<not> crashed w \<Longrightarrow> pl_stop w = StopTest \<Longrightarrow> pl_running w \<Longrightarrow> poller_step pr ak h arrivals w (w\<lparr>pl_stop := StopSleep, pl_mutex := PFree\<rparr>)"
| stop_wake: "\<not> crashed w \<Longrightarrow> pl_stop w = StopSleep \<Longrightarrow> pl_mutex w = PFree \<Longrightarrow> poller_step pr ak h arrivals w (w\<lparr>pl_stop := StopTest, pl_mutex := PByStopper\<rparr>)"
| stop_return: "\<not> crashed w \<Longrightarrow> pl_stop w = StopTest \<Longrightarrow> \<not> pl_running w \<Longrightarrow> poller_step pr ak h arrivals w (w\<lparr>pl_stop := StopDone, pl_mutex := PFree\<rparr>)"

inductive_cases poller_stepE: "poller_step pr ak h arrivals w w'"

text \<open>A queue whose poller has just been started, and one whose poller waits for an event, before anybody
  stops it.\<close>

definition poller_started :: "UDQueue \<Rightarrow> poller_world" where
  "poller_started u = StartCQPoller \<lparr>pl_queue = u, pl_running = False, pl_done = False, pl_mutex = PFree, pl_pc = Gone, pl_stop = NotCalled, pl_panic = None\<rparr>"

definition polling :: "poller_world \<Rightarrow> bool" where
  "polling w \<longleftrightarrow> queue_ok (pl_queue w) \<and> pl_running w \<and> \<not> pl_done w \<and> pl_mutex w = PFree \<and> pl_pc w = AtGetEvent \<and> pl_stop w = NotCalled \<and> pl_panic w = None"

subsection \<open>Invariant\<close>

definition poller_inv :: "ack_call \<Rightarrow> poller_world \<Rightarrow> bool" where
  "poller_inv ak w \<longleftrightarrow> queue_ok (pl_queue w)
     \<and> (pl_running w \<longleftrightarrow> pl_pc w \<in> {AtChecks, AtSelect, AtGetEvent, AtDefer})
     \<and> (pl_mutex w = PByPoller \<longleftrightarrow> pl_pc w = InDefer)
     \<and> (pl_mutex w = PByStopper \<longleftrightarrow> pl_stop w \<in> {StopEntry, StopTest})
     \<and> (pl_stop w \<in> {StopTest, StopSleep} \<longrightarrow> pl_done w)
     \<and> (pl_stop w = StopDone \<longrightarrow> \<not> pl_running w)
     \<and> (\<forall>m. pl_panic w = Some m \<longrightarrow> ack_panics ak m \<and> pl_pc w \<in> {AtDefer, InDefer, Gone})"

lemma checks_keep:
  assumes "cq_poller pr ak h s [] u = Ret (goes_on, q)" "queue_ok u"
  shows "queue_ok q"
proof -
  have "send_err e u = Ret q \<Longrightarrow> queue_ok q" for e using send_err_ok[OF assms(2), of e] by auto
  with assms show ?thesis by (auto simp: cq_poller_def split: if_splits option.splits elim!: go_bind.elims)
qed

lemma poller_inv_step:
  assumes "poller_step pr ak h arrivals w w'" and "poller_inv ak w"
  shows "poller_inv ak w'"
  using assms(1)
proof cases
  case (checks s goes_on q)
  then have "queue_ok q" using assms(2) by (auto simp: poller_inv_def intro: checks_keep)
  with checks assms(2) show ?thesis by (auto simp: poller_inv_def)
next
  case (done_seen goes_on q)
  with assms(2) show ?thesis by (auto simp: poller_inv_def poll_step_def)
next
  case (event r goes_on q)
  then have "queue_ok q" using poll_step_keeps[of "pl_queue w" ak pr h r] assms(2) by (simp add: poller_inv_def)
  with event assms(2) show ?thesis by (auto simp: poller_inv_def)
next
  case (event_panic r m)
  then have "ack_panics ak m" using poll_step_keeps[of "pl_queue w" ak pr h r] assms(2) by (simp add: poller_inv_def)
  with event_panic assms(2) show ?thesis by (auto simp: poller_inv_def)
qed (use assms(2) in \<open>auto simp: poller_inv_def\<close>)

lemma poller_inv_steps: "(poller_step pr ak h arrivals)\<^sup>*\<^sup>* w w' \<Longrightarrow> poller_inv ak w \<Longrightarrow> poller_inv ak w'"
  by (induction rule: rtranclp_induct) (auto intro: poller_inv_step)

lemma polling_inv: "polling w \<Longrightarrow> poller_inv ak w"
  by (simp add: polling_def poller_inv_def)

lemma started_inv: "queue_ok u \<Longrightarrow> poller_inv ak (poller_started u)"
  by (simp add: poller_started_def StartCQPoller_def poller_inv_def)

subsection \<open>Without an event the poller never leaves\<close>

lemma quiet_steps:
  "(poller_step pr ak h {})\<^sup>*\<^sup>* w w' \<Longrightarrow> pl_pc w = AtGetEvent \<Longrightarrow> pl_pc w' = AtGetEvent"
  by (induction rule: rtranclp_induct) (auto elim: poller_stepE)

subsection \<open>With one it does\<close>

text \<open>From any state in which the stopper sleeps or waits at its test, once the poller is gone the
  stopper returns.\<close>

lemma stopper_returns:
  assumes "poller_inv ak w" "pl_pc w = Gone" "pl_panic w = None"
  shows "\<exists>w'. (poller_step pr ak h arrivals)\<^sup>*\<^sup>* w w' \<and> pl_stop w' = StopDone"
proof -
  have idle: "\<not> pl_running w" "pl_mutex w \<noteq> PByPoller" "\<not> crashed w" using assms by (auto simp: poller_inv_def crashed_def)
  have test: "\<exists>w'. (poller_step pr ak h arrivals)\<^sup>*\<^sup>* v w' \<and> pl_stop w' = StopDone" if "pl_stop v \<in> {StopTest, StopEntry}" "\<not> pl_running v" "pl_panic v = None" for v
    using that stop_return[of v pr ak h arrivals] stop_idle[of v pr ak h arrivals]
    by (intro exI[of _ "v\<lparr>pl_stop := StopDone, pl_mutex := PFree\<rparr>"]) (auto simp: crashed_def)
  show ?thesis
  proof (cases "pl_stop w")
    case NotCalled
    let ?v = "w\<lparr>pl_stop := StopEntry, pl_mutex := PByStopper\<rparr>"
    have "pl_mutex w = PFree" using NotCalled idle assms(1) by (cases "pl_mutex w") (auto simp: poller_inv_def)
    then have "poller_step pr ak h arrivals w ?v" using NotCalled idle(3) by (intro stop_enter)
    with test[of ?v] idle assms(3) show ?thesis by (auto intro: converse_rtranclp_into_rtranclp)
  next
    case StopSleep
    let ?v = "w\<lparr>pl_stop := StopTest, pl_mutex := PByStopper\<rparr>"
    have "pl_mutex w = PFree" using StopSleep idle assms(1) by (cases "pl_mutex w") (auto simp: poller_inv_def)
    then have "poller_step pr ak h arrivals w ?v" using StopSleep idle(3) by (intro stop_wake)
    with test[of ?v] idle assms(3) show ?thesis by (auto intro: converse_rtranclp_into_rtranclp)
  qed (use test[of w] idle assms(3) in auto)
qed

text \<open>The mutex becomes free without the help of the poller, unless the stopper returns first.\<close>

lemma stopper_yields:
  assumes "poller_inv ak w" "pl_running w"
  shows "\<exists>w'. (poller_step pr ak h arrivals)\<^sup>*\<^sup>* w w' \<and> pl_mutex w' = PFree \<and> pl_done w' \<and> pl_pc w' = pl_pc w"
proof -
  have test: "\<exists>w'. (poller_step pr ak h arrivals)\<^sup>*\<^sup>* v w' \<and> pl_mutex w' = PFree \<and> pl_done w' \<and> pl_pc w' = pl_pc v"
    if "pl_stop v = StopTest" "pl_running v" "pl_done v" "\<not> crashed v" for v
    using that stop_sleep[of v pr ak h arrivals] by (intro exI[of _ "v\<lparr>pl_stop := StopSleep, pl_mutex := PFree\<rparr>"]) auto
  have entry: "\<exists>w'. (poller_step pr ak h arrivals)\<^sup>*\<^sup>* v w' \<and> pl_mutex w' = PFree \<and> pl_done w' \<and> pl_pc w' = pl_pc v"
    if "pl_stop v = StopEntry" "pl_running v" "\<not> crashed v" for v
    using that stop_close[of v pr ak h arrivals] test[of "v\<lparr>pl_stop := StopTest, pl_done := True\<rparr>"]
    by (auto simp: crashed_def intro: converse_rtranclp_into_rtranclp)
  have live: "\<not> crashed w" using assms by (auto simp: poller_inv_def crashed_def)
  have free: "pl_mutex w = PFree" if "pl_stop w \<notin> {StopEntry, StopTest}"
    using that assms by (cases "pl_mutex w") (auto simp: poller_inv_def)
  show ?thesis
  proof (cases "pl_stop w")
    case NotCalled
    let ?v = "w\<lparr>pl_stop := StopEntry, pl_mutex := PByStopper\<rparr>"
    have "poller_step pr ak h arrivals w ?v" using NotCalled free live by (intro stop_enter) auto
    with entry[of ?v] assms live show ?thesis by (auto simp: crashed_def intro: converse_rtranclp_into_rtranclp)
  next
    case StopSleep
    then show ?thesis using free assms by (intro exI[of _ w]) (auto simp: poller_inv_def)
  qed (use entry[of w] test[of w] assms live in \<open>auto simp: poller_inv_def\<close>)
qed

text \<open>An arrival that ends the wait of a poller that is being stopped.\<close>

definition wakes :: "poll_round \<Rightarrow> bool" where
  "wakes r = (case r of PollDone \<Rightarrow> False | PollEventFailed stopping _ \<Rightarrow> stopping | _ \<Rightarrow> True)"

lemma poller_leaves:
  assumes "poller_inv ak w" "pl_running w" "pl_mutex w = PFree" "pl_done w" "r \<in> arrivals" "wakes r"
  shows "\<exists>w'. (poller_step pr ak h arrivals)\<^sup>*\<^sup>* w w' \<and> pl_pc w' = Gone"
proof -
  let ?goes = "\<lambda>v. \<exists>w'. (poller_step pr ak h arrivals)\<^sup>*\<^sup>* v w' \<and> pl_pc w' = Gone"
  have deferred: "?goes v" if "pl_pc v = AtDefer" "pl_mutex v = PFree" for v
  proof -
    let ?v1 = "v\<lparr>pl_pc := InDefer, pl_mutex := PByPoller, pl_running := False\<rparr>"
    have "poller_step pr ak h arrivals v ?v1" using that by (intro defer_lock)
    moreover have "poller_step pr ak h arrivals ?v1 (?v1\<lparr>pl_pc := Gone, pl_mutex := PFree\<rparr>)" by (rule defer_unlock) simp
    ultimately show ?thesis by (intro exI[of _ "?v1\<lparr>pl_pc := Gone, pl_mutex := PFree\<rparr>"]) auto
  qed
  have select: "?goes v" if "pl_pc v = AtSelect" "pl_mutex v = PFree" "pl_done v" for v
  proof -
    have "poller_step pr ak h arrivals v (v\<lparr>pl_queue := pl_queue v, pl_pc := AtDefer\<rparr>)"
      using that by (intro done_seen[where goes_on = False]) (simp_all add: poll_step_def)
    with deferred[of "v\<lparr>pl_queue := pl_queue v, pl_pc := AtDefer\<rparr>"] that show ?thesis by (auto intro: converse_rtranclp_into_rtranclp)
  qed
  have "pl_pc w \<in> {AtChecks, AtSelect, AtGetEvent, AtDefer}" using assms(1,2) by (auto simp: poller_inv_def)
  moreover have "?goes w" if "pl_pc w = AtChecks"
  proof -
    have "poller_step pr ak h arrivals w (w\<lparr>pl_queue := pl_queue w, pl_pc := if True then AtSelect else AtDefer\<rparr>)"
      using that by (intro checks[where s = "\<lparr>ps_has_channel = True, ps_base_cq = True, ps_notify_err = None\<rparr>"]) (simp_all add: cq_poller_def)
    with select[of "w\<lparr>pl_queue := pl_queue w, pl_pc := AtSelect\<rparr>"] assms(3,4) show ?thesis by (auto intro: converse_rtranclp_into_rtranclp)
  qed
  moreover have "?goes w" if "pl_pc w = AtGetEvent"
  proof -
    have w: "\<forall>b e. r = PollEventFailed b e \<longrightarrow> b = pl_done w" "r \<noteq> PollDone" using assms(4,6) by (auto simp: wakes_def)
    show ?thesis
    proof (cases "poll_step pr ak h r (pl_queue w)")
      case (Ret x)
      obtain b q where x: "x = (b, q)" by (cases x)
      let ?v = "w\<lparr>pl_queue := q, pl_pc := if b then AtSelect else AtDefer\<rparr>"
      have "poller_step pr ak h arrivals w ?v" using that assms(5) w Ret x by (intro event[of w r]) auto
      moreover have "?goes ?v" using select[of ?v] deferred[of ?v] assms(3,4) by (cases b) auto
      ultimately show ?thesis by (auto intro: converse_rtranclp_into_rtranclp)
    next
      case (Panic m)
      then have "poller_step pr ak h arrivals w (w\<lparr>pl_panic := Some m, pl_pc := AtDefer\<rparr>)"
        using that assms(5) w by (intro event_panic[of w r])
      with deferred[of "w\<lparr>pl_panic := Some m, pl_pc := AtDefer\<rparr>"] assms(3) show ?thesis by (auto intro: converse_rtranclp_into_rtranclp)
    qed
  qed
  ultimately show ?thesis using select[of w] deferred[of w] assms(3,4) by blast
qed

text \<open>Once the poller is gone, the stopper returns or the process has crashed.\<close>

lemma gone_ends:
  assumes "poller_inv ak w" "pl_pc w = Gone"
  shows "\<exists>w'. (poller_step pr ak h arrivals)\<^sup>*\<^sup>* w w' \<and> (pl_stop w' = StopDone \<or> crashed w' \<and> (\<exists>v ai m. ak v ai = Panic m))"
proof (cases "pl_panic w")
  case None
  with stopper_returns[OF assms] show ?thesis by blast
next
  case (Some m)
  with assms show ?thesis by (intro exI[of _ w]) (auto simp: poller_inv_def crashed_def ack_panics_def)
qed

text \<open>C20: StopCQPoller depends on the hardware to return. Called on a queue whose poller waits for a
  completion event, it does not return as long as no event arrives, for it only closes the
  done channel, which the poller looks at between two waits; so Destroy hangs on a quiet
  queue. When events can arrive, no interleaving is a dead end: from every state reachable
  after StartCQPoller the call can still return (or the process crash, which takes a panic of the
  ACK handler that the poller calls; with a handler that always returns it can still return),
  and when it has, the poller has stopped running.\<close>

theorem StopCQPoller_needs_event:
  assumes "polling w0 \<or> w0 = poller_started u \<and> queue_ok u" and "(poller_step pr ak h arrivals)\<^sup>*\<^sup>* w0 w"
  shows "(arrivals = {} \<and> polling w0 \<longrightarrow> pl_stop w \<noteq> StopDone)
    \<and> (\<forall>r \<in> arrivals. wakes r \<longrightarrow> (\<exists>w'. (poller_step pr ak h arrivals)\<^sup>*\<^sup>* w w'
         \<and> (pl_stop w' = StopDone \<or> crashed w' \<and> (\<exists>v ai m. ak v ai = Panic m))))
    \<and> (pl_stop w = StopDone \<longrightarrow> \<not> pl_running w)"
proof (intro conjI impI ballI)
  have inv: "poller_inv ak w" using poller_inv_steps[OF assms(2)] polling_inv started_inv assms(1) by blast
  then show "pl_stop w = StopDone \<Longrightarrow> \<not> pl_running w" by (auto simp: poller_inv_def)
  show "pl_stop w \<noteq> StopDone" if "arrivals = {} \<and> polling w0"
    using quiet_steps assms that inv by (fastforce simp: polling_def poller_inv_def)
  fix r assume r: "r \<in> arrivals" "wakes r"
  show "\<exists>w'. (poller_step pr ak h arrivals)\<^sup>*\<^sup>* w w' \<and> (pl_stop w' = StopDone \<or> crashed w' \<and> (\<exists>v ai m. ak v ai = Panic m))"
  proof (cases "pl_running w")
    case True
    obtain w1 where w1: "(poller_step pr ak h arrivals)\<^sup>*\<^sup>* w w1" "pl_mutex w1 = PFree" "pl_done w1" "pl_pc w1 = pl_pc w"
      using stopper_yields[OF inv True, of pr h arrivals] by blast
    have i1: "poller_inv ak w1" using poller_inv_steps[OF w1(1) inv] .
    moreover have "pl_running w1" using True inv i1 w1(4) by (simp add: poller_inv_def)
    ultimately obtain w2 where w2: "(poller_step pr ak h arrivals)\<^sup>*\<^sup>* w1 w2" "pl_pc w2 = Gone"
      using poller_leaves[OF _ _ w1(2,3) r, of ak pr h] by blast
    with gone_ends[of ak w2 pr h arrivals] poller_inv_steps[OF w2(1) i1] w1(1) show ?thesis by (meson rtranclp_trans)
  next
    case False
    show ?thesis
    proof (cases "pl_pc w = InDefer")
      case True
      let ?v = "w\<lparr>pl_pc := Gone, pl_mutex := PFree\<rparr>"
      have s: "poller_step pr ak h arrivals w ?v" using True by (rule defer_unlock)
      with gone_ends[of ak ?v pr h arrivals] poller_inv_step[OF s inv] show ?thesis by (auto intro: converse_rtranclp_into_rtranclp)
    next
      case False
      with inv \<open>\<not> pl_running w\<close> have "pl_pc w = Gone" by (cases "pl_pc w") (auto simp: poller_inv_def)
      then show ?thesis by (rule gone_ends[OF inv])
    qed
  qed
qed

definition sample_poller :: poller_world where
  "sample_poller = \<lparr>pl_queue = sample_queue UDQueueTypeSender, pl_running = True, pl_done = False, pl_mutex = PFree, pl_pc = AtGetEvent,
     pl_stop = NotCalled, pl_panic = None\<rparr>"

theorem StopCQPoller_needs_event_witness:
  "\<exists>w w'. (poller_step (\<lambda>_ _. 0) (\<lambda>_ _. Ret ()) spec_parsers {PollNoCQ})\<^sup>*\<^sup>* sample_poller w \<and> pl_stop w = StopEntry
     \<and> (poller_step (\<lambda>_ _. 0) (\<lambda>_ _. Ret ()) spec_parsers {PollNoCQ})\<^sup>*\<^sup>* w w' \<and> pl_stop w' = StopDone"
proof -
  let ?R = "poller_step (\<lambda>_ _. 0) (\<lambda>_ _. Ret ()) spec_parsers {PollNoCQ}" and ?w = "sample_poller\<lparr>pl_stop := StopEntry, pl_mutex := PByStopper\<rparr>"
  have s: "?R\<^sup>*\<^sup>* sample_poller ?w" by (rule r_into_rtranclp, rule stop_enter) (simp_all add: sample_poller_def crashed_def)
  have "polling sample_poller" by (simp add: polling_def sample_poller_def)
  then have "polling sample_poller \<or> sample_poller = poller_started (pl_queue sample_poller) \<and> queue_ok (pl_queue sample_poller)" by blast
  from StopCQPoller_needs_event[OF this s] obtain w' where "?R\<^sup>*\<^sup>* ?w w'" "pl_stop w' = StopDone" by (auto simp: wakes_def)
  with s have "?R\<^sup>*\<^sup>* sample_poller ?w \<and> pl_stop ?w = StopEntry \<and> ?R\<^sup>*\<^sup>* ?w w' \<and> pl_stop w' = StopDone" by simp
  then show ?thesis by blast
qed

end
