(* ===== verification/Go_Strings.thy ===== *)
theory Go_Strings
  imports Go_Base "HOL-Library.Sublist"
begin

text \<open>
  The functions of the packages strings and strconv that the tracers use, on ASCII text:
  Contains, ToLower, Split at a newline, TrimSpace, Fields, HasSuffix, TrimSuffix, Atoi.
\<close>

fun str_contains :: "string \<Rightarrow> string \<Rightarrow> bool" where
  "str_contains [] p \<longleftrightarrow> p = []"
| "str_contains (c # cs) p \<longleftrightarrow> prefix p (c # cs) \<or> str_contains cs p"

definition lower_char :: "char \<Rightarrow> char" where
  "lower_char c = (let n = of_char c :: nat in if 65 \<le> n \<and> n \<le> 90 then char_of (n + 32) else c)"

definition to_lower :: "string \<Rightarrow> string" where
  "to_lower s = map lower_char s"

definition newline :: char where "newline = CHR 0x0A"

text \<open>The pieces between newlines; their number is one more than the newlines'.\<close>

fun split_lines :: "string \<Rightarrow> string list" where
  "split_lines [] = [[]]"
| "split_lines (c # cs) =
     (if c = newline then [] # split_lines cs
      else case split_lines cs of [] \<Rightarrow> [[c]] | l # ls \<Rightarrow> (c # l) # ls)"

definition is_space :: "char \<Rightarrow> bool" where
  "is_space c \<longleftrightarrow> c \<in> {CHR 0x09, CHR 0x0A, CHR 0x0B, CHR 0x0C, CHR 0x0D, CHR 0x20}"

definition trim_space :: "string \<Rightarrow> string" where
  "trim_space s = rev (dropWhile is_space (rev (dropWhile is_space s)))"

fun fields_acc :: "string \<Rightarrow> string \<Rightarrow> string list" where
  "fields_acc [] w = (if w = [] then [] else [w])"
| "fields_acc (c # cs) w =
     (if is_space c then (if w = [] then fields_acc cs [] else w # fields_acc cs []) else fields_acc cs (w @ [c]))"

definition str_fields :: "string \<Rightarrow> string list" where
  "str_fields s = fields_acc s []"

definition trim_suffix :: "string \<Rightarrow> string \<Rightarrow> string" where
  "trim_suffix s p = (if suffix p s then take (length s - length p) s else s)"

fun dec_value :: "nat \<Rightarrow> string \<Rightarrow> nat" where
  "dec_value acc [] = acc"
| "dec_value acc (c # cs) = dec_value (acc * 10 + (of_char c - 48)) cs"

text \<open>An optional sign and at least one digit, within an int64.\<close>

definition atoi :: "string \<Rightarrow> int option" where
  "atoi s =
     (let (neg, ds) = (case s of c # cs \<Rightarrow> if c = CHR ''-'' then (True, cs) else if c = CHR ''+'' then (False, cs) else (False, s) | [] \<Rightarrow> (False, s)) in
      if ds = [] \<or> \<not> list_all is_digit ds then None
      else let v = (if neg then - int (dec_value 0 ds) else int (dec_value 0 ds)) in if in_i64 v then Some v else None)"

subsection \<open>Lemmas\<close>

lemma str_contains_sublist: "str_contains s p \<longleftrightarrow> sublist p s"
  by (induction s p rule: str_contains.induct) (auto simp: sublist_Cons_right)

lemma split_lines_ne: "split_lines s \<noteq> []"
  by (cases s) (auto split: list.split)

lemma split_lines_append: "newline \<notin> set l \<Longrightarrow> split_lines (l @ newline # s) = l # split_lines s"
  by (induction l) (auto split: list.split)

lemma split_lines_single: "newline \<notin> set l \<Longrightarrow> split_lines l = [l]"
  by (induction l) auto

lemma fields_word: "w \<noteq> [] \<Longrightarrow> list_all (\<lambda>c. \<not> is_space c) w \<Longrightarrow> fields_acc w v = [v @ w]"
  by (induction w arbitrary: v rule: list_nonempty_induct) auto

lemma fields_acc_append:
  "list_all (\<lambda>c. \<not> is_space c) w \<Longrightarrow> fields_acc (w @ cs) v = fields_acc cs (v @ w)"
  by (induction w arbitrary: v) auto

text \<open>A word, a run of at least one space, and the rest.\<close>

lemma fields_Cons:
  "w \<noteq> [] \<Longrightarrow> list_all (\<lambda>c. \<not> is_space c) w \<Longrightarrow> is_space c \<Longrightarrow> str_fields (w @ c # cs) = w # str_fields cs"
  by (simp add: str_fields_def fields_acc_append)

lemma fields_space: "is_space c \<Longrightarrow> str_fields (c # cs) = str_fields cs"
  by (simp add: str_fields_def)

lemma fields_last: "w \<noteq> [] \<Longrightarrow> list_all (\<lambda>c. \<not> is_space c) w \<Longrightarrow> str_fields w = [w]"
  by (simp add: str_fields_def fields_word)

lemma fields_dropWhile: "str_fields (dropWhile is_space s) = str_fields s"
  by (induction s) (simp_all add: fields_space)

lemma fields_acc_trailing: "list_all is_space sp \<Longrightarrow> fields_acc (s @ sp) w = fields_acc s w"
proof (induction s arbitrary: w)
  case Nil
  have "list_all is_space sp \<Longrightarrow> fields_acc sp w = fields_acc [] w" for w
    by (induction sp arbitrary: w) auto
  with Nil show ?case by simp
qed auto

lemma fields_trim_space: "str_fields (trim_space s) = str_fields s"
proof -
  let ?s = "dropWhile is_space s"
  have "?s = rev (dropWhile is_space (rev ?s)) @ rev (takeWhile is_space (rev ?s))"
    by (metis rev_append rev_rev_ident takeWhile_dropWhile_id)
  moreover have "list_all is_space (rev (takeWhile is_space (rev ?s)))" by (auto simp: list_all_iff dest: set_takeWhileD)
  ultimately have "str_fields (rev (dropWhile is_space (rev ?s))) = str_fields ?s"
    unfolding str_fields_def by (metis fields_acc_trailing)
  then show ?thesis by (simp add: trim_space_def fields_dropWhile)
qed

end
