(* ===== verification/Go_Url.thy ===== *)
theory Go_Url
  imports Go_Strings
begin

text \<open>
  \<^verbatim>\<open>url.Parse\<close> of Go's package net/url, on byte strings: scheme, opaque part, host and path.
  User information, query and fragment are checked as the library checks them, but not kept.
\<close>

subsection \<open>Characters and escapes\<close>

definition alpha :: "char \<Rightarrow> bool" where
  "alpha c \<longleftrightarrow> (let n = of_char c :: nat in 65 \<le> n \<and> n \<le> 90 \<or> 97 \<le> n \<and> n \<le> 122)"

definition alnum :: "char \<Rightarrow> bool" where
  "alnum c \<longleftrightarrow> alpha c \<or> is_digit c"

definition hex_value :: "char \<Rightarrow> nat option" where
  "hex_value c =
     (let n = of_char c :: nat in
      if 48 \<le> n \<and> n \<le> 57 then Some (n - 48) else if 97 \<le> n \<and> n \<le> 102 then Some (n - 87) else if 65 \<le> n \<and> n \<le> 70 then Some (n - 55) else None)"

datatype url_mode = EncodePath | EncodeHost | EncodeZone | EncodeUser | EncodeFragment

text \<open>The characters that need no escape in a host.\<close>

definition host_char :: "char \<Rightarrow> bool" where
  "host_char c \<longleftrightarrow> alnum c \<or> c \<in> set ''!$&()*+,;=:[]<>-_.~'' \<or> c = CHR 0x27 \<or> c = CHR 0x22"

definition escape_ok :: "url_mode \<Rightarrow> nat \<Rightarrow> nat \<Rightarrow> bool" where
  "escape_ok mode x y =
     (case mode of
        EncodeHost \<Rightarrow> 8 \<le> x \<or> (x = 2 \<and> y = 5)
      | EncodeZone \<Rightarrow> (x = 2 \<and> y = 5) \<or> 16 * x + y = 32 \<or> host_char (char_of (16 * x + y))
      | _ \<Rightarrow> True)"

fun unescape :: "url_mode \<Rightarrow> string \<Rightarrow> string option" where
  "unescape mode [] = Some []"
| "unescape mode (c # cs) =
     (if c = CHR 0x25 then
        (case cs of
           a # b # rest \<Rightarrow>
             (case (hex_value a, hex_value b) of
                (Some x, Some y) \<Rightarrow> if escape_ok mode x y then map_option (\<lambda>r. char_of (16 * x + y) # r) (unescape mode rest) else None
              | _ \<Rightarrow> None)
         | _ \<Rightarrow> None)
      else if mode \<in> {EncodeHost, EncodeZone} \<and> of_char c < (128 :: nat) \<and> \<not> host_char c then None
      else map_option (\<lambda>r. c # r) (unescape mode cs))"

subsection \<open>Cutting strings\<close>

definition before_char :: "char \<Rightarrow> string \<Rightarrow> string" where
  "before_char c s = takeWhile (\<lambda>d. d \<noteq> c) s"

definition after_char :: "char \<Rightarrow> string \<Rightarrow> string" where
  "after_char c s = drop 1 (dropWhile (\<lambda>d. d \<noteq> c) s)"

text \<open>The text after the last occurrence and the text before it.\<close>

definition after_last :: "char \<Rightarrow> string \<Rightarrow> string" where
  "after_last c s = rev (before_char c (rev s))"

definition before_last :: "char \<Rightarrow> string \<Rightarrow> string" where
  "before_last c s = rev (after_char c (rev s))"

fun cut_at :: "string \<Rightarrow> string \<Rightarrow> (string \<times> string) option" where
  "cut_at p [] = (if p = [] then Some ([], []) else None)"
| "cut_at p (c # cs) = (if prefix p (c # cs) then Some ([], c # cs) else map_option (\<lambda>(a, b). (c # a, b)) (cut_at p cs))"

subsection \<open>Parsing\<close>

record URL =
  url_Scheme :: string
  url_Opaque :: string
  url_Host :: string
  url_Path :: string

text \<open>getScheme: the scheme and the rest, over the text read so far.\<close>

fun get_scheme :: "string \<Rightarrow> string \<Rightarrow> string \<Rightarrow> (string \<times> string) res" where
  "get_scheme raw seen [] = Inr ([], raw)"
| "get_scheme raw seen (c # cs) =
     (if alpha c then get_scheme raw (seen @ [c]) cs
      else if is_digit c \<or> c \<in> set ''+-.'' then (if seen = [] then Inr ([], raw) else get_scheme raw (seen @ [c]) cs)
      else if c = CHR '':'' then (if seen = [] then Inl ''missing protocol scheme'' else Inr (seen, cs))
      else Inr ([], raw))"

definition valid_optional_port :: "string \<Rightarrow> bool" where
  "valid_optional_port s \<longleftrightarrow> s = '''' \<or> (hd s = CHR '':'' \<and> list_all is_digit (tl s))"

definition unescape_host :: "string \<Rightarrow> string res" where
  "unescape_host s = (case unescape EncodeHost s of Some h \<Rightarrow> Inr h | None \<Rightarrow> Inl ''invalid host'')"

definition parse_host :: "string \<Rightarrow> string res" where
  "parse_host host =
     (if take 1 host = ''['' then
        if CHR '']'' \<notin> set host then Inl ''missing ']' in host''
        else if \<not> valid_optional_port (after_last (CHR '']'') host) then Inl ''invalid port after host''
        else (case cut_at ''%25'' (before_last (CHR '']'') host) of
            None \<Rightarrow> unescape_host host
          | Some (h1, h2) \<Rightarrow>
              (case (unescape EncodeHost h1, unescape EncodeZone h2, unescape EncodeHost ('']'' @ after_last (CHR '']'') host)) of
                 (Some a, Some b, Some c) \<Rightarrow> Inr (a @ b @ c)
               | _ \<Rightarrow> Inl ''invalid host''))
      else if CHR '':'' \<in> set host \<and> \<not> valid_optional_port ('':'' @ after_last (CHR '':'') host) then Inl ''invalid port after host''
      else unescape_host host)"

definition user_char :: "char \<Rightarrow> bool" where
  "user_char c \<longleftrightarrow> alnum c \<or> c \<in> set ''-._:~!$&()*+,;=@'' \<or> c = CHR 0x25 \<or> c = CHR 0x27"

definition parse_authority :: "string \<Rightarrow> string res" where
  "parse_authority authority =
     (if CHR ''@'' \<notin> set authority then parse_host authority
      else case parse_host (after_last (CHR ''@'') authority) of
        Inl e \<Rightarrow> Inl e
      | Inr h \<Rightarrow>
          let user = before_last (CHR ''@'') authority in
          if \<not> list_all user_char user then Inl ''net/url: invalid userinfo''
          else if unescape EncodeUser user = None then Inl ''invalid URL escape'' else Inr h)"

definition parse_hier :: "string \<Rightarrow> string \<Rightarrow> string \<Rightarrow> URL res" where
  "parse_hier scheme host path =
     (case unescape EncodePath path of
        None \<Rightarrow> Inl ''invalid URL escape''
      | Some p \<Rightarrow> Inr \<lparr>url_Scheme = scheme, url_Opaque = '''', url_Host = host, url_Path = p\<rparr>)"

definition parse_url :: "string \<Rightarrow> URL res" where
  "parse_url raw =
     (if list_ex (\<lambda>c. of_char c < (32 :: nat) \<or> of_char c = (127 :: nat)) raw then Inl ''net/url: invalid control character in URL''
      else if raw = ''*'' then Inr \<lparr>url_Scheme = '''', url_Opaque = '''', url_Host = '''', url_Path = ''*''\<rparr>
      else case get_scheme raw [] raw of
        Inl e \<Rightarrow> Inl e
      | Inr (sch, r) \<Rightarrow>
          let scheme = to_lower sch; rest = before_char (CHR ''?'') r in
          if take 1 rest \<noteq> ''/'' \<and> scheme \<noteq> '''' then Inr \<lparr>url_Scheme = scheme, url_Opaque = rest, url_Host = '''', url_Path = ''''\<rparr>
          else if take 1 rest \<noteq> ''/'' \<and> CHR '':'' \<in> set (before_char (CHR ''/'') rest) then Inl ''first path segment in URL cannot contain colon''
          else if (scheme \<noteq> '''' \<or> take 3 rest \<noteq> ''///'') \<and> take 2 rest = ''//'' then
            (case parse_authority (before_char (CHR ''/'') (drop 2 rest)) of
               Inl e \<Rightarrow> Inl e
             | Inr host \<Rightarrow> parse_hier scheme host (dropWhile (\<lambda>d. d \<noteq> CHR ''/'') (drop 2 rest)))
          else parse_hier scheme '''' rest)"

text \<open>An error names the text in double quotes (without the escapes of the verb \<^verbatim>\<open>%q\<close>).\<close>

definition quoted :: "string \<Rightarrow> string" where
  "quoted s = CHR 0x22 # s @ [CHR 0x22]"

definition url_Parse :: "string \<Rightarrow> URL res" where
  "url_Parse rawURL =
     (let u = before_char (CHR ''#'') rawURL; frag = after_char (CHR ''#'') rawURL in
      case parse_url u of
        Inl e \<Rightarrow> Inl (''parse '' @ quoted u @ '': '' @ e)
      | Inr url \<Rightarrow> if frag \<noteq> '''' \<and> unescape EncodeFragment frag = None then Inl (''parse '' @ quoted rawURL @ '': invalid URL escape'') else Inr url)"

end
