(* ===== verification/Telemetry.thy ===== *)
theory Telemetry
  imports Go_Url
begin

text \<open>
  Metrics (internal/agent/telemetry/otel_metrics.go): which collector endpoint an address names, by
  which protocol, and what each recording hands to which instrument. The OpenTelemetry library is
  not modelled: that creating the resource, the exporter or an instrument fails is given.
\<close>

subsection \<open>Creation\<close>

datatype exporter = GrpcExporter string bool | HttpExporter string bool

definition squote :: "string \<Rightarrow> string" where
  "squote s = CHR 0x27 # s @ [CHR 0x27]"

text \<open>The endpoint: the host, or for an address without one its path or opaque part or the address.\<close>

definition exporter_endpoint :: "string \<Rightarrow> URL \<Rightarrow> string res" where
  "exporter_endpoint collectorAddr u =
     (if url_Host u = '''' then
        if url_Path u \<noteq> '''' \<and> \<not> str_contains (url_Path u) ''/'' then Inr (url_Path u)
        else if url_Opaque u \<noteq> '''' \<and> \<not> str_contains (url_Opaque u) ''/'' then Inr (url_Opaque u)
        else if collectorAddr \<noteq> '''' \<and> \<not> str_contains collectorAddr ''/'' \<and> str_contains collectorAddr '':'' then Inr collectorAddr
        else Inl (''otel-collector-addr '' @ squote collectorAddr @ '' is missing a host or is not a valid schemeless address (e.g. localhost:4317)'')
      else Inr (url_Host u))"

text \<open>The exporter by scheme; the flag is an insecure connection.\<close>

definition otlp_scheme :: "URL \<Rightarrow> string" where
  "otlp_scheme u = (if url_Scheme u = '''' then ''grpc'' else url_Scheme u)"

definition exporter_of :: "string \<Rightarrow> string \<Rightarrow> string \<Rightarrow> exporter res" where
  "exporter_of collectorAddr scheme endpoint =
     (let lower = to_lower scheme in
      if lower = ''grpc'' then Inr (GrpcExporter endpoint True)
      else if lower = ''grpcs'' then Inr (GrpcExporter endpoint False)
      else if lower = ''http'' \<or> lower = ''https'' then Inr (HttpExporter endpoint (scheme = ''http''))
      else Inl (''unsupported OTLP exporter protocol scheme: '' @ squote scheme @ '' in '' @ collectorAddr @
             ''. Use '' @ squote ''grpc'' @ '', '' @ squote ''grpcs'' @ '', '' @ squote ''http'' @ '', or '' @ squote ''https''))"

datatype instrument_kind = Gauge | Histogram | Counter

definition instruments :: "(instrument_kind \<times> string) list" where
  "instruments =
     [(Gauge, ''rpingmesh.nwrtt''), (Histogram, ''rpingmesh.nwrtt''), (Gauge, ''rpingmesh.prober_delay''), (Histogram, ''rpingmesh.prober_delay''),
      (Gauge, ''rpingmesh.responder_delay''), (Histogram, ''rpingmesh.responder_delay''), (Counter, ''rpingmesh.timeout'')]"

fun create_instruments :: "(instrument_kind \<times> string \<Rightarrow> string option) \<Rightarrow> (instrument_kind \<times> string) list \<Rightarrow> unit res" where
  "create_instruments fails [] = Inr ()"
| "create_instruments fails (i # is) = (case fails i of Some e \<Rightarrow> Inl e | None \<Rightarrow> create_instruments fails is)"

record otel_env =
  ot_resourceErr :: "string option"
  ot_exporterErr :: "exporter \<Rightarrow> string option"
  ot_instrumentErr :: "instrument_kind \<times> string \<Rightarrow> string option"

record Metrics =
  me_agentID :: string
  me_exporter :: exporter
  me_instruments :: "(instrument_kind \<times> string) list"

definition NewMetrics :: "otel_env \<Rightarrow> string \<Rightarrow> string \<Rightarrow> Metrics res" where
  "NewMetrics env agentID collectorAddr =
     (case url_Parse collectorAddr of
        Inl e \<Rightarrow> Inl (''failed to parse otel-collector-addr '' @ squote collectorAddr @ '': '' @ e)
      | Inr u \<Rightarrow>
        (case exporter_endpoint collectorAddr u of
           Inl e \<Rightarrow> Inl e
         | Inr endpoint \<Rightarrow>
           (case ot_resourceErr env of
              Some e \<Rightarrow> Inl e
            | None \<Rightarrow>
              (case exporter_of collectorAddr (otlp_scheme u) endpoint of
                 Inl e \<Rightarrow> Inl e
               | Inr ex \<Rightarrow>
                 (case ot_exporterErr env ex of
                    Some e \<Rightarrow> Inl (''failed to create OTLP exporter ('' @ otlp_scheme u @ ''://'' @ endpoint @ ''): '' @ e)
                  | None \<Rightarrow>
                    (case create_instruments (ot_instrumentErr env) instruments of
                       Inl e \<Rightarrow> Inl e
                     | Inr _ \<Rightarrow> Inr \<lparr>me_agentID = agentID, me_exporter = ex, me_instruments = instruments\<rparr>))))))"

subsection \<open>Recording\<close>

text \<open>A value handed to an instrument.\<close>

type_synonym measurement = "(instrument_kind \<times> string) \<times> int"

definition RecordRTT :: "int \<Rightarrow> measurement list" where
  "RecordRTT rttNs = [((Gauge, ''rpingmesh.nwrtt''), rttNs), ((Histogram, ''rpingmesh.nwrtt''), rttNs)]"

definition RecordTimeout :: "measurement list" where
  "RecordTimeout = [((Counter, ''rpingmesh.timeout''), 1)]"

definition RecordProberDelay :: "int \<Rightarrow> measurement list" where
  "RecordProberDelay delayNs = [((Gauge, ''rpingmesh.prober_delay''), delayNs), ((Histogram, ''rpingmesh.prober_delay''), delayNs)]"

definition RecordResponderDelay :: "int \<Rightarrow> measurement list" where
  "RecordResponderDelay delayNs = [((Gauge, ''rpingmesh.responder_delay''), delayNs), ((Histogram, ''rpingmesh.responder_delay''), delayNs)]"

subsection \<open>Addresses\<close>

text \<open>A host name or dotted address, and a port.\<close>

definition plain_host :: "string \<Rightarrow> bool" where
  "plain_host h \<longleftrightarrow> h \<noteq> '''' \<and> list_all (\<lambda>c. alnum c \<or> c = CHR ''.'' \<or> c = CHR ''-'') h"

definition plain_port :: "string \<Rightarrow> bool" where
  "plain_port p \<longleftrightarrow> p \<noteq> '''' \<and> list_all is_digit p"


definition plain_char :: "char \<Rightarrow> bool" where
  "plain_char c \<longleftrightarrow> alnum c \<or> c = CHR ''.'' \<or> c = CHR ''-''"

lemma plain_char_facts:
  assumes "plain_char c"
  shows "host_char c" "c \<noteq> CHR ''#''" "c \<noteq> CHR ''?''" "c \<noteq> CHR ''/''" "c \<noteq> CHR '':''" "c \<noteq> CHR ''@''" "c \<noteq> CHR ''[''" "c \<noteq> CHR 0x25"
    "\<not> of_char c < (32 :: nat)" "of_char c \<noteq> (127 :: nat)" "alpha c \<or> is_digit c \<or> c \<in> set ''+-.''" "c \<noteq> CHR ''*''"
  using assms by (auto simp: plain_char_def host_char_def alnum_def alpha_def is_digit_def Let_def)

lemma plain_digit: "is_digit c \<Longrightarrow> plain_char c"
  by (simp add: plain_char_def alnum_def)

lemma plain_hostD: "plain_host h \<Longrightarrow> h \<noteq> [] \<and> (\<forall>c \<in> set h. plain_char c)"
  by (auto simp: plain_host_def plain_char_def list_all_iff)

lemma plain_portD: "plain_port p \<Longrightarrow> p \<noteq> [] \<and> (\<forall>c \<in> set p. plain_char c \<and> is_digit c)"
  by (auto simp: plain_port_def list_all_iff intro: plain_digit)

lemma get_scheme_colon:
  "\<forall>c \<in> set h. plain_char c \<Longrightarrow> seen \<noteq> [] \<or> (h \<noteq> [] \<and> alpha (hd h)) \<Longrightarrow> get_scheme raw seen (h @ CHR '':'' # r) = Inr (seen @ h, r)"
proof (induction h arbitrary: seen)
  case Nil
  then show ?case by (simp add: alpha_def is_digit_def)
next
  case (Cons c h)
  from plain_char_facts(11)[of c] Cons.prems have "alpha c \<or> is_digit c \<or> c \<in> set ''+-.''" by simp
  then show ?case using Cons.prems Cons.IH[of "seen @ [c]"] by auto
qed

lemma get_scheme_none: "\<forall>c \<in> set h. plain_char c \<Longrightarrow> get_scheme raw seen h = Inr ([], raw)"
proof (induction h arbitrary: seen)
  case (Cons c h)
  from plain_char_facts(11)[of c] Cons.prems have "alpha c \<or> is_digit c \<or> c \<in> set ''+-.''" by simp
  then show ?case using Cons by auto
qed simp

lemma get_scheme_digit: "plain_char c \<Longrightarrow> \<not> alpha c \<Longrightarrow> get_scheme raw [] (c # cs) = Inr ([], raw)"
  using plain_char_facts(11)[of c] by auto

lemma unescape_plain: "\<forall>c \<in> set s. c \<noteq> CHR 0x25 \<and> host_char c \<Longrightarrow> unescape mode s = Some s"
  by (induction s) auto

lemma before_char_id: "c \<notin> set s \<Longrightarrow> before_char c s = s"
  by (simp add: before_char_def takeWhile_eq_all_conv)  (metis)

lemma before_char_cut: "c \<notin> set s \<Longrightarrow> before_char c (s @ c # r) = s"
  by (induction s) (auto simp: before_char_def)

lemma after_char_none: "c \<notin> set s \<Longrightarrow> after_char c s = ''''"
  by (induction s) (auto simp: after_char_def)

lemma after_last_cut: "c \<notin> set r \<Longrightarrow> after_last c (s @ c # r) = r"
  using before_char_cut[of c "rev r" "rev s"] by (simp add: after_last_def)

lemma host_char_colon: "host_char (CHR '':'')"
  by (simp add: host_char_def)

text \<open>An authority of a plain host and port is its own host.\<close>

lemma parse_authority_plain:
  assumes "plain_host h" "plain_port p"
  shows "parse_authority (h @ CHR '':'' # p) = Inr (h @ CHR '':'' # p)"
proof -
  note h = plain_hostD[OF assms(1)] and p = plain_portD[OF assms(2)]
  have "CHR ''@'' \<notin> set (h @ CHR '':'' # p)" using h p plain_char_facts(6) by auto
  moreover have "take 1 (h @ CHR '':'' # p) \<noteq> ''[''" using h plain_char_facts(7) by (cases h) auto
  moreover have "after_last (CHR '':'') (h @ CHR '':'' # p) = p" using p plain_char_facts(5) by (intro after_last_cut) auto
  moreover have "unescape EncodeHost (h @ CHR '':'' # p) = Some (h @ CHR '':'' # p)"
    using h p plain_char_facts(1,8) host_char_colon by (intro unescape_plain) auto
  moreover have "valid_optional_port ('':'' @ p)" using p by (simp add: valid_optional_port_def list_all_iff)
  ultimately show ?thesis
    by (simp only: parse_authority_def parse_host_def unescape_host_def if_True if_False not_False_eq_True simp_thms option.case)
qed

lemma no_control: "\<forall>c \<in> set s. plain_char c \<or> c \<in> set '':/'' \<Longrightarrow> \<not> list_ex (\<lambda>c. of_char c < (32 :: nat) \<or> of_char c = (127 :: nat)) s"
  using plain_char_facts(9,10) by (auto simp: list_ex_iff)

lemma no_fragment: "\<forall>c \<in> set s. plain_char c \<or> c \<in> set '':/'' \<Longrightarrow> url_Parse s = (case parse_url s of Inl e \<Rightarrow> Inl (''parse '' @ quoted s @ '': '' @ e) | Inr u \<Rightarrow> Inr u)"
proof -
  assume s: "\<forall>c \<in> set s. plain_char c \<or> c \<in> set '':/''"
  have "CHR ''#'' \<notin> set s" using s plain_char_facts(2) by auto
  then show ?thesis by (simp add: url_Parse_def before_char_id after_char_none Let_def split: sum.split)
qed

definition schemes :: "string list" where
  "schemes = [''grpc'', ''grpcs'', ''http'', ''https'']"

lemma schemes_plain: "s \<in> set schemes \<Longrightarrow> (\<forall>c \<in> set s. plain_char c) \<and> s \<noteq> [] \<and> alpha (hd s) \<and> to_lower s = s"
  by (auto simp: schemes_def plain_char_def alnum_def alpha_def to_lower_def lower_char_def)

lemma parse_with_scheme:
  assumes "s \<in> set schemes" "plain_host h" "plain_port p"
  shows "url_Parse (s @ ''://'' @ h @ '':'' @ p) = Inr \<lparr>url_Scheme = s, url_Opaque = '''', url_Host = h @ '':'' @ p, url_Path = ''''\<rparr>"
proof -
  note s = schemes_plain[OF assms(1)] and h = plain_hostD[OF assms(2)] and p = plain_portD[OF assms(3)]
  let ?a = "h @ CHR '':'' # p" and ?raw = "s @ ''://'' @ h @ '':'' @ p"
  have all: "\<forall>c \<in> set ?raw. plain_char c \<or> c \<in> set '':/''" using s h p by auto
  have g: "get_scheme ?raw [] ?raw = Inr (s, ''//'' @ ?a)" using get_scheme_colon[of s "[]" ?raw "''//'' @ ?a"] s by simp
  have q: "CHR ''?'' \<notin> set (''//'' @ ?a)" "CHR ''/'' \<notin> set ?a" using h p plain_char_facts(3,4) by auto
  have star: "?raw \<noteq> ''*''" using s by (auto simp: append_eq_Cons_conv)
  have d: "dropWhile (\<lambda>d. d \<noteq> CHR ''/'') ?a = []" using q(2) by (auto simp: dropWhile_eq_Nil_conv)
  have rest: "take 1 (''//'' @ ?a) = ''/''" "take 2 (''//'' @ ?a) = ''//''" "drop 2 (''//'' @ ?a) = ?a" by simp_all
  have low: "to_lower s = s" "s \<noteq> ''''" using s by simp_all
  have "parse_url ?raw = Inr \<lparr>url_Scheme = s, url_Opaque = '''', url_Host = ?a, url_Path = ''''\<rparr>"
    by (simp only: parse_url_def Let_def no_control[OF all] star g low before_char_id[OF q(1)] before_char_id[OF q(2)] rest
        parse_authority_plain[OF assms(2,3)] d parse_hier_def unescape.simps if_True if_False simp_thms sum.case prod.case option.case)
  then show ?thesis by (simp only: no_fragment[OF all]) simp
qed

text \<open>Without a scheme, what stands before the port is taken for one, or refused.\<close>

lemma no_slash: "\<forall>c \<in> set s. plain_char c \<Longrightarrow> \<not> str_contains s ''/''"
proof -
  assume s: "\<forall>c \<in> set s. plain_char c"
  have "CHR ''/'' \<notin> set s" using s plain_char_facts(4) by blast
  then show ?thesis unfolding str_contains_sublist using set_mono_sublist[of "''/''" s] by auto
qed

lemma to_lower_idem: "to_lower (to_lower s) = to_lower s"
proof -
  have "lower_char (lower_char c) = lower_char c" for c by (simp add: lower_char_def Let_def)
  then show ?thesis by (simp add: to_lower_def)
qed

lemma take_1_plain: "\<forall>c \<in> set s. plain_char c \<Longrightarrow> take 1 s \<noteq> ''/''"
  using plain_char_facts(4) by (cases s) auto

lemma parse_host_port:
  assumes "plain_host h" "plain_port p"
  shows "url_Parse (h @ '':'' @ p) =
    (if alpha (hd h) then Inr \<lparr>url_Scheme = to_lower h, url_Opaque = p, url_Host = '''', url_Path = ''''\<rparr>
     else Inl (''parse '' @ quoted (h @ '':'' @ p) @ '': first path segment in URL cannot contain colon''))"
proof -
  note h = plain_hostD[OF assms(1)] and p = plain_portD[OF assms(2)]
  let ?raw = "h @ '':'' @ p"
  have all: "\<forall>c \<in> set ?raw. plain_char c \<or> c \<in> set '':/''" using h p by auto
  have star: "?raw \<noteq> ''*''" using h p by (auto simp: append_eq_Cons_conv)
  have p1: "take 1 p \<noteq> ''/''" "CHR ''?'' \<notin> set p" using take_1_plain[of p] p plain_char_facts(3) by auto
  have low: "to_lower h \<noteq> ''''" using h by (simp add: to_lower_def)
  show ?thesis
  proof (cases "alpha (hd h)")
    case True
    have g: "get_scheme ?raw [] ?raw = Inr (h, p)" using get_scheme_colon[of h "[]" ?raw p] h True by simp
    have "parse_url ?raw = Inr \<lparr>url_Scheme = to_lower h, url_Opaque = p, url_Host = '''', url_Path = ''''\<rparr>"
      by (simp only: parse_url_def Let_def no_control[OF all] star g low before_char_id[OF p1(2)] p1(1) if_True if_False simp_thms sum.case prod.case)
    then show ?thesis using True by (simp only: no_fragment[OF all]) simp
  next
    case False
    have g: "get_scheme ?raw [] ?raw = Inr ('''', ?raw)" using get_scheme_digit[of "hd h" ?raw "tl h @ '':'' @ p"] h False by (cases h) auto
    have r: "CHR ''?'' \<notin> set ?raw" "take 1 ?raw \<noteq> ''/''" using h p plain_char_facts(3,4) by (cases h; auto)+
    have c: "CHR '':'' \<in> set (before_char (CHR ''/'') ?raw)" using all h p plain_char_facts(4) by (subst before_char_id) auto
    have "to_lower '''' = ''''" by (simp add: to_lower_def)
    then have "parse_url ?raw = Inl ''first path segment in URL cannot contain colon''"
      by (simp only: parse_url_def Let_def no_control[OF all] star g before_char_id[OF r(1)] r(2) c if_True if_False simp_thms sum.case prod.case)
    then show ?thesis using False by (simp only: no_fragment[OF all]) simp
  qed
qed

lemma not_plain: "\<not> plain_char (CHR ''?'')" "\<not> plain_char (CHR '':'')" "\<not> plain_char (CHR ''/'')" "\<not> plain_char (CHR ''*'')"
  by (simp_all add: plain_char_def alnum_def alpha_def is_digit_def)

lemma parse_bare_host:
  assumes "plain_host h"
  shows "url_Parse h = Inr \<lparr>url_Scheme = '''', url_Opaque = '''', url_Host = '''', url_Path = h\<rparr>"
proof -
  note h = plain_hostD[OF assms]
  have all: "\<forall>c \<in> set h. plain_char c \<or> c \<in> set '':/''" using h by auto
  have star: "h \<noteq> ''*''" using h not_plain by auto
  have q: "CHR ''?'' \<notin> set h" "CHR '':'' \<notin> set h" "CHR ''/'' \<notin> set h" using h not_plain by auto
  then have r: "CHR ''?'' \<notin> set h" "CHR '':'' \<notin> set (before_char (CHR ''/'') h)" "take 2 h \<noteq> ''//''"
    using in_set_takeD[of "CHR ''/''" 2 h] by (auto simp: before_char_id)
  have u: "unescape EncodePath h = Some h" using h plain_char_facts(1,8) by (intro unescape_plain) auto
  have "to_lower '''' = ''''" by (simp add: to_lower_def)
  then have "parse_url h = Inr \<lparr>url_Scheme = '''', url_Opaque = '''', url_Host = '''', url_Path = h\<rparr>"
    by (simp only: parse_url_def Let_def no_control[OF all] star get_scheme_none[OF conjunct2[OF h]] before_char_id[OF r(1)] r(2,3) u parse_hier_def
        if_True if_False simp_thms sum.case prod.case option.case)
  then show ?thesis by (simp only: no_fragment[OF all]) simp
qed

text \<open>An environment in which the library succeeds.\<close>

definition otel_works :: "otel_env \<Rightarrow> bool" where
  "otel_works env \<longleftrightarrow> ot_resourceErr env = None \<and> (\<forall>ex. ot_exporterErr env ex = None) \<and> (\<forall>i. ot_instrumentErr env i = None)"

lemma create_instruments_ok: "(\<And>i. fails i = None) \<Longrightarrow> create_instruments fails is = Inr ()"
  by (induction "is") simp_all

lemma NewMetrics_works:
  "otel_works env \<Longrightarrow> url_Parse a = Inr u \<Longrightarrow> exporter_endpoint a u = Inr e \<Longrightarrow>
     NewMetrics env agentID a = map_sum id (\<lambda>ex. \<lparr>me_agentID = agentID, me_exporter = ex, me_instruments = instruments\<rparr>) (exporter_of a (otlp_scheme u) e)"
  by (cases "exporter_of a (otlp_scheme u) e")
    (simp_all add: NewMetrics_def otel_works_def create_instruments_ok[of "ot_instrumentErr env"] del: split_paired_All)

definition scheme_exporter :: "string \<Rightarrow> string \<Rightarrow> exporter" where
  "scheme_exporter s e = (if s \<in> {''grpc'', ''grpcs''} then GrpcExporter e (s = ''grpc'') else HttpExporter e (s = ''http''))"

lemma exporter_of_scheme: "s \<in> set schemes \<Longrightarrow> exporter_of a s e = Inr (scheme_exporter s e)"
  by (auto simp: schemes_def exporter_of_def scheme_exporter_def to_lower_def lower_char_def)

lemma exporter_of_unknown: "to_lower s \<notin> set schemes \<Longrightarrow> \<exists>e'. exporter_of a s e = Inl e'"
  by (auto simp: schemes_def exporter_of_def Let_def)

text \<open>
  C38: Collector addresses. With a working library, an address "scheme://host:port" gives a gRPC
  exporter for grpc and grpcs and an HTTP one for http and https, on "host:port", insecure exactly
  for grpc and http. A bare host gives an insecure gRPC exporter. The schemeless "host:port" that
  the comment and the error message offer ("localhost:4317") never works, whatever the library does:
  what stands before the colon is read as the scheme, or the address does not parse.
\<close>

theorem collector_addresses:
  assumes "plain_host h" "plain_port p"
  shows "(otel_works env \<and> s \<in> {''grpc'', ''grpcs'', ''http'', ''https''} \<longrightarrow>
      (\<exists>m. NewMetrics env agentID (s @ ''://'' @ h @ '':'' @ p) = Inr m \<and> me_instruments m = instruments \<and>
        me_exporter m = (if s \<in> {''grpc'', ''grpcs''} then GrpcExporter (h @ '':'' @ p) (s = ''grpc'') else HttpExporter (h @ '':'' @ p) (s = ''http''))))
    \<and> (otel_works env \<longrightarrow> (\<exists>m. NewMetrics env agentID h = Inr m \<and> me_exporter m = GrpcExporter h True))
    \<and> (to_lower h \<notin> {''grpc'', ''grpcs'', ''http'', ''https''} \<longrightarrow> (\<exists>e. NewMetrics env agentID (h @ '':'' @ p) = Inl e))"
proof (intro conjI impI)
  note h = plain_hostD[OF assms(1)] and p = plain_portD[OF assms(2)]
  {
    assume "otel_works env \<and> s \<in> {''grpc'', ''grpcs'', ''http'', ''https''}"
    then have env: "otel_works env" and s: "s \<in> set schemes" by (simp_all add: schemes_def)
    show "\<exists>m. NewMetrics env agentID (s @ ''://'' @ h @ '':'' @ p) = Inr m \<and> me_instruments m = instruments \<and>
        me_exporter m = (if s \<in> {''grpc'', ''grpcs''} then GrpcExporter (h @ '':'' @ p) (s = ''grpc'') else HttpExporter (h @ '':'' @ p) (s = ''http''))"
      using NewMetrics_works[OF env parse_with_scheme[OF s assms]] h exporter_of_scheme[OF s]
      by (simp add: exporter_endpoint_def scheme_exporter_def otlp_scheme_def schemes_plain[OF s] del: insert_iff)
  }
  {
    assume "otel_works env"
    from NewMetrics_works[OF this parse_bare_host[OF assms(1)]] h no_slash[of h]
    show "\<exists>m. NewMetrics env agentID h = Inr m \<and> me_exporter m = GrpcExporter h True"
      by (simp add: exporter_endpoint_def otlp_scheme_def exporter_of_def to_lower_def lower_char_def)
  }
  {
    assume "to_lower h \<notin> {''grpc'', ''grpcs'', ''http'', ''https''}"
    then have "to_lower (to_lower h) \<notin> set schemes" by (simp add: schemes_def to_lower_idem)
    then obtain e where "exporter_of (h @ '':'' @ p) (to_lower h) p = Inl e" using exporter_of_unknown by metis
    moreover have "to_lower h \<noteq> ''''" using h by (simp add: to_lower_def)
    ultimately show "\<exists>e. NewMetrics env agentID (h @ '':'' @ p) = Inl e" using p no_slash[of p]
      by (cases "alpha (hd h)") (simp_all only: NewMetrics_def parse_host_port[OF assms] exporter_endpoint_def otlp_scheme_def, simp_all split: option.split)
  }
qed

theorem collector_addresses_witness:
  "(\<exists>m. NewMetrics \<lparr>ot_resourceErr = None, ot_exporterErr = (\<lambda>_. None), ot_instrumentErr = (\<lambda>_. None)\<rparr> ''a1'' (''grpcs'' @ ''://'' @ ''otel-1.local'' @ '':'' @ ''4317'') = Inr m \<and>
      me_instruments m = instruments \<and> me_exporter m = GrpcExporter ''otel-1.local:4317'' False) \<and>
   (\<exists>e. NewMetrics \<lparr>ot_resourceErr = None, ot_exporterErr = (\<lambda>_. None), ot_instrumentErr = (\<lambda>_. None)\<rparr> ''a1'' (''localhost'' @ '':'' @ ''4317'') = Inl e)"
proof -
  let ?env = "\<lparr>ot_resourceErr = None, ot_exporterErr = (\<lambda>_. None), ot_instrumentErr = (\<lambda>_. None)\<rparr> :: otel_env"
  have w: "otel_works ?env" by (simp add: otel_works_def)
  have h: "plain_host ''otel-1.local''" "plain_host ''localhost''" "plain_port ''4317''"
    by (simp_all add: plain_host_def plain_port_def alnum_def alpha_def is_digit_def)
  have "to_lower ''localhost'' \<notin> {''grpc'', ''grpcs'', ''http'', ''https''}" by (simp add: to_lower_def lower_char_def)
  then show ?thesis using collector_addresses[OF h(1,3), of ?env "''grpcs''" "''a1''"] collector_addresses[OF h(2,3), of ?env "''grpc''" "''a1''"] w by simp
qed

end
