(* ===== verification/Ebpf_Tracer.thy ===== *)
theory Ebpf_Tracer
  imports Rdma_Packet Go_Chan Go_Strings
begin

text \<open>
  The eBPF service tracer (internal/ebpf/rdma_tracing.go): connection events and their
  80-byte layout, the checks on an event, attaching to the kernel functions, the loop that
  turns ring buffer records into events, statistics and shutdown; and the generated loader
  (internal/ebpf/rdmatracing_x86_bpfel.go), with the kernel objects it loads and closes. The
  cilium library and the system calls are parameters.
\<close>

subsection \<open>Events\<close>

definition RdmaEventCreate :: u8 where "RdmaEventCreate = 1"
definition RdmaEventModify :: u8 where "RdmaEventModify = 2"
definition RdmaEventDestroy :: u8 where "RdmaEventDestroy = 3"

record RdmaConnTuple =
  ev_Timestamp :: u64
  ev_SrcGID :: "byte list"
  ev_DstGID :: "byte list"
  ev_SrcQPN :: u32
  ev_DstQPN :: u32
  ev_PID :: u32
  ev_TID :: u32
  ev_QPState :: "32 word"
  ev_EventType :: u8
  ev_PortNum :: u8
  ev_Reserved :: "byte list"
  ev_Comm :: "byte list"

text \<open>The array fields have the lengths of their types.\<close>

definition event_ok :: "RdmaConnTuple \<Rightarrow> bool" where
  "event_ok e \<longleftrightarrow> length (ev_SrcGID e) = 16 \<and> length (ev_DstGID e) = 16 \<and> length (ev_Reserved e) = 2 \<and> length (ev_Comm e) = 16"

definition expectedStructSize :: nat where "expectedStructSize = 80"

definition event_bytes :: "RdmaConnTuple \<Rightarrow> byte list" where
  "event_bytes e = le_bytes 8 (ev_Timestamp e) @ ev_SrcGID e @ ev_DstGID e @ le_bytes 4 (ucast (ev_SrcQPN e)) @ le_bytes 4 (ucast (ev_DstQPN e))
     @ le_bytes 4 (ucast (ev_PID e)) @ le_bytes 4 (ucast (ev_TID e)) @ le_bytes 4 (ucast (ev_QPState e))
     @ [ev_EventType e, ev_PortNum e] @ ev_Reserved e @ ev_Comm e"

text \<open>binary.Read of the struct from a reader over the record.\<close>

definition read_event :: "byte list \<Rightarrow> RdmaConnTuple res" where
  "read_event bs =
     (if bs = [] then Inl ''EOF'' else if length bs < expectedStructSize then Inl ''unexpected EOF''
      else let u32_at = (\<lambda>i. ucast (le_word (take 4 (drop i bs)))) in
        Inr \<lparr>ev_Timestamp = le_word (take 8 bs), ev_SrcGID = take 16 (drop 8 bs), ev_DstGID = take 16 (drop 24 bs),
          ev_SrcQPN = u32_at 40, ev_DstQPN = u32_at 44, ev_PID = u32_at 48, ev_TID = u32_at 52, ev_QPState = u32_at 56,
          ev_EventType = bs ! 60, ev_PortNum = bs ! 61, ev_Reserved = take 2 (drop 62 bs), ev_Comm = take 16 (drop 64 bs)\<rparr>)"

definition EventTypeString :: "RdmaConnTuple \<Rightarrow> string" where
  "EventTypeString e =
     (if ev_EventType e = RdmaEventCreate then ''CREATE'' else if ev_EventType e = RdmaEventModify then ''MODIFY''
      else if ev_EventType e = RdmaEventDestroy then ''DESTROY'' else ''UNKNOWN'')"

definition SrcGIDString :: "RdmaConnTuple \<Rightarrow> string" where
  "SrcGIDString e = hex_bytes (ev_SrcGID e)"

definition DstGIDString :: "RdmaConnTuple \<Rightarrow> string" where
  "DstGIDString e = hex_bytes (ev_DstGID e)"

definition CommString :: "RdmaConnTuple \<Rightarrow> string" where
  "CommString e = map (\<lambda>b. char_of (unat b)) (rev (dropWhile (\<lambda>b. b = 0) (rev (ev_Comm e))))"

text \<open>The text of an event; how a time in nanoseconds is printed in the local zone is given.\<close>

definition event_String :: "(int \<Rightarrow> string) \<Rightarrow> RdmaConnTuple \<Rightarrow> string" where
  "event_String fmt_time e =
     ''Event: '' @ EventTypeString e @ '', Time: '' @ fmt_time (sint (ev_Timestamp e)) @ '', Src QPN: '' @ dec_string (unat (ev_SrcQPN e))
     @ '', Dst QPN: '' @ dec_string (unat (ev_DstQPN e)) @ '', Src GID: '' @ SrcGIDString e @ '', Dst GID: '' @ DstGIDString e
     @ '', QP State: '' @ dec_int (sint (ev_QPState e)) @ '', PID: '' @ dec_string (unat (ev_PID e)) @ '', Port: '' @ dec_string (unat (ev_PortNum e))
     @ '', Comm: '' @ CommString e"

definition IsValidEvent :: "RdmaConnTuple \<Rightarrow> bool" where
  "IsValidEvent e \<longleftrightarrow> RdmaEventCreate \<le> ev_EventType e \<and> ev_EventType e \<le> RdmaEventDestroy"

definition hour_ns :: u64 where "hour_ns = 3600000000000"

text \<open>now is \<^verbatim>\<open>uint64(time.Now().UnixNano())\<close>; None is no error.\<close>

definition ValidateStructAlignment :: "u64 \<Rightarrow> RdmaConnTuple \<Rightarrow> string option" where
  "ValidateStructAlignment now e =
     (let maxQPN = 0x1000000 in
      if ev_SrcQPN e > maxQPN
      then Some (''source QPN '' @ dec_string (unat (ev_SrcQPN e)) @ '' (0x'' @ hex_string (unat (ev_SrcQPN e)) @ '') exceeds maximum expected value'')
      else if ev_DstQPN e > maxQPN
      then Some (''destination QPN '' @ dec_string (unat (ev_DstQPN e)) @ '' (0x'' @ hex_string (unat (ev_DstQPN e)) @ '') exceeds maximum expected value'')
      else if ev_EventType e < RdmaEventCreate \<or> ev_EventType e > RdmaEventDestroy
      then Some (''invalid event type '' @ dec_string (unat (ev_EventType e)))
      else if ev_Timestamp e > now \<or> ev_Timestamp e < now - hour_ns
      then Some (''timestamp '' @ dec_string (unat (ev_Timestamp e)) @ '' seems invalid (now: '' @ dec_string (unat now) @ '')'')
      else None)"

subsection \<open>Classification of load errors\<close>

definition isPermissionError :: "string \<Rightarrow> bool" where
  "isPermissionError err \<longleftrightarrow> list_ex (\<lambda>pattern. str_contains (to_lower err) (to_lower pattern))
     [''operation not permitted'', ''permission denied'', ''EPERM'', ''EACCES'', ''MEMLOCK'', ''insufficient privileges'']"

definition isRdmaRelatedError :: "string \<Rightarrow> bool" where
  "isRdmaRelatedError err \<longleftrightarrow> list_ex (str_contains err)
     [''bad CO-RE relocation'', ''invalid func'', ''ib_modify_qp_with_udata'', ''ib_destroy_qp_user'', ''kprobe'', ''symbol not found'', ''function not found'']"

subsection \<open>Kernel objects\<close>

text \<open>The outcomes of the library and system calls of NewServiceTracer; None is success.\<close>

record load_env =
  le_uid :: int
  le_removeMemlock :: "string option"
  le_setrlimit :: "string option"
  le_kernelSpec :: "string option"
  le_readBtf :: "string \<Rightarrow> string option"
  le_splitSpec :: "string \<Rightarrow> string option"
  le_collectionSpec :: "string option"
  le_loadAndAssign :: "string option"

text \<open>The objects that rdmaTracingObjects holds once it is loaded, by the names of their tags: two
  programs and two maps.\<close>

definition program_names :: "string list" where "program_names = [''trace_destroy_qp_user'', ''trace_modify_qp'']"
definition map_names :: "string list" where "map_names = [''rdma_events'', ''rdma_stats'']"

definition loadRdmaTracing :: "load_env \<Rightarrow> unit res" where
  "loadRdmaTracing env = (case le_collectionSpec env of Some e \<Rightarrow> Inl (''can't load rdmaTracing: '' @ e) | None \<Rightarrow> Inr ())"

text \<open>LoadAndAssign fills every field or, with an error, none.\<close>

definition loadRdmaTracingObjects :: "load_env \<Rightarrow> string list res" where
  "loadRdmaTracingObjects env =
     (case loadRdmaTracing env of
        Inl e \<Rightarrow> Inl e
      | Inr _ \<Rightarrow> (case le_loadAndAssign env of Some e \<Rightarrow> Inl e | None \<Rightarrow> Inr (program_names @ map_names)))"

text \<open>A closer, given what it acts on, returns its error. The variadic close of the generated code stops
  at the first error.\<close>

type_synonym 'w closer = "'w \<Rightarrow> string option \<times> 'w"

fun RdmaTracingClose :: "'w closer list \<Rightarrow> 'w closer" where
  "RdmaTracingClose [] w = (None, w)"
| "RdmaTracingClose (c # cs) w = (case c w of (Some err, w') \<Rightarrow> (Some err, w') | (None, w') \<Rightarrow> RdmaTracingClose cs w')"

text \<open>Closing one object gives its descriptor back unless the system call fails.\<close>

definition close_object :: "(string \<Rightarrow> string option) \<Rightarrow> string \<Rightarrow> string list closer" where
  "close_object fails n held = (case fails n of Some err \<Rightarrow> (Some err, held) | None \<Rightarrow> (None, remove1 n held))"

definition Maps_Close :: "(string \<Rightarrow> string option) \<Rightarrow> string list closer" where
  "Maps_Close fails = RdmaTracingClose [close_object fails ''rdma_events'', close_object fails ''rdma_stats'']"

definition Programs_Close :: "(string \<Rightarrow> string option) \<Rightarrow> string list closer" where
  "Programs_Close fails = RdmaTracingClose [close_object fails ''trace_destroy_qp_user'', close_object fails ''trace_modify_qp'']"

definition Objects_Close :: "(string \<Rightarrow> string option) \<Rightarrow> string list closer" where
  "Objects_Close fails = RdmaTracingClose [Programs_Close fails, Maps_Close fails]"

subsection \<open>Life cycle\<close>

record ServiceTracer =
  st_objs :: "string list"
  st_kprobes :: "string list"
  st_reader :: bool
  st_eventCh :: "RdmaConnTuple gchan"
  st_stopped :: bool

text \<open>checkPrivileges warns when the process does not run as root; it never fails.\<close>

definition checkPrivileges :: "int \<Rightarrow> unit res \<times> string list" where
  "checkPrivileges uid =
     (if uid = 0 then (Inr (), [])
      else (Inr (), [''Not running as root. You may need CAP_BPF and CAP_SYS_ADMIN capabilities.'']))"

definition setMemlockLimit :: "load_env \<Rightarrow> string option" where
  "setMemlockLimit env = map_option (\<lambda>e. ''setrlimit(RLIMIT_MEMLOCK) failed: '' @ e) (le_setrlimit env)"

fun load_specs :: "load_env \<Rightarrow> string list \<Rightarrow> unit res" where
  "load_specs env [] = Inr ()"
| "load_specs env (file # files) =
     (case le_readBtf env file of
        Some e \<Rightarrow> Inl (''failed to read embedded BTF file '' @ file @ '': '' @ e)
      | None \<Rightarrow> (case le_splitSpec env file of
            Some e \<Rightarrow> Inl (''failed to load split spec from embedded file '' @ file @ '': '' @ e)
          | None \<Rightarrow> load_specs env files))"

definition NewServiceTracer :: "load_env \<Rightarrow> ServiceTracer res" where
  "NewServiceTracer env =
     (case fst (checkPrivileges (le_uid env)) of
        Inl e \<Rightarrow> Inl (''insufficient privileges: '' @ e)
      | Inr _ \<Rightarrow>
     (case (case le_removeMemlock env of None \<Rightarrow> None | Some _ \<Rightarrow> setMemlockLimit env) of
        Some e \<Rightarrow> Inl (''failed to set memory lock limit: '' @ e @ '' (original error: '' @ e @ '')'')
      | None \<Rightarrow>
        (case le_kernelSpec env of
           Some e \<Rightarrow> Inl (''failed to load kernel spec: '' @ e)
         | None \<Rightarrow>
           (case load_specs env [''ib_core.full.btf'', ''ib_uverbs.full.btf''] of
              Inl e \<Rightarrow> Inl e
            | Inr _ \<Rightarrow>
              (case loadRdmaTracingObjects env of
                 Inl e \<Rightarrow>
                   if isRdmaRelatedError e then Inl (''RDMA environment not available (missing drivers or kernel support): '' @ e)
                   else if isPermissionError e
                   then Inl (''insufficient permissions to load eBPF program (try running as root or with CAP_BPF/CAP_SYS_ADMIN capabilities): '' @ e)
                   else Inl (''loading objects: '' @ e)
               | Inr objs \<Rightarrow> Inr \<lparr>st_objs = objs, st_kprobes = [], st_reader = False, st_eventCh = chan_make 100, st_stopped = False\<rparr>)))))"

definition Events :: "ServiceTracer \<Rightarrow> RdmaConnTuple gchan" where
  "Events t = st_eventCh t"

definition modify_qp :: string where "modify_qp = ''ib_modify_qp_with_udata''"
definition destroy_qp :: string where "destroy_qp = ''ib_destroy_qp_user''"

text \<open>The functions found; None is a kallsyms file that cannot be read.\<close>

definition checkAvailableFunctions :: "string option \<Rightarrow> string list" where
  "checkAvailableFunctions kallsyms =
     (case kallsyms of
        None \<Rightarrow> [modify_qp, destroy_qp]
      | Some text \<Rightarrow> filter (\<lambda>f. str_contains text ('' '' @ f @ '' '') \<or> str_contains text ('' '' @ f @ [CHR 0x09])) [modify_qp, destroy_qp])"

text \<open>Start: the kernel's symbol file, the error of attaching to a function and of opening the
  ring buffer. The goroutine of processEvents runs after a success.\<close>

definition Tracer_Start :: "string option \<Rightarrow> (string \<Rightarrow> string option) \<Rightarrow> string option \<Rightarrow> ServiceTracer \<Rightarrow> unit res \<times> ServiceTracer" where
  "Tracer_Start kallsyms attach reader_err t =
     (let available = checkAvailableFunctions kallsyms in
      if modify_qp \<in> set available \<and> attach modify_qp \<noteq> None
      then (Inl (''attaching kprobe to ib_modify_qp_with_udata: '' @ the (attach modify_qp)), t)
      else let kprobes = (if modify_qp \<in> set available then [modify_qp] else [])
                 @ (if destroy_qp \<in> set available \<and> attach destroy_qp = None then [destroy_qp] else []) in
        if kprobes = [] then (Inl ''no RDMA functions could be hooked - RDMA monitoring not available'', t)
        else case reader_err of
          Some e \<Rightarrow> (Inl (''creating ringbuf reader: '' @ e), t\<lparr>st_kprobes := kprobes\<rparr>)
        | None \<Rightarrow> (Inr (), t\<lparr>st_kprobes := kprobes, st_reader := True\<rparr>))"

text \<open>What a pass of the event loop meets: a record, or a read error with or without the
  context cancelled. The second component of a record tells whether the context is
  done when the select is reached and its case is taken.\<close>

datatype ring_read = ReadErr bool | Sample "byte list" bool

text \<open>The loop over given reads, with a consumer that keeps the channel from staying full: the
  events sent, and whether the loop has ended.\<close>

fun processEvents :: "ring_read list \<Rightarrow> RdmaConnTuple list \<times> bool" where
  "processEvents [] = ([], False)"
| "processEvents (ReadErr cancelled # rs) = (if cancelled then ([], True) else processEvents rs)"
| "processEvents (Sample raw done # rs) =
     (case read_event raw of
        Inl _ \<Rightarrow> processEvents rs
      | Inr event \<Rightarrow>
          if \<not> IsValidEvent event then processEvents rs
          else if done then ([], True)
          else let (es, ended) = processEvents rs in (event # es, ended))"

definition stat_names :: "string list" where
  "stat_names = [''create_count'', ''modify_count'', ''destroy_count'', ''error_count'', ''gid_read_success'', ''gid_read_failure'',
     ''port_data_failure'', ''gid_table_failure'']"

definition GetStatistics :: "(nat \<Rightarrow> u64 option) option \<Rightarrow> (string \<times> u64) list res" where
  "GetStatistics stats_map =
     (case stats_map of
        None \<Rightarrow> Inl ''statistics map not available''
      | Some m \<Rightarrow> Inr (map (\<lambda>i. (stat_names ! i, case m i of None \<Rightarrow> 0 | Some v \<Rightarrow> v)) [0..<8]))"

text \<open>Stop: errors of detaching a probe and of closing the reader are only logged; those of closing the
  objects are returned.\<close>

definition Tracer_Stop :: "(string \<Rightarrow> string option) \<Rightarrow> ServiceTracer \<Rightarrow> (unit res \<times> ServiceTracer) go" where
  "Tracer_Stop fails t =
     (if st_stopped t then Panic ''close of closed channel''
      else let (err, held) = Objects_Close fails (st_objs t);
               t1 = t\<lparr>st_stopped := True, st_kprobes := [], st_reader := False, st_objs := held\<rparr> in
        Ret (case err of Some e \<Rightarrow> (Inl (''closing eBPF objects: '' @ e), t1) | None \<Rightarrow> (Inr (), t1)))"

subsection \<open>Closing objects\<close>

text \<open>Closing groups is closing their members one after the other, so the error that ends a group ends
  the whole.\<close>

lemma RdmaTracingClose_append:
  "RdmaTracingClose (xs @ ys) w = (case RdmaTracingClose xs w of (Some err, w') \<Rightarrow> (Some err, w') | (None, w') \<Rightarrow> RdmaTracingClose ys w')"
  by (induction xs arbitrary: w) (auto split: prod.splits option.splits)

lemma RdmaTracingClose_groups: "RdmaTracingClose (map RdmaTracingClose css) w = RdmaTracingClose (concat css) w"
  by (induction css arbitrary: w) (auto simp: RdmaTracingClose_append split: prod.splits option.splits)


subsection \<open>Layout round trip\<close>

lemma length_event_bytes: "event_ok e \<Longrightarrow> length (event_bytes e) = 80"
  by (simp add: event_bytes_def event_ok_def)

lemma le_word_u32: "ucast (le_word (le_bytes 4 (ucast (w :: u32)))) = w"
  by (simp add: le_word_bytes) (rule bit_word_eqI, simp add: bit_simps)

lemma read_event_bytes:
  assumes "event_ok e"
  shows "read_event (event_bytes e @ rest) = Inr e"
proof -
  have l: "length (ev_SrcGID e) = 16" "length (ev_DstGID e) = 16" "length (ev_Reserved e) = 2" "length (ev_Comm e) = 16"
    using assms by (simp_all add: event_ok_def)
  have "event_bytes e @ rest \<noteq> []" "\<not> length (event_bytes e @ rest) < 80"
    using length_event_bytes[OF assms] by auto
  then have "read_event (event_bytes e @ rest) = (let bs = event_bytes e @ rest; u32_at = (\<lambda>i. ucast (le_word (take 4 (drop i bs)))) in
        Inr \<lparr>ev_Timestamp = le_word (take 8 bs), ev_SrcGID = take 16 (drop 8 bs), ev_DstGID = take 16 (drop 24 bs),
          ev_SrcQPN = u32_at 40, ev_DstQPN = u32_at 44, ev_PID = u32_at 48, ev_TID = u32_at 52, ev_QPState = u32_at 56,
          ev_EventType = bs ! 60, ev_PortNum = bs ! 61, ev_Reserved = take 2 (drop 62 bs), ev_Comm = take 16 (drop 64 bs)\<rparr>)"
    by (simp only: read_event_def expectedStructSize_def Let_def if_False)
  also have "\<dots> = Inr e"
    by (simp add: event_bytes_def l le_word_u32 nth_append)
  finally show ?thesis .
qed

text \<open>A ring buffer record that starts with the 80 bytes of a connection event, as the kernel
  side lays them out, decodes to exactly that event; a shorter record is an error. The event
  loop therefore delivers, in order and once each, exactly the events whose type is known.\<close>

theorem processEvents_delivers:
  assumes "\<forall>e \<in> set events. event_ok e"
  shows "processEvents (map (\<lambda>e. Sample (event_bytes e @ rest e) False) events) = (filter IsValidEvent events, False)
     \<and> (\<forall>raw rs. length raw < 80 \<longrightarrow> processEvents (Sample raw False # rs) = processEvents rs)"
proof
  show "processEvents (map (\<lambda>e. Sample (event_bytes e @ rest e) False) events) = (filter IsValidEvent events, False)"
    using assms by (induction events) (simp_all add: read_event_bytes)
  show "\<forall>raw rs. length raw < 80 \<longrightarrow> processEvents (Sample raw False # rs) = processEvents rs"
    by (simp add: read_event_def expectedStructSize_def)
qed

definition sample_event :: "u8 \<Rightarrow> RdmaConnTuple" where
  "sample_event ty = \<lparr>ev_Timestamp = 5, ev_SrcGID = replicate 16 0, ev_DstGID = replicate 16 1, ev_SrcQPN = 7, ev_DstQPN = 8, ev_PID = 1, ev_TID = 1,
     ev_QPState = 3, ev_EventType = ty, ev_PortNum = 1, ev_Reserved = [0, 0], ev_Comm = replicate 16 0\<rparr>"

theorem processEvents_delivers_witness:
  "processEvents (map (\<lambda>e. Sample (event_bytes e @ [9]) False) [sample_event 2, sample_event 7, sample_event 3]) = ([sample_event 2, sample_event 3], False)"
  using processEvents_delivers[of "[sample_event 2, sample_event 7, sample_event 3]" "\<lambda>_. [9]"]
  by (simp add: event_ok_def sample_event_def IsValidEvent_def RdmaEventCreate_def RdmaEventDestroy_def)

text \<open>Time stamps of the kernel's monotonic clock (bpf_ktime_get_ns, nanoseconds since boot) are
  more than an hour behind the wall clock unless the host was booted within an hour of the epoch.\<close>

lemma boot_clock_rejected:
  assumes "uint (ev_Timestamp e) + 3600000000000 < uint now"
  shows "ValidateStructAlignment now e \<noteq> None"
proof -
  have "0 \<le> uint (ev_Timestamp e)" by simp
  with assms have "3600000000000 \<le> uint now" by linarith
  then have "hour_ns \<le> now" by (simp add: hour_ns_def word_le_def)
  then have "uint (now - hour_ns) = uint now - uint hour_ns" by (rule uint_minus_simple_alt[THEN iffD1])
  then have "ev_Timestamp e < now - hour_ns" using assms by (simp add: word_less_def hour_ns_def)
  then show ?thesis by (simp add: ValidateStructAlignment_def Let_def)
qed


subsection \<open>What a tracer holds\<close>

lemma close_objects:
  assumes "distinct ns"
  shows "RdmaTracingClose (map (close_object fails) ns) ns =
     (case dropWhile (\<lambda>n. fails n = None) ns of [] \<Rightarrow> (None, []) | n # rest \<Rightarrow> (fails n, n # rest))"
proof (use assms in \<open>induction ns\<close>)
  case (Cons n ns)
  then show ?case by (cases "fails n") (simp_all add: close_object_def)
qed simp

lemma Objects_Close_eq:
  "Objects_Close fails (program_names @ map_names) =
     (case dropWhile (\<lambda>n. fails n = None) (program_names @ map_names) of [] \<Rightarrow> (None, []) | n # rest \<Rightarrow> (fails n, n # rest))"
proof -
  have "Objects_Close fails w = RdmaTracingClose (map (close_object fails) (program_names @ map_names)) w" for w
    using RdmaTracingClose_groups[of "[map (close_object fails) program_names, map (close_object fails) map_names]" w]
    by (simp add: Objects_Close_def Programs_Close_def Maps_Close_def program_names_def map_names_def)
  then show ?thesis by (simp only:) (rule close_objects, simp add: program_names_def map_names_def)
qed

text \<open>What a tracer takes from the kernel it gives back only as far as closing goes well. A tracer that
  was created and started holds its two programs and two maps. Stop closes them in order and
  stops at the first failure: it reports that error, and the object that failed and every
  one after it stay open, although closing them might have worked. Without a failure
  nothing is left and no error is reported. A second Stop panics, so what was left cannot be
  closed later.\<close>

theorem tracer_objects_released:
  assumes "NewServiceTracer env = Inr t0" "Tracer_Start kallsyms attach ring_err t0 = (started, t)"
  shows "\<exists>r t'. Tracer_Stop fails t = Ret (r, t') \<and> st_objs t = program_names @ map_names
     \<and> st_objs t' = dropWhile (\<lambda>n. fails n = None) (program_names @ map_names)
     \<and> (r = Inr () \<longleftrightarrow> st_objs t' = []) \<and> (\<forall>e. r = Inl e \<longrightarrow> (\<exists>err. fails (hd (st_objs t')) = Some err \<and> e = ''closing eBPF objects: '' @ err))
     \<and> Tracer_Stop fails t' = Panic ''close of closed channel''"
proof -
  have t0: "st_objs t0 = program_names @ map_names" "\<not> st_stopped t0"
    using assms(1) by (auto simp: NewServiceTracer_def loadRdmaTracingObjects_def split: sum.splits option.splits if_splits)
  then have t: "st_objs t = program_names @ map_names" "\<not> st_stopped t"
    using assms(2) by (auto simp: Tracer_Start_def Let_def split: option.splits if_splits)
  let ?stopped = "\<lambda>held. t\<lparr>st_stopped := True, st_kprobes := [], st_reader := False, st_objs := held\<rparr>"
  have twice: "Tracer_Stop fails (?stopped held) = Panic ''close of closed channel''" for held by (simp add: Tracer_Stop_def)
  show ?thesis
  proof (cases "dropWhile (\<lambda>n. fails n = None) (program_names @ map_names)")
    case Nil
    then have "Objects_Close fails (program_names @ map_names) = (None, [])" by (simp only: Objects_Close_eq list.case)
    then have "Tracer_Stop fails t = Ret (Inr (), ?stopped [])" using t by (simp add: Tracer_Stop_def)
    then show ?thesis unfolding Nil using t(1) twice[of "[]"] by (intro exI[of _ "Inr ()"] exI[of _ "?stopped []"]) simp
  next
    case (Cons n rest)
    then obtain err where err: "fails n = Some err" using hd_dropWhile[of "\<lambda>n. fails n = None" "program_names @ map_names"] by auto
    from Cons have "Objects_Close fails (program_names @ map_names) = (Some err, n # rest)" by (simp only: Objects_Close_eq list.case err)
    then have "Tracer_Stop fails t = Ret (Inl (''closing eBPF objects: '' @ err), ?stopped (n # rest))" using t by (simp add: Tracer_Stop_def)
    then show ?thesis unfolding Cons using t(1) err twice[of "n # rest"]
      by (intro exI[of _ "Inl (''closing eBPF objects: '' @ err)"] exI[of _ "?stopped (n # rest)"]) simp
  qed
qed

definition sample_load :: load_env where
  "sample_load = \<lparr>le_uid = 0, le_removeMemlock = None, le_setrlimit = None, le_kernelSpec = None, le_readBtf = \<lambda>_. None, le_splitSpec = \<lambda>_. None,
     le_collectionSpec = None, le_loadAndAssign = None\<rparr>"

lemma sample_tracer:
  "NewServiceTracer sample_load = Inr \<lparr>st_objs = program_names @ map_names, st_kprobes = [], st_reader = False, st_eventCh = chan_make 100, st_stopped = False\<rparr>"
  by (simp add: sample_load_def NewServiceTracer_def checkPrivileges_def loadRdmaTracingObjects_def loadRdmaTracing_def)

theorem tracer_objects_released_witness:
  "\<exists>t r t'. Tracer_Stop (\<lambda>n. if n = ''rdma_events'' then Some ''bad file descriptor'' else None) t = Ret (r, t') \<and> st_objs t' = [''rdma_events'', ''rdma_stats'']
     \<and> r \<noteq> Inr ()"
proof -
  obtain started t where "Tracer_Start None (\<lambda>_. None) None
      \<lparr>st_objs = program_names @ map_names, st_kprobes = [], st_reader = False, st_eventCh = chan_make 100, st_stopped = False\<rparr> = (started, t)" by fastforce
  from tracer_objects_released[OF sample_tracer this, of "\<lambda>n. if n = ''rdma_events'' then Some ''bad file descriptor'' else None"]
  show ?thesis by (auto simp: program_names_def map_names_def)
qed

end
