(* ===== verification/Bpf_Program.thy ===== *)
theory Bpf_Program
  imports Ebpf_Tracer
begin

unbundle bit_operations_syntax

text \<open>
  The eBPF program (internal/ebpf/bpf/rdma_tracing.c): the two functions that the kernel calls when a
  queue pair is modified or destroyed, the statistics they keep and the records they put into the
  ring buffer. The kernel's structures are given as far as the program reads them. A pointer
  that cannot be read counts as null, as in BPF_CORE_READ; where the program tests the outcome
  of a read, the read can fault.
\<close>

subsection \<open>Constants and kernel structures\<close>

definition IB_QP_STATE :: "32 word" where "IB_QP_STATE = 1"
definition IB_QP_PORT :: "32 word" where "IB_QP_PORT = push_bit 5 1"
definition IB_QP_AV :: "32 word" where "IB_QP_AV = push_bit 7 1"
definition IB_QP_DEST_QPN :: "32 word" where "IB_QP_DEST_QPN = push_bit 20 1"

definition IB_QPS_RTR :: "32 word" where "IB_QPS_RTR = 2"

definition DEFAULT_GID_INDEX :: u8 where "DEFAULT_GID_INDEX = 0"
definition MAX_GID_INDEX :: nat where "MAX_GID_INDEX = 255"
definition INVALID_QP_STATE :: "32 word" where "INVALID_QP_STATE = - 1"
definition INVALID_PORT_NUM :: u8 where "INVALID_PORT_NUM = 0"

datatype bpf_stat = STAT_CREATE_COUNT | STAT_MODIFY_COUNT | STAT_DESTROY_COUNT | STAT_ERROR_COUNT | STAT_GID_READ_SUCCESS | STAT_GID_READ_FAILURE
  | STAT_PORT_DATA_FAILURE | STAT_GID_TABLE_FAILURE | STAT_CORE_READ_ERROR | STAT_FIELD_MISSING

fun stat_key :: "bpf_stat \<Rightarrow> nat" where
  "stat_key STAT_CREATE_COUNT = 0"
| "stat_key STAT_MODIFY_COUNT = 1"
| "stat_key STAT_DESTROY_COUNT = 2"
| "stat_key STAT_ERROR_COUNT = 3"
| "stat_key STAT_GID_READ_SUCCESS = 4"
| "stat_key STAT_GID_READ_FAILURE = 5"
| "stat_key STAT_PORT_DATA_FAILURE = 6"
| "stat_key STAT_GID_TABLE_FAILURE = 7"
| "stat_key STAT_CORE_READ_ERROR = 8"
| "stat_key STAT_FIELD_MISSING = 9"

datatype 'a kptr = Null | Ptr 'a

datatype 'a kread = Faults | Reads 'a

text \<open>A GID table's data vector holds pointers to entries; a port's cache points to its table.\<close>

type_synonym gid_table = "(nat \<Rightarrow> byte list kptr kread) kptr"

record ib_device =
  dev_port_data :: "(nat \<Rightarrow> gid_table kptr kread) kptr"
  dev_phys_port_cnt :: u32

record ib_qp =
  qp_device :: "ib_device kptr"
  qp_num :: u32
  qp_port :: u32

record ib_qp_attr =
  qa_qp_state :: "32 word"
  qa_dest_qp_num :: u32
  qa_dgid :: "byte list"
  qa_port_num :: u32

text \<open>What the helpers of the kernel return during one call, and whether there is room for a record.\<close>

record bpf_ctx =
  bx_ktime :: u64
  bx_pid_tgid :: u64
  bx_comm :: "byte list"
  bx_room :: bool

text \<open>The maps of the program: the statistics, an array that has every key used here, and the records
  submitted so far.\<close>

record bpf_world =
  bw_stats :: "nat \<Rightarrow> u64"
  bw_ring :: "byte list list"

subsection \<open>Operations\<close>

definition increment_stat :: "bpf_stat \<Rightarrow> (nat \<Rightarrow> u64) \<Rightarrow> nat \<Rightarrow> u64" where
  "increment_stat k s = s(stat_key k := s (stat_key k) + 1)"

definition all_zero :: "byte list \<Rightarrow> bool" where
  "all_zero gid = list_all (\<lambda>b. b = 0) gid"

text \<open>Reading a GID through the port data: None is a return of -1.\<close>

definition read_gid_entry :: "u8 \<Rightarrow> (nat \<Rightarrow> byte list kptr kread) \<Rightarrow> (nat \<Rightarrow> u64) \<Rightarrow> byte list option \<times> (nat \<Rightarrow> u64)" where
  "read_gid_entry gid_index data_vec s =
     (case data_vec (unat (if gid_index > 1 then 0 else gid_index)) of
        Faults \<Rightarrow> (None, increment_stat STAT_CORE_READ_ERROR s)
      | Reads Null \<Rightarrow> (None, increment_stat STAT_CORE_READ_ERROR s)
      | Reads (Ptr gid) \<Rightarrow>
          if all_zero gid then (None, increment_stat STAT_GID_READ_FAILURE s)
          else (Some gid, increment_stat STAT_GID_READ_SUCCESS s))"

definition read_port_gid :: "ib_device \<Rightarrow> u8 \<Rightarrow> u8 \<Rightarrow> (nat \<Rightarrow> u64) \<Rightarrow> byte list option \<times> (nat \<Rightarrow> u64)" where
  "read_port_gid dev port_for_access gid_index s =
     (case dev_port_data dev of
        Null \<Rightarrow> (None, increment_stat STAT_PORT_DATA_FAILURE s)
      | Ptr port_data \<Rightarrow>
        (case port_data (unat port_for_access - 1) of
           Faults \<Rightarrow> (None, increment_stat STAT_CORE_READ_ERROR s)
         | Reads Null \<Rightarrow> (None, increment_stat STAT_GID_TABLE_FAILURE s)
         | Reads (Ptr Null) \<Rightarrow> (None, increment_stat STAT_CORE_READ_ERROR s)
         | Reads (Ptr (Ptr data_vec)) \<Rightarrow> read_gid_entry gid_index data_vec s))"

definition read_source_gid_core :: "ib_device kptr \<Rightarrow> u8 \<Rightarrow> u8 \<Rightarrow> (nat \<Rightarrow> u64) \<Rightarrow> byte list option \<times> (nat \<Rightarrow> u64)" where
  "read_source_gid_core device port_num gid_index s =
     (case device of
        Null \<Rightarrow> (None, increment_stat STAT_ERROR_COUNT s)
      | Ptr dev \<Rightarrow>
          if port_num = INVALID_PORT_NUM \<or> unat gid_index > MAX_GID_INDEX then (None, increment_stat STAT_ERROR_COUNT s)
          else if dev_phys_port_cnt dev = 0 then (None, increment_stat STAT_CORE_READ_ERROR s)
          else let port_for_access = (if port_num = 0 then 1 else port_num) in
            if ucast port_for_access > dev_phys_port_cnt dev
            then if dev_phys_port_cnt dev \<ge> 1 then read_port_gid dev 1 gid_index s else (None, increment_stat STAT_ERROR_COUNT s)
            else read_port_gid dev port_for_access gid_index s)"

definition init_rdma_event :: "bpf_ctx \<Rightarrow> u8 \<Rightarrow> RdmaConnTuple" where
  "init_rdma_event ctx event_type =
     \<lparr>ev_Timestamp = bx_ktime ctx, ev_SrcGID = replicate 16 0, ev_DstGID = replicate 16 0, ev_SrcQPN = 0, ev_DstQPN = 0,
      ev_PID = ucast (drop_bit 32 (bx_pid_tgid ctx)), ev_TID = ucast (bx_pid_tgid ctx AND 0xFFFFFFFF), ev_QPState = INVALID_QP_STATE,
      ev_EventType = event_type, ev_PortNum = INVALID_PORT_NUM, ev_Reserved = [0, 0], ev_Comm = bx_comm ctx\<rparr>"

text \<open>What is only printed is left out.\<close>

definition read_dest_qp_info_core :: "ib_qp_attr \<Rightarrow> 32 word \<Rightarrow> RdmaConnTuple \<Rightarrow> RdmaConnTuple" where
  "read_dest_qp_info_core attr attr_mask event =
     (let event1 = (if attr_mask AND IB_QP_AV \<noteq> 0 \<and> \<not> all_zero (qa_dgid attr) then event\<lparr>ev_DstGID := qa_dgid attr\<rparr> else event) in
      if attr_mask AND IB_QP_DEST_QPN \<noteq> 0 then event1\<lparr>ev_DstQPN := qa_dest_qp_num attr\<rparr> else event1)"

text \<open>The source GID goes into an event when it can be read.\<close>

definition read_src_into :: "ib_qp \<Rightarrow> u8 \<Rightarrow> RdmaConnTuple \<Rightarrow> (nat \<Rightarrow> u64) \<Rightarrow> RdmaConnTuple \<times> (nat \<Rightarrow> u64)" where
  "read_src_into qp port_num event s =
     (case qp_device qp of
        Null \<Rightarrow> (event, s)
      | Ptr dev \<Rightarrow>
        (case read_source_gid_core (Ptr dev) port_num DEFAULT_GID_INDEX s of
           (Some gid, s1) \<Rightarrow> (event\<lparr>ev_SrcGID := gid\<rparr>, s1)
         | (None, s1) \<Rightarrow> (event, s1)))"

definition modify_port :: "ib_qp \<Rightarrow> ib_qp_attr \<Rightarrow> 32 word \<Rightarrow> u8" where
  "modify_port qp attr attr_mask =
     (let p1 = (if attr_mask AND IB_QP_PORT \<noteq> 0 then ucast (qa_port_num attr) else INVALID_PORT_NUM);
          p2 = (if p1 = INVALID_PORT_NUM then ucast (qp_port qp) else p1) in
      if p2 = INVALID_PORT_NUM \<or> p2 = 0 then 1 else p2)"

definition submit :: "bpf_stat \<Rightarrow> RdmaConnTuple \<times> (nat \<Rightarrow> u64) \<Rightarrow> bpf_world \<Rightarrow> bpf_world" where
  "submit counter es w = w\<lparr>bw_stats := increment_stat counter (snd es), bw_ring := bw_ring w @ [event_bytes (fst es)]\<rparr>"

definition count_error :: "bpf_world \<Rightarrow> bpf_world" where
  "count_error w = w\<lparr>bw_stats := increment_stat STAT_ERROR_COUNT (bw_stats w)\<rparr>"

definition trace_modify_qp :: "bpf_ctx \<Rightarrow> ib_qp kptr \<Rightarrow> ib_qp_attr kptr \<Rightarrow> 32 word \<Rightarrow> bpf_world \<Rightarrow> bpf_world" where
  "trace_modify_qp ctx qp_arg attr_arg attr_mask w =
     (case (qp_arg, attr_arg) of
        (Ptr qp, Ptr attr) \<Rightarrow>
          if attr_mask AND IB_QP_STATE = 0 then w
          else if qa_qp_state attr \<noteq> IB_QPS_RTR then w
          else if \<not> bx_room ctx then count_error w
          else let event = (init_rdma_event ctx RdmaEventModify)\<lparr>ev_QPState := qa_qp_state attr, ev_SrcQPN := qp_num qp\<rparr>;
                   port = modify_port qp attr attr_mask;
                   event1 = (read_dest_qp_info_core attr attr_mask event)\<lparr>ev_PortNum := port\<rparr> in
            submit STAT_MODIFY_COUNT (read_src_into qp port event1 (bw_stats w)) w
      | _ \<Rightarrow> count_error w)"

text \<open>A null queue pair is not tested for; its fields read as zero.\<close>

definition trace_destroy_qp_user :: "bpf_ctx \<Rightarrow> ib_qp kptr \<Rightarrow> bpf_world \<Rightarrow> bpf_world" where
  "trace_destroy_qp_user ctx qp_arg w =
     (if \<not> bx_room ctx then count_error w
      else let event = init_rdma_event ctx RdmaEventDestroy;
               qp = (case qp_arg of Ptr q \<Rightarrow> q | Null \<Rightarrow> \<lparr>qp_device = Null, qp_num = 0, qp_port = 0\<rparr>);
               port = ucast (qp_port qp) in
        if qp_num qp = 0 then count_error w
        else if port = INVALID_PORT_NUM then count_error w
        else submit STAT_DESTROY_COUNT (read_src_into qp port (event\<lparr>ev_SrcQPN := qp_num qp, ev_PortNum := port\<rparr>) (bw_stats w)) w)"

text \<open>
  The programs are attached as kprobes (link.Kprobe) and their sections are plain kprobe sections, so
  the kernel enters them with one argument, the registers at the probed function. They are declared
  with the parameters of the probed function, without the BPF_KPROBE macro that would fetch those
  from the registers. What the declared parameters hold, and what reading memory through
  them gives, is therefore decided by the kernel and not by this code: it is a parameter of the model,
  a function of the registers. Nothing is assumed of it; in particular it need not be the
  queue pair that the probed function works on.
\<close>

record kprobe_params =
  kp_qp :: "ib_qp kptr"
  kp_attr :: "ib_qp_attr kptr"
  kp_attr_mask :: "32 word"

text \<open>The calls of the two kernel functions, in order; a function is probed when a kprobe is attached.\<close>

datatype 'regs kernel_call = KModify bpf_ctx 'regs | KDestroy bpf_ctx 'regs

fun bpf_call :: "string list \<Rightarrow> ('regs \<Rightarrow> kprobe_params) \<Rightarrow> 'regs kernel_call \<Rightarrow> bpf_world \<Rightarrow> bpf_world" where
  "bpf_call hooks params (KModify ctx regs) w =
     (if modify_qp \<in> set hooks then trace_modify_qp ctx (kp_qp (params regs)) (kp_attr (params regs)) (kp_attr_mask (params regs)) w else w)"
| "bpf_call hooks params (KDestroy ctx regs) w = (if destroy_qp \<in> set hooks then trace_destroy_qp_user ctx (kp_qp (params regs)) w else w)"

definition bpf_run :: "string list \<Rightarrow> ('regs \<Rightarrow> kprobe_params) \<Rightarrow> 'regs kernel_call list \<Rightarrow> bpf_world \<Rightarrow> bpf_world" where
  "bpf_run hooks params calls w = fold (bpf_call hooks params) calls w"

definition fresh_bpf :: bpf_world where
  "fresh_bpf = \<lparr>bw_stats = \<lambda>_. 0, bw_ring = []\<rparr>"


subsection \<open>What is recorded\<close>

text \<open>The runs of the programs that leave a record: the function is probed, the ring buffer has room, and
  the parameters of trace_modify_qp read as a queue pair that becomes ready to receive, those
  of trace_destroy_qp_user as a queue pair with a number and a port. Such a record names the
  type of the run and the number read as the queue pair's.\<close>

definition records_modify :: "bpf_ctx \<Rightarrow> kprobe_params \<Rightarrow> bool" where
  "records_modify ctx k \<longleftrightarrow> bx_room ctx \<and> kp_qp k \<noteq> Null \<and> kp_attr_mask k AND IB_QP_STATE \<noteq> 0
     \<and> (case kp_attr k of Null \<Rightarrow> False | Ptr a \<Rightarrow> qa_qp_state a = IB_QPS_RTR)"

definition records_destroy :: "bpf_ctx \<Rightarrow> kprobe_params \<Rightarrow> bool" where
  "records_destroy ctx k \<longleftrightarrow> bx_room ctx \<and> (case kp_qp k of Null \<Rightarrow> False | Ptr q \<Rightarrow> qp_num q \<noteq> 0 \<and> (ucast (qp_port q) :: u8) \<noteq> 0)"

fun traced :: "string list \<Rightarrow> ('regs \<Rightarrow> kprobe_params) \<Rightarrow> 'regs kernel_call \<Rightarrow> bool" where
  "traced hooks params (KModify ctx regs) \<longleftrightarrow> modify_qp \<in> set hooks \<and> records_modify ctx (params regs)"
| "traced hooks params (KDestroy ctx regs) \<longleftrightarrow> destroy_qp \<in> set hooks \<and> records_destroy ctx (params regs)"

fun called_qp :: "ib_qp kptr \<Rightarrow> u32" where
  "called_qp Null = 0"
| "called_qp (Ptr qp) = qp_num qp"

fun call_key :: "('regs \<Rightarrow> kprobe_params) \<Rightarrow> 'regs kernel_call \<Rightarrow> u8 \<times> u32" where
  "call_key params (KModify ctx regs) = (RdmaEventModify, called_qp (kp_qp (params regs)))"
| "call_key params (KDestroy ctx regs) = (RdmaEventDestroy, called_qp (kp_qp (params regs)))"

definition event_key :: "RdmaConnTuple \<Rightarrow> u8 \<times> u32" where
  "event_key e = (ev_EventType e, ev_SrcQPN e)"

text \<open>A GID and a process name are read as 16 bytes, wherever they are read from.\<close>

definition gids_ok :: "ib_qp \<Rightarrow> bool" where
  "gids_ok qp \<longleftrightarrow> (\<forall>dev pd i dv j gid. qp_device qp = Ptr dev \<and> dev_port_data dev = Ptr pd \<and> pd i = Reads (Ptr (Ptr dv)) \<and> dv j = Reads (Ptr gid)
     \<longrightarrow> length gid = 16)"

fun call_ok :: "('regs \<Rightarrow> kprobe_params) \<Rightarrow> 'regs kernel_call \<Rightarrow> bool" where
  "call_ok params (KModify ctx regs) \<longleftrightarrow> length (bx_comm ctx) = 16 \<and> (\<forall>q. kp_qp (params regs) = Ptr q \<longrightarrow> gids_ok q)
     \<and> (\<forall>a. kp_attr (params regs) = Ptr a \<longrightarrow> length (qa_dgid a) = 16)"
| "call_ok params (KDestroy ctx regs) \<longleftrightarrow> length (bx_comm ctx) = 16 \<and> (\<forall>q. kp_qp (params regs) = Ptr q \<longrightarrow> gids_ok q)"

definition bpf_event :: "RdmaConnTuple \<Rightarrow> bool" where
  "bpf_event e \<longleftrightarrow> event_ok e \<and> (ev_EventType e = RdmaEventModify \<and> ev_QPState e = IB_QPS_RTR
     \<or> ev_EventType e = RdmaEventDestroy \<and> ev_QPState e = INVALID_QP_STATE \<and> ev_DstQPN e = 0 \<and> all_zero (ev_DstGID e))"

lemma all_zero_replicate [simp]: "all_zero (replicate n 0)"
  by (simp add: all_zero_def list_all_iff)

text \<open>The counters that stay as they are when no GID is read.\<close>

definition same_counts :: "(nat \<Rightarrow> u64) \<Rightarrow> (nat \<Rightarrow> u64) \<Rightarrow> bool" where
  "same_counts s s' \<longleftrightarrow> s' 0 = s 0 \<and> s' 1 = s 1 \<and> s' 2 = s 2 \<and> s' 4 = s 4"

lemma read_source_gid_core_cases:
  assumes "read_source_gid_core (Ptr dev) p i s = (r, s')"
  obtains "r = None" "same_counts s s'"
  | gid where "r = Some gid" "\<not> all_zero gid" "s' = increment_stat STAT_GID_READ_SUCCESS s"
      "\<exists>pd i dv j. dev_port_data dev = Ptr pd \<and> pd i = Reads (Ptr (Ptr dv)) \<and> dv j = Reads (Ptr gid)"
proof -
  have entry: "r = None \<and> same_counts s s' \<or> (\<exists>gid. r = Some gid \<and> \<not> all_zero gid \<and> s' = increment_stat STAT_GID_READ_SUCCESS s \<and> (\<exists>j. dv j = Reads (Ptr gid)))"
    if "read_gid_entry i dv s = (r, s')" for dv
    using that by (auto simp: read_gid_entry_def same_counts_def increment_stat_def split: kread.splits kptr.splits if_splits)
  have port: "r = None \<and> same_counts s s' \<or> (\<exists>gid. r = Some gid \<and> \<not> all_zero gid \<and> s' = increment_stat STAT_GID_READ_SUCCESS s
      \<and> (\<exists>pd i dv j. dev_port_data dev = Ptr pd \<and> pd i = Reads (Ptr (Ptr dv)) \<and> dv j = Reads (Ptr gid)))"
    if "read_port_gid dev q i s = (r, s')" for q
    using that entry by (fastforce simp: read_port_gid_def same_counts_def increment_stat_def split: kread.splits kptr.splits)
  have "r = None \<and> same_counts s s' \<or> (\<exists>q. read_port_gid dev q i s = (r, s'))"
    using assms by (auto simp: read_source_gid_core_def same_counts_def increment_stat_def Let_def split: if_splits)
  with port show thesis using that by blast
qed

lemma read_src_into_counts:
  assumes "read_src_into qp p e s = (e', s')" and "gids_ok qp" and "event_ok e" and "all_zero (ev_SrcGID e)"
  shows "event_ok e' \<and> (\<exists>gid. e' = e\<lparr>ev_SrcGID := gid\<rparr>) \<and> s' 0 = s 0 \<and> s' 1 = s 1 \<and> s' 2 = s 2 \<and> s' 4 = s 4 + (if all_zero (ev_SrcGID e') then 0 else 1)"
proof (cases "qp_device qp")
  have kept: "\<exists>gid. e = e\<lparr>ev_SrcGID := gid\<rparr>" by (rule exI[of _ "ev_SrcGID e"]) simp
  case Null
  then have "e' = e" "s' = s" using assms(1) by (auto simp: read_src_into_def)
  then show ?thesis using assms kept by simp
next
  have kept: "\<exists>gid. e = e\<lparr>ev_SrcGID := gid\<rparr>" by (rule exI[of _ "ev_SrcGID e"]) simp
  case (Ptr dev)
  obtain r s1 where r: "read_source_gid_core (Ptr dev) p DEFAULT_GID_INDEX s = (r, s1)" by fastforce
  then show ?thesis
  proof (cases rule: read_source_gid_core_cases)
    case 1
    then have "e' = e" "s' = s1" using assms(1) r Ptr by (auto simp: read_src_into_def)
    then show ?thesis using assms 1 kept by (simp add: same_counts_def)
  next
    case (2 gid)
    then have "length gid = 16" using assms(2) Ptr by (fastforce simp: gids_ok_def)
    moreover have "e' = e\<lparr>ev_SrcGID := gid\<rparr>" "s' = s1" using assms(1) r Ptr 2 by (auto simp: read_src_into_def)
    ultimately show ?thesis using assms 2 by (auto simp: event_ok_def increment_stat_def)
  qed
qed


lemma init_rdma_event_ok: "length (bx_comm ctx) = 16 \<Longrightarrow> event_ok (init_rdma_event ctx ty)"
  by (simp add: init_rdma_event_def event_ok_def)

text \<open>One call: a record and its counts, or nothing but error counts.\<close>

lemma submit_counts:
  assumes "gids_ok qp" "event_ok e" "all_zero (ev_SrcGID e)" "counter \<in> {STAT_MODIFY_COUNT, STAT_DESTROY_COUNT}"
  shows "\<exists>gid. event_ok (e\<lparr>ev_SrcGID := gid\<rparr>) \<and> bw_ring (submit counter (read_src_into qp p e (bw_stats w)) w) = bw_ring w @ [event_bytes (e\<lparr>ev_SrcGID := gid\<rparr>)]
    \<and> (let s' = bw_stats (submit counter (read_src_into qp p e (bw_stats w)) w); s = bw_stats w in s' 0 = s 0 \<and> s' 1 = s 1 + of_bool (counter = STAT_MODIFY_COUNT)
        \<and> s' 2 = s 2 + of_bool (counter = STAT_DESTROY_COUNT) \<and> s' 4 = s 4 + of_bool (\<not> all_zero gid))"
proof -
  obtain e' s' where r: "read_src_into qp p e (bw_stats w) = (e', s')" by fastforce
  from read_src_into_counts[OF r assms(1-3)] obtain gid where g: "e' = e\<lparr>ev_SrcGID := gid\<rparr>" "event_ok e'"
    and s: "s' 0 = bw_stats w 0" "s' 1 = bw_stats w 1" "s' 2 = bw_stats w 2" "s' 4 = bw_stats w 4 + (if all_zero (ev_SrcGID e') then 0 else 1)" by blast
  show ?thesis using assms(4) g s unfolding r by (intro exI[of _ gid]) (auto simp: submit_def increment_stat_def Let_def)
qed

definition call_effect :: "string list \<Rightarrow> ('regs \<Rightarrow> kprobe_params) \<Rightarrow> 'regs kernel_call \<Rightarrow> bpf_world \<Rightarrow> bpf_world \<Rightarrow> bool" where
  "call_effect hooks params c w w' \<longleftrightarrow>
     (if traced hooks params c
      then \<exists>e. bpf_event e \<and> event_key e = call_key params c \<and> bw_ring w' = bw_ring w @ [event_bytes e] \<and> bw_stats w' 0 = bw_stats w 0
        \<and> bw_stats w' 1 = bw_stats w 1 + of_bool (ev_EventType e = RdmaEventModify) \<and> bw_stats w' 2 = bw_stats w 2 + of_bool (ev_EventType e = RdmaEventDestroy)
        \<and> bw_stats w' 4 = bw_stats w 4 + of_bool (\<not> all_zero (ev_SrcGID e))
      else bw_ring w' = bw_ring w \<and> same_counts (bw_stats w) (bw_stats w'))"

lemma no_record:
  "\<not> traced hooks params c \<Longrightarrow> w' = w \<or> w' = count_error w \<Longrightarrow> call_effect hooks params c w w'"
  by (auto simp: call_effect_def count_error_def same_counts_def increment_stat_def)

lemma record_made:
  assumes "traced hooks params c" "bpf_event e" "event_key e = call_key params c" "bw_ring w' = bw_ring w @ [event_bytes e]" "bw_stats w' 0 = bw_stats w 0"
    and "bw_stats w' 1 = bw_stats w 1 + of_bool (ev_EventType e = RdmaEventModify)" "bw_stats w' 2 = bw_stats w 2 + of_bool (ev_EventType e = RdmaEventDestroy)"
    and "bw_stats w' 4 = bw_stats w 4 + of_bool (\<not> all_zero (ev_SrcGID e))"
  shows "call_effect hooks params c w w'"
  using assms unfolding call_effect_def by auto

lemma modify_effect:
  assumes "call_ok params (KModify ctx regs)" "modify_qp \<in> set hooks"
  shows "call_effect hooks params (KModify ctx regs) w (trace_modify_qp ctx (kp_qp (params regs)) (kp_attr (params regs)) (kp_attr_mask (params regs)) w)"
proof (cases "traced hooks params (KModify ctx regs)")
  let ?qp = "kp_qp (params regs)" and ?attr = "kp_attr (params regs)" and ?mask = "kp_attr_mask (params regs)"
  case True
  then obtain q a where p: "?qp = Ptr q" "?attr = Ptr a" "qa_qp_state a = IB_QPS_RTR" "?mask AND IB_QP_STATE \<noteq> 0" "bx_room ctx"
    by (cases ?qp; cases ?attr) (auto simp: records_modify_def)
  define ev where "ev = (read_dest_qp_info_core a ?mask ((init_rdma_event ctx RdmaEventModify)\<lparr>ev_QPState := qa_qp_state a, ev_SrcQPN := qp_num q\<rparr>))
      \<lparr>ev_PortNum := modify_port q a ?mask\<rparr>"
  have t: "trace_modify_qp ctx ?qp ?attr ?mask w = submit STAT_MODIFY_COUNT (read_src_into q (modify_port q a ?mask) ev (bw_stats w)) w"
    using p by (simp add: trace_modify_qp_def ev_def Let_def)
  have "event_ok ev" "all_zero (ev_SrcGID ev)" "gids_ok q"
    using assms(1) p by (auto simp: ev_def read_dest_qp_info_core_def init_rdma_event_def event_ok_def Let_def)
  from submit_counts[OF this(3,1,2), of STAT_MODIFY_COUNT "modify_port q a ?mask" w] obtain gid where g: "event_ok (ev\<lparr>ev_SrcGID := gid\<rparr>)"
    "bw_ring (trace_modify_qp ctx ?qp ?attr ?mask w) = bw_ring w @ [event_bytes (ev\<lparr>ev_SrcGID := gid\<rparr>)]"
    "bw_stats (trace_modify_qp ctx ?qp ?attr ?mask w) 0 = bw_stats w 0" "bw_stats (trace_modify_qp ctx ?qp ?attr ?mask w) 1 = bw_stats w 1 + 1"
    "bw_stats (trace_modify_qp ctx ?qp ?attr ?mask w) 2 = bw_stats w 2"
    "bw_stats (trace_modify_qp ctx ?qp ?attr ?mask w) 4 = bw_stats w 4 + of_bool (\<not> all_zero gid)"
    unfolding t by (auto simp: Let_def)
  have "ev_EventType ev = RdmaEventModify" "ev_QPState ev = IB_QPS_RTR" "ev_SrcQPN ev = qp_num q"
    using p by (simp_all add: ev_def read_dest_qp_info_core_def init_rdma_event_def Let_def)
  then have "bpf_event (ev\<lparr>ev_SrcGID := gid\<rparr>)" "event_key (ev\<lparr>ev_SrcGID := gid\<rparr>) = call_key params (KModify ctx regs)"
    "ev_EventType (ev\<lparr>ev_SrcGID := gid\<rparr>) = RdmaEventModify"
    using g(1) p by (auto simp: bpf_event_def event_key_def)
  from record_made[OF True this(1,2) g(2,3)] this(3) g(4-6) show ?thesis by (simp add: RdmaEventModify_def RdmaEventDestroy_def)
next
  case False
  then show ?thesis using assms(2) by (intro no_record) (auto simp: trace_modify_qp_def records_modify_def split: kptr.splits)
qed

lemma destroy_effect:
  assumes "call_ok params (KDestroy ctx regs)" "destroy_qp \<in> set hooks"
  shows "call_effect hooks params (KDestroy ctx regs) w (trace_destroy_qp_user ctx (kp_qp (params regs)) w)"
proof (cases "traced hooks params (KDestroy ctx regs)")
  let ?qp = "kp_qp (params regs)"
  case True
  then obtain q where p: "?qp = Ptr q" "qp_num q \<noteq> 0" "(ucast (qp_port q) :: u8) \<noteq> 0" "bx_room ctx" by (cases ?qp) (auto simp: records_destroy_def)
  define ev where "ev = (init_rdma_event ctx RdmaEventDestroy)\<lparr>ev_SrcQPN := qp_num q, ev_PortNum := ucast (qp_port q)\<rparr>"
  have t: "trace_destroy_qp_user ctx ?qp w = submit STAT_DESTROY_COUNT (read_src_into q (ucast (qp_port q)) ev (bw_stats w)) w"
    using p by (simp add: trace_destroy_qp_user_def ev_def INVALID_PORT_NUM_def Let_def)
  have "event_ok ev" "all_zero (ev_SrcGID ev)" "gids_ok q"
    using assms(1) p by (auto simp: ev_def init_rdma_event_def event_ok_def)
  from submit_counts[OF this(3,1,2), of STAT_DESTROY_COUNT "ucast (qp_port q)" w] obtain gid where g: "event_ok (ev\<lparr>ev_SrcGID := gid\<rparr>)"
    "bw_ring (trace_destroy_qp_user ctx ?qp w) = bw_ring w @ [event_bytes (ev\<lparr>ev_SrcGID := gid\<rparr>)]"
    "bw_stats (trace_destroy_qp_user ctx ?qp w) 0 = bw_stats w 0" "bw_stats (trace_destroy_qp_user ctx ?qp w) 1 = bw_stats w 1"
    "bw_stats (trace_destroy_qp_user ctx ?qp w) 2 = bw_stats w 2 + 1" "bw_stats (trace_destroy_qp_user ctx ?qp w) 4 = bw_stats w 4 + of_bool (\<not> all_zero gid)"
    unfolding t by (auto simp: Let_def)
  have "bpf_event (ev\<lparr>ev_SrcGID := gid\<rparr>)" "event_key (ev\<lparr>ev_SrcGID := gid\<rparr>) = call_key params (KDestroy ctx regs)" "ev_EventType (ev\<lparr>ev_SrcGID := gid\<rparr>) = RdmaEventDestroy"
    using g(1) p by (auto simp: bpf_event_def event_key_def ev_def init_rdma_event_def)
  from record_made[OF True this(1,2) g(2,3)] this(3) g(4-6) show ?thesis by (simp add: RdmaEventModify_def RdmaEventDestroy_def)
next
  case False
  then show ?thesis using assms(2) by (intro no_record) (auto simp: trace_destroy_qp_user_def records_destroy_def INVALID_PORT_NUM_def Let_def split: kptr.splits)
qed

lemma bpf_call_effect:
  assumes "call_ok params c"
  shows "call_effect hooks params c w (bpf_call hooks params c w)"
proof (cases c)
  case (KModify ctx regs)
  then show ?thesis using assms modify_effect[of params ctx regs hooks w] no_record[of hooks params c w w] by (cases "modify_qp \<in> set hooks") auto
next
  case (KDestroy ctx regs)
  then show ?thesis using assms destroy_effect[of params ctx regs hooks w] no_record[of hooks params c w w] by (cases "destroy_qp \<in> set hooks") auto
qed

text \<open>What the eBPF program reports of a run of kernel calls. The ring buffer holds one record per recording
  run, in order, each the bytes of an event with the type of the run and the number its first
  parameter reads as; every modification reported has the state ready-to-receive. The statistics that are
  not about errors count those records: the modifications, the destructions, and those whose
  source GID could be read; creations are never counted.\<close>

lemma bpf_run_records:
  assumes "\<forall>c \<in> set calls. call_ok params c"
  shows "\<exists>es. bw_ring (bpf_run hooks params calls fresh_bpf) = map event_bytes es \<and> (\<forall>e \<in> set es. bpf_event e)
     \<and> map event_key es = map (call_key params) (filter (traced hooks params) calls)
     \<and> (let s = bw_stats (bpf_run hooks params calls fresh_bpf) in s (stat_key STAT_CREATE_COUNT) = 0
        \<and> s (stat_key STAT_MODIFY_COUNT) = of_nat (length (filter (\<lambda>e. ev_EventType e = RdmaEventModify) es))
        \<and> s (stat_key STAT_DESTROY_COUNT) = of_nat (length (filter (\<lambda>e. ev_EventType e = RdmaEventDestroy) es))
        \<and> s (stat_key STAT_GID_READ_SUCCESS) = of_nat (length (filter (\<lambda>e. \<not> all_zero (ev_SrcGID e)) es)))"
proof (use assms in \<open>induction calls rule: rev_induct\<close>)
  case Nil
  show ?case by (rule exI[of _ "[]"]) (simp add: bpf_run_def fresh_bpf_def)
next
  case (snoc c calls)
  let ?w = "bpf_run hooks params calls fresh_bpf"
  have step: "bpf_run hooks params (calls @ [c]) fresh_bpf = bpf_call hooks params c ?w" by (simp add: bpf_run_def)
  from snoc obtain es where es: "bw_ring ?w = map event_bytes es" "\<forall>e \<in> set es. bpf_event e" "map event_key es = map (call_key params) (filter (traced hooks params) calls)"
    "bw_stats ?w 0 = 0" "bw_stats ?w 1 = of_nat (length (filter (\<lambda>e. ev_EventType e = RdmaEventModify) es))"
    "bw_stats ?w 2 = of_nat (length (filter (\<lambda>e. ev_EventType e = RdmaEventDestroy) es))"
    "bw_stats ?w 4 = of_nat (length (filter (\<lambda>e. \<not> all_zero (ev_SrcGID e)) es))" by (auto simp: Let_def)
  have eff: "call_effect hooks params c ?w (bpf_call hooks params c ?w)" using snoc.prems by (intro bpf_call_effect) simp
  show ?case
  proof (cases "traced hooks params c")
    case True
    with eff obtain e where "bpf_event e" "event_key e = call_key params c" "bw_ring (bpf_call hooks params c ?w) = bw_ring ?w @ [event_bytes e]"
      "bw_stats (bpf_call hooks params c ?w) 0 = bw_stats ?w 0" "bw_stats (bpf_call hooks params c ?w) 1 = bw_stats ?w 1 + of_bool (ev_EventType e = RdmaEventModify)"
      "bw_stats (bpf_call hooks params c ?w) 2 = bw_stats ?w 2 + of_bool (ev_EventType e = RdmaEventDestroy)"
      "bw_stats (bpf_call hooks params c ?w) 4 = bw_stats ?w 4 + of_bool (\<not> all_zero (ev_SrcGID e))" by (auto simp: call_effect_def)
    then show ?thesis unfolding step using es True by (intro exI[of _ "es @ [e]"]) (auto simp: Let_def)
  next
    case False
    then show ?thesis unfolding step using es eff by (intro exI[of _ es]) (auto simp: call_effect_def same_counts_def Let_def)
  qed
qed


subsection \<open>The table of ports\<close>

text \<open>In the kernel the port data is indexed by port number, as the header of the program says, and the
  entry for number 0 is not in use. The program subtracts one: on a device with such a table
  the GID of port 1 is never found, and the failure is counted.\<close>

lemma port_1_missed:
  assumes "dev_port_data dev = Ptr pd" "pd 0 = Reads Null" "dev_phys_port_cnt dev \<ge> 1"
  shows "read_source_gid_core (Ptr dev) 1 i s = (None, increment_stat STAT_GID_TABLE_FAILURE s)"
proof -
  have "unat i < 256" by (rule order_less_le_trans[OF unsigned_less]) simp
  moreover have "dev_phys_port_cnt dev \<noteq> 0" using assms(3) by auto
  ultimately show ?thesis using assms by (simp add: read_source_gid_core_def read_port_gid_def INVALID_PORT_NUM_def MAX_GID_INDEX_def)
qed

end
