(* ===== verification/Go_Time.thy ===== *)
theory Go_Time
  imports Go_Base "HOL-Library.List_Lexorder" "HOL-Library.Char_ord"
begin

text \<open>
  Wall-clock time as text. The registry stores \<^verbatim>\<open>time.Now().UTC().Format(time.RFC3339)\<close>
  and compares it with SQLite's \<^verbatim>\<open>datetime('now', '-5 minutes')\<close>, both TEXT values, with
  the bytewise (BINARY) collation. The calendar is the proleptic Gregorian one, computed
  from the day number the way package time does. The result of the theory is what that
  comparison of two differently formatted strings decides: the calendar day only.
\<close>

named_theorems time_defs \<open>calendar and formatting functions\<close>

subsection \<open>Civil dates\<close>

definition is_leap :: "nat \<Rightarrow> bool" where
  [time_defs]: "is_leap y \<longleftrightarrow> y mod 4 = 0 \<and> (y mod 100 \<noteq> 0 \<or> y mod 400 = 0)"

text \<open>Year and day of the year of a day counted from 1 January of year 1.\<close>

definition year_yday :: "nat \<Rightarrow> nat \<times> nat" where
  [time_defs]: "year_yday d =
     (let n400 = d div 146097; d1 = d mod 146097;
          n100 = (let n = d1 div 36524 in n - n div 4); d2 = d1 - 36524 * n100;
          n4 = d2 div 1461; d3 = d2 mod 1461;
          n1 = (let n = d3 div 365 in n - n div 4)
      in (400 * n400 + 100 * n100 + 4 * n4 + n1 + 1, d3 - 365 * n1))"

definition year_len :: "nat \<Rightarrow> nat" where
  [time_defs]: "year_len y = (if is_leap y then 366 else 365)"

text \<open>The day number on which year \<open>y\<close> begins.\<close>

definition year_start :: "nat \<Rightarrow> nat" where
  "year_start y = 365 * (y - 1) + (y - 1) div 4 - (y - 1) div 100 + (y - 1) div 400"

lemma n_minus_quarter: "n \<le> (4::nat) \<Longrightarrow> n - n div 4 = min n 3"
  by (cases "n = 4") auto

lemma min3_quotient:
  fixes k n :: nat
  assumes "0 < k"
  shows "min (n div k) 3 \<le> 3" and "k * min (n div k) 3 \<le> n"
    and "min (n div k) 3 < 3 \<Longrightarrow> n < k * min (n div k) 3 + k"
proof -
  have "k * min (n div k) 3 \<le> k * (n div k)" by simp
  also have "\<dots> \<le> n" by simp
  finally show "k * min (n div k) 3 \<le> n" .
  assume "min (n div k) 3 < 3"
  then have "min (n div k) 3 = n div k" by simp
  then show "n < k * min (n div k) 3 + k"
    using assms by (metis add_less_cancel_left mod_less_divisor mult_div_mod_eq)
qed simp

lemma year_start_Suc: "1 \<le> y \<Longrightarrow> year_start (Suc y) = year_start y + year_len y"
proof -
  assume "1 \<le> y"
  then obtain z where y: "y = Suc z" by (cases y) auto
  have d4: "Suc z div 4 = z div 4 + (if Suc z mod 4 = 0 then 1 else 0)" by (simp add: div_Suc)
  have d100: "Suc z div 100 = z div 100 + (if Suc z mod 100 = 0 then 1 else 0)" by (simp add: div_Suc)
  have d400: "Suc z div 400 = z div 400 + (if Suc z mod 400 = 0 then 1 else 0)" by (simp add: div_Suc)
  have le: "z div 100 \<le> z div 4" by (rule div_le_mono2) auto
  have m400: "Suc z mod 400 = 0 \<Longrightarrow> Suc z mod 100 = 0"
    using dvd_trans[of 100 400 "Suc z"] by (simp add: mod_eq_0_iff_dvd)
  have m100: "Suc z mod 100 = 0 \<Longrightarrow> Suc z mod 4 = 0"
    using dvd_trans[of 4 100 "Suc z"] by (simp add: mod_eq_0_iff_dvd)
  show ?thesis
    unfolding y year_start_def year_len_def is_leap_def diff_Suc_1 d4 d100 d400
    using le m400 m100 by (auto simp: add_ac)
qed

lemma year_start_mono: "1 \<le> a \<Longrightarrow> a \<le> b \<Longrightarrow> year_start a \<le> year_start b"
proof (induction b)
  case 0
  then show ?case by simp
next
  case (Suc b)
  then show ?case
    by (cases "a = Suc b") (auto simp: year_start_Suc)
qed

lemma year_yday_correct:
  assumes "year_yday d = (y, yd)"
  shows "1 \<le> y" and "d = year_start y + yd" and "yd < year_len y"
proof -
  define a where "a = d div 146097"
  define d1 where "d1 = d mod 146097"
  define b where "b = min (d1 div 36524) 3"
  define d2 where "d2 = d1 - 36524 * b"
  define c where "c = d2 div 1461"
  define d3 where "d3 = d2 mod 1461"
  define e where "e = min (d3 div 365) 3"
  have d: "d = 146097 * a + d1" "d1 < 146097" by (simp_all add: a_def d1_def)
  have "d1 div 36524 \<le> 4" using d(2) by simp
  then have b': "d1 div 36524 - d1 div 36524 div 4 = b" by (simp add: b_def n_minus_quarter)
  note b = min3_quotient[of 36524 d1, folded b_def, simplified]
  have d2: "d1 = 36524 * b + d2" "d2 < 36525" "b < 3 \<Longrightarrow> d2 < 36524"
    using b d(2) unfolding d2_def by (auto, cases "b = 3", auto)
  have c: "d2 = 1461 * c + d3" "d3 < 1461" by (simp_all add: c_def d3_def)
  have c24: "c \<le> 24" using c d2 by simp
  have "d3 div 365 \<le> 4" using c(2) by simp
  then have e': "d3 div 365 - d3 div 365 div 4 = e" by (simp add: e_def n_minus_quarter)
  note e = min3_quotient[of 365 d3, folded e_def, simplified]
  have yy: "y = 400 * a + 100 * b + 4 * c + e + 1" and yd: "yd = d3 - 365 * e"
    using assms unfolding year_yday_def Let_def a_def[symmetric] d1_def[symmetric] b' d2_def[symmetric]
      c_def[symmetric] d3_def[symmetric] e'
    by simp_all
  show "1 \<le> y" using yy by simp
  have q4: "(y - 1) div 4 = 100 * a + 25 * b + c" using yy e(1) by simp
  have q100: "(y - 1) div 100 = 4 * a + b" using yy e(1) c24 by simp
  have q400: "(y - 1) div 400 = a" using yy e(1) c24 b(1) by simp
  show "d = year_start y + yd"
    unfolding year_start_def q4 q100 q400 using yy yd d d2 c e by simp
  show "yd < year_len y"
  proof (cases "e < 3")
    case True
    then have "d3 < 365 * e + 365" using e by auto
    then have "yd < 365" using yd e by linarith
    then show ?thesis by (simp add: year_len_def)
  next
    case False
    with e have e3: "e = 3" by simp
    have "y = 4 * (100 * a + 25 * b + c + 1)" "y = (4 * c + 4) + 100 * (4 * a + b)"
        "y = (100 * b + 4 * c + 4) + 400 * a"
      using yy e3 by simp_all
    then have ym: "y mod 4 = 0" "y mod 100 = (4 * c + 4) mod 100" "y mod 400 = (100 * b + 4 * c + 4) mod 400"
      by (metis mod_mult_self1_is_0, metis mod_mult_self2, metis mod_mult_self2)
    have yd': "yd = d3 - 1095" using yd e3 by simp
    show ?thesis
    proof (cases "c < 24")
      case True
      then have "is_leap y" using ym by (simp add: is_leap_def)
      then show ?thesis using yd' c(2) by (simp add: year_len_def)
    next
      case False
      with c24 have c24': "c = 24" by simp
      show ?thesis
      proof (cases "b < 3")
        case True
        then have "d3 < 1460" using c24' c d2 by simp
        then have "yd < 365" using yd' by linarith
        then show ?thesis by (simp add: year_len_def)
      next
        case False
        with b have "b = 3" by simp
        then have "is_leap y" using ym c24' by (simp add: is_leap_def)
        then show ?thesis using yd' c(2) by (simp add: year_len_def)
      qed
    qed
  qed
qed

lemma year_yday_mono:
  assumes "d < d'" and "year_yday d = (y, yd)" and "year_yday d' = (y', yd')"
  shows "y < y' \<or> (y = y' \<and> yd < yd')"
proof -
  note A = year_yday_correct[OF assms(2)] and B = year_yday_correct[OF assms(3)]
  show ?thesis
  proof (cases y y' rule: linorder_cases)
    case greater
    then have "year_start (Suc y') \<le> year_start y" using B(1) by (intro year_start_mono) auto
    then show ?thesis using A B assms(1) year_start_Suc[OF B(1)] by simp
  qed (use A B assms(1) in auto)
qed

text \<open>Month (from 1) and day of the month, by walking over the months' lengths.\<close>

fun month_day :: "nat list \<Rightarrow> nat \<Rightarrow> nat \<Rightarrow> nat \<times> nat" where
  "month_day [] m d = (m, d + 1)"
| "month_day (l # ls) m d = (if d < l then (m, d + 1) else month_day ls (m + 1) (d - l))"

definition month_lens :: "nat \<Rightarrow> nat list" where
  [time_defs]: "month_lens y = [31, if is_leap y then 29 else 28, 31, 30, 31, 30, 31, 31, 30, 31, 30, 31]"

definition civil :: "nat \<Rightarrow> nat \<times> nat \<times> nat" where
  [time_defs]: "civil d = (let (y, yd) = year_yday d; (m, dd) = month_day (month_lens y) 1 yd in (y, m, dd))"

lemma month_day_ge: "month_day ls m d = (m', dd) \<Longrightarrow> m \<le> m'"
  by (induction ls m d rule: month_day.induct) (auto split: if_splits)

lemma month_day_mono:
  "d < d' \<Longrightarrow> month_day ls m d = (a, b) \<Longrightarrow> month_day ls m d' = (a', b') \<Longrightarrow> a < a' \<or> (a = a' \<and> b < b')"
proof (induction ls m d arbitrary: d' rule: month_day.induct)
  case (1 m d)
  then show ?case by auto
next
  case (2 l ls m d)
  show ?case
  proof (cases "d < l")
    case True
    with 2 show ?thesis by (auto split: if_splits dest!: month_day_ge)
  next
    case False
    with 2 have "d - l < d' - l" "month_day ls (m + 1) (d - l) = (a, b)" "month_day ls (m + 1) (d' - l) = (a', b')"
      by auto
    with "2.IH" False show ?thesis by blast
  qed
qed

lemma month_day_bounds:
  "d < sum_list ls \<Longrightarrow> month_day ls m d = (a, b) \<Longrightarrow> \<forall>l \<in> set ls. l \<le> 31 \<Longrightarrow> a < m + length ls \<and> 1 \<le> b \<and> b \<le> 31"
  by (induction ls m d rule: month_day.induct) (auto split: if_splits)

lemma sum_month_lens: "sum_list (month_lens y) = year_len y"
  by (simp add: month_lens_def year_len_def)

lemma civil_bounds:
  assumes "civil d = (y, m, dd)"
  shows "m < 100 \<and> dd < 100"
proof -
  obtain yd where y: "year_yday d = (y, yd)" "month_day (month_lens y) 1 yd = (m, dd)"
    using assms by (auto simp: civil_def split: prod.splits)
  from year_yday_correct(3)[OF y(1)] have "yd < sum_list (month_lens y)" by (simp add: sum_month_lens)
  moreover have "\<forall>l \<in> set (month_lens y). l \<le> 31" "length (month_lens y) = 12" by (auto simp: month_lens_def)
  ultimately have "m < 1 + 12 \<and> dd \<le> 31" using month_day_bounds[OF _ y(2)] by auto
  then show ?thesis by simp
qed

lemma civil_mono:
  assumes "d < d'" and "civil d = (y, m, dd)" and "civil d' = (y', m', dd')"
  shows "y < y' \<or> (y = y' \<and> (m < m' \<or> (m = m' \<and> dd < dd')))"
proof -
  obtain yd where a: "year_yday d = (y, yd)" "month_day (month_lens y) 1 yd = (m, dd)"
    using assms(2) by (auto simp: civil_def split: prod.splits)
  obtain yd' where b: "year_yday d' = (y', yd')" "month_day (month_lens y') 1 yd' = (m', dd')"
    using assms(3) by (auto simp: civil_def split: prod.splits)
  from year_yday_mono[OF assms(1) a(1) b(1)] show ?thesis
    using month_day_mono[of yd yd' "month_lens y" 1] a(2) b(2) by auto
qed

subsection \<open>Fixed-width decimal fields and string order\<close>

fun pad :: "nat \<Rightarrow> nat \<Rightarrow> string" where
  "pad 0 n = []"
| "pad (Suc k) n = pad k (n div 10) @ [digit_char (n mod 10)]"

lemma length_pad [simp]: "length (pad k n) = k"
  by (induction k arbitrary: n) auto

lemma digit_char_less: "a < b \<Longrightarrow> b < 10 \<Longrightarrow> digit_char a < digit_char b"
  by (simp add: less_char_def)

lemma less_append_same_length:
  fixes a b x y :: "'a::linorder list"
  assumes "length a = length b"
  shows "a @ x < b @ y \<longleftrightarrow> a < b \<or> (a = b \<and> x < y)"
  using assms by (induction a b rule: list_induct2) auto

lemma pad_mono: "a < b \<Longrightarrow> b < 10 ^ k \<Longrightarrow> pad k a < pad k b"
proof (induction k arbitrary: a b)
  case 0
  then show ?case by simp
next
  case (Suc k)
  show ?case
  proof (cases "a div 10 = b div 10")
    case True
    with Suc.prems(1) have "a mod 10 < b mod 10"
      by (metis div_mult_mod_eq nat_add_left_cancel_less)
    with True show ?thesis by (simp add: less_append_same_length digit_char_less)
  next
    case False
    with Suc.prems(1) have "a div 10 < b div 10" using div_le_mono[of a b 10] by auto
    moreover have "b div 10 < 10 ^ k" using Suc.prems(2) by (simp add: less_mult_imp_div_less mult.commute)
    ultimately show ?thesis using Suc.IH by (simp add: less_append_same_length)
  qed
qed

subsection \<open>The two formats\<close>

text \<open>Unix seconds to the day number from year 1 and the second of the day.\<close>

definition day_of :: "int \<Rightarrow> nat" where
  [time_defs]: "day_of t = nat (t div 86400 + 719162)"

definition sec_of_day :: "int \<Rightarrow> nat" where
  [time_defs]: "sec_of_day t = nat (t mod 86400)"

definition date_string :: "nat \<Rightarrow> string" where
  [time_defs]: "date_string d = (let (y, m, dd) = civil d in pad 4 y @ ''-'' @ pad 2 m @ ''-'' @ pad 2 dd)"

definition clock_string :: "nat \<Rightarrow> string" where
  [time_defs]: "clock_string s = pad 2 (s div 3600) @ '':'' @ pad 2 (s div 60 mod 60) @ '':'' @ pad 2 (s mod 60)"

definition rfc3339 :: "int \<Rightarrow> string" where
  [time_defs]: "rfc3339 t = date_string (day_of t) @ ''T'' @ clock_string (sec_of_day t) @ ''Z''"

definition sqlite_datetime :: "int \<Rightarrow> string" where
  [time_defs]: "sqlite_datetime t = date_string (day_of t) @ '' '' @ clock_string (sec_of_day t)"

text \<open>Times from the epoch to the end of year 9999, where a year has four digits.\<close>

definition four_digit_time :: "int \<Rightarrow> bool" where
  [time_defs]: "four_digit_time t \<longleftrightarrow> 0 \<le> t \<and> t < 253402300800"

lemma length_date_string [simp]: "length (date_string d) = 10"
  by (simp add: date_string_def split: prod.splits)

lemma civil_year_bound:
  assumes "d < 3652059" and "civil d = (y, m, dd)"
  shows "y < 10000"
proof (rule ccontr)
  assume "\<not> y < 10000"
  obtain yd where y: "year_yday d = (y, yd)"
    using assms(2) by (auto simp: civil_def split: prod.splits)
  have "year_start 10000 \<le> year_start y" using \<open>\<not> y < 10000\<close> by (intro year_start_mono) auto
  moreover have "year_start 10000 = 3652059" by (simp add: year_start_def)
  ultimately show False using year_yday_correct(2)[OF y] assms(1) by simp
qed

lemma date_string_mono:
  assumes "d < d'" and "d' < 3652059"
  shows "date_string d < date_string d'"
proof -
  obtain y m dd where c: "civil d = (y, m, dd)" by (metis prod_cases3)
  obtain y' m' dd' where c': "civil d' = (y', m', dd')" by (metis prod_cases3)
  have "y' < 10 ^ 4" using civil_year_bound[OF assms(2) c'] by simp
  moreover have "m' < 10 ^ 2" "dd' < 10 ^ 2" using civil_bounds[OF c'] by simp_all
  ultimately show ?thesis
    using civil_mono[OF assms(1) c c'] pad_mono[of y y' 4] pad_mono[of m m' 2] pad_mono[of dd dd' 2]
    by (auto simp: date_string_def c c' less_append_same_length)
qed

lemma date_string_less_iff:
  "d < 3652059 \<Longrightarrow> d' < 3652059 \<Longrightarrow> date_string d < date_string d' \<longleftrightarrow> d < d'"
  by (metis date_string_mono less_asym linorder_neqE_nat less_irrefl)

lemma date_string_eq_iff:
  "d < 3652059 \<Longrightarrow> d' < 3652059 \<Longrightarrow> date_string d = date_string d' \<longleftrightarrow> d = d'"
  by (metis date_string_mono linorder_neqE_nat less_irrefl)

lemma day_of_bound: "four_digit_time t \<Longrightarrow> day_of t < 3652059"
proof -
  assume "four_digit_time t"
  then have "t < 2932897 * 86400" by (simp add: four_digit_time_def)
  moreover have "t = t div 86400 * 86400 + t mod 86400" "0 \<le> t mod 86400" by simp_all
  ultimately have "t div 86400 < 2932897" by linarith
  then show ?thesis by (simp add: day_of_def)
qed

text \<open>
  The comparison the registry's queries make. The letter T follows the blank in the
  byte order, so a stored instant of the same day is greater than the cutoff whatever
  the time of day.
\<close>

lemma T_blank_less [simp]: "CHR '' '' < CHR ''T''" "\<not> CHR ''T'' < CHR '' ''"
  by (simp_all add: less_char_def)

lemma rfc3339_greater_datetime:
  "four_digit_time t \<Longrightarrow> four_digit_time c \<Longrightarrow>
     sqlite_datetime c < rfc3339 t \<longleftrightarrow> day_of c \<le> day_of t"
  by (auto simp: rfc3339_def sqlite_datetime_def less_append_same_length
      date_string_less_iff date_string_eq_iff day_of_bound)

lemma rfc3339_less_datetime:
  "four_digit_time t \<Longrightarrow> four_digit_time c \<Longrightarrow>
     rfc3339 t < sqlite_datetime c \<longleftrightarrow> day_of t < day_of c"
  by (auto simp: rfc3339_def sqlite_datetime_def less_append_same_length
      date_string_less_iff date_string_eq_iff day_of_bound)

lemma day_of_mono: "s \<le> t \<Longrightarrow> day_of s \<le> day_of t"
  unfolding day_of_def by (intro nat_mono add_right_mono zdiv_mono1) auto

lemma day_of_less: "0 \<le> s \<Longrightarrow> day_of s < day_of t \<longleftrightarrow> s div 86400 < t div 86400"
proof -
  assume "0 \<le> s"
  then have "0 \<le> s div 86400" by (simp add: pos_imp_zdiv_nonneg_iff)
  then show ?thesis unfolding day_of_def by (auto simp: zless_nat_conj)
qed

lemma day_of_le_age:
  assumes "four_digit_time t" and "four_digit_time (now - k)" and "day_of (now - k) \<le> day_of t"
  shows "now - t < 86400 + k"
proof -
  have "0 \<le> t" "0 \<le> now - k" using assms by (simp_all add: four_digit_time_def)
  then have "(now - k) div 86400 \<le> t div 86400"
    using day_of_less[of t "now - k"] assms(3) by linarith
  moreover have "t = t div 86400 * 86400 + t mod 86400" "0 \<le> t mod 86400"
    "now - k = (now - k) div 86400 * 86400 + (now - k) mod 86400" "(now - k) mod 86400 < 86400" by simp_all
  ultimately show ?thesis by linarith
qed

end
