(* ===== verification/Registry.thy ===== *)
theory Registry
  imports Proto Go_Chan Go_Time "HOL-Library.Multiset" "HOL-Library.Product_Lexorder"
begin

text \<open>
  The controller's RNIC registry (internal/controller/registry/registry.go): the table
  \<^verbatim>\<open>rnics\<close> of the database as a list of rows and each method as the SQL statement it
  sends. The database is not part of the repository: whether a statement fails, in which
  order SELECT returns rows and which row of a group a bare column comes from are
  arguments (\<^verbatim>\<open>db_reply\<close>), restricted only by what SQL promises (\<^verbatim>\<open>db_ok\<close>).
  Text comparison is SQLite's BINARY collation, the byte order of strings.
\<close>

named_theorems reg_defs \<open>registry definitions, for unfolding\<close>

subsection \<open>Table and database replies\<close>

record rnic_row =
  rnic_gid :: string
  qpn :: int
  agent_id :: string
  agent_ip :: string
  rnic_ip :: string
  tor_id :: string
  hostname :: string
  device_name :: string
  last_updated :: string

type_synonym rnics_table = "rnic_row list"

record db_reply =
  db_err :: "string option"
  db_order :: "rnic_row list \<Rightarrow> rnic_row list"
  db_pick :: "rnic_row list \<Rightarrow> rnic_row"
  db_scan_err :: "nat \<Rightarrow> string option"

definition db_ok :: "db_reply \<Rightarrow> bool" where
  [reg_defs]: "db_ok q \<longleftrightarrow> db_err q = None \<and> (\<forall>i. db_scan_err q i = None) \<and>
     (\<forall>rs. mset (db_order q rs) = mset rs) \<and> (\<forall>rs. rs \<noteq> [] \<longrightarrow> db_pick q rs \<in> set rs)"

text \<open>\<^verbatim>\<open>datetime('now', '-k minutes')\<close> on the database's clock.\<close>

definition cutoff :: "int \<Rightarrow> int \<Rightarrow> string" where
  [reg_defs]: "cutoff now minutes = sqlite_datetime (now - 60 * minutes)"

subsection \<open>Operations\<close>

text \<open>NewRnicRegistry and initializeSchema: connect, create the table, create the indexes;
  a failed schema step closes the connection. The result is the connection's fate.\<close>

datatype conn_state = NotConnected | Open_conn | Closed_conn

definition initializeSchema :: "string option \<Rightarrow> string option \<Rightarrow> unit res" where
  [reg_defs]: "initializeSchema table_err index_err =
     (case table_err of Some e \<Rightarrow> Inl (''failed to create rnics table: '' @ e)
      | None \<Rightarrow> (case index_err of Some e \<Rightarrow> Inl (''failed to create indexes: '' @ e) | None \<Rightarrow> Inr ()))"

definition NewRnicRegistry ::
  "string option \<Rightarrow> string option \<Rightarrow> string option \<Rightarrow> conn_state \<times> conn_state res" where
  [reg_defs]: "NewRnicRegistry open_err table_err index_err =
     (case open_err of Some e \<Rightarrow> (NotConnected, Inl (''failed to connect to rqlite: '' @ e))
      | None \<Rightarrow> (case initializeSchema table_err index_err of
           Inl e \<Rightarrow> (Closed_conn, Inl (''failed to initialize schema: '' @ e))
         | Inr _ \<Rightarrow> (Open_conn, Inr Open_conn)))"

definition Registry_Close :: "conn_state \<Rightarrow> conn_state" where
  [reg_defs]: "Registry_Close c = (if c \<noteq> NotConnected then Closed_conn else c)"

text \<open>INSERT OR REPLACE deletes the row with the same primary key and inserts the new one.\<close>

definition delete_gid :: "string \<Rightarrow> rnics_table \<Rightarrow> rnics_table" where
  [reg_defs]: "delete_gid g rows = filter (\<lambda>r. rnic_gid r \<noteq> g) rows"

definition insert_or_replace :: "rnic_row \<Rightarrow> rnics_table \<Rightarrow> rnics_table" where
  [reg_defs]: "insert_or_replace r rows = delete_gid (rnic_gid r) rows @ [r]"

definition rnic_row_of :: "int \<Rightarrow> string \<Rightarrow> string \<Rightarrow> RnicInfo \<Rightarrow> rnic_row" where
  [reg_defs]: "rnic_row_of now agentID agentIP rnic =
     \<lparr>rnic_gid = ri_Gid rnic, qpn = uint (ri_Qpn rnic), agent_id = agentID, agent_ip = agentIP,
      rnic_ip = ri_IpAddress rnic, tor_id = ri_TorId rnic, hostname = ri_HostName rnic,
      device_name = ri_DeviceName rnic, last_updated = rfc3339 now\<rparr>"

definition RegisterRNIC ::
  "string option \<Rightarrow> int \<Rightarrow> string \<Rightarrow> string \<Rightarrow> RnicInfo \<Rightarrow> rnics_table \<Rightarrow> unit res \<times> rnics_table" where
  [reg_defs]: "RegisterRNIC err now agentID agentIP rnic rows =
     (case err of Some e \<Rightarrow> (Inl (''failed to register RNIC: '' @ e), rows)
      | None \<Rightarrow> (Inr (), insert_or_replace (rnic_row_of now agentID agentIP rnic) rows))"

text \<open>The columns of a SELECT, converted as the row loop does.\<close>

definition rnic_of_row :: "rnic_row \<Rightarrow> RnicInfo" where
  [reg_defs]: "rnic_of_row r =
     \<lparr>ri_Gid = rnic_gid r, ri_Qpn = word_of_int (qpn r), ri_IpAddress = rnic_ip r,
      ri_HostName = hostname r, ri_TorId = tor_id r, ri_DeviceName = device_name r\<rparr>"

text \<open>\<^verbatim>\<open>for result.Next() { result.Scan(...); rnics = append(...) }\<close>\<close>

fun scan_loop :: "('r \<Rightarrow> 'a) \<Rightarrow> (nat \<Rightarrow> string option) \<Rightarrow> nat \<Rightarrow> 'r list \<Rightarrow> 'a list \<Rightarrow> 'a list res" where
  "scan_loop f se i [] acc = Inr acc"
| "scan_loop f se i (r # rs) acc =
     (case se i of Some e \<Rightarrow> Inl (''failed to scan row: '' @ e)
      | None \<Rightarrow> scan_loop f se (Suc i) rs (acc @ [f r]))"

definition GetRNICsByToR :: "db_reply \<Rightarrow> int \<Rightarrow> string \<Rightarrow> rnics_table \<Rightarrow> RnicInfo list res" where
  [reg_defs]: "GetRNICsByToR q now torID rows =
     (case db_err q of Some e \<Rightarrow> Inl (''failed to query RNICs by ToR: '' @ e)
      | None \<Rightarrow> scan_loop rnic_of_row (db_scan_err q) 0
          (db_order q (filter (\<lambda>r. tor_id r = torID \<and> cutoff now 5 < last_updated r) rows)) [])"

text \<open>GROUP BY tor_id with bare columns: one row of each group.\<close>

definition group_by_tor :: "(rnic_row list \<Rightarrow> rnic_row) \<Rightarrow> rnic_row list \<Rightarrow> rnic_row list" where
  [reg_defs]: "group_by_tor pick rs =
     map (\<lambda>t. pick (filter (\<lambda>r. tor_id r = t) rs)) (remdups (map tor_id rs))"

definition GetSampleRNICsFromOtherToRs :: "db_reply \<Rightarrow> int \<Rightarrow> string \<Rightarrow> rnics_table \<Rightarrow> RnicInfo list res" where
  [reg_defs]: "GetSampleRNICsFromOtherToRs q now excludeTorID rows =
     (case db_err q of Some e \<Rightarrow> Inl (''failed to query sample RNICs: '' @ e)
      | None \<Rightarrow> scan_loop rnic_of_row (db_scan_err q) 0
          (take 5 (db_order q (group_by_tor (db_pick q)
             (filter (\<lambda>r. tor_id r \<noteq> excludeTorID \<and> cutoff now 5 < last_updated r) rows)))) [])"

definition GetRNICInfo :: "db_reply \<Rightarrow> int \<Rightarrow> string \<Rightarrow> string \<Rightarrow> rnics_table \<Rightarrow> RnicInfo option res" where
  [reg_defs]: "GetRNICInfo q now targetIP targetGID rows =
     (if targetIP = '''' \<and> targetGID = '''' then Inl ''either targetIP or targetGID must be provided''
      else let matching = (if targetGID \<noteq> ''''
                 then filter (\<lambda>r. rnic_gid r = targetGID \<and> cutoff now 5 < last_updated r) rows
                 else filter (\<lambda>r. rnic_ip r = targetIP \<and> cutoff now 5 < last_updated r) rows)
           in case db_err q of Some e \<Rightarrow> Inl (''failed to query RNIC info: '' @ e)
              | None \<Rightarrow> (case take 1 (db_order q matching) of [] \<Rightarrow> Inr None
                  | r # _ \<Rightarrow> (case db_scan_err q 0 of Some e \<Rightarrow> Inl (''failed to scan row: '' @ e)
                      | None \<Rightarrow> Inr (Some (rnic_of_row r)))))"

definition CleanupStaleEntries :: "string option \<Rightarrow> int \<Rightarrow> rnics_table \<Rightarrow> unit res \<times> rnics_table" where
  [reg_defs]: "CleanupStaleEntries err now rows =
     (case err of Some e \<Rightarrow> (Inl (''failed to cleanup stale entries: '' @ e), rows)
      | None \<Rightarrow> (Inr (), filter (\<lambda>r. \<not> last_updated r < cutoff now 15) rows))"

definition ListAllRNICs :: "db_reply \<Rightarrow> int \<Rightarrow> rnics_table \<Rightarrow> RnicInfo list res" where
  [reg_defs]: "ListAllRNICs q now rows =
     (case db_err q of Some e \<Rightarrow> Inl (''failed to list RNICs: '' @ e)
      | None \<Rightarrow> scan_loop rnic_of_row (db_scan_err q) 0
          (sort_key (\<lambda>r. (tor_id r, hostname r))
             (db_order q (filter (\<lambda>r. cutoff now 15 < last_updated r) rows))) [])"

definition GetTorIDs :: "db_reply \<Rightarrow> int \<Rightarrow> rnics_table \<Rightarrow> string list res" where
  [reg_defs]: "GetTorIDs q now rows =
     (case db_err q of Some e \<Rightarrow> Inl (''failed to get ToR IDs: '' @ e)
      | None \<Rightarrow> scan_loop (\<lambda>t. t) (db_scan_err q) 0
          (sort (remdups (map tor_id (filter (\<lambda>r. cutoff now 15 < last_updated r) rows)))) [])"

subsection \<open>Rows and conversions\<close>

lemma rnic_of_row_of [simp]: "rnic_of_row (rnic_row_of now a ip rnic) = rnic"
  by (simp add: reg_defs)

lemma scan_loop_ok [simp]: "(\<And>i. se i = None) \<Longrightarrow> scan_loop f se i rs acc = Inr (acc @ map f rs)"
  by (induction f se i rs acc rule: scan_loop.induct) auto

lemma scan_loop_error: "scan_loop f se i rs acc = Inl e \<Longrightarrow>
    \<exists>k m. k < length rs \<and> se (i + k) = Some m \<and> e = ''failed to scan row: '' @ m"
proof (induction f se i rs acc rule: scan_loop.induct)
  case (1 f se i acc)
  then show ?case by simp
next
  case (2 f se i r rs acc)
  show ?case
  proof (cases "se i")
    case None
    with 2 obtain k m where "k < length rs" "se (Suc i + k) = Some m" "e = ''failed to scan row: '' @ m"
      by auto
    then show ?thesis by (intro exI[of _ "Suc k"]) auto
  next
    case (Some m)
    with 2 show ?thesis by (intro exI[of _ 0]) auto
  qed
qed

lemma db_okD:
  assumes "db_ok q"
  shows "db_err q = None" "db_scan_err q i = None" "mset (db_order q rs) = mset rs"
    "rs \<noteq> [] \<Longrightarrow> db_pick q rs \<in> set rs" "set (db_order q rs) = set rs" "length (db_order q rs) = length rs"
  using assms by (auto simp: db_ok_def dest: mset_eq_setD mset_eq_length)

lemma db_order_Nil [simp]: "db_ok q \<Longrightarrow> db_order q [] = []"
  using db_okD(3)[of q "[]"] by simp

lemma db_order_single [simp]: "db_ok q \<Longrightarrow> db_order q [r] = [r]"
  using db_okD(3)[of q "[r]"] by simp

subsection \<open>The table as a keyed store\<close>

definition row_of :: "rnics_table \<Rightarrow> string \<Rightarrow> rnic_row option" where
  "row_of rows g = find (\<lambda>r. rnic_gid r = g) rows"

definition pk :: "rnics_table \<Rightarrow> bool" where
  "pk rows \<longleftrightarrow> distinct (map rnic_gid rows)"

lemma row_of_delete: "row_of (delete_gid g rows) g' = (if g' = g then None else row_of rows g')"
  by (induction rows) (auto simp: row_of_def delete_gid_def find_None_iff)

lemma row_of_append: "row_of (xs @ ys) g = (case row_of xs g of None \<Rightarrow> row_of ys g | Some r \<Rightarrow> Some r)"
  by (induction xs) (auto simp: row_of_def)

lemma pk_filter: "pk rows \<Longrightarrow> pk (filter P rows)"
  by (simp add: pk_def distinct_map_filter)

lemma pk_delete: "pk rows \<Longrightarrow> pk (delete_gid g rows)"
  by (simp add: delete_gid_def pk_filter)

lemma pk_insert: "pk rows \<Longrightarrow> pk (insert_or_replace r rows)"
  using pk_delete[of rows "rnic_gid r"] by (auto simp: pk_def insert_or_replace_def delete_gid_def)

lemma row_of_insert: "row_of (insert_or_replace r rows) g = (if g = rnic_gid r then Some r else row_of rows g)"
  unfolding insert_or_replace_def row_of_append row_of_delete
  by (auto simp: row_of_def split: option.splits)

interpretation reg_store: keyed_store row_of insert_or_replace delete_gid rnic_gid pk
  by unfold_locales (simp_all add: pk_insert pk_delete row_of_insert row_of_delete)

lemma row_of_in: "row_of rows g = Some r \<Longrightarrow> r \<in> set rows \<and> rnic_gid r = g"
  by (auto simp: row_of_def find_Some_iff in_set_conv_nth)

lemma row_of_None: "row_of rows g = None \<longleftrightarrow> filter (\<lambda>r. rnic_gid r = g) rows = []"
  by (auto simp: row_of_def find_None_iff filter_empty_conv)

lemma filter_pk:
  "pk rows \<Longrightarrow> filter (\<lambda>r. rnic_gid r = g) rows = (case row_of rows g of None \<Rightarrow> [] | Some r \<Rightarrow> [r])"
proof (induction rows)
  case (Cons r rows)
  then have "pk rows" "rnic_gid r \<notin> rnic_gid ` set rows" by (auto simp: pk_def)
  moreover have "rnic_gid r = g \<Longrightarrow> filter (\<lambda>r. rnic_gid r = g) rows = []"
    using calculation(2) by (metis (mono_tags, lifting) filter_False imageI)
  ultimately show ?case using Cons.IH by (auto simp: row_of_def split: option.splits)
qed (simp add: row_of_def)

text \<open>A lookup by GID on a table with a primary key: the row under that GID, if fresh.\<close>

lemma GetRNICInfo_gid:
  assumes "pk rows" and "db_ok q" and "g \<noteq> ''''"
  shows "GetRNICInfo q now ip g rows =
    Inr (case row_of rows g of None \<Rightarrow> None
         | Some r \<Rightarrow> if cutoff now 5 < last_updated r then Some (rnic_of_row r) else None)"
proof -
  have "filter (\<lambda>r. rnic_gid r = g \<and> cutoff now 5 < last_updated r) rows =
      filter (\<lambda>r. cutoff now 5 < last_updated r) (filter (\<lambda>r. rnic_gid r = g) rows)"
    by (simp add: conj_commute)
  then show ?thesis
    using assms(2,3) by (auto simp: GetRNICInfo_def filter_pk[OF assms(1)] db_okD Let_def split: option.splits)
qed

subsection \<open>Freshness\<close>

text \<open>
  last_updated is written as RFC 3339 (a T between date and time) and compared, as text,
  with datetime (a blank there). On a row of the same day the T decides, so the cutoff
  of five or fifteen minutes is rounded to the start of its day.
\<close>

lemma fresh_iff:
  "four_digit_time t \<Longrightarrow> four_digit_time (now - 60 * m) \<Longrightarrow>
     cutoff now m < rfc3339 t \<longleftrightarrow> day_of (now - 60 * m) \<le> day_of t"
  by (simp add: cutoff_def rfc3339_greater_datetime)

lemma stale_iff:
  "four_digit_time t \<Longrightarrow> four_digit_time (now - 60 * m) \<Longrightarrow>
     rfc3339 t < cutoff now m \<longleftrightarrow> day_of t < day_of (now - 60 * m)"
  by (simp add: cutoff_def rfc3339_less_datetime)

lemma kept_iff:
  "four_digit_time t \<Longrightarrow> four_digit_time (now - 60 * m) \<Longrightarrow>
     cutoff now m \<le> rfc3339 t \<longleftrightarrow> day_of (now - 60 * m) \<le> day_of t"
  by (metis stale_iff not_less)

lemma fresh_recent:
  "four_digit_time t \<Longrightarrow> four_digit_time (now - 60 * m) \<Longrightarrow> now - 60 * m \<le> t \<Longrightarrow> cutoff now m < rfc3339 t"
  by (simp add: fresh_iff day_of_mono)

text \<open>C6: the registry's freshness test is by calendar day. A lookup by GID after a
  registration at time t returns exactly the registered RNIC when the day of the query's
  cutoff (five minutes before now) is not after the day of t, and nothing otherwise; so a
  row that is hours old is still served, although the query says five minutes.\<close>

theorem RegisterRNIC_GetRNICInfo:
  assumes "pk rows" and "db_ok q" and "ri_Gid rnic \<noteq> ''''"
    and "four_digit_time t" and "four_digit_time (now - 300)"
  shows "GetRNICInfo q now ip (ri_Gid rnic) (snd (RegisterRNIC None t aid aip rnic rows)) =
         Inr (if day_of (now - 300) \<le> day_of t then Some rnic else None)"
proof -
  let ?r = "rnic_row_of t aid aip rnic"
  have g: "rnic_gid ?r = ri_Gid rnic" and u: "last_updated ?r = rfc3339 t"
    by (simp_all add: rnic_row_of_def)
  have "row_of (insert_or_replace ?r rows) (ri_Gid rnic) = Some ?r"
    using reg_store.get_put[OF assms(1), of ?r "ri_Gid rnic"] by (simp add: g)
  with assms show ?thesis
    by (simp add: RegisterRNIC_def GetRNICInfo_gid[OF reg_store.invar_put[OF assms(1)] assms(2,3)]
        u fresh_iff)
qed

text \<open>A database that answers in table order and takes the first row of a group.\<close>

definition plain_db :: db_reply where
  "plain_db = \<lparr>db_err = None, db_order = \<lambda>rs. rs, db_pick = hd, db_scan_err = \<lambda>_. None\<rparr>"

lemma plain_db_ok [simp]: "db_ok plain_db"
  by (simp add: db_ok_def plain_db_def)

definition sample_rnic :: RnicInfo where
  "sample_rnic = \<lparr>ri_Gid = ''fe80::1'', ri_Qpn = 77, ri_IpAddress = ''10.0.0.1'', ri_HostName = ''h1'',
     ri_TorId = ''tor1'', ri_DeviceName = ''mlx5_0''\<rparr>"

text \<open>Registered at midnight, still served 80000 seconds later.\<close>

theorem RegisterRNIC_GetRNICInfo_witness:
  "GetRNICInfo plain_db 1700000000 '''' ''fe80::1''
     (snd (RegisterRNIC None 1699920000 ''a'' ''10.0.0.9'' sample_rnic [])) = Inr (Some sample_rnic)"
  using RegisterRNIC_GetRNICInfo[of "[]" plain_db sample_rnic 1699920000 1700000000 "''''" "''a''" "''10.0.0.9''"]
  by (simp add: pk_def sample_rnic_def time_defs)

subsection \<open>Reachable tables and refinement of a map\<close>

inductive reg_reachable :: "rnics_table \<Rightarrow> bool" where
  reg_empty: "reg_reachable []"
| reg_register: "reg_reachable rows \<Longrightarrow> reg_reachable (snd (RegisterRNIC err t aid aip rnic rows))"
| reg_cleanup: "reg_reachable rows \<Longrightarrow> reg_reachable (snd (CleanupStaleEntries err now rows))"

inductive_cases reg_reachable_ConsE: "reg_reachable (r # rows)"

definition written_row :: "rnic_row \<Rightarrow> bool" where
  "written_row r \<longleftrightarrow> (\<exists>t aid aip rnic. r = rnic_row_of t aid aip rnic)"

lemma RegisterRNIC_pk: "pk rows \<Longrightarrow> pk (snd (RegisterRNIC err t aid aip rnic rows))"
  by (simp add: RegisterRNIC_def pk_insert split: option.splits)

lemma CleanupStaleEntries_pk: "pk rows \<Longrightarrow> pk (snd (CleanupStaleEntries err now rows))"
  by (simp add: CleanupStaleEntries_def pk_filter split: option.splits)

lemma reg_reachable_pk: "reg_reachable rows \<Longrightarrow> pk rows"
  by (induction rule: reg_reachable.induct) (simp_all add: RegisterRNIC_pk CleanupStaleEntries_pk pk_def[of "[]"])

lemma reg_reachable_written: "reg_reachable rows \<Longrightarrow> r \<in> set rows \<Longrightarrow> written_row r"
proof (induction rule: reg_reachable.induct)
  case (reg_register rows err t aid aip rnic)
  then show ?case
    by (cases err) (auto simp: RegisterRNIC_def insert_or_replace_def delete_gid_def written_row_def)
next
  case (reg_cleanup rows err now)
  then show ?case by (cases err) (auto simp: CleanupStaleEntries_def)
qed simp

text \<open>What a client sees of the table: GID to RNIC and time stamp.\<close>

definition abs_reg :: "rnics_table \<Rightarrow> string \<Rightarrow> (RnicInfo \<times> string) option" where
  "abs_reg rows g = map_option (\<lambda>r. (rnic_of_row r, last_updated r)) (row_of rows g)"

lemma row_of_filter:
  assumes "pk rows"
  shows "row_of (filter P rows) g = (case row_of rows g of None \<Rightarrow> None | Some r \<Rightarrow> if P r then Some r else None)"
proof -
  have "filter (\<lambda>r. rnic_gid r = g) (filter P rows) = filter P (filter (\<lambda>r. rnic_gid r = g) rows)"
    by (simp add: conj_commute)
  then show ?thesis
    using filter_pk[OF assms, of g] filter_pk[OF pk_filter[OF assms, of P], of g]
    by (auto split: option.splits if_splits)
qed

text \<open>C2: on every reachable table the registry is a map from GID to RNIC: a successful
  registration is a map update with exactly the RNIC that was sent (the QPN survives its
  way through the database), a successful cleanup removes exactly the entries below the
  cutoff, and a failed statement changes nothing.\<close>

theorem registry_refines_map:
  assumes "reg_reachable rows"
  shows "abs_reg (snd (RegisterRNIC err t aid aip rnic rows)) =
           (if err = None then (abs_reg rows)(ri_Gid rnic \<mapsto> (rnic, rfc3339 t)) else abs_reg rows)
       \<and> abs_reg (snd (CleanupStaleEntries err now rows)) =
           (if err = None then (\<lambda>g. case abs_reg rows g of None \<Rightarrow> None
              | Some (i, u) \<Rightarrow> if u < cutoff now 15 then None else Some (i, u)) else abs_reg rows)"
proof
  note pk = reg_reachable_pk[OF assms]
  show "abs_reg (snd (RegisterRNIC err t aid aip rnic rows)) =
      (if err = None then (abs_reg rows)(ri_Gid rnic \<mapsto> (rnic, rfc3339 t)) else abs_reg rows)"
    by (cases err) (auto simp: RegisterRNIC_def abs_reg_def row_of_insert fun_eq_iff,
        auto simp: rnic_row_of_def)
  show "abs_reg (snd (CleanupStaleEntries err now rows)) =
      (if err = None then (\<lambda>g. case abs_reg rows g of None \<Rightarrow> None
         | Some (i, u) \<Rightarrow> if u < cutoff now 15 then None else Some (i, u)) else abs_reg rows)"
    by (cases err) (auto simp: CleanupStaleEntries_def abs_reg_def row_of_filter[OF pk] fun_eq_iff
        split: option.splits)
qed

theorem registry_refines_map_witness:
  "abs_reg (snd (RegisterRNIC None 1699920000 ''a'' ''ip'' (sample_rnic\<lparr>ri_Qpn := 78\<rparr>)
      (snd (RegisterRNIC None 1699920000 ''a'' ''ip'' sample_rnic [])))) ''fe80::1'' =
     Some (sample_rnic\<lparr>ri_Qpn := 78\<rparr>, rfc3339 1699920000)"
  using registry_refines_map[OF reg_register[OF reg_empty],
      of None 1699920000 "''a''" "''ip''" "sample_rnic\<lparr>ri_Qpn := 78\<rparr>" None 1699920000 "''a''" "''ip''" sample_rnic]
  by (simp add: sample_rnic_def)

text \<open>C12: on every reachable table, a cleanup at time now removes a row written at time t
  exactly when t lies on an earlier day than fifteen minutes before now. Nothing written on
  that day goes, however old, and what stays was written less than a day and fifteen
  minutes before now.\<close>

theorem CleanupStaleEntries_by_day:
  assumes "reg_reachable rows" and "rnic_row_of t aid aip rnic \<in> set rows"
    and "four_digit_time t" and "four_digit_time (now - 900)"
  shows "(rnic_row_of t aid aip rnic \<in> set (snd (CleanupStaleEntries None now rows))
           \<longleftrightarrow> day_of (now - 900) \<le> day_of t)
       \<and> (rnic_row_of t aid aip rnic \<in> set (snd (CleanupStaleEntries None now rows))
           \<longrightarrow> now - t < 86400 + 900)"
proof -
  have u: "last_updated (rnic_row_of t aid aip rnic) = rfc3339 t" by (simp add: rnic_row_of_def)
  have iff: "rnic_row_of t aid aip rnic \<in> set (snd (CleanupStaleEntries None now rows))
      \<longleftrightarrow> day_of (now - 900) \<le> day_of t"
    using assms(2-4) by (simp add: CleanupStaleEntries_def u kept_iff not_less)
  moreover have "day_of (now - 900) \<le> day_of t \<Longrightarrow> now - t < 86400 + 900"
    using assms(3,4) by (rule day_of_le_age)
  ultimately show ?thesis by blast
qed

theorem CleanupStaleEntries_by_day_witness:
  "rnic_row_of 1699920000 ''a'' ''ip'' sample_rnic \<in>
     set (snd (CleanupStaleEntries None 1700000000
       (snd (RegisterRNIC None 1699920000 ''a'' ''ip'' sample_rnic []))))"
  using CleanupStaleEntries_by_day[OF reg_register[OF reg_empty, of None 1699920000 "''a''" "''ip''" sample_rnic],
      of 1699920000 "''a''" "''ip''" sample_rnic 1700000000]
  by (simp add: RegisterRNIC_def insert_or_replace_def delete_gid_def time_defs)

subsection \<open>Queries\<close>

lemma GetRNICsByToR_ok:
  assumes "db_ok q"
  obtains rs where "GetRNICsByToR q now torID rows = Inr (map rnic_of_row rs)"
    and "mset rs = filter_mset (\<lambda>r. tor_id r = torID \<and> cutoff now 5 < last_updated r) (mset rows)"
  using assms by (simp add: GetRNICsByToR_def db_okD)

lemma set_remdups_groups:
  "t \<in> set (remdups (map tor_id rs)) \<Longrightarrow> filter (\<lambda>r. tor_id r = t) rs \<noteq> []"
  by (auto simp: filter_empty_conv)

lemma group_by_tor_tors:
  assumes "\<And>g. g \<noteq> [] \<Longrightarrow> pick g \<in> set g"
  shows "map tor_id (group_by_tor pick rs) = remdups (map tor_id rs)" and "set (group_by_tor pick rs) \<subseteq> set rs"
proof -
  have *: "pick (filter (\<lambda>r. tor_id r = t) rs) \<in> set (filter (\<lambda>r. tor_id r = t) rs)"
    if "t \<in> set (remdups (map tor_id rs))" for t
    using assms set_remdups_groups[OF that] by blast
  show "map tor_id (group_by_tor pick rs) = remdups (map tor_id rs)"
    unfolding group_by_tor_def map_map by (rule map_idI) (use * in auto)
  show "set (group_by_tor pick rs) \<subseteq> set rs"
    using * by (auto simp: group_by_tor_def)
qed

definition fresh_others :: "int \<Rightarrow> string \<Rightarrow> rnics_table \<Rightarrow> rnics_table" where
  "fresh_others now ex rows = filter (\<lambda>r. tor_id r \<noteq> ex \<and> cutoff now 5 < last_updated r) rows"

lemma GetSampleRNICs_sound:
  assumes "db_ok q"
  shows "\<exists>rs. GetSampleRNICsFromOtherToRs q now ex rows = Inr rs \<and> length rs \<le> 5
      \<and> distinct (map ri_TorId rs) \<and> set rs \<subseteq> rnic_of_row ` set (fresh_others now ex rows)
      \<and> ex \<notin> ri_TorId ` set rs
      \<and> (card (tor_id ` set (fresh_others now ex rows)) \<le> 5 \<longrightarrow>
           ri_TorId ` set rs = tor_id ` set (fresh_others now ex rows))"
proof -
  define fresh where "fresh = fresh_others now ex rows"
  let ?g = "db_order q (group_by_tor (db_pick q) fresh)"
  let ?rs = "map rnic_of_row (take 5 ?g)"
  note G = group_by_tor_tors[of "db_pick q" fresh, OF db_okD(4)[OF assms(1)]]
  have sub: "set ?g \<subseteq> set fresh" using G(2) db_okD(5)[OF assms(1)] by auto
  have m: "mset (map tor_id ?g) = mset (remdups (map tor_id fresh))"
    by (simp add: G(1)[symmetric] db_okD(3)[OF assms(1)])
  then have d: "distinct (map tor_id ?g)" by (metis distinct_remdups mset_eq_imp_distinct_iff)
  from m have s: "tor_id ` set ?g = tor_id ` set fresh" by (metis mset_eq_setD set_remdups list.set_map)
  have t: "map ri_TorId ?rs = take 5 (map tor_id ?g)" by (simp add: take_map o_def rnic_of_row_def)
  have len: "length ?g = card (tor_id ` set fresh)"
    using distinct_card[OF d] by (simp add: s)
  have "GetSampleRNICsFromOtherToRs q now ex rows = Inr ?rs"
    using assms(1) by (simp add: GetSampleRNICsFromOtherToRs_def db_okD fresh_def fresh_others_def)
  moreover have "distinct (map ri_TorId ?rs)" unfolding t using d by (rule distinct_take)
  moreover have sr: "set (take 5 ?g) \<subseteq> set fresh" using sub set_take_subset[of 5 ?g] by blast
  moreover have "ex \<notin> ri_TorId ` set ?rs"
    using sr by (auto simp: rnic_of_row_def fresh_def fresh_others_def)
  moreover have "card (tor_id ` set fresh) \<le> 5 \<Longrightarrow> ri_TorId ` set ?rs = tor_id ` set fresh"
    using s len by (simp add: image_image rnic_of_row_def)
  ultimately show ?thesis unfolding fresh_def[symmetric] by (intro exI[of _ ?rs]) auto
qed

text \<open>C13: the inter-ToR sample holds at most five RNICs, no two under the same ToR and
  none under the requester's, each of them the content of a fresh row; and when at most
  five other ToRs have fresh rows, every one of them is represented.\<close>

theorem GetSampleRNICsFromOtherToRs_correct:
  assumes "db_ok q"
  shows "\<exists>rs. GetSampleRNICsFromOtherToRs q now ex rows = Inr rs \<and> length rs \<le> 5
      \<and> distinct (map ri_TorId rs) \<and> set rs \<subseteq> rnic_of_row ` set (fresh_others now ex rows)
      \<and> ex \<notin> ri_TorId ` set rs
      \<and> (card (tor_id ` set (fresh_others now ex rows)) \<le> 5 \<longrightarrow>
           ri_TorId ` set rs = tor_id ` set (fresh_others now ex rows))"
  by (rule GetSampleRNICs_sound[OF assms])

lemma sample_row_fresh [simp]: "cutoff 1700000000 5 < rfc3339 1699920000"
  by (simp add: fresh_iff four_digit_time_def day_of_def)

theorem GetSampleRNICsFromOtherToRs_correct_witness:
  "\<exists>rs. GetSampleRNICsFromOtherToRs plain_db 1700000000 ''tor2''
      [rnic_row_of 1699920000 ''a'' ''ip'' sample_rnic] = Inr rs \<and> ri_TorId ` set rs = {''tor1''}"
  using GetSampleRNICsFromOtherToRs_correct[of plain_db 1700000000 "''tor2''"
      "[rnic_row_of 1699920000 ''a'' ''ip'' sample_rnic]"]
  by (auto simp: fresh_others_def rnic_row_of_def sample_rnic_def)

text \<open>GetTorIDs returns the ToR identifiers of the rows above the cutoff, each once, in
  increasing byte order.\<close>

theorem GetTorIDs_correct:
  assumes "db_ok q"
  shows "\<exists>ts. GetTorIDs q now rows = Inr ts \<and> sorted_wrt (<) ts
       \<and> set ts = tor_id ` set (filter (\<lambda>r. cutoff now 15 < last_updated r) rows)"
  using assms by (auto simp: GetTorIDs_def db_okD strict_sorted_iff)

theorem GetTorIDs_correct_witness:
  "\<exists>ts. GetTorIDs plain_db 1700000000 [rnic_row_of 1699920000 ''a'' ''ip'' sample_rnic,
       (rnic_row_of 1699920000 ''a'' ''ip'' sample_rnic)\<lparr>tor_id := ''a''\<rparr>] = Inr ts \<and> sorted_wrt (<) ts \<and> set ts = {''tor1'', ''a''}"
proof -
  have "cutoff 1700000000 15 < rfc3339 1699920000"
    by (simp add: fresh_iff four_digit_time_def day_of_def)
  then show ?thesis
    using GetTorIDs_correct[of plain_db 1700000000 "[rnic_row_of 1699920000 ''a'' ''ip'' sample_rnic,
       (rnic_row_of 1699920000 ''a'' ''ip'' sample_rnic)\<lparr>tor_id := ''a''\<rparr>]"]
    by (auto simp: rnic_row_of_def sample_rnic_def)
qed

end
