(* ===== verification/Pinglist.thy ===== *)
theory Pinglist
  imports Registry
begin

text \<open>
  The controller's pinglist generator (internal/controller/pinglist/pinglist.go): the
  ToR-mesh and inter-ToR lists over the registry's queries, and the hash from which the
  source port, flow label and priority of a target are derived. What the generator needs
  of the registry is the locale \<^verbatim>\<open>rnic_source\<close>, interpreted on the registry's model.
\<close>

subsection \<open>Ranging over a string\<close>

text \<open>
  \<^verbatim>\<open>for _, char := range s\<close> decodes UTF-8: a well-formed sequence gives its code point,
  any other byte gives U+FFFD and consumes one byte. The number returned with the rune is
  how many bytes follow the first one.
\<close>

definition cont_byte :: "nat \<Rightarrow> bool" where
  "cont_byte b \<longleftrightarrow> 128 \<le> b \<and> b \<le> 191"

definition decode_rune :: "nat \<Rightarrow> nat list \<Rightarrow> nat \<times> nat" where
  "decode_rune b0 bs =
     (let bad = (65533, 0); b1 = (if bs = [] then 0 else bs ! 0);
          b2 = (if length bs < 2 then 0 else bs ! 1); b3 = (if length bs < 3 then 0 else bs ! 2) in
      if b0 < 128 then (b0, 0)
      else if 194 \<le> b0 \<and> b0 \<le> 223 then
        (if cont_byte b1 then (b0 mod 32 * 64 + b1 mod 64, 1) else bad)
      else if 224 \<le> b0 \<and> b0 \<le> 239 then
        (if (if b0 = 224 then 160 else 128) \<le> b1 \<and> b1 \<le> (if b0 = 237 then 159 else 191) \<and> cont_byte b2
         then (b0 mod 16 * 4096 + b1 mod 64 * 64 + b2 mod 64, 2) else bad)
      else if 240 \<le> b0 \<and> b0 \<le> 244 then
        (if (if b0 = 240 then 144 else 128) \<le> b1 \<and> b1 \<le> (if b0 = 244 then 143 else 191) \<and>
            cont_byte b2 \<and> cont_byte b3
         then (b0 mod 8 * 262144 + b1 mod 64 * 4096 + b2 mod 64 * 64 + b3 mod 64, 3) else bad)
      else bad)"

function runes :: "nat list \<Rightarrow> nat list" where
  "runes [] = []"
| "runes (b # bs) = (let (r, k) = decode_rune b bs in r # runes (drop k bs))"
  by pat_completeness auto
termination by (relation "measure length") auto

lemma runes_ascii: "(\<forall>b \<in> set bs. b < 128) \<Longrightarrow> runes bs = bs"
  by (induction bs) (auto simp: decode_rune_def)

subsection \<open>Hash and derived fields\<close>

definition hash_step :: "u32 \<Rightarrow> nat \<Rightarrow> u32" where
  "hash_step h c = h * 31 + of_nat c"

definition hashGIDPair :: "string \<Rightarrow> string \<Rightarrow> u32" where
  "hashGIDPair gid1 gid2 =
     (let combined = gid1 @ '':'' @ gid2 in foldl hash_step 0 (runes (map of_char combined)))"

definition generateRequesterSpecificPort :: "string \<Rightarrow> string \<Rightarrow> u32" where
  "generateRequesterSpecificPort requesterGID targetGID =
     hashGIDPair requesterGID targetGID mod 16384 + 49152"

definition generateRequesterSpecificFlowLabel :: "string \<Rightarrow> string \<Rightarrow> nat \<Rightarrow> u32" where
  "generateRequesterSpecificFlowLabel requesterGID targetGID index =
     (let hash = hashGIDPair requesterGID targetGID + of_nat index * 1000 in hash mod 1048576)"

definition generateRequesterSpecificPriority :: "string \<Rightarrow> string \<Rightarrow> u32" where
  "generateRequesterSpecificPriority requesterGID targetGID = hashGIDPair requesterGID targetGID mod 8"

text \<open>The random variants, over the result of \<^verbatim>\<open>rand.Intn\<close>.\<close>

definition generateRandomPort :: "nat \<Rightarrow> u32" where
  "generateRandomPort intn = of_nat (intn + 49152)"

definition generateRandomFlowLabel :: "nat \<Rightarrow> u32" where
  "generateRandomFlowLabel intn = of_nat intn"

definition generateRandomPriority :: "nat \<Rightarrow> u32" where
  "generateRandomPriority intn = of_nat intn"

subsection \<open>Generation\<close>

definition mk_target :: "RnicInfo \<Rightarrow> nat \<Rightarrow> RnicInfo \<Rightarrow> ProtoPingTarget" where
  "mk_target requesterRnic i rnic =
     \<lparr>ppt_TargetRnic = Some rnic, ppt_SourceRnic = Some requesterRnic,
      ppt_SourcePort = generateRequesterSpecificPort (ri_Gid requesterRnic) (ri_Gid rnic),
      ppt_FlowLabel = generateRequesterSpecificFlowLabel (ri_Gid requesterRnic) (ri_Gid rnic) i,
      ppt_Priority = generateRequesterSpecificPriority (ri_Gid requesterRnic) (ri_Gid rnic)\<rparr>"

fun tor_mesh_loop :: "RnicInfo \<Rightarrow> nat \<Rightarrow> RnicInfo list \<Rightarrow> ProtoPingTarget list" where
  "tor_mesh_loop req i [] = []"
| "tor_mesh_loop req i (rnic # rnics) =
     (if ri_Gid rnic = ri_Gid req then tor_mesh_loop req (Suc i) rnics
      else mk_target req i rnic # tor_mesh_loop req (Suc i) rnics)"

fun inter_tor_loop :: "RnicInfo \<Rightarrow> nat \<Rightarrow> RnicInfo list \<Rightarrow> ProtoPingTarget list" where
  "inter_tor_loop req i [] = []"
| "inter_tor_loop req i (rnic # rnics) = mk_target req i rnic # inter_tor_loop req (Suc i) rnics"

definition generateTorMeshPinglist :: "db_reply \<Rightarrow> int \<Rightarrow> rnics_table \<Rightarrow> RnicInfo \<Rightarrow> ProtoPingTarget list res" where
  "generateTorMeshPinglist q now rows requesterRnic =
     (case GetRNICsByToR q now (ri_TorId requesterRnic) rows of
        Inl err \<Rightarrow> Inl err
      | Inr rnics \<Rightarrow> Inr (tor_mesh_loop requesterRnic 0 rnics))"

definition generateInterTorPinglist :: "db_reply \<Rightarrow> int \<Rightarrow> rnics_table \<Rightarrow> RnicInfo \<Rightarrow> ProtoPingTarget list res" where
  "generateInterTorPinglist q now rows requesterRnic =
     (case GetSampleRNICsFromOtherToRs q now (ri_TorId requesterRnic) rows of
        Inl err \<Rightarrow> Inl err
      | Inr rnics \<Rightarrow> Inr (inter_tor_loop requesterRnic 0 rnics))"

definition GeneratePinglist ::
  "db_reply \<Rightarrow> int \<Rightarrow> rnics_table \<Rightarrow> RnicInfo \<Rightarrow> PinglistType \<Rightarrow> ProtoPingTarget list res" where
  "GeneratePinglist q now rows requesterRnic pinglistType =
     (case pinglistType of
        TOR_MESH \<Rightarrow> generateTorMeshPinglist q now rows requesterRnic
      | INTER_TOR \<Rightarrow> generateInterTorPinglist q now rows requesterRnic
      | PinglistType_Other _ \<Rightarrow> generateTorMeshPinglist q now rows requesterRnic)"

subsection \<open>The fields' ranges\<close>

definition target_fields_ok :: "ProtoPingTarget \<Rightarrow> bool" where
  "target_fields_ok t \<longleftrightarrow> 49152 \<le> unat (ppt_SourcePort t) \<and> unat (ppt_SourcePort t) \<le> 65535 \<and>
     unat (ppt_FlowLabel t) < 2 ^ 20 \<and> unat (ppt_Priority t) < 8"

lemma unat_mod_less: "0 < unat (m::'a::len word) \<Longrightarrow> unat (x mod m) < unat m"
  by (simp add: unat_mod)

lemma generateRequesterSpecificPort_range:
  "49152 \<le> unat (generateRequesterSpecificPort a b) \<and> unat (generateRequesterSpecificPort a b) \<le> 65535"
proof -
  let ?x = "hashGIDPair a b mod 16384"
  have x: "unat ?x < 16384" using unat_mod_less[of 16384 "hashGIDPair a b"] by simp
  then have "unat (?x + 49152) = unat ?x + 49152"
    by (subst unat_add_lem[THEN iffD1]) simp_all
  with x show ?thesis by (simp add: generateRequesterSpecificPort_def)
qed

lemma mk_target_fields_ok: "target_fields_ok (mk_target req i rnic)"
proof -
  have "unat (generateRequesterSpecificFlowLabel a b i) < 2 ^ 20"
      "unat (generateRequesterSpecificPriority a b) < 8" for a b
    using unat_mod_less[of "1048576 :: u32"] unat_mod_less[of "8 :: u32"]
    by (simp_all add: generateRequesterSpecificFlowLabel_def generateRequesterSpecificPriority_def Let_def)
  then show ?thesis
    using generateRequesterSpecificPort_range by (simp add: target_fields_ok_def mk_target_def)
qed

lemma generateRandomPort_range:
  "n < 16384 \<Longrightarrow> 49152 \<le> unat (generateRandomPort n) \<and> unat (generateRandomPort n) \<le> 65535"
  unfolding generateRandomPort_def unat_of_nat by (simp add: take_bit_eq_mod)

lemma generateRandom_ranges:
  "n < 1048576 \<Longrightarrow> unat (generateRandomFlowLabel n) = n"
  "n < 8 \<Longrightarrow> unat (generateRandomPriority n) = n"
  by (simp_all add: generateRandomFlowLabel_def generateRandomPriority_def
      unat_of_nat take_bit_eq_mod)

text \<open>Horner's scheme: appending multiplies what is there by a power of 31, modulo
  2 to the 32.\<close>

lemma hash_fold: "foldl hash_step h cs = h * 31 ^ length cs + foldl hash_step 0 cs"
proof (induction cs arbitrary: h)
  case (Cons c cs)
  from Cons[of "hash_step h c"] Cons[of "hash_step 0 c"] show ?case
    by (simp add: hash_step_def algebra_simps)
qed simp

lemma hash_fold_sum:
  "foldl hash_step 0 cs = (\<Sum>i<length cs. of_nat (cs ! i) * 31 ^ (length cs - 1 - i))"
proof (induction cs rule: rev_induct)
  case (snoc c cs)
  have "(\<Sum>i<length cs. of_nat ((cs @ [c]) ! i) * 31 ^ (length cs - i)) =
      (\<Sum>i<length cs. of_nat (cs ! i) * 31 ^ (length cs - 1 - i)) * (31 :: u32)"
    unfolding sum_distrib_right
    by (rule sum.cong) (auto simp: nth_append Suc_diff_Suc mult.assoc simp flip: power_Suc2)
  then have "foldl hash_step 0 cs * 31 =
      (\<Sum>i<length cs. of_nat ((cs @ [c]) ! i) * 31 ^ (length cs - i))"
    by (simp add: snoc)
  then show ?case by (simp add: hash_step_def[of "foldl hash_step 0 cs" c])
qed simp

subsection \<open>What the generator needs of the registry\<close>

locale rnic_source =
  fixes valid :: "'q \<Rightarrow> bool"
    and in_tor :: "'q \<Rightarrow> int \<Rightarrow> string \<Rightarrow> 's \<Rightarrow> RnicInfo list res"
    and sample :: "'q \<Rightarrow> int \<Rightarrow> string \<Rightarrow> 's \<Rightarrow> RnicInfo list res"
  assumes in_tor_tor: "valid q \<Longrightarrow> in_tor q now t s = Inr rs \<Longrightarrow> r \<in> set rs \<Longrightarrow> ri_TorId r = t"
    and in_tor_total: "valid q \<Longrightarrow> \<exists>rs. in_tor q now t s = Inr rs"
    and sample_tor: "valid q \<Longrightarrow> sample q now t s = Inr rs \<Longrightarrow> r \<in> set rs \<Longrightarrow> ri_TorId r \<noteq> t"
    and sample_total: "valid q \<Longrightarrow> \<exists>rs. sample q now t s = Inr rs \<and> length rs \<le> 5"
begin

text \<open>A generator that turns the answer of a query into targets one by one.\<close>

definition mesh :: "'q \<Rightarrow> int \<Rightarrow> 's \<Rightarrow> RnicInfo \<Rightarrow> ProtoPingTarget list res" where
  "mesh q now s req = (case in_tor q now (ri_TorId req) s of Inl e \<Rightarrow> Inl e | Inr rs \<Rightarrow> Inr (tor_mesh_loop req 0 rs))"

definition inter :: "'q \<Rightarrow> int \<Rightarrow> 's \<Rightarrow> RnicInfo \<Rightarrow> ProtoPingTarget list res" where
  "inter q now s req = (case sample q now (ri_TorId req) s of Inl e \<Rightarrow> Inl e | Inr rs \<Rightarrow> Inr (inter_tor_loop req 0 rs))"

lemma tor_mesh_loop_mem:
  "t \<in> set (tor_mesh_loop req i rs) \<Longrightarrow>
     \<exists>r \<in> set rs. \<exists>j. t = mk_target req j r \<and> ri_Gid r \<noteq> ri_Gid req"
  by (induction req i rs rule: tor_mesh_loop.induct) (auto split: if_splits)

lemma inter_tor_loop_mem:
  "t \<in> set (inter_tor_loop req i rs) \<Longrightarrow> \<exists>r \<in> set rs. \<exists>j. t = mk_target req j r"
  by (induction req i rs rule: inter_tor_loop.induct) auto

lemma mesh_sound:
  assumes "valid q" and "mesh q now s req = Inr ts" and "t \<in> set ts"
  shows "\<exists>r. ppt_TargetRnic t = Some r \<and> ppt_SourceRnic t = Some req \<and> ri_TorId r = ri_TorId req
           \<and> ri_Gid r \<noteq> ri_Gid req \<and> target_fields_ok t"
proof -
  obtain rs where rs: "in_tor q now (ri_TorId req) s = Inr rs" "ts = tor_mesh_loop req 0 rs"
    using assms(2) by (auto simp: mesh_def split: sum.splits)
  with assms(3) obtain r j where "r \<in> set rs" "t = mk_target req j r" "ri_Gid r \<noteq> ri_Gid req"
    using tor_mesh_loop_mem by blast
  moreover have "ri_TorId r = ri_TorId req" using in_tor_tor[OF assms(1) rs(1) \<open>r \<in> set rs\<close>] .
  ultimately show ?thesis using mk_target_fields_ok[of req j r] by (simp add: mk_target_def)
qed

lemma inter_sound:
  assumes "valid q" and "inter q now s req = Inr ts" and "t \<in> set ts"
  shows "\<exists>r. ppt_TargetRnic t = Some r \<and> ppt_SourceRnic t = Some req \<and> ri_TorId r \<noteq> ri_TorId req
           \<and> target_fields_ok t"
proof -
  obtain rs where rs: "sample q now (ri_TorId req) s = Inr rs" "ts = inter_tor_loop req 0 rs"
    using assms(2) by (auto simp: inter_def split: sum.splits)
  with assms(3) obtain r j where "r \<in> set rs" "t = mk_target req j r"
    using inter_tor_loop_mem by blast
  moreover have "ri_TorId r \<noteq> ri_TorId req" using sample_tor[OF assms(1) rs(1) \<open>r \<in> set rs\<close>] .
  ultimately show ?thesis using mk_target_fields_ok[of req j r] by (simp add: mk_target_def)
qed

lemma inter_total: "valid q \<Longrightarrow> \<exists>ts. inter q now s req = Inr ts \<and> length ts \<le> 5"
proof -
  have "length (inter_tor_loop req i rs) = length rs" for i rs
    by (induction req i rs rule: inter_tor_loop.induct) auto
  then show "valid q \<Longrightarrow> ?thesis" using sample_total[of q now "ri_TorId req" s] by (auto simp: inter_def)
qed

end

interpretation reg_src: rnic_source db_ok GetRNICsByToR GetSampleRNICsFromOtherToRs
proof
  fix q now t s
  assume ok: "db_ok q"
  show "\<exists>rs. GetRNICsByToR q now t s = Inr rs" using ok by (simp add: GetRNICsByToR_def db_okD)
  from GetSampleRNICs_sound[OF ok, of now t s]
  show "\<exists>rs. GetSampleRNICsFromOtherToRs q now t s = Inr rs \<and> length rs \<le> 5" by blast
  fix r rs
  show "ri_TorId r = t" if "GetRNICsByToR q now t s = Inr rs" "r \<in> set rs"
    using that ok by (auto simp: GetRNICsByToR_def db_okD rnic_of_row_def)
  show "ri_TorId r \<noteq> t" if "GetSampleRNICsFromOtherToRs q now t s = Inr rs" "r \<in> set rs"
    using that GetSampleRNICs_sound[OF ok, of now t s] by auto
qed

lemma generate_eq_locale:
  "generateTorMeshPinglist q now rows req = reg_src.mesh q now rows req"
  "generateInterTorPinglist q now rows req = reg_src.inter q now rows req"
  by (simp_all add: generateTorMeshPinglist_def generateInterTorPinglist_def reg_src.mesh_def reg_src.inter_def)

lemma tor_mesh_loop_targets:
  "map ppt_TargetRnic (tor_mesh_loop req i rs) = map Some (filter (\<lambda>r. ri_Gid r \<noteq> ri_Gid req) rs)"
  by (induction req i rs rule: tor_mesh_loop.induct) (auto simp: mk_target_def)

text \<open>C7: a ToR-mesh pinglist (and one of an unknown type) names, each exactly once, the
  fresh RNICs registered under the requester's ToR except the requester itself; every
  target carries the requester as its source, a port in 49152..65535, a 20-bit flow label
  and a priority below 8.\<close>

theorem tor_mesh_pinglist_correct:
  assumes "db_ok q" and "ty \<noteq> INTER_TOR"
  shows "\<exists>ts. GeneratePinglist q now rows req ty = Inr ts
     \<and> mset (map ppt_TargetRnic ts) = image_mset (\<lambda>r. Some (rnic_of_row r))
         (filter_mset (\<lambda>r. tor_id r = ri_TorId req \<and> rnic_gid r \<noteq> ri_Gid req \<and> cutoff now 5 < last_updated r) (mset rows))
     \<and> (\<forall>t \<in> set ts. ppt_SourceRnic t = Some req \<and> target_fields_ok t)"
proof -
  obtain rs where rs: "GetRNICsByToR q now (ri_TorId req) rows = Inr (map rnic_of_row rs)"
    and m: "mset rs = filter_mset (\<lambda>r. tor_id r = ri_TorId req \<and> cutoff now 5 < last_updated r) (mset rows)"
    using GetRNICsByToR_ok[OF assms(1)] .
  let ?ts = "tor_mesh_loop req 0 (map rnic_of_row rs)"
  have g: "GeneratePinglist q now rows req ty = Inr ?ts"
    using assms(2) by (cases ty) (simp_all add: GeneratePinglist_def generateTorMeshPinglist_def rs)
  have "map ppt_TargetRnic ?ts = map (\<lambda>r. Some (rnic_of_row r)) (filter (\<lambda>r. rnic_gid r \<noteq> ri_Gid req) rs)"
    by (simp add: tor_mesh_loop_targets filter_map o_def rnic_of_row_def)
  then have "mset (map ppt_TargetRnic ?ts) =
      image_mset (\<lambda>r. Some (rnic_of_row r)) (filter_mset (\<lambda>r. rnic_gid r \<noteq> ri_Gid req) (mset rs))"
    by simp
  then have t: "mset (map ppt_TargetRnic ?ts) = image_mset (\<lambda>r. Some (rnic_of_row r))
      (filter_mset (\<lambda>r. tor_id r = ri_TorId req \<and> rnic_gid r \<noteq> ri_Gid req \<and> cutoff now 5 < last_updated r) (mset rows))"
    unfolding m filter_filter_mset by (simp add: conj_ac)
  have "\<forall>t \<in> set ?ts. ppt_SourceRnic t = Some req \<and> target_fields_ok t"
    using reg_src.tor_mesh_loop_mem mk_target_fields_ok by (fastforce simp: mk_target_def)
  with g t show ?thesis by blast
qed

text \<open>An inter-ToR pinglist has at most five targets, none of them under the
  requester's own ToR, each with the requester as source and fields in range.\<close>

theorem inter_tor_pinglist_correct:
  assumes "db_ok q"
  shows "\<exists>ts. GeneratePinglist q now rows req INTER_TOR = Inr ts \<and> length ts \<le> 5
     \<and> (\<forall>t \<in> set ts. ppt_SourceRnic t = Some req \<and> target_fields_ok t \<and>
          (\<exists>r. ppt_TargetRnic t = Some r \<and> ri_TorId r \<noteq> ri_TorId req))"
proof -
  obtain ts where ts: "reg_src.inter q now rows req = Inr ts" "length ts \<le> 5"
    using reg_src.inter_total[OF assms] by blast
  with reg_src.inter_sound[OF assms ts(1)] show ?thesis
    by (auto simp: GeneratePinglist_def generate_eq_locale)
qed

definition sample_row2 :: rnic_row where
  "sample_row2 = (rnic_row_of 1699920000 ''a'' ''ip'' sample_rnic)\<lparr>rnic_gid := ''fe80::2''\<rparr>"

theorem tor_mesh_pinglist_correct_witness:
  "\<exists>ts. GeneratePinglist plain_db 1700000000 [rnic_row_of 1699920000 ''a'' ''ip'' sample_rnic, sample_row2]
       sample_rnic TOR_MESH = Inr ts \<and> mset (map ppt_TargetRnic ts) = {#Some (sample_rnic\<lparr>ri_Gid := ''fe80::2''\<rparr>)#}"
  using tor_mesh_pinglist_correct[of plain_db TOR_MESH 1700000000
      "[rnic_row_of 1699920000 ''a'' ''ip'' sample_rnic, sample_row2]" sample_rnic]
  by (auto simp: rnic_row_of_def sample_rnic_def sample_row2_def rnic_of_row_def)

theorem inter_tor_pinglist_correct_witness:
  "\<exists>ts. GeneratePinglist plain_db 1700000000 [rnic_row_of 1699920000 ''a'' ''ip'' sample_rnic]
       (sample_rnic\<lparr>ri_TorId := ''tor2''\<rparr>) INTER_TOR = Inr ts \<and> length ts \<le> 5"
  using inter_tor_pinglist_correct[of plain_db 1700000000
      "[rnic_row_of 1699920000 ''a'' ''ip'' sample_rnic]" "sample_rnic\<lparr>ri_TorId := ''tor2''\<rparr>"]
  by auto

end
