(* ===== verification/Controller.thy ===== *)
theory Controller
  imports Pinglist Rdma_Device
begin

text \<open>
  The controller's gRPC service (internal/controller/service.go) and the agent's client of
  it (internal/agent/controller_client/client.go). The transport is a parameter of the
  client, a function from request to response or error; the service is one such
  function, and the end-to-end lemmas compose the two.
\<close>

subsection \<open>Service\<close>

text \<open>RegisterAgent writes the RNICs one by one and stops at the first failed write. The
  n-th write happens at time \<^verbatim>\<open>now n\<close> and fails with \<^verbatim>\<open>err n\<close>.\<close>

fun register_loop ::
  "(nat \<Rightarrow> string option) \<Rightarrow> (nat \<Rightarrow> int) \<Rightarrow> string \<Rightarrow> string \<Rightarrow> nat \<Rightarrow> RnicInfo list \<Rightarrow> rnics_table
     \<Rightarrow> AgentRegistrationResponse \<times> rnics_table" where
  "register_loop err now aid aip i [] rows =
     (\<lparr>arp_Success = True, arp_Message = ''Successfully registered agent''\<rparr>, rows)"
| "register_loop err now aid aip i (rnic # rnics) rows =
     (case RegisterRNIC (err i) (now i) aid aip rnic rows of
        (Inl e, rows') \<Rightarrow> (\<lparr>arp_Success = False, arp_Message = ''Failed to register RNIC: '' @ e\<rparr>, rows')
      | (Inr _, rows') \<Rightarrow> register_loop err now aid aip (Suc i) rnics rows')"

definition RegisterAgent ::
  "(nat \<Rightarrow> string option) \<Rightarrow> (nat \<Rightarrow> int) \<Rightarrow> AgentRegistrationRequest \<Rightarrow> rnics_table
     \<Rightarrow> AgentRegistrationResponse \<times> rnics_table" where
  "RegisterAgent err now req rows = register_loop err now (arq_AgentId req) (arq_AgentIp req) 0 (arq_Rnics req) rows"

definition GetPinglist :: "db_reply \<Rightarrow> int \<Rightarrow> PinglistRequest \<Rightarrow> rnics_table \<Rightarrow> PinglistResponse res go" where
  "GetPinglist q now req rows =
     (case plq_RequesterRnic req of
        None \<Rightarrow> Panic ''nil pointer dereference: req.RequesterRnic.Gid''
      | Some rnic \<Rightarrow> Ret (case GeneratePinglist q now rows rnic (plq_Type req) of
            Inl err \<Rightarrow> Inl (''failed to generate pinglist: '' @ err)
          | Inr targets \<Rightarrow> Inr \<lparr>plp_Targets = targets, plp_ProbeIntervalMs = 1000, plp_TimeoutMs = 500\<rparr>))"

definition GetTargetRnicInfo :: "db_reply \<Rightarrow> int \<Rightarrow> TargetRnicInfoRequest \<Rightarrow> rnics_table \<Rightarrow> TargetRnicInfoResponse" where
  "GetTargetRnicInfo q now req rows =
     (case GetRNICInfo q now (trq_TargetIp req) (trq_TargetGid req) rows of
        Inl err \<Rightarrow> \<lparr>trp_Success = False, trp_Message = ''Failed to get RNIC info: '' @ err, trp_TargetRnic = None\<rparr>
      | Inr None \<Rightarrow> \<lparr>trp_Success = False, trp_Message = ''RNIC not found'', trp_TargetRnic = None\<rparr>
      | Inr (Some rnic) \<Rightarrow> \<lparr>trp_Success = True, trp_Message = ''RNIC found'', trp_TargetRnic = Some rnic\<rparr>)"

subsection \<open>Client\<close>

text \<open>conn and client are set and cleared together: one flag.\<close>

record ControllerClient =
  cc_addr :: string
  cc_connected :: bool

definition NewControllerClient :: "string \<Rightarrow> ControllerClient" where
  "NewControllerClient addr = \<lparr>cc_addr = addr, cc_connected = False\<rparr>"

text \<open>The wait loop sees, round by round, whether the connection is ready and, if not,
  whether WaitForStateChange reported a change (False: the context expired). None: the
  rounds given are not enough for the loop to end.\<close>

fun connect_wait :: "(bool \<times> bool) list \<Rightarrow> bool option" where
  "connect_wait [] = None"
| "connect_wait ((ready, changed) # rest) =
     (if ready then Some True else if \<not> changed then Some False else connect_wait rest)"

definition Client_Connect ::
  "string option \<Rightarrow> (bool \<times> bool) list \<Rightarrow> ControllerClient \<Rightarrow> (unit res \<times> ControllerClient) option" where
  "Client_Connect new_err rounds c =
     (if cc_connected c then Some (Inr (), c)
      else case new_err of
        Some e \<Rightarrow> Some (Inl (''failed to create client for controller at '' @ cc_addr c @ '': '' @ e), c)
      | None \<Rightarrow> (case connect_wait rounds of
            None \<Rightarrow> None
          | Some False \<Rightarrow> Some (Inl (''connection to controller at '' @ cc_addr c @ '' failed to become ready within timeout''), c)
          | Some True \<Rightarrow> Some (Inr (), c\<lparr>cc_connected := True\<rparr>)))"

definition Client_Close :: "string option \<Rightarrow> ControllerClient \<Rightarrow> unit res \<times> ControllerClient" where
  "Client_Close err c =
     (if cc_connected c then (case err of Some e \<Rightarrow> (Inl e, c) | None \<Rightarrow> (Inr (), c\<lparr>cc_connected := False\<rparr>))
      else (Inr (), c))"

fun rnic_infos :: "string \<Rightarrow> RNIC list \<Rightarrow> RnicInfo list \<Rightarrow> RnicInfo list res" where
  "rnic_infos hostName [] acc = Inr acc"
| "rnic_infos hostName (rnic # rnics) acc =
     (case rn_ResponderQueue rnic of
        None \<Rightarrow> Inl (''no responder queue found for RNIC '' @ rn_GID rnic @ '', device '' @ rn_DeviceName rnic)
      | Some rq \<Rightarrow> rnic_infos hostName rnics (acc @ [\<lparr>ri_Gid = rn_GID rnic, ri_Qpn = qr_QPN rq, ri_IpAddress = rn_IPAddr rnic,
            ri_HostName = hostName, ri_TorId = '''', ri_DeviceName = rn_DeviceName rnic\<rparr>]))"

definition Client_RegisterAgent ::
  "ControllerClient \<Rightarrow> (AgentRegistrationRequest \<Rightarrow> AgentRegistrationResponse res \<times> 's) \<Rightarrow> 's
     \<Rightarrow> string \<Rightarrow> string \<Rightarrow> string \<Rightarrow> RNIC list \<Rightarrow> unit res \<times> 's" where
  "Client_RegisterAgent c rpc s agentID hostName agentIP rnics =
     (if \<not> cc_connected c then (Inl ''not connected to controller'', s)
      else case rnic_infos hostName rnics [] of
        Inl e \<Rightarrow> (Inl e, s)
      | Inr infos \<Rightarrow>
        (case rpc \<lparr>arq_AgentId = agentID, arq_AgentIp = agentIP, arq_Rnics = infos\<rparr> of
           (Inl e, s') \<Rightarrow> (Inl (''failed to register agent: '' @ e), s')
         | (Inr resp, s') \<Rightarrow>
             if \<not> arp_Success resp then (Inl (''agent registration failed: '' @ arp_Message resp), s') else (Inr (), s')))"

definition Client_GetPinglist ::
  "ControllerClient \<Rightarrow> (PinglistRequest \<Rightarrow> PinglistResponse res) \<Rightarrow> RNIC \<Rightarrow> string \<Rightarrow> PinglistType
     \<Rightarrow> (ProtoPingTarget list \<times> u32 \<times> u32) res" where
  "Client_GetPinglist c rpc rnic hostName pinglistType =
     (if \<not> cc_connected c then Inl ''not connected to controller''
      else let qpn = (case rn_ResponderQueue rnic of None \<Rightarrow> 0 | Some q \<Rightarrow> qr_QPN q) in
        if qpn = 0 then Inl (''no valid QPN found for RNIC with GID '' @ rn_GID rnic)
        else case rpc \<lparr>plq_RequesterRnic = Some \<lparr>ri_Gid = rn_GID rnic, ri_Qpn = qpn, ri_IpAddress = rn_IPAddr rnic,
                 ri_HostName = hostName, ri_TorId = '''', ri_DeviceName = rn_DeviceName rnic\<rparr>, plq_Type = pinglistType\<rparr> of
            Inl e \<Rightarrow> Inl (''failed to get pinglist: '' @ e)
          | Inr resp \<Rightarrow> Inr (plp_Targets resp, plp_ProbeIntervalMs resp, plp_TimeoutMs resp))"

definition Client_GetTargetRnicInfo ::
  "ControllerClient \<Rightarrow> (TargetRnicInfoRequest \<Rightarrow> TargetRnicInfoResponse res) \<Rightarrow> string \<Rightarrow> string \<Rightarrow> RnicInfo res go" where
  "Client_GetTargetRnicInfo c rpc targetIP targetGID =
     (if \<not> cc_connected c then Ret (Inl ''not connected to controller'')
      else case rpc \<lparr>trq_TargetIp = targetIP, trq_TargetGid = targetGID\<rparr> of
        Inl e \<Rightarrow> Ret (Inl (''failed to get target RNIC info: '' @ e))
      | Inr resp \<Rightarrow>
          if \<not> trp_Success resp then Ret (Inl (''failed to get target RNIC info: '' @ trp_Message resp))
          else case trp_TargetRnic resp of None \<Rightarrow> Panic ''nil pointer dereference: resp.TargetRnic.Gid''
            | Some r \<Rightarrow> Ret (Inr r))"

text \<open>The service behind a transport that does not fail.\<close>

definition serve_register ::
  "(nat \<Rightarrow> string option) \<Rightarrow> (nat \<Rightarrow> int) \<Rightarrow> rnics_table \<Rightarrow> AgentRegistrationRequest
     \<Rightarrow> AgentRegistrationResponse res \<times> rnics_table" where
  "serve_register err now rows req = (let (resp, rows') = RegisterAgent err now req rows in (Inr resp, rows'))"

subsection \<open>Registration\<close>

fun stamped_rows :: "(nat \<Rightarrow> int) \<Rightarrow> string \<Rightarrow> string \<Rightarrow> nat \<Rightarrow> RnicInfo list \<Rightarrow> rnic_row list" where
  "stamped_rows now aid aip i [] = []"
| "stamped_rows now aid aip i (r # rs) = rnic_row_of (now i) aid aip r # stamped_rows now aid aip (Suc i) rs"

lemma register_loop_ok:
  "(\<And>j. i \<le> j \<Longrightarrow> j < i + length rs \<Longrightarrow> err j = None) \<Longrightarrow>
   register_loop err now aid aip i rs rows =
     (\<lparr>arp_Success = True, arp_Message = ''Successfully registered agent''\<rparr>,
      fold insert_or_replace (stamped_rows now aid aip i rs) rows)"
  by (induction err now aid aip i rs rows rule: register_loop.induct) (simp_all add: RegisterRNIC_def)

lemma register_loop_fail:
  "k < length rs \<Longrightarrow> (\<And>j. j < k \<Longrightarrow> err (i + j) = None) \<Longrightarrow> err (i + k) = Some e \<Longrightarrow>
   register_loop err now aid aip i rs rows =
     (\<lparr>arp_Success = False, arp_Message = ''Failed to register RNIC: failed to register RNIC: '' @ e\<rparr>,
      fold insert_or_replace (stamped_rows now aid aip i (take k rs)) rows)"
proof (induction err now aid aip i rs rows arbitrary: k rule: register_loop.induct)
  case (2 err now aid aip i rnic rnics rows)
  show ?case
  proof (cases k)
    case 0
    with 2 show ?thesis by (simp add: RegisterRNIC_def)
  next
    case (Suc k')
    with "2.prems"(2)[of 0] have e0: "err i = None" by simp
    have "err (Suc i + j) = None" if "j < k'" for j using "2.prems"(2)[of "Suc j"] that Suc by simp
    with 2 Suc e0 show ?thesis by (simp add: RegisterRNIC_def)
  qed
qed simp

lemma stamped_rows_gids: "map rnic_gid (stamped_rows now aid aip i rs) = map ri_Gid rs"
  by (induction now aid aip i rs rule: stamped_rows.induct) (simp_all add: rnic_row_of_def)

lemma stamped_rows_mem: "r \<in> set rs \<Longrightarrow> \<exists>j. rnic_row_of (now j) aid aip r \<in> set (stamped_rows now aid aip i rs)"
  by (induction now aid aip i rs rule: stamped_rows.induct) auto

text \<open>After a registration request whose writes succeed, on any reachable table, every
  RNIC of the request (with distinct GIDs) is found by its GID, exactly as it was sent, by
  a query made within five minutes of the writes.\<close>

theorem RegisterAgent_then_GetTargetRnicInfo:
  assumes "reg_reachable rows" and "\<forall>i. err i = None" and "distinct (map ri_Gid (arq_Rnics req))"
    and "r \<in> set (arq_Rnics req)" and "ri_Gid r \<noteq> ''''" and "db_ok q"
    and "\<forall>i. four_digit_time (now i) \<and> tq - 300 \<le> now i" and "four_digit_time (tq - 300)"
  shows "arp_Success (fst (RegisterAgent err now req rows))
       \<and> GetTargetRnicInfo q tq \<lparr>trq_TargetIp = ip, trq_TargetGid = ri_Gid r\<rparr> (snd (RegisterAgent err now req rows))
           = \<lparr>trp_Success = True, trp_Message = ''RNIC found'', trp_TargetRnic = Some r\<rparr>"
proof -
  let ?new = "stamped_rows now (arq_AgentId req) (arq_AgentIp req) 0 (arq_Rnics req)"
  have R: "RegisterAgent err now req rows = (\<lparr>arp_Success = True, arp_Message = ''Successfully registered agent''\<rparr>,
      fold insert_or_replace ?new rows)"
    using assms(2) by (simp add: RegisterAgent_def register_loop_ok)
  note pk0 = reg_reachable_pk[OF assms(1)]
  obtain j where j: "rnic_row_of (now j) (arq_AgentId req) (arq_AgentIp req) r \<in> set ?new"
    using stamped_rows_mem[OF assms(4)] by blast
  have "row_of (fold insert_or_replace ?new rows) (ri_Gid r) = Some (rnic_row_of (now j) (arq_AgentId req) (arq_AgentIp req) r)"
    using reg_store.get_puts_distinct[OF pk0 _ j] assms(3) by (simp add: stamped_rows_gids rnic_row_of_def)
  moreover have "cutoff tq 5 < rfc3339 (now j)"
    using assms(7,8) by (intro fresh_recent) auto
  ultimately have "GetRNICInfo q tq ip (ri_Gid r) (fold insert_or_replace ?new rows) = Inr (Some r)"
    by (simp add: GetRNICInfo_gid[OF reg_store.invar_puts[OF pk0] assms(6,5)] rnic_row_of_def[of "now j"])
      (simp add: reg_defs)
  with R show ?thesis by (simp add: GetTargetRnicInfo_def)
qed

text \<open>When the k-th write of a registration fails and the ones before it succeed, the
  response reports failure with the database's message and the table holds exactly the
  first k RNICs on top of what was there: nothing is rolled back and nothing after the
  failure is written.\<close>

theorem RegisterAgent_partial:
  assumes "k < length (arq_Rnics req)" and "\<forall>j<k. err j = None" and "err k = Some e"
  shows "RegisterAgent err now req rows =
    (\<lparr>arp_Success = False, arp_Message = ''Failed to register RNIC: failed to register RNIC: '' @ e\<rparr>,
     fold insert_or_replace (stamped_rows now (arq_AgentId req) (arq_AgentIp req) 0 (take k (arq_Rnics req))) rows)"
  unfolding RegisterAgent_def using assms by (intro register_loop_fail) auto

subsection \<open>Agents and controller together\<close>

text \<open>Tables that arise from agents registering through the client and from cleanups.\<close>

inductive agents_table :: "rnics_table \<Rightarrow> bool" where
  at_empty: "agents_table []"
| at_register: "agents_table rows \<Longrightarrow>
    Client_RegisterAgent c (serve_register err now rows) rows aid host aip rnics = (res, rows') \<Longrightarrow> agents_table rows'"
| at_cleanup: "agents_table rows \<Longrightarrow> agents_table (snd (CleanupStaleEntries err t rows))"

lemma rnic_infos_tor:
  "rnic_infos host rnics acc = Inr infos \<Longrightarrow> \<forall>i \<in> set acc. ri_TorId i = '''' \<Longrightarrow> \<forall>i \<in> set infos. ri_TorId i = ''''"
  by (induction host rnics acc rule: rnic_infos.induct) (auto split: option.splits)

lemma register_loop_rows:
  "r \<in> set (snd (register_loop err now aid aip i rs rows)) \<Longrightarrow> \<forall>x \<in> set rs. ri_TorId x = '''' \<Longrightarrow>
     \<forall>x \<in> set rows. tor_id x = '''' \<Longrightarrow> tor_id r = ''''"
proof (induction err now aid aip i rs rows rule: register_loop.induct)
  case (2 err now aid aip i rnic rnics rows)
  have "\<forall>x \<in> set (insert_or_replace (rnic_row_of (now i) aid aip rnic) rows). tor_id x = ''''"
    using 2 by (auto simp: insert_or_replace_def delete_gid_def rnic_row_of_def)
  with 2 show ?case by (cases "err i") (auto simp: RegisterRNIC_def)
qed simp

lemma agents_table_tor: "agents_table rows \<Longrightarrow> \<forall>r \<in> set rows. tor_id r = ''''"
proof (induction rule: agents_table.induct)
  case (at_register rows c err now aid host aip rnics res rows')
  then consider "rows' = rows"
    | infos where "rnic_infos host rnics [] = Inr infos"
        "rows' = snd (register_loop err now aid aip 0 infos rows)"
    by (auto simp: Client_RegisterAgent_def serve_register_def RegisterAgent_def Let_def
        split: if_splits sum.splits prod.splits)
  then show ?case
  proof cases
    case 2
    with at_register.IH rnic_infos_tor[OF 2(1)] show ?thesis by (auto dest!: register_loop_rows)
  qed (use at_register in simp)
next
  case (at_cleanup rows err t)
  then show ?case by (cases err) (auto simp: CleanupStaleEntries_def)
qed simp

lemma sample_same_tor:
  assumes "db_ok q" and "\<forall>r \<in> set rows. tor_id r = t"
  shows "GetSampleRNICsFromOtherToRs q now t rows = Inr []"
proof -
  have "filter (\<lambda>r. tor_id r \<noteq> t \<and> cutoff now 5 < last_updated r) rows = []"
    using assms(2) by (simp add: filter_empty_conv)
  then show ?thesis using assms(1) by (simp add: GetSampleRNICsFromOtherToRs_def db_okD group_by_tor_def)
qed

definition serve_pinglist :: "db_reply \<Rightarrow> int \<Rightarrow> rnics_table \<Rightarrow> PinglistRequest \<Rightarrow> PinglistResponse res" where
  "serve_pinglist q now rows req = (case GetPinglist q now req rows of Ret x \<Rightarrow> x | Panic m \<Rightarrow> Inl m)"

text \<open>C14: the agent's client registers every RNIC under the empty ToR and asks for
  pinglists under the empty ToR. On every table that agents can produce, an inter-ToR
  pinglist is therefore empty, with the default interval and timeout.\<close>

theorem client_inter_tor_pinglist_empty:
  assumes "agents_table rows" and "db_ok q" and "cc_connected c"
    and "rn_ResponderQueue rnic = Some rq" and "qr_QPN rq \<noteq> 0"
  shows "Client_GetPinglist c (serve_pinglist q now rows) rnic host INTER_TOR = Inr ([], 1000, 500)"
  using assms sample_same_tor[OF assms(2) agents_table_tor[OF assms(1)], of now]
  by (simp add: Client_GetPinglist_def serve_pinglist_def GetPinglist_def GeneratePinglist_def generateInterTorPinglist_def)

definition sample_request :: AgentRegistrationRequest where
  "sample_request = \<lparr>arq_AgentId = ''a'', arq_AgentIp = ''10.0.0.9'',
     arq_Rnics = [sample_rnic, sample_rnic\<lparr>ri_Gid := ''fe80::2''\<rparr>]\<rparr>"

theorem RegisterAgent_then_GetTargetRnicInfo_witness:
  "trp_TargetRnic (GetTargetRnicInfo plain_db 1700000100 \<lparr>trq_TargetIp = '''', trq_TargetGid = ''fe80::1''\<rparr>
     (snd (RegisterAgent (\<lambda>_. None) (\<lambda>_. 1700000000) sample_request []))) = Some sample_rnic"
  using RegisterAgent_then_GetTargetRnicInfo[of "[]" "\<lambda>_. None" sample_request sample_rnic plain_db "\<lambda>_. 1700000000" 1700000100 "''''"]
  by (simp add: reg_empty sample_request_def sample_rnic_def four_digit_time_def)

theorem RegisterAgent_partial_witness:
  "\<not> arp_Success (fst (RegisterAgent (\<lambda>i. if i = 1 then Some ''io'' else None) (\<lambda>_. 0) sample_request []))
   \<and> map rnic_gid (snd (RegisterAgent (\<lambda>i. if i = 1 then Some ''io'' else None) (\<lambda>_. 0) sample_request [])) = [''fe80::1'']"
  using RegisterAgent_partial[of 1 sample_request "\<lambda>i. if i = 1 then Some ''io'' else None" "''io''" "\<lambda>_. 0" "[]"]
  by (simp add: sample_request_def sample_rnic_def insert_or_replace_def delete_gid_def rnic_row_of_def)

definition sample_device :: RNIC where
  "sample_device = (new_rnic ''mlx5_0'')\<lparr>rn_GID := ''fe80::1'', rn_IsOpen := True,
     rn_ResponderQueue := Some \<lparr>qr_id = 1, qr_QPN = 77\<rparr>\<rparr>"

theorem client_inter_tor_pinglist_empty_witness:
  "Client_GetPinglist \<lparr>cc_addr = ''c'', cc_connected = True\<rparr>
     (serve_pinglist plain_db 1700000100 (snd (Client_RegisterAgent \<lparr>cc_addr = ''c'', cc_connected = True\<rparr>
        (serve_register (\<lambda>_. None) (\<lambda>_. 1700000000) []) [] ''a'' ''h'' ''ip'' [sample_device])))
     (sample_device\<lparr>rn_GID := ''fe80::2''\<rparr>) ''h2'' INTER_TOR = Inr ([], 1000, 500)"
proof (rule client_inter_tor_pinglist_empty[where rq = "\<lparr>qr_id = 1, qr_QPN = 77\<rparr>"])
  show "agents_table (snd (Client_RegisterAgent \<lparr>cc_addr = ''c'', cc_connected = True\<rparr>
        (serve_register (\<lambda>_. None) (\<lambda>_. 1700000000) []) [] ''a'' ''h'' ''ip'' [sample_device]))"
    by (rule at_register[OF at_empty]) (rule surjective_pairing)
qed (simp_all add: sample_device_def)

end
