(* ===== verification/Service_Flow.thy ===== *)
theory Service_Flow
  imports Ebpf_Tracer Prober Controller
begin

text \<open>
  The service flow monitor (internal/agent/serviceflowmonitor/serviceflowmonitor.go): RDMA
  connections of other processes, learnt from eBPF events, kept in a map by flow key and
  handed to the prober as service tracing targets. The interface of a keyed store is
  interpreted on the flow map.
\<close>

subsection \<open>Flows\<close>

record ServiceFlow =
  fl_SrcGID :: string
  fl_SrcQPN :: u32
  fl_DstGID :: string
  fl_DstQPN :: u32
  fl_DstIP :: string

definition flow_key :: "ServiceFlow \<Rightarrow> string" where
  "flow_key f = fl_SrcGID f @ '':'' @ dec_string (unat (fl_SrcQPN f)) @ ''-'' @ fl_DstGID f @ '':'' @ dec_string (unat (fl_DstQPN f))"

record ServiceFlowMonitor =
  sm_client :: ControllerClient
  sm_prober :: Prober
  sm_activeFlows :: "(string \<times> ServiceFlow) list"

text \<open>Each argument may be nil; the agent state is the one the prober refers to.\<close>

definition NewServiceFlowMonitor :: "bool \<Rightarrow> ControllerClient option \<Rightarrow> Prober option \<Rightarrow> bool \<Rightarrow> ServiceFlowMonitor res" where
  "NewServiceFlowMonitor tracer_nil client prober state_nil =
     (if tracer_nil then Inl ''eBPF tracer cannot be nil''
      else case client of None \<Rightarrow> Inl ''controller client cannot be nil''
      | Some c \<Rightarrow> (case prober of None \<Rightarrow> Inl ''prober cannot be nil''
         | Some p \<Rightarrow> if state_nil then Inl ''agentState cannot be nil''
             else Inr \<lparr>sm_client = c, sm_prober = p, sm_activeFlows = []\<rparr>))"

definition GetDetectedRNICs :: "AgentState \<Rightarrow> RNIC list" where
  "GetDetectedRNICs a = (case as_rdmaManager a of None \<Rightarrow> [] | Some m \<Rightarrow> map (\<lambda>i. mg_Devices m ! i) (as_detectedRNICs a))"

fun rnic_with_qpn :: "u32 \<Rightarrow> RNIC list \<Rightarrow> string" where
  "rnic_with_qpn q [] = ''''"
| "rnic_with_qpn q (rnic # rnics) =
     (if map_option qr_QPN (rn_ProberQueue rnic) = Some q then rn_GID rnic
      else if map_option qr_QPN (rn_ResponderQueue rnic) = Some q then rn_GID rnic
      else rnic_with_qpn q rnics)"

definition fillMissingSrcGID :: "AgentState \<Rightarrow> RdmaConnTuple \<Rightarrow> string" where
  "fillMissingSrcGID a e = rnic_with_qpn (ev_SrcQPN e) (GetDetectedRNICs a)"

subsection \<open>Targets for the prober\<close>

definition target_of_flow :: "ServiceFlow \<Rightarrow> PingTarget" where
  "target_of_flow f =
     \<lparr>pt_GID = fl_DstGID f, pt_QPN = fl_DstQPN f, pt_IPAddress = fl_DstIP f, pt_HostName = '''', pt_TorID = '''', pt_DeviceName = '''',
      pt_SourceRnicGID = '''', pt_SourceRnicQPN = 0, pt_SourceRnicIP = '''', pt_SourceHostName = '''', pt_SourceTorID = '''',
      pt_SourceDeviceName = '''', pt_SourcePort = 0, pt_FlowLabel = 0, pt_Priority = 0,
      pt_ServiceFlowTuple = Some \<lparr>sf_SrcGID = fl_SrcGID f, sf_SrcQPN = fl_SrcQPN f, sf_DstGID = fl_DstGID f, sf_DstQPN = fl_DstQPN f, sf_FlowLabel = 0\<rparr>,
      pt_ProbeType = ProbeTypeServiceTracing\<rparr>"

definition GetServiceTracingTargets :: "ServiceFlowMonitor \<Rightarrow> PingTarget option list" where
  "GetServiceTracingTargets m = map (\<lambda>(k, f). Some (target_of_flow f)) (sm_activeFlows m)"

definition notifyProberUpdate :: "ServiceFlowMonitor \<Rightarrow> ServiceFlowMonitor" where
  "notifyProberUpdate m = m\<lparr>sm_prober := UpdateServiceFlowTargets (GetServiceTracingTargets m) (sm_prober m)\<rparr>"

subsection \<open>Events\<close>

definition ibQpsRTR :: "32 word" where "ibQpsRTR = 3"
definition zero_gid_hex :: string where "zero_gid_hex = ''00000000000000000000000000000000''"

definition resolved_src :: "AgentState \<Rightarrow> RdmaConnTuple \<Rightarrow> string \<Rightarrow> string" where
  "resolved_src a e srcGidStr =
     (if srcGidStr = zero_gid_hex \<or> srcGidStr = '''' then fillMissingSrcGID a e else srcGidStr)"

definition store_flow :: "ServiceFlow \<Rightarrow> ServiceFlowMonitor \<Rightarrow> ServiceFlowMonitor" where
  "store_flow f m = m\<lparr>sm_activeFlows := AList.update (flow_key f) f (sm_activeFlows m)\<rparr>"

definition delete_flow :: "string \<Rightarrow> ServiceFlowMonitor \<Rightarrow> ServiceFlowMonitor" where
  "delete_flow k m = m\<lparr>sm_activeFlows := AList.delete k (sm_activeFlows m)\<rparr>"

text \<open>MODIFY_QP to the state the code takes for ready-to-receive: a connection is established. The
  destination GID goes to the controller as the IP argument of the look-up.\<close>

definition handle_modify :: "(TargetRnicInfoRequest \<Rightarrow> TargetRnicInfoResponse res) \<Rightarrow> RdmaConnTuple \<Rightarrow> ServiceFlowMonitor \<Rightarrow> ServiceFlowMonitor go" where
  "handle_modify rpc e m =
     (let srcGidStr = resolved_src (pb_agentState (sm_prober m)) e (SrcGIDString e); dstGidStr = DstGIDString e in
      if ev_QPState e \<noteq> ibQpsRTR then Ret m
      else if srcGidStr = '''' then Ret m
      else if ev_DstQPN e = 0 then Ret m
      else if dstGidStr = zero_gid_hex \<or> dstGidStr = '''' then Ret m
      else go_bind (Client_GetTargetRnicInfo (sm_client m) rpc dstGidStr '''') (\<lambda>r.
        let flow = \<lparr>fl_SrcGID = srcGidStr, fl_SrcQPN = ev_SrcQPN e, fl_DstGID = dstGidStr, fl_DstQPN = ev_DstQPN e,
                    fl_DstIP = (case r of Inl _ \<Rightarrow> '''' | Inr info \<Rightarrow> ri_IpAddress info)\<rparr> in
        Ret (notifyProberUpdate (store_flow flow m))))"

text \<open>DESTROY_QP: the first flow of the (arbitrary) iteration order that matches is removed. When
  no local GID is found the GID text of the event stays, so it is never empty here.\<close>

definition handle_destroy :: "RdmaConnTuple \<Rightarrow> ServiceFlowMonitor \<Rightarrow> ServiceFlowMonitor" where
  "handle_destroy e m =
     (let localSrcGid = resolved_src (pb_agentState (sm_prober m)) e (SrcGIDString e);
          srcGidStr = (if localSrcGid = '''' then SrcGIDString e else localSrcGid) in
      case find (\<lambda>(k, f). fl_SrcQPN f = ev_SrcQPN e \<and> (srcGidStr = '''' \<or> fl_SrcGID f = srcGidStr)) (sm_activeFlows m) of
        None \<Rightarrow> m
      | Some (k, f) \<Rightarrow> (let m1 = delete_flow k m in if k \<noteq> '''' then notifyProberUpdate m1 else m1))"

definition handleEbpfEvent ::
  "u64 \<Rightarrow> (TargetRnicInfoRequest \<Rightarrow> TargetRnicInfoResponse res) \<Rightarrow> RdmaConnTuple \<Rightarrow> ServiceFlowMonitor \<Rightarrow> ServiceFlowMonitor go" where
  "handleEbpfEvent now rpc e m =
     (if ValidateStructAlignment now e \<noteq> None then Ret m
      else if ev_EventType e = 2 then handle_modify rpc e m
      else if ev_EventType e = 3 then Ret (handle_destroy e m)
      else Ret m)"

text \<open>The event loop over the events it receives, each with the time at which it is handled.\<close>

fun handle_events :: "(TargetRnicInfoRequest \<Rightarrow> TargetRnicInfoResponse res) \<Rightarrow> (u64 \<times> RdmaConnTuple) list \<Rightarrow> ServiceFlowMonitor \<Rightarrow> ServiceFlowMonitor go" where
  "handle_events rpc [] m = Ret m"
| "handle_events rpc ((now, e) # es) m = go_bind (handleEbpfEvent now rpc e m) (handle_events rpc es)"

subsection \<open>Flow keys\<close>

definition hexy :: "string \<Rightarrow> bool" where
  "hexy s \<longleftrightarrow> (\<forall>c \<in> set s. c \<notin> {CHR '':'', CHR ''-'', CHR ''.'', CHR ''%''})"

lemma hex_digit_plain: "n < 16 \<Longrightarrow> hex_digit n \<notin> {CHR '':'', CHR ''-'', CHR ''.'', CHR ''%''}"
proof -
  assume "n < 16"
  moreover have "list_all (\<lambda>n. hex_digit n \<notin> {CHR '':'', CHR ''-'', CHR ''.'', CHR ''%''}) [0..<16]" by code_simp
  ultimately show ?thesis by (simp add: list_all_iff)
qed

lemma hexy_hex_bytes: "hexy (hex_bytes bs)"
proof -
  have "unat (b :: byte) < 16 * 16" for b by (rule order_less_le_trans[OF unsigned_less]) simp
  then have "unat (b :: byte) div 16 < 16" for b by (rule less_mult_imp_div_less)
  then show ?thesis using hex_digit_plain by (auto simp: hexy_def hex_bytes_def)
qed

lemma hexy_unparsable: "hexy s \<Longrightarrow> ParseIP s = None"
  by (rule ParseIP_no_separator) (auto simp: hexy_def)

lemma split_at_first:
  "xs @ c # ys = xs' @ c # ys' \<Longrightarrow> c \<notin> set xs \<Longrightarrow> c \<notin> set xs' \<Longrightarrow> xs = xs' \<and> ys = ys'"
  by (induction xs arbitrary: xs') (case_tac xs'; auto)+

text \<open>The key determines the four fields, as long as the destination has no separators: the
  source GID may, so the key is read from its end.\<close>

lemma flow_key_inj:
  assumes "flow_key f = flow_key g" and "hexy (fl_DstGID f)" and "hexy (fl_DstGID g)"
  shows "fl_SrcGID f = fl_SrcGID g \<and> fl_SrcQPN f = fl_SrcQPN g \<and> fl_DstGID f = fl_DstGID g \<and> fl_DstQPN f = fl_DstQPN g"
proof -
  let ?d = "\<lambda>w :: u32. dec_string (unat w)"
  have nd: "CHR '':'' \<notin> set (rev (?d w))" "CHR ''-'' \<notin> set (rev (?d w))" for w
    by (simp_all add: dec_string_no_char is_digit_def)
  have h: "CHR ''-'' \<notin> set (rev (fl_DstGID f))" "CHR ''-'' \<notin> set (rev (fl_DstGID g))" using assms(2,3) by (auto simp: hexy_def)
  have "rev (?d (fl_DstQPN f)) @ CHR '':'' # (rev (fl_DstGID f) @ CHR ''-'' # (rev (?d (fl_SrcQPN f)) @ CHR '':'' # rev (fl_SrcGID f)))
      = rev (?d (fl_DstQPN g)) @ CHR '':'' # (rev (fl_DstGID g) @ CHR ''-'' # (rev (?d (fl_SrcQPN g)) @ CHR '':'' # rev (fl_SrcGID g)))"
    using arg_cong[OF assms(1), of rev] by (simp add: flow_key_def)
  from split_at_first[OF this nd(1) nd(1)] have 1: "?d (fl_DstQPN f) = ?d (fl_DstQPN g)"
    and r: "rev (fl_DstGID f) @ CHR ''-'' # (rev (?d (fl_SrcQPN f)) @ CHR '':'' # rev (fl_SrcGID f))
      = rev (fl_DstGID g) @ CHR ''-'' # (rev (?d (fl_SrcQPN g)) @ CHR '':'' # rev (fl_SrcGID g))" by auto
  from split_at_first[OF r h] have 2: "fl_DstGID f = fl_DstGID g"
    and r2: "rev (?d (fl_SrcQPN f)) @ CHR '':'' # rev (fl_SrcGID f) = rev (?d (fl_SrcQPN g)) @ CHR '':'' # rev (fl_SrcGID g)" by auto
  from split_at_first[OF r2 nd(1) nd(1)] have 3: "?d (fl_SrcQPN f) = ?d (fl_SrcQPN g)" "fl_SrcGID f = fl_SrcGID g" by auto
  from 1 2 3 show ?thesis using dec_string_inj by (metis word_unat_eq_iff)
qed

subsection \<open>The flow map as a keyed store\<close>

definition flow_at :: "ServiceFlowMonitor \<Rightarrow> string \<Rightarrow> ServiceFlow option" where
  "flow_at m k = map_of (sm_activeFlows m) k"

definition distinct_flows :: "ServiceFlowMonitor \<Rightarrow> bool" where
  "distinct_flows m \<longleftrightarrow> distinct (map fst (sm_activeFlows m))"

interpretation flow_store: keyed_store flow_at store_flow delete_flow flow_key distinct_flows
  by unfold_locales (auto simp: flow_at_def distinct_flows_def store_flow_def delete_flow_def store_simps)

text \<open>The invariant of the monitor: flows stand under their keys, their destinations are hex
  text, and the prober's list is made of such flows.\<close>

definition sfm_ok :: "ServiceFlowMonitor \<Rightarrow> bool" where
  "sfm_ok m \<longleftrightarrow> flow_store.well_keyed m \<and> (\<forall>k f. flow_at m k = Some f \<longrightarrow> hexy (fl_DstGID f))
     \<and> (\<forall>t \<in> set (pb_serviceFlowTargets (sm_prober m)). \<exists>f. t = Some (target_of_flow f) \<and> hexy (fl_DstGID f))"

lemma flow_at_prober [simp]: "flow_at (m\<lparr>sm_prober := p\<rparr>) = flow_at m" "distinct_flows (m\<lparr>sm_prober := p\<rparr>) = distinct_flows m"
  by (simp_all add: flow_at_def[abs_def] distinct_flows_def)

lemma sfm_ok_notify:
  assumes "flow_store.well_keyed m" "\<And>k f. flow_at m k = Some f \<Longrightarrow> hexy (fl_DstGID f)"
  shows "sfm_ok (notifyProberUpdate m)"
proof -
  have "hexy (fl_DstGID f)" if "(k, f) \<in> set (sm_activeFlows m)" for k f
    using that assms by (auto simp: flow_store.well_keyed_def distinct_flows_def flow_at_def)
  then have "\<forall>t \<in> set (GetServiceTracingTargets m). \<exists>f. t = Some (target_of_flow f) \<and> hexy (fl_DstGID f)"
    by (auto simp: GetServiceTracingTargets_def)
  with assms show ?thesis
    by (simp add: sfm_ok_def notifyProberUpdate_def UpdateServiceFlowTargets_def flow_store.well_keyed_def)
qed

lemma flow_key_ne [simp]: "flow_key f \<noteq> ''''"
  by (simp add: flow_key_def)

lemma find_SomeD: "find P xs = Some x \<Longrightarrow> P x \<and> x \<in> set xs"
  by (metis find_Some_iff nth_mem)

lemma handle_destroy_cases:
  "handle_destroy e m = m \<or> (\<exists>k f. (k, f) \<in> set (sm_activeFlows m) \<and> fl_SrcQPN f = ev_SrcQPN e \<and>
      handle_destroy e m = (if k \<noteq> '''' then notifyProberUpdate (delete_flow k m) else delete_flow k m))"
proof -
  let ?P = "\<lambda>s (k :: string, f). fl_SrcQPN f = ev_SrcQPN e \<and> (s = '''' \<or> fl_SrcGID f = s)"
  let ?l = "resolved_src (pb_agentState (sm_prober m)) e (SrcGIDString e)"
  define s where "s = (if ?l = '''' then SrcGIDString e else ?l)"
  show ?thesis
  proof (cases "find (?P s) (sm_activeFlows m)")
    case None
    then show ?thesis by (simp add: handle_destroy_def s_def Let_def)
  next
    case (Some x)
    obtain k f where x: "x = (k, f)" by (cases x)
    have "?P s x \<and> x \<in> set (sm_activeFlows m)" using find_SomeD[OF Some] .
    moreover have "handle_destroy e m = (if k \<noteq> '''' then notifyProberUpdate (delete_flow k m) else delete_flow k m)"
      using Some x by (simp add: handle_destroy_def s_def Let_def)
    ultimately show ?thesis unfolding x by blast
  qed
qed

lemma sfm_ok_event:
  assumes "sfm_ok m" and "handleEbpfEvent now rpc e m = Ret m'"
  shows "sfm_ok m'"
proof -
  have wk: "flow_store.well_keyed m" and hx: "\<And>k f. flow_at m k = Some f \<Longrightarrow> hexy (fl_DstGID f)" using assms(1) by (auto simp: sfm_ok_def)
  consider "m' = m" | f where "m' = notifyProberUpdate (store_flow f m)" "hexy (fl_DstGID f)" | "m' = handle_destroy e m"
    using assms(2) by (auto simp: handleEbpfEvent_def handle_modify_def Let_def DstGIDString_def hexy_hex_bytes split: if_splits go.splits
        elim!: go_bind.elims)
  then show ?thesis
  proof cases
    case (2 f)
    have "flow_store.well_keyed (store_flow f m)" using wk by (rule flow_store.well_keyed_put)
    moreover have "hexy (fl_DstGID g)" if "flow_at (store_flow f m) k = Some g" for k g
      using that 2(2) hx wk by (auto simp: flow_store.get_put flow_store.well_keyed_def split: if_splits)
    ultimately show ?thesis unfolding 2(1) by (rule sfm_ok_notify)
  next
    case 3
    from handle_destroy_cases[of e m] show ?thesis
    proof (elim disjE exE conjE)
      fix k f assume k: "(k, f) \<in> set (sm_activeFlows m)"
        "handle_destroy e m = (if k \<noteq> '''' then notifyProberUpdate (delete_flow k m) else delete_flow k m)"
      have "k = flow_key f" using k(1) wk by (auto simp: flow_store.well_keyed_def distinct_flows_def flow_at_def)
      then have "m' = notifyProberUpdate (delete_flow k m)" using 3 k(2) by simp
      moreover have "hexy (fl_DstGID g)" if "flow_at (delete_flow k m) j = Some g" for j g
        using that hx wk by (auto simp: flow_store.get_del flow_store.well_keyed_def split: if_splits)
      ultimately show ?thesis using sfm_ok_notify flow_store.well_keyed_del[OF wk] by simp
    qed (use 3 assms(1) in simp)
  qed (use assms(1) in simp)
qed

lemma sfm_ok_events: "sfm_ok m \<Longrightarrow> handle_events rpc es m = Ret m' \<Longrightarrow> sfm_ok m'"
proof (induction es arbitrary: m)
  case (Cons x es)
  obtain now e where x: "x = (now, e)" by (cases x)
  from Cons.prems(2) obtain m1 where "handleEbpfEvent now rpc e m = Ret m1" "handle_events rpc es m1 = Ret m'"
    unfolding x by (cases "handleEbpfEvent now rpc e m") auto
  with Cons sfm_ok_event show ?case by blast
qed simp

definition fresh_sfm :: "ServiceFlowMonitor \<Rightarrow> bool" where
  "fresh_sfm m \<longleftrightarrow> sm_activeFlows m = [] \<and> pb_serviceFlowTargets (sm_prober m) = []"

lemma fresh_sfm_ok: "fresh_sfm m \<Longrightarrow> sfm_ok m"
  by (simp add: fresh_sfm_def sfm_ok_def flow_store.well_keyed_def flow_at_def distinct_flows_def)


subsection \<open>What becomes of events\<close>

text \<open>With time stamps of the kernel's boot clock every event is refused. The eBPF program
  stamps events with the time since boot, the check compares that with the wall clock, so
  on a host booted more than an hour after the epoch no event ever changes the monitor: no
  service flow is found and the prober gets no service tracing target.\<close>

theorem boot_clock_events_ignored:
  assumes "\<forall>(now, e) \<in> set es. uint (ev_Timestamp e) + 3600000000000 < uint now"
  shows "handle_events rpc es m = Ret m"
  using assms by (induction es) (auto simp: handleEbpfEvent_def boot_clock_rejected)

definition sample_sfm :: ServiceFlowMonitor where
  "sample_sfm = \<lparr>sm_client = NewControllerClient ''c'', sm_prober = NewProber sample_agent, sm_activeFlows = []\<rparr>"

theorem boot_clock_events_ignored_witness:
  "handle_events (\<lambda>_. Inl ''down'') [(1700000000000000000, sample_event 2), (1700000000000000000, sample_event 3)] sample_sfm = Ret sample_sfm"
  by (rule boot_clock_events_ignored) (simp add: sample_event_def)

lemma store_flow_entries: "(k, g) \<in> set (sm_activeFlows (store_flow f m)) \<Longrightarrow> (k = flow_key f \<and> g = f) \<or> (k, g) \<in> set (sm_activeFlows m)"
proof -
  assume "(k, g) \<in> set (sm_activeFlows (store_flow f m))"
  moreover have "set (AList.update a b al) \<subseteq> insert (a, b) (set al)" for a :: string and b :: ServiceFlow and al
    by (induction al) auto
  ultimately show ?thesis by (auto simp: store_flow_def)
qed

lemma notify_simps [simp]:
  "sm_activeFlows (notifyProberUpdate m) = sm_activeFlows m" "flow_at (notifyProberUpdate m) = flow_at m"
  "pb_serviceFlowTargets (sm_prober (notifyProberUpdate m)) = GetServiceTracingTargets m"
  "GetServiceTracingTargets (notifyProberUpdate m) = GetServiceTracingTargets m"
  "pb_agentState (sm_prober (notifyProberUpdate m)) = pb_agentState (sm_prober m)"
  by (simp_all add: notifyProberUpdate_def UpdateServiceFlowTargets_def GetServiceTracingTargets_def)

text \<open>Destroying the only connection of a source.\<close>

lemma handle_destroy_only:
  assumes "SrcGIDString d \<noteq> zero_gid_hex" "SrcGIDString d \<noteq> ''''" "SrcGIDString d = fl_SrcGID f" "ev_SrcQPN d = fl_SrcQPN f"
    and "(flow_key f, f) \<in> set (sm_activeFlows m)"
    and only: "\<And>k g. (k, g) \<in> set (sm_activeFlows m) \<Longrightarrow> fl_SrcQPN g = fl_SrcQPN f \<and> fl_SrcGID g = fl_SrcGID f \<Longrightarrow> k = flow_key f"
  shows "handle_destroy d m = notifyProberUpdate (delete_flow (flow_key f) m)"
proof -
  let ?P = "\<lambda>(k :: string, g). fl_SrcQPN g = ev_SrcQPN d \<and> (SrcGIDString d = '''' \<or> fl_SrcGID g = SrcGIDString d)"
  have r: "resolved_src (pb_agentState (sm_prober m)) d (SrcGIDString d) = SrcGIDString d" using assms(1,2) by (simp add: resolved_src_def)
  have "find ?P (sm_activeFlows m) \<noteq> None"
    unfolding find_None_iff using assms(3-5) by auto
  then obtain k g where kg: "find ?P (sm_activeFlows m) = Some (k, g)" by auto
  from find_SomeD[OF kg] have "k = flow_key f" using only[of k g] assms(2-4) by auto
  with kg show ?thesis using assms(2) by (simp add: handle_destroy_def r Let_def)
qed

text \<open>C39: an established connection is followed by exactly one new flow under its key, which the
  prober gets as a target, and the end of the connection removes it again and nothing else:
  for every history of events, if the source had no flow on that queue pair before.\<close>

theorem connection_added_and_removed:
  assumes "fresh_sfm m0" "handle_events rpc es m0 = Ret m"
    and "event_ok e" "ValidateStructAlignment now e = None" "ev_EventType e = 2" "ev_QPState e = ibQpsRTR" "ev_DstQPN e \<noteq> 0"
    and "SrcGIDString e \<noteq> zero_gid_hex" "DstGIDString e \<noteq> zero_gid_hex"
    and "\<forall>(k, f) \<in> set (sm_activeFlows m). \<not> (fl_SrcGID f = SrcGIDString e \<and> fl_SrcQPN f = ev_SrcQPN e)"
    and "handleEbpfEvent now rpc e m = Ret m1"
    and "ValidateStructAlignment now2 d = None" "ev_EventType d = 3" "ev_SrcGID d = ev_SrcGID e" "ev_SrcQPN d = ev_SrcQPN e"
  shows "\<exists>f m2. fl_SrcGID f = SrcGIDString e \<and> fl_SrcQPN f = ev_SrcQPN e \<and> fl_DstGID f = DstGIDString e \<and> fl_DstQPN f = ev_DstQPN e
     \<and> flow_at m1 = (flow_at m)(flow_key f \<mapsto> f) \<and> Some (target_of_flow f) \<in> set (pb_serviceFlowTargets (sm_prober m1))
     \<and> handleEbpfEvent now2 rpc d m1 = Ret m2 \<and> flow_at m2 = flow_at m
     \<and> pb_serviceFlowTargets (sm_prober m2) = GetServiceTracingTargets m2"
proof -
  have ok: "sfm_ok m" using sfm_ok_events[OF fresh_sfm_ok[OF assms(1)] assms(2)] .
  then have wk: "flow_store.well_keyed m" and inv: "distinct_flows m" by (simp_all add: sfm_ok_def flow_store.well_keyed_def)
  have len: "SrcGIDString e \<noteq> ''''" "DstGIDString e \<noteq> ''''"
    using assms(3) by (auto simp: event_ok_def SrcGIDString_def DstGIDString_def hex_bytes_def concat_eq_Nil_conv)
  obtain y where y: "m1 = notifyProberUpdate (store_flow \<lparr>fl_SrcGID = SrcGIDString e, fl_SrcQPN = ev_SrcQPN e, fl_DstGID = DstGIDString e,
      fl_DstQPN = ev_DstQPN e, fl_DstIP = y\<rparr> m)"
    using assms(4-9,11) len
    by (auto simp: handleEbpfEvent_def handle_modify_def resolved_src_def Let_def elim!: go_bind.elims)
  define f where "f = \<lparr>fl_SrcGID = SrcGIDString e, fl_SrcQPN = ev_SrcQPN e, fl_DstGID = DstGIDString e, fl_DstQPN = ev_DstQPN e, fl_DstIP = y\<rparr>"
  have f: "fl_SrcGID f = SrcGIDString e" "fl_SrcQPN f = ev_SrcQPN e" "fl_DstGID f = DstGIDString e" "fl_DstQPN f = ev_DstQPN e"
      "m1 = notifyProberUpdate (store_flow f m)"
    by (simp_all add: f_def y)
  have at: "flow_at (store_flow f m) = (flow_at m)(flow_key f \<mapsto> f)" by (rule ext) (simp add: flow_store.get_put[OF inv])
  have no: "flow_at m (flow_key f) = None"
  proof (rule ccontr)
    assume "flow_at m (flow_key f) \<noteq> None"
    then obtain g where g: "flow_at m (flow_key f) = Some g" by blast
    then have "flow_key g = flow_key f" "hexy (fl_DstGID g)" using ok by (auto simp: sfm_ok_def flow_store.well_keyed_def)
    moreover have "hexy (fl_DstGID f)" by (simp add: f DstGIDString_def hexy_hex_bytes)
    ultimately have "fl_SrcGID g = SrcGIDString e \<and> fl_SrcQPN g = ev_SrcQPN e" using flow_key_inj[of g f] f by simp
    then show False using g assms(10) by (auto simp: flow_at_def dest!: map_of_SomeD)
  qed
  have mem: "(flow_key f, f) \<in> set (sm_activeFlows (store_flow f m))"
    using at by (auto simp: flow_at_def dest!: fun_cong[of _ _ "flow_key f"] map_of_SomeD)
  then have tgt: "Some (target_of_flow f) \<in> set (pb_serviceFlowTargets (sm_prober m1))"
    by (force simp: f(5) GetServiceTracingTargets_def)
  have "handle_destroy d m1 = notifyProberUpdate (delete_flow (flow_key f) m1)"
  proof (rule handle_destroy_only)
    show "k = flow_key f" if "(k, g) \<in> set (sm_activeFlows m1)" "fl_SrcQPN g = fl_SrcQPN f \<and> fl_SrcGID g = fl_SrcGID f" for k g
      using store_flow_entries[of k g f m] that assms(10) f by auto
  qed (use assms(8,14,15) len f mem in \<open>simp_all add: SrcGIDString_def\<close>)
  then have d: "handleEbpfEvent now2 rpc d m1 = Ret (notifyProberUpdate (delete_flow (flow_key f) m1))"
    using assms(12,13) by (simp add: handleEbpfEvent_def)
  have "flow_at (delete_flow (flow_key f) m1) = flow_at m"
  proof
    fix k
    have "distinct_flows m1" using flow_store.invar_put[OF inv] by (simp add: f(5) distinct_flows_def)
    then show "flow_at (delete_flow (flow_key f) m1) k = flow_at m k"
      using no by (simp add: flow_store.get_del) (simp add: f(5) at)
  qed
  with f at tgt d show ?thesis by (intro exI[of _ f] exI[of _ "notifyProberUpdate (delete_flow (flow_key f) m1)"]) simp
qed

text \<open>A service tracing probe is never sent. The monitor writes destination GIDs as bare hex
  digits, which the prober's address handle cannot parse: whatever events were handled,
  every probe the service loop launches ends in an error result with nothing posted.\<close>

theorem service_probes_never_sent:
  assumes "fresh_sfm m0" "handle_events rpc es m0 = Ret m"
    and "(r, t) \<in> set (fst (runServiceProbingLoop_tick (sm_prober m)))"
    and "probe_send env sel i r t p = Some (Ret (x, p'))"
  shows "\<exists>result. x = Inl result \<and> pr_Status result = STATUS_ERROR \<and> get_queue n p' = get_queue n p"
proof -
  have ok: "sfm_ok m" using sfm_ok_events[OF fresh_sfm_ok[OF assms(1)] assms(2)] .
  have launched: "(r, t) \<in> set (fst (service_tick a ts)) \<Longrightarrow> \<exists>u. Some u \<in> set ts \<and> t = correct_type u" for a ts
    by (induction a ts rule: service_tick.induct) (auto simp: Let_def split: option.splits prod.splits)
  obtain u where u: "Some u \<in> set (pb_serviceFlowTargets (sm_prober m))" "t = correct_type u"
    using launched[of "pb_agentState (sm_prober m)" "pb_serviceFlowTargets (sm_prober m)"] assms(3)
    by (auto simp: runServiceProbingLoop_tick_def split: prod.splits)
  then obtain f where f: "t = target_of_flow f" "hexy (fl_DstGID f)" using ok by (auto simp: sfm_ok_def correct_type_def target_of_flow_def)
  have send: "SendProbePacket env sel (fl_DstGID f) q s fl uq = Some (Ret (Inl (''failed to parse target GID '' @ [CHR 0x27] @ fl_DstGID f @ [CHR 0x27] @ '' as IP address for AH creation''), uq))" for q s fl uq
    by (simp add: SendProbePacket_def post_packet_def CreateAddressHandle_def hexy_unparsable[OF f(2)])
  have same: "get_queue n (upd_stats g (set_queue k uq p)) = get_queue n p" if "get_queue k p = Some uq" for g k uq
    using that by (auto simp: get_queue_def set_queue_def upd_stats_def Let_def split: option.splits)
  show ?thesis
    using assms(4) by (auto simp: probe_send_def probe_endpoints_def f(1) target_of_flow_def with_source_def flow_tuple_def send same new_result_def Let_def
        split: option.splits go.splits sum.splits if_splits)
qed


subsection \<open>Concrete events\<close>

text \<open>A connection of the local queue pair 7 to another host, stamped with the wall clock.\<close>

definition sample_connect :: "byte list \<Rightarrow> u8 \<Rightarrow> RdmaConnTuple" where
  "sample_connect src ty = (sample_event ty)\<lparr>ev_Timestamp := 1700000000000000000, ev_SrcGID := src\<rparr>"

definition sample_now :: u64 where "sample_now = 1700000000000001000"

definition sample_peer :: "byte list" where "sample_peer = replicate 16 2"

lemma sample_connect_valid:
  "ty = 2 \<or> ty = 3 \<Longrightarrow> ValidateStructAlignment sample_now (sample_connect src ty) = None"
  by (auto simp: ValidateStructAlignment_def sample_connect_def sample_event_def sample_now_def hour_ns_def RdmaEventCreate_def RdmaEventDestroy_def)

lemma sample_gids:
  "DstGIDString (sample_connect src ty) = ''01010101010101010101010101010101''" "SrcGIDString (sample_connect (replicate 16 0) ty) = zero_gid_hex"
  "SrcGIDString (sample_connect sample_peer ty) = ''02020202020202020202020202020202''"
proof -
  have "hex_bytes (replicate 16 1) = ''01010101010101010101010101010101''" "hex_bytes (replicate 16 0) = zero_gid_hex"
    "hex_bytes sample_peer = ''02020202020202020202020202020202''"
    by code_simp+
  then show "DstGIDString (sample_connect src ty) = ''01010101010101010101010101010101''" "SrcGIDString (sample_connect (replicate 16 0) ty) = zero_gid_hex"
    "SrcGIDString (sample_connect sample_peer ty) = ''02020202020202020202020202020202''"
    by (simp_all only: DstGIDString_def SrcGIDString_def sample_connect_def sample_event_def RdmaConnTuple.simps)
qed

lemma offline_no_panic: "\<not> cc_connected (sm_client m) \<Longrightarrow> \<exists>m'. handleEbpfEvent now rpc e m = Ret m'"
  by (simp add: handleEbpfEvent_def handle_modify_def Client_GetTargetRnicInfo_def Let_def)

lemma sample_sfm_fresh: "fresh_sfm sample_sfm"
  by (simp add: fresh_sfm_def sample_sfm_def NewProber_def)

theorem connection_added_and_removed_witness:
  "\<exists>m1 m2 f. handleEbpfEvent sample_now (\<lambda>_. Inl ''down'') (sample_connect sample_peer 2) sample_sfm = Ret m1 \<and> flow_at m1 (flow_key f) = Some f
     \<and> handleEbpfEvent sample_now (\<lambda>_. Inl ''down'') (sample_connect sample_peer 3) m1 = Ret m2 \<and> flow_at m2 = flow_at sample_sfm"
proof -
  let ?e = "sample_connect sample_peer 2" and ?d = "sample_connect sample_peer 3" and ?rpc = "\<lambda>_. Inl ''down''"
  have z: "zero_gid_hex \<noteq> ''01010101010101010101010101010101''" "zero_gid_hex \<noteq> ''02020202020202020202020202020202''" by (simp_all add: zero_gid_hex_def)
  have h: "handle_events ?rpc [] sample_sfm = Ret sample_sfm" by simp
  have e: "event_ok ?e" "ev_EventType ?e = 2" "ev_QPState ?e = ibQpsRTR" "ev_DstQPN ?e \<noteq> 0" "SrcGIDString ?e \<noteq> zero_gid_hex" "DstGIDString ?e \<noteq> zero_gid_hex"
    "ev_EventType ?d = 3" "ev_SrcGID ?d = ev_SrcGID ?e" "ev_SrcQPN ?d = ev_SrcQPN ?e"
    using z by (auto simp: sample_gids) (simp_all add: event_ok_def sample_connect_def sample_event_def sample_peer_def ibQpsRTR_def)
  have n: "\<forall>(k, f) \<in> set (sm_activeFlows sample_sfm). \<not> (fl_SrcGID f = SrcGIDString ?e \<and> fl_SrcQPN f = ev_SrcQPN ?e)" by (simp add: sample_sfm_def)
  have "\<not> cc_connected (sm_client sample_sfm)" by (simp add: sample_sfm_def NewControllerClient_def)
  then obtain m1 where m1: "handleEbpfEvent sample_now ?rpc ?e sample_sfm = Ret m1" using offline_no_panic by blast
  from connection_added_and_removed[OF sample_sfm_fresh h e(1) sample_connect_valid[of 2] e(2-6) n m1 sample_connect_valid[of 3] e(7-9)] m1
  show ?thesis by (metis fun_upd_same)
qed

definition sample_local :: Prober where
  "sample_local = NewProber (sample_agent\<lparr>as_rdmaManager := Some (sample_manager\<lparr>
       mg_Devices := [(new_rnic ''mlx5_0'')\<lparr>rn_GID := ''fe80::1'', rn_ProberQueue := Some \<lparr>qr_id = 0, qr_QPN = 7\<rparr>\<rparr>],
       mg_heap := (\<lambda>_. None)(0 := Some \<lparr>qo_queue = sample_queue UDQueueTypeSender, qo_QP = True, qo_CQ = True, qo_CompChannel = True, qo_SendMR = True,
         qo_RecvMR = True, qo_SendBuf = True, qo_RecvBuf = True, qo_pollerRunning = True\<rparr>)\<rparr>),
     as_rnicByGID := Some [(''fe80::1'', 0)], as_senderQueues := Some [(''fe80::1'', Some \<lparr>qr_id = 0, qr_QPN = 7\<rparr>)]\<rparr>)"

theorem service_probes_never_sent_witness:
  "\<exists>m r t x p'. handle_events (\<lambda>_. Inl ''down'') [(sample_now, sample_connect (replicate 16 0) 2)] (sample_sfm\<lparr>sm_prober := sample_local\<rparr>) = Ret m
     \<and> (r, t) \<in> set (fst (runServiceProbingLoop_tick (sm_prober m))) \<and> probe_send (sample_env 1 []) SelComp 0 r t sample_local = Some (Ret (Inl x, p'))
     \<and> pr_Status x = STATUS_ERROR"
proof -
  let ?e = "sample_connect (replicate 16 0) 2" and ?rpc = "\<lambda>_. Inl ''down''" and ?m = "sample_sfm\<lparr>sm_prober := sample_local\<rparr>"
  let ?f = "\<lparr>fl_SrcGID = ''fe80::1'', fl_SrcQPN = 7, fl_DstGID = DstGIDString ?e, fl_DstQPN = 8, fl_DstIP = ''''\<rparr>"
  have r: "resolved_src (pb_agentState sample_local) ?e zero_gid_hex = ''fe80::1''"
    by (simp add: resolved_src_def fillMissingSrcGID_def GetDetectedRNICs_def sample_local_def NewProber_def sample_agent_def sample_connect_def sample_event_def)
  have z: "zero_gid_hex \<noteq> DstGIDString ?e" "DstGIDString ?e \<noteq> ''''" unfolding sample_gids by (simp_all add: zero_gid_hex_def)
  let ?m1 = "notifyProberUpdate (store_flow ?f ?m)"
  have h: "handle_events ?rpc [(sample_now, ?e)] ?m = Ret ?m1"
    using z r sample_connect_valid[of 2]
    by (simp add: handleEbpfEvent_def handle_modify_def sample_gids(2) Let_def Client_GetTargetRnicInfo_def)
      (simp add: sample_connect_def sample_event_def ibQpsRTR_def sample_sfm_def NewControllerClient_def)
  have fr: "fresh_sfm ?m" by (simp add: fresh_sfm_def sample_sfm_def sample_local_def NewProber_def)
  have tg: "pb_serviceFlowTargets (sm_prober ?m1) = [Some (target_of_flow ?f)]" by (simp add: GetServiceTracingTargets_def store_flow_def sample_sfm_def)
  have ag: "pb_agentState (sm_prober ?m1) = pb_agentState sample_local" by (simp add: store_flow_def)
  obtain rn where rn: "GetRnicByGID (pb_agentState sample_local) ''fe80::1'' = Some rn" "rn_GID rn = ''fe80::1''"
    by (simp add: GetRnicByGID_def lookup_def rnic_at_def sample_local_def NewProber_def)
  have mem: "(rn, correct_type (target_of_flow ?f)) \<in> set (fst (runServiceProbingLoop_tick (sm_prober ?m1)))"
    unfolding runServiceProbingLoop_tick_def tg ag using rn(1) by (simp add: target_of_flow_def)
  have c: "correct_type (target_of_flow ?f) = target_of_flow ?f" by (simp add: correct_type_def target_of_flow_def)
  have q: "GetSenderUDQueue (pb_agentState sample_local) ''fe80::1'' = Some \<lparr>qr_id = 0, qr_QPN = 7\<rparr>" "get_queue 0 sample_local = Some (sample_queue UDQueueTypeSender)"
    by (simp_all add: GetSenderUDQueue_def lookup_def sample_local_def NewProber_def get_queue_def)
  have px: "ParseIP (DstGIDString ?e) = None" by (rule hexy_unparsable) (simp add: DstGIDString_def hexy_hex_bytes)
  obtain x p' where s: "probe_send (sample_env 1 []) SelComp 0 rn (correct_type (target_of_flow ?f)) sample_local = Some (Ret (x, p'))"
    unfolding c using q rn px by (simp add: probe_send_def probe_endpoints_def with_source_def target_of_flow_def flow_tuple_def SendProbePacket_def
        post_packet_def CreateAddressHandle_def Let_def)
  from service_probes_never_sent[OF fr h mem s, of 0] h mem s show ?thesis by blast
qed


end
