(* ===== verification/Ebpf_Example.thy ===== *)
theory Ebpf_Example
  imports Service_Flow
begin

text \<open>
  The example of internal/ebpf/service_tracing_example.go: a program that starts the tracer and keeps a
  table of the RDMA connections it hears of. Shown: the table holds exactly the connections
  whose last sign of life has not been followed by the end of their queue pair.
\<close>

subsection \<open>The table of connections\<close>

type_synonym conn_table = "(string \<times> RdmaConnTuple) list"

definition conn_key :: "RdmaConnTuple \<Rightarrow> string" where
  "conn_key e = SrcGIDString e @ '':'' @ dec_string (unat (ev_SrcQPN e)) @ ''-'' @ DstGIDString e @ '':'' @ dec_string (unat (ev_DstQPN e))"

text \<open>The two conditions of the event case, with the numbers the code compares with.\<close>

definition connects :: "RdmaConnTuple \<Rightarrow> bool" where
  "connects e \<longleftrightarrow> ev_EventType e = 2 \<and> ev_QPState e = 3"

definition destroys :: "RdmaConnTuple \<Rightarrow> bool" where
  "destroys e \<longleftrightarrow> ev_EventType e = 3"

definition store_conn :: "RdmaConnTuple \<Rightarrow> conn_table \<Rightarrow> conn_table" where
  "store_conn e conns = (if connects e then AList.update (conn_key e) e conns else conns)"

text \<open>The loop over the map deletes while it iterates, which leaves every other entry to be visited.\<close>

definition remove_conns :: "RdmaConnTuple \<Rightarrow> conn_table \<Rightarrow> conn_table" where
  "remove_conns e conns = (if destroys e then filter (\<lambda>(k, c). ev_SrcQPN c \<noteq> ev_SrcQPN e) conns else conns)"

definition example_event :: "RdmaConnTuple \<Rightarrow> conn_table \<Rightarrow> conn_table" where
  "example_event e conns = remove_conns e (store_conn e conns)"

subsection \<open>The program\<close>

text \<open>What a pass of the select meets: an event, the cancelled context, or a minute without either. The
  lines logged for removed connections come in the order of the map.\<close>

datatype example_input = ExEvent RdmaConnTuple | ExCancelled | ExMinute

definition event_lines :: "(int \<Rightarrow> string) \<Rightarrow> RdmaConnTuple \<Rightarrow> conn_table \<Rightarrow> string list" where
  "event_lines fmt_time e conns =
     [''RDMA event detected: '' @ event_String fmt_time e] @
     (if connects e then [''Active RDMA connection detected: '' @ conn_key e] else []) @
     (if destroys e then map (\<lambda>(k, c). ''RDMA connection removed: '' @ k) (filter (\<lambda>(k, c). ev_SrcQPN c = ev_SrcQPN e) (store_conn e conns)) else [])"

fun example_loop :: "(int \<Rightarrow> string) \<Rightarrow> example_input list \<Rightarrow> conn_table \<Rightarrow> string list \<times> conn_table \<times> bool" where
  "example_loop fmt_time [] conns = ([], conns, False)"
| "example_loop fmt_time (ExEvent e # ins) conns =
     (let (out, conns', ended) = example_loop fmt_time ins (example_event e conns) in (event_lines fmt_time e conns @ out, conns', ended))"
| "example_loop fmt_time (ExCancelled # ins) conns = ([''Terminating tracing''], conns, True)"
| "example_loop fmt_time (ExMinute # ins) conns =
     (let (out, conns', ended) = example_loop fmt_time ins conns in
      ((''Currently tracking '' @ dec_string (length conns) @ '' RDMA connections'') # out, conns', ended))"

text \<open>log.Fatalf ends the process without running the deferred Stop; a return runs it.\<close>

datatype example_outcome = ExFatal string "ServiceTracer option" | ExRunning "string list" conn_table ServiceTracer
  | ExReturned "string list" "(unit res \<times> ServiceTracer) go"

definition ExampleServiceTracing ::
  "load_env \<Rightarrow> string option \<Rightarrow> (string \<Rightarrow> string option) \<Rightarrow> string option \<Rightarrow> (string \<Rightarrow> string option) \<Rightarrow> (int \<Rightarrow> string) \<Rightarrow> example_input list \<Rightarrow> example_outcome" where
  "ExampleServiceTracing env kallsyms attach ring_err fails fmt_time ins =
     (case NewServiceTracer env of
        Inl e \<Rightarrow> ExFatal (''failed to initialize service tracer: '' @ e) None
      | Inr t0 \<Rightarrow>
        (case Tracer_Start kallsyms attach ring_err t0 of
           (Inl e, t) \<Rightarrow> ExFatal (''failed to start tracing: '' @ e) (Some t)
         | (Inr _, t) \<Rightarrow>
           (case example_loop fmt_time ins [] of
              (out, conns, ended) \<Rightarrow>
                let lines = ''Started RDMA service tracing...'' # out in
                if ended then ExReturned lines (Tracer_Stop fails t) else ExRunning lines conns t)))"

subsection \<open>Keys\<close>

lemma hex_digit_inj:
  assumes "m < 16" "n < 16" "hex_digit m = hex_digit n"
  shows "m = n"
proof -
  have "map hex_digit [0..<16] = ''0123456789abcdef''" by code_simp
  then have "distinct (map hex_digit [0..<16])" by simp
  then have "inj_on hex_digit (set [0..<16])" unfolding distinct_map by blast
  with assms show ?thesis by (simp add: inj_on_def)
qed

lemma hex_bytes_inj: "hex_bytes xs = hex_bytes ys \<Longrightarrow> xs = ys"
proof (induction xs arbitrary: ys)
  case Nil
  then show ?case by (cases ys) (auto simp: hex_bytes_def)
next
  case (Cons x xs)
  then obtain y ys' where y: "ys = y # ys'" by (cases ys) (auto simp: hex_bytes_def)
  have "unat (b :: byte) < 16 * 16" for b by (rule order_less_le_trans[OF unsigned_less]) simp
  then have b: "unat (b :: byte) div 16 < 16" for b by (rule less_mult_imp_div_less)
  have "unat x div 16 = unat y div 16" "unat x mod 16 = unat y mod 16"
    using Cons.prems y hex_digit_inj[OF b b] hex_digit_inj[of "unat x mod 16" "unat y mod 16"] by (simp_all add: hex_bytes_def)
  then have "x = y" by (metis div_mod_decomp word_unat_eq_iff)
  moreover have "hex_bytes xs = hex_bytes ys'" using Cons.prems y by (simp add: hex_bytes_def)
  ultimately show ?case using Cons.IH y by simp
qed

text \<open>The key of a connection determines its ends.\<close>

lemma conn_key_inj:
  assumes "conn_key e = conn_key d"
  shows "ev_SrcGID e = ev_SrcGID d \<and> ev_SrcQPN e = ev_SrcQPN d \<and> ev_DstGID e = ev_DstGID d \<and> ev_DstQPN e = ev_DstQPN d"
proof -
  let ?f = "\<lambda>e. \<lparr>fl_SrcGID = SrcGIDString e, fl_SrcQPN = ev_SrcQPN e, fl_DstGID = DstGIDString e, fl_DstQPN = ev_DstQPN e, fl_DstIP = ''''\<rparr>"
  have "flow_key (?f e) = flow_key (?f d)" using assms by (simp add: flow_key_def conn_key_def)
  from flow_key_inj[OF this] show ?thesis using hex_bytes_inj by (simp add: DstGIDString_def SrcGIDString_def hexy_hex_bytes)
qed

subsection \<open>What the table holds\<close>

definition events_of :: "example_input list \<Rightarrow> RdmaConnTuple list" where
  "events_of ins = concat (map (\<lambda>i. case i of ExEvent e \<Rightarrow> [e] | _ \<Rightarrow> []) (takeWhile (\<lambda>i. i \<noteq> ExCancelled) ins))"

lemma example_loop_table: "fst (snd (example_loop fmt_time ins conns)) = fold example_event (events_of ins) conns"
  by (induction fmt_time ins conns rule: example_loop.induct) (auto simp: events_of_def split: prod.splits)

lemma map_of_filter_snd: "distinct (map fst al) \<Longrightarrow> map_of (filter (\<lambda>(k, v). P v) al) k = Some v \<longleftrightarrow> map_of al k = Some v \<and> P v"
  by (induction al) (auto simp: map_of_eq_None_iff image_iff split: if_splits)

lemma example_event_distinct: "distinct (map fst conns) \<Longrightarrow> distinct (map fst (example_event e conns))"
  by (auto simp: example_event_def remove_conns_def store_conn_def distinct_update intro: distinct_map_filter)

lemma example_event_lookup:
  assumes "distinct (map fst conns)"
  shows "map_of (example_event e conns) k = Some c \<longleftrightarrow>
    (if connects e \<and> conn_key e = k then c = e else map_of conns k = Some c) \<and> \<not> (destroys e \<and> ev_SrcQPN c = ev_SrcQPN e)"
proof -
  have d: "distinct (map fst (store_conn e conns))" using assms by (simp add: store_conn_def distinct_update)
  have "map_of (store_conn e conns) k = (if connects e \<and> conn_key e = k then Some e else map_of conns k)" by (simp add: store_conn_def update_conv')
  with map_of_filter_snd[OF d, of "\<lambda>c. ev_SrcQPN c \<noteq> ev_SrcQPN e" k c] show ?thesis
    by (auto simp: example_event_def remove_conns_def)
qed

text \<open>An event of a log that connects under a key and is followed neither by another one under the key nor
  by the end of its queue pair.\<close>

definition live_in :: "RdmaConnTuple list \<Rightarrow> string \<Rightarrow> RdmaConnTuple \<Rightarrow> bool" where
  "live_in es k c \<longleftrightarrow> (\<exists>older newer. es = older @ c # newer \<and> connects c \<and> conn_key c = k
     \<and> (\<forall>b \<in> set newer. \<not> (connects b \<and> conn_key b = k) \<and> \<not> (destroys b \<and> ev_SrcQPN b = ev_SrcQPN c)))"

lemma live_in_snoc:
  "live_in (es @ [e]) k c \<longleftrightarrow> (if connects e \<and> conn_key e = k then c = e else live_in es k c \<and> \<not> (destroys e \<and> ev_SrcQPN c = ev_SrcQPN e))"
proof -
  have "live_in (es @ [e]) k c \<longleftrightarrow> (c = e \<and> connects c \<and> conn_key c = k) \<or> (live_in es k c \<and> \<not> (connects e \<and> conn_key e = k) \<and> \<not> (destroys e \<and> ev_SrcQPN e = ev_SrcQPN c))"
  proof
    assume "live_in (es @ [e]) k c"
    then obtain older newer where l: "es @ [e] = older @ c # newer" "connects c" "conn_key c = k"
      "\<forall>b \<in> set newer. \<not> (connects b \<and> conn_key b = k) \<and> \<not> (destroys b \<and> ev_SrcQPN b = ev_SrcQPN c)" by (auto simp: live_in_def)
    then show "(c = e \<and> connects c \<and> conn_key c = k) \<or> (live_in es k c \<and> \<not> (connects e \<and> conn_key e = k) \<and> \<not> (destroys e \<and> ev_SrcQPN e = ev_SrcQPN c))"
      by (cases newer rule: rev_cases) (auto simp: live_in_def)
  next
    assume "(c = e \<and> connects c \<and> conn_key c = k) \<or> (live_in es k c \<and> \<not> (connects e \<and> conn_key e = k) \<and> \<not> (destroys e \<and> ev_SrcQPN e = ev_SrcQPN c))"
    then show "live_in (es @ [e]) k c"
    proof
      assume "c = e \<and> connects c \<and> conn_key c = k"
      then show ?thesis unfolding live_in_def by - (rule exI[of _ es], rule exI[of _ "[]"], auto)
    next
      assume r: "live_in es k c \<and> \<not> (connects e \<and> conn_key e = k) \<and> \<not> (destroys e \<and> ev_SrcQPN e = ev_SrcQPN c)"
      then obtain older newer where l: "es = older @ c # newer" "connects c" "conn_key c = k"
        "\<forall>b \<in> set newer. \<not> (connects b \<and> conn_key b = k) \<and> \<not> (destroys b \<and> ev_SrcQPN b = ev_SrcQPN c)" by (auto simp: live_in_def)
      then show ?thesis unfolding live_in_def using r by - (rule exI[of _ older], rule exI[of _ "newer @ [e]"], auto)
    qed
  qed
  then show ?thesis by auto
qed

text \<open>C40: the example's table of connections after any sequence of inputs. Under a key it holds an event if
  and only if that event announced the connection and was followed neither by a newer
  announcement under the key nor by the end of its source queue pair; no key occurs twice, and
  a key determines both ends of its connection.\<close>

theorem example_tracks_connections:
  "let conns = fst (snd (example_loop fmt_time ins [])) in
     (\<forall>k c. map_of conns k = Some c \<longleftrightarrow> live_in (events_of ins) k c) \<and> distinct (map fst conns)
   \<and> (\<forall>c d. conn_key c = conn_key d \<longleftrightarrow> (ev_SrcGID c, ev_SrcQPN c, ev_DstGID c, ev_DstQPN c) = (ev_SrcGID d, ev_SrcQPN d, ev_DstGID d, ev_DstQPN d))"
proof -
  have table: "(\<forall>k c. map_of (fold example_event es []) k = Some c \<longleftrightarrow> live_in es k c) \<and> distinct (map fst (fold example_event es []))" for es
  proof (induction es rule: rev_induct)
    case Nil
    show ?case by (simp add: live_in_def)
  next
    case (snoc e es)
    have x: "\<not> (connects e \<and> destroys e)" by (simp add: connects_def destroys_def)
    have "map_of (fold example_event (es @ [e]) []) k = Some c \<longleftrightarrow> live_in (es @ [e]) k c" for k c
      using example_event_lookup[of "fold example_event es []" e k c] snoc x unfolding live_in_snoc by (auto simp del: map_of_eq_Some_iff)
    then show ?case using snoc by (simp add: example_event_distinct del: map_of_eq_Some_iff)
  qed
  have key: "conn_key c = conn_key d \<longleftrightarrow> (ev_SrcGID c, ev_SrcQPN c, ev_DstGID c, ev_DstQPN c) = (ev_SrcGID d, ev_SrcQPN d, ev_DstGID d, ev_DstQPN d)" for c d
    using conn_key_inj[of c d] by (auto simp: conn_key_def SrcGIDString_def DstGIDString_def)
  show ?thesis unfolding Let_def example_loop_table using table[of "events_of ins"] key by blast
qed

end
