(* ===== verification/Flow_Life.thy ===== *)
theory Flow_Life
  imports Service_Flow Stopping
begin

text \<open>
  The service flow monitor and the service tracer as processes: what the flow table holds whatever
  events arrive, the event loop beside Stop
  (internal/agent/serviceflowmonitor/serviceflowmonitor.go), Stop of the tracer beside its own
  goroutines, and the reports on the tracer's statistics (internal/ebpf/rdma_tracing.go).
\<close>

subsection \<open>Well-formed flow tables\<close>

text \<open>A flow has a source and a destination: the destination GID is 32 hex digits and not zero, its
  queue pair not zero. The table has each flow once, under its key, and the prober's list of
  targets is the table.\<close>

definition flow_wt :: "ServiceFlow \<Rightarrow> bool" where
  "flow_wt f \<longleftrightarrow> fl_SrcGID f \<noteq> '''' \<and> length (fl_DstGID f) = 32 \<and> hexy (fl_DstGID f) \<and> fl_DstGID f \<noteq> zero_gid_hex \<and> fl_DstQPN f \<noteq> 0"

definition table_wt :: "ServiceFlowMonitor \<Rightarrow> bool" where
  "table_wt m \<longleftrightarrow> distinct (map fst (sm_activeFlows m)) \<and> (\<forall>(k, f) \<in> set (sm_activeFlows m). k = flow_key f \<and> flow_wt f)"

definition monitor_wt :: "ServiceFlowMonitor \<Rightarrow> bool" where
  "monitor_wt m \<longleftrightarrow> table_wt m \<and> pb_serviceFlowTargets (sm_prober m) = GetServiceTracingTargets m"

text \<open>An answer that reports success names an RNIC.\<close>

definition rpc_wt :: "(TargetRnicInfoRequest \<Rightarrow> TargetRnicInfoResponse res) \<Rightarrow> bool" where
  "rpc_wt rpc \<longleftrightarrow> (\<forall>req resp. rpc req = Inr resp \<and> trp_Success resp \<longrightarrow> trp_TargetRnic resp \<noteq> None)"

lemma table_wt_store: "table_wt m \<Longrightarrow> flow_wt f \<Longrightarrow> table_wt (store_flow f m)"
  using store_flow_entries[of _ _ f m] by (fastforce simp: table_wt_def distinct_keys_update store_flow_def)

lemma table_wt_delete: "table_wt m \<Longrightarrow> table_wt (delete_flow k m)"
  by (auto simp: table_wt_def delete_flow_def AList.delete_eq distinct_map_filter)

lemma monitor_wt_notify: "table_wt m \<Longrightarrow> monitor_wt (notifyProberUpdate m)"
  by (simp add: monitor_wt_def table_wt_def)

lemma length_DstGIDString: "event_ok e \<Longrightarrow> length (DstGIDString e) = 32"
proof -
  have "length (hex_bytes bs) = 2 * length bs" for bs by (induction bs) (simp_all add: hex_bytes_def)
  then show "event_ok e \<Longrightarrow> ?thesis" by (simp add: DstGIDString_def event_ok_def)
qed

lemma lookup_returns: "rpc_wt rpc \<Longrightarrow> \<exists>r. Client_GetTargetRnicInfo c rpc ip gid = Ret r"
proof -
  let ?req = "\<lparr>trq_TargetIp = ip, trq_TargetGid = gid\<rparr>"
  assume "rpc_wt rpc"
  then have "trp_Success resp \<Longrightarrow> trp_TargetRnic resp \<noteq> None" if "rpc ?req = Inr resp" for resp using that by (simp add: rpc_wt_def)
  then show ?thesis by (cases "rpc ?req") (auto simp: Client_GetTargetRnicInfo_def)
qed

lemma handle_modify_wt:
  assumes "monitor_wt m" "event_ok e" "rpc_wt rpc"
  shows "\<exists>m'. handle_modify rpc e m = Ret m' \<and> monitor_wt m'"
proof -
  let ?src = "resolved_src (pb_agentState (sm_prober m)) e (SrcGIDString e)" and ?dst = "DstGIDString e"
  obtain r where r: "Client_GetTargetRnicInfo (sm_client m) rpc ?dst '''' = Ret r" using lookup_returns[OF assms(3)] by blast
  let ?f = "\<lparr>fl_SrcGID = ?src, fl_SrcQPN = ev_SrcQPN e, fl_DstGID = ?dst, fl_DstQPN = ev_DstQPN e, fl_DstIP = (case r of Inl _ \<Rightarrow> '''' | Inr info \<Rightarrow> ri_IpAddress info)\<rparr>"
  have "hexy ?dst" by (simp add: DstGIDString_def hexy_hex_bytes)
  then have "flow_wt ?f" if "?src \<noteq> ''''" "?dst \<noteq> zero_gid_hex" "ev_DstQPN e \<noteq> 0" using that length_DstGIDString[OF assms(2)] by (simp add: flow_wt_def)
  with assms(1) r show ?thesis
    by (simp add: handle_modify_def Let_def monitor_wt_def[of m] monitor_wt_notify table_wt_store)
qed

lemma handle_destroy_wt: "monitor_wt m \<Longrightarrow> monitor_wt (handle_destroy e m)"
proof -
  assume wt: "monitor_wt m"
  from handle_destroy_cases[of e m] show ?thesis
  proof (elim disjE exE conjE)
    fix k f assume "(k, f) \<in> set (sm_activeFlows m)" and d: "handle_destroy e m = (if k \<noteq> '''' then notifyProberUpdate (delete_flow k m) else delete_flow k m)"
    then have "k = flow_key f" using wt by (auto simp: monitor_wt_def table_wt_def)
    with d wt show ?thesis by (simp add: monitor_wt_notify table_wt_delete monitor_wt_def[of m])
  qed (simp add: wt)
qed

lemma handleEbpfEvent_wt:
  assumes "monitor_wt m" "event_ok e" "rpc_wt rpc"
  shows "\<exists>m'. handleEbpfEvent now rpc e m = Ret m' \<and> monitor_wt m'"
  using assms handle_modify_wt handle_destroy_wt by (simp add: handleEbpfEvent_def)

lemma handle_events_wt:
  "monitor_wt m \<Longrightarrow> list_all (event_ok \<circ> snd) es \<Longrightarrow> rpc_wt rpc \<Longrightarrow> \<exists>m'. handle_events rpc es m = Ret m' \<and> monitor_wt m'"
proof (induction es arbitrary: m)
  case (Cons x es)
  obtain now e where x: "x = (now, e)" by (cases x)
  obtain m1 where "handleEbpfEvent now rpc e m = Ret m1" "monitor_wt m1" using handleEbpfEvent_wt Cons.prems x by fastforce
  with Cons.IH[of m1] Cons.prems x show ?case by simp
qed simp

text \<open>Different keys are different flows, so no flow is probed twice in a round.\<close>

lemma distinct_targets:
  assumes "table_wt m"
  shows "distinct (map (\<lambda>(k, f). (fl_SrcGID f, fl_SrcQPN f, fl_DstGID f, fl_DstQPN f)) (sm_activeFlows m))"
proof -
  let ?t = "\<lambda>(k :: string, f). (fl_SrcGID f, fl_SrcQPN f, fl_DstGID f, fl_DstQPN f)"
  let ?key = "\<lambda>(s, q, d, r). s @ '':'' @ dec_string (unat (q :: u32)) @ ''-'' @ d @ '':'' @ dec_string (unat (r :: u32))"
  have "map fst (sm_activeFlows m) = map ?key (map ?t (sm_activeFlows m))"
    using assms by (auto simp: table_wt_def flow_key_def)
  moreover have "distinct (map fst (sm_activeFlows m))" using assms by (simp add: table_wt_def)
  ultimately have "distinct (map ?key (map ?t (sm_activeFlows m)))" by (simp only:)
  then show ?thesis using distinct_map[of ?key "map ?t (sm_activeFlows m)"] by blast
qed

text \<open>C36: the flow table stays well formed. From a new monitor on, whatever well-formed events arrive
  and whatever well-formed answers the controller gives, the event handler returns (it does
  not panic), every flow has a source, a destination of 32 hex digits that is not zero and a
  destination queue pair, it stands once in the table, under its key, and the prober's
  targets are the flows of the table, each once.\<close>

theorem flow_table_well_typed:
  assumes "NewServiceFlowMonitor tracer_nil client prober state_nil = Inr m0" "pb_serviceFlowTargets (sm_prober m0) = []"
    and "list_all (event_ok \<circ> snd) es" "rpc_wt rpc"
  shows "\<exists>m. handle_events rpc es m0 = Ret m
    \<and> (\<forall>(k, f) \<in> set (sm_activeFlows m). k = flow_key f \<and> fl_SrcGID f \<noteq> '''' \<and> length (fl_DstGID f) = 32 \<and> fl_DstGID f \<noteq> zero_gid_hex \<and> fl_DstQPN f \<noteq> 0)
    \<and> distinct (map (\<lambda>(k, f). (fl_SrcGID f, fl_SrcQPN f, fl_DstGID f, fl_DstQPN f)) (sm_activeFlows m))
    \<and> pb_serviceFlowTargets (sm_prober m) = map (\<lambda>(k, f). Some (target_of_flow f)) (sm_activeFlows m)"
proof -
  have "monitor_wt m0" using assms(1,2)
    by (auto simp: NewServiceFlowMonitor_def monitor_wt_def table_wt_def GetServiceTracingTargets_def split: if_splits option.splits)
  from handle_events_wt[OF this assms(3,4)] obtain m where m: "handle_events rpc es m0 = Ret m" "monitor_wt m" by blast
  then have "table_wt m" by (simp add: monitor_wt_def)
  from distinct_targets[OF this] m this show ?thesis
    by (intro exI[of _ m]) (auto simp: monitor_wt_def table_wt_def flow_wt_def GetServiceTracingTargets_def)
qed

theorem flow_table_well_typed_witness:
  "\<exists>m0 m. NewServiceFlowMonitor False (Some (NewControllerClient ''c:1'')) (Some sample_local) False = Inr m0
     \<and> handle_events (\<lambda>_. Inl ''down'') [(sample_now, sample_connect sample_peer 2), (sample_now, sample_connect sample_peer 3)] m0 = Ret m
     \<and> pb_serviceFlowTargets (sm_prober m) = map (\<lambda>(k, f). Some (target_of_flow f)) (sm_activeFlows m)"
proof -
  obtain m0 where m0: "NewServiceFlowMonitor False (Some (NewControllerClient ''c:1'')) (Some sample_local) False = Inr m0" "pb_serviceFlowTargets (sm_prober m0) = []"
    by (simp add: NewServiceFlowMonitor_def sample_local_def NewProber_def)
  let ?es = "[(sample_now, sample_connect sample_peer 2), (sample_now, sample_connect sample_peer 3)]"
  have "list_all (event_ok \<circ> snd) ?es" by (simp add: event_ok_def sample_connect_def sample_event_def sample_peer_def)
  moreover have "rpc_wt (\<lambda>_. Inl ''down'')" by (simp add: rpc_wt_def)
  ultimately show ?thesis using flow_table_well_typed[OF m0] m0(1) by blast
qed


subsection \<open>Stopping the monitor\<close>

text \<open>The event loop beside Stop: the events that wait in the tracer's channel (which the tracer never
  closes), the loop, the wait group that Start has counted it into. When the context is
  cancelled and an event or a tick is ready the select may take any of them.\<close>

datatype sfm_stop_pc = SfmRunning | SfmWaiting | SfmStopped

record sfm_world =
  fw_m :: ServiceFlowMonitor
  fw_events :: "RdmaConnTuple list"
  fw_loop :: bool
  fw_wg :: nat
  fw_cancelled :: bool
  fw_stop :: sfm_stop_pc
  fw_panic :: "string option"

definition Sfm_Start :: "ServiceFlowMonitor \<Rightarrow> sfm_world" where
  "Sfm_Start m = \<lparr>fw_m = m, fw_events = [], fw_loop = True, fw_wg = 1, fw_cancelled = False, fw_stop = SfmRunning, fw_panic = None\<rparr>"

inductive sfm_stop_step :: "sfm_world \<Rightarrow> sfm_world \<Rightarrow> bool" where
  sfm_cancel: "fw_panic w = None \<Longrightarrow> fw_stop w = SfmRunning \<Longrightarrow> sfm_stop_step w (w\<lparr>fw_stop := SfmWaiting, fw_cancelled := True\<rparr>)"
| sfm_loop_ends: "fw_panic w = None \<Longrightarrow> fw_loop w \<Longrightarrow> fw_cancelled w \<Longrightarrow> sfm_stop_step w (w\<lparr>fw_loop := False, fw_wg := fw_wg w - 1\<rparr>)"
| sfm_waited: "fw_panic w = None \<Longrightarrow> fw_stop w = SfmWaiting \<Longrightarrow> fw_wg w = 0 \<Longrightarrow> sfm_stop_step w (w\<lparr>fw_stop := SfmStopped\<rparr>)"

inductive sfm_event_step :: "(TargetRnicInfoRequest \<Rightarrow> TargetRnicInfoResponse res) \<Rightarrow> sfm_world \<Rightarrow> sfm_world \<Rightarrow> bool" for rpc where
  sfm_arrives: "fw_panic w = None \<Longrightarrow> length (fw_events w) < 100 \<Longrightarrow> sfm_event_step rpc w (w\<lparr>fw_events := fw_events w @ [e]\<rparr>)"
| sfm_handles: "fw_panic w = None \<Longrightarrow> fw_loop w \<Longrightarrow> fw_events w = e # es \<Longrightarrow> handleEbpfEvent now rpc e (fw_m w) = Ret m' \<Longrightarrow>
     sfm_event_step rpc w (w\<lparr>fw_m := m', fw_events := es\<rparr>)"
| sfm_panics: "fw_panic w = None \<Longrightarrow> fw_loop w \<Longrightarrow> fw_events w = e # es \<Longrightarrow> handleEbpfEvent now rpc e (fw_m w) = Panic p \<Longrightarrow>
     sfm_event_step rpc w (w\<lparr>fw_panic := Some p\<rparr>)"
| sfm_ticks: "fw_panic w = None \<Longrightarrow> fw_loop w \<Longrightarrow> sfm_event_step rpc w w"

inductive_cases sfm_stop_stepE: "sfm_stop_step w w'"

inductive_cases sfm_event_stepE: "sfm_event_step rpc w w'"

definition sfm_world_ok :: "sfm_world \<Rightarrow> bool" where
  "sfm_world_ok w \<longleftrightarrow> fw_wg w = (if fw_loop w then 1 else 0) \<and> (fw_cancelled w \<longleftrightarrow> fw_stop w \<noteq> SfmRunning) \<and> (fw_stop w = SfmStopped \<longrightarrow> \<not> fw_loop w)"

fun sfm_rank :: "sfm_stop_pc \<Rightarrow> nat" where
  "sfm_rank SfmRunning = 2" | "sfm_rank SfmWaiting = 1" | "sfm_rank SfmStopped = 0"

definition sfm_left :: "sfm_world \<Rightarrow> nat" where
  "sfm_left w = sfm_rank (fw_stop w) + fw_wg w"

interpretation sfm: stop_beside sfm_stop_step "sfm_event_step rpc" sfm_world_ok "\<lambda>w. fw_stop w \<noteq> SfmRunning" "\<lambda>w. fw_stop w = SfmStopped \<or> fw_panic w \<noteq> None" sfm_left for rpc
proof unfold_locales
  fix w w' assume "sfm_stop_step w w'" "sfm_world_ok w" "fw_stop w \<noteq> SfmRunning"
  then show "sfm_world_ok w' \<and> fw_stop w' \<noteq> SfmRunning \<and> sfm_left w' < sfm_left w"
    by (auto elim!: sfm_stop_stepE simp: sfm_world_ok_def sfm_left_def split: if_splits)
next
  fix w w' assume "sfm_event_step rpc w w'" "sfm_world_ok w" "fw_stop w \<noteq> SfmRunning"
  then show "sfm_world_ok w' \<and> fw_stop w' \<noteq> SfmRunning \<and> sfm_left w' \<le> sfm_left w"
    by (auto elim!: sfm_event_stepE simp: sfm_world_ok_def sfm_left_def)
next
  fix w assume "sfm_world_ok w" "fw_stop w \<noteq> SfmRunning" "\<not> (fw_stop w = SfmStopped \<or> fw_panic w \<noteq> None)"
  then show "\<exists>w'. sfm_stop_step w w'"
    by (cases "fw_stop w"; cases "fw_loop w") (auto simp: sfm_world_ok_def intro: sfm_loop_ends sfm_waited)
qed

text \<open>Stop returns unless the loop is ignored for ever, and from then on no event changes the flows:
  the prober keeps the targets of the last event.\<close>

lemma sfm_Stop_returns:
  assumes "(\<lambda>w w'. sfm_stop_step w w' \<or> sfm_event_step rpc w w')\<^sup>*\<^sup>* (Sfm_Start m) w" "fw_stop w \<noteq> SfmRunning"
  shows "run 0 = w \<Longrightarrow> (\<And>i. sfm_stop_step (run i) (run (Suc i)) \<or> sfm_event_step rpc (run i) (run (Suc i))) \<Longrightarrow>
      (\<And>i. \<exists>j \<ge> i. (fw_stop (run j) = SfmStopped \<or> fw_panic (run j) \<noteq> None) \<or> sfm_stop_step (run j) (run (Suc j))) \<Longrightarrow>
      \<exists>j. fw_stop (run j) = SfmStopped \<or> fw_panic (run j) \<noteq> None"
    and "fw_stop w = SfmStopped \<Longrightarrow> sfm_stop_step w w' \<or> sfm_event_step rpc w w' \<Longrightarrow> fw_m w' = fw_m w"
proof -
  from assms(1) have ok: "sfm_world_ok w"
  proof (induction rule: rtranclp_induct)
    case base
    show ?case by (simp add: sfm_world_ok_def Sfm_Start_def)
  next
    case (step y z)
    then show ?case by (auto elim!: sfm_stop_stepE sfm_event_stepE simp: sfm_world_ok_def split: if_splits)
  qed
  show "\<exists>j. fw_stop (run j) = SfmStopped \<or> fw_panic (run j) \<noteq> None"
    if "run 0 = w" "\<And>i. sfm_stop_step (run i) (run (Suc i)) \<or> sfm_event_step rpc (run i) (run (Suc i))"
      "\<And>i. \<exists>j \<ge> i. (fw_stop (run j) = SfmStopped \<or> fw_panic (run j) \<noteq> None) \<or> sfm_stop_step (run j) (run (Suc j))"
    using sfm.fair_run_stops[of run rpc] that ok assms(2) by blast
  show "fw_m w' = fw_m w" if "fw_stop w = SfmStopped" "sfm_stop_step w w' \<or> sfm_event_step rpc w w'"
    using that ok by (auto elim!: sfm_stop_stepE sfm_event_stepE simp: sfm_world_ok_def)
qed

subsection \<open>Stopping the tracer\<close>

text \<open>Stop of the tracer step by step, beside the goroutine that cancels the context once the stop
  channel is closed and the loop that reads the ring buffer through the field t.reader.\<close>

datatype tracer_stop_pc = TrRunning | TrDetaching | TrClosingReader | TrClearing | TrObjects | TrStopped

datatype tracer_loop = CallsRead | InRead | SendsEvent | CallsReadOnNil | LoopReturned

record tracer_world =
  tw_t :: ServiceTracer
  tw_cancelled :: bool
  tw_readerClosed :: bool
  tw_loop :: tracer_loop
  tw_stop :: tracer_stop_pc

definition tracer_running :: "ServiceTracer \<Rightarrow> tracer_world" where
  "tracer_running t = \<lparr>tw_t = t, tw_cancelled = False, tw_readerClosed = False, tw_loop = CallsRead, tw_stop = TrRunning\<rparr>"

inductive tracer_step :: "(string \<Rightarrow> string option) \<Rightarrow> tracer_world \<Rightarrow> tracer_world \<Rightarrow> bool" for fails where
  tr_signal: "tw_stop w = TrRunning \<Longrightarrow> tracer_step fails w (w\<lparr>tw_stop := TrDetaching, tw_t := (tw_t w)\<lparr>st_stopped := True\<rparr>\<rparr>)"
| tr_detach: "tw_stop w = TrDetaching \<Longrightarrow> tracer_step fails w (w\<lparr>tw_stop := if st_reader (tw_t w) then TrClosingReader else TrObjects, tw_t := (tw_t w)\<lparr>st_kprobes := []\<rparr>\<rparr>)"
| tr_close: "tw_stop w = TrClosingReader \<Longrightarrow> tracer_step fails w (w\<lparr>tw_stop := TrClearing, tw_readerClosed := True\<rparr>)"
| tr_clear: "tw_stop w = TrClearing \<Longrightarrow> tracer_step fails w (w\<lparr>tw_stop := TrObjects, tw_t := (tw_t w)\<lparr>st_reader := False\<rparr>\<rparr>)"
| tr_objects: "tw_stop w = TrObjects \<Longrightarrow> tracer_step fails w (w\<lparr>tw_stop := TrStopped, tw_t := (tw_t w)\<lparr>st_objs := snd (Objects_Close fails (st_objs (tw_t w)))\<rparr>\<rparr>)"
| tr_helper: "st_stopped (tw_t w) \<Longrightarrow> tracer_step fails w (w\<lparr>tw_cancelled := True\<rparr>)"
| tr_read: "tw_loop w = CallsRead \<Longrightarrow> tracer_step fails w (w\<lparr>tw_loop := if st_reader (tw_t w) then InRead else CallsReadOnNil\<rparr>)"
| tr_read_fails: "tw_loop w = InRead \<Longrightarrow> tracer_step fails w (w\<lparr>tw_loop := if tw_cancelled w then LoopReturned else CallsRead\<rparr>)"
| tr_skips: "tw_loop w = InRead \<Longrightarrow> \<not> tw_readerClosed w \<Longrightarrow> tracer_step fails w (w\<lparr>tw_loop := CallsRead\<rparr>)"
| tr_got: "tw_loop w = InRead \<Longrightarrow> \<not> tw_readerClosed w \<Longrightarrow> tracer_step fails w (w\<lparr>tw_loop := SendsEvent\<rparr>)"
| tr_sent: "tw_loop w = SendsEvent \<Longrightarrow> tracer_step fails w (w\<lparr>tw_loop := CallsRead\<rparr>)"
| tr_send_given_up: "tw_loop w = SendsEvent \<Longrightarrow> tw_cancelled w \<Longrightarrow> tracer_step fails w (w\<lparr>tw_loop := LoopReturned\<rparr>)"

inductive_cases tracer_stepE: "tracer_step fails w w'"

definition tracer_inv :: "tracer_world \<Rightarrow> bool" where
  "tracer_inv w \<longleftrightarrow> (tw_cancelled w \<longrightarrow> st_stopped (tw_t w)) \<and> (st_stopped (tw_t w) \<longleftrightarrow> tw_stop w \<noteq> TrRunning)
     \<and> (st_reader (tw_t w) \<longleftrightarrow> tw_stop w \<notin> {TrObjects, TrStopped}) \<and> (tw_loop w = CallsReadOnNil \<longrightarrow> \<not> st_reader (tw_t w))"

lemma tracer_inv_step: "tracer_step fails w w' \<Longrightarrow> tracer_inv w \<Longrightarrow> tracer_inv w'"
  by (erule tracer_stepE) (auto simp: tracer_inv_def split: if_splits)

text \<open>Stopping the tracer races with its reader. While the tracer runs, its loop never reads
  through a nil reader. But Stop clears the field without waiting for the loop: there is a run in
  which the loop sees the closed reader's error before the context is cancelled, goes round
  again, and calls Read on nil.\<close>

theorem tracer_Stop_races:
  assumes "Tracer_Start kallsyms attach ring_err t0 = (Inr (), t)" "\<not> st_stopped t0"
  shows "(\<forall>w. (tracer_step fails)\<^sup>*\<^sup>* (tracer_running t) w \<and> tw_loop w = CallsReadOnNil \<longrightarrow> tw_stop w \<in> {TrObjects, TrStopped})
    \<and> (\<exists>w. (tracer_step fails)\<^sup>*\<^sup>* (tracer_running t) w \<and> tw_loop w = CallsReadOnNil)"
proof -
  have t: "st_reader t" "\<not> st_stopped t" using assms by (auto simp: Tracer_Start_def Let_def split: if_splits option.splits)
  then have i: "tracer_inv (tracer_running t)" by (simp add: tracer_inv_def tracer_running_def)
  have "tracer_inv w" if "(tracer_step fails)\<^sup>*\<^sup>* (tracer_running t) w" for w
    using that i by (induction rule: rtranclp_induct) (auto intro: tracer_inv_step)
  then have 1: "\<forall>w. (tracer_step fails)\<^sup>*\<^sup>* (tracer_running t) w \<and> tw_loop w = CallsReadOnNil \<longrightarrow> tw_stop w \<in> {TrObjects, TrStopped}" by (auto simp: tracer_inv_def)
  let ?w0 = "tracer_running t"
  let ?w1 = "?w0\<lparr>tw_loop := InRead\<rparr>"
  let ?w2 = "?w1\<lparr>tw_stop := TrDetaching, tw_t := t\<lparr>st_stopped := True\<rparr>\<rparr>"
  let ?w3 = "?w2\<lparr>tw_stop := TrClosingReader, tw_t := t\<lparr>st_stopped := True, st_kprobes := []\<rparr>\<rparr>"
  let ?w4 = "?w3\<lparr>tw_stop := TrClearing, tw_readerClosed := True\<rparr>"
  let ?w5 = "?w4\<lparr>tw_loop := CallsRead\<rparr>"
  let ?w6 = "?w5\<lparr>tw_stop := TrObjects, tw_t := t\<lparr>st_stopped := True, st_kprobes := [], st_reader := False\<rparr>\<rparr>"
  let ?w7 = "?w6\<lparr>tw_loop := CallsReadOnNil\<rparr>"
  have "tracer_step fails ?w0 ?w1" using tr_read[of ?w0] t by (simp add: tracer_running_def)
  moreover have "tracer_step fails ?w1 ?w2" using tr_signal[of ?w1] by (simp add: tracer_running_def)
  moreover have "tracer_step fails ?w2 ?w3" using tr_detach[of ?w2] t by (simp add: tracer_running_def)
  moreover have "tracer_step fails ?w3 ?w4" using tr_close[of ?w3] by (simp add: tracer_running_def)
  moreover have "tracer_step fails ?w4 ?w5" using tr_read_fails[of ?w4] by (simp add: tracer_running_def)
  moreover have "tracer_step fails ?w5 ?w6" using tr_clear[of ?w5] by (simp add: tracer_running_def)
  moreover have "tracer_step fails ?w6 ?w7" using tr_read[of ?w6] by (simp add: tracer_running_def)
  ultimately have "(tracer_step fails)\<^sup>*\<^sup>* ?w0 ?w7" by (meson converse_rtranclp_into_rtranclp rtranclp.rtrancl_refl)
  then have "\<exists>w. (tracer_step fails)\<^sup>*\<^sup>* ?w0 w \<and> tw_loop w = CallsReadOnNil" by (intro exI[of _ ?w7]) simp
  with 1 show ?thesis by blast
qed


text \<open>What the steps leave is what \<^const>\<open>Tracer_Stop\<close> says of the whole call.\<close>

fun tracer_at :: "(string \<Rightarrow> string option) \<Rightarrow> ServiceTracer \<Rightarrow> tracer_stop_pc \<Rightarrow> ServiceTracer" where
  "tracer_at fails t TrRunning = t"
| "tracer_at fails t TrDetaching = t\<lparr>st_stopped := True\<rparr>"
| "tracer_at fails t TrClosingReader = t\<lparr>st_stopped := True, st_kprobes := []\<rparr>"
| "tracer_at fails t TrClearing = t\<lparr>st_stopped := True, st_kprobes := []\<rparr>"
| "tracer_at fails t TrObjects = t\<lparr>st_stopped := True, st_kprobes := [], st_reader := False\<rparr>"
| "tracer_at fails t TrStopped = t\<lparr>st_stopped := True, st_kprobes := [], st_reader := False, st_objs := snd (Objects_Close fails (st_objs t))\<rparr>"

lemma tracer_Stop_result:
  assumes "(tracer_step fails)\<^sup>*\<^sup>* (tracer_running t) w" "st_reader t" "\<not> st_stopped t"
  shows "tw_t w = tracer_at fails t (tw_stop w)" and "tw_stop w = TrStopped \<Longrightarrow> \<exists>r. Tracer_Stop fails t = Ret (r, tw_t w)"
proof -
  show 1: "tw_t w = tracer_at fails t (tw_stop w)"
    using assms(1)
  proof (induction rule: rtranclp_induct)
    case base
    show ?case by (simp add: tracer_running_def)
  next
    case (step y z)
    from step.hyps(2) show ?case by cases (use step.IH assms(2) in \<open>auto\<close>)
  qed
  show "\<exists>r. Tracer_Stop fails t = Ret (r, tw_t w)" if "tw_stop w = TrStopped"
    using 1 that assms(3) by (auto simp: Tracer_Stop_def Let_def split: prod.splits option.splits)
qed

theorem tracer_Stop_races_witness:
  "\<exists>t w. Tracer_Start (Some ''ffff T ib_modify_qp_with_udata [ib_core]'') (\<lambda>_. None) None
       \<lparr>st_objs = program_names @ map_names, st_kprobes = [], st_reader = False, st_eventCh = chan_make 100, st_stopped = False\<rparr> = (Inr (), t)
     \<and> (tracer_step (\<lambda>_. None))\<^sup>*\<^sup>* (tracer_running t) w \<and> tw_loop w = CallsReadOnNil"
proof -
  let ?t0 = "\<lparr>st_objs = program_names @ map_names, st_kprobes = [], st_reader = False, st_eventCh = chan_make 100, st_stopped = False\<rparr>"
  have "checkAvailableFunctions (Some ''ffff T ib_modify_qp_with_udata [ib_core]'') = [modify_qp]" by code_simp
  then have t: "Tracer_Start (Some ''ffff T ib_modify_qp_with_udata [ib_core]'') (\<lambda>_. None) None ?t0 = (Inr (), ?t0\<lparr>st_kprobes := [modify_qp], st_reader := True\<rparr>)"
    by (simp add: Tracer_Start_def modify_qp_def destroy_qp_def)
  have "\<not> st_stopped ?t0" by simp
  from tracer_Stop_races[OF t this] t show ?thesis by blast
qed

subsection \<open>Reports\<close>

text \<open>A log line: its severity, its integer fields, its text. A missing statistic reads as zero.\<close>

datatype severity = SevDebug | SevInfo | SevWarn | SevError

type_synonym log_line = "severity \<times> (string \<times> u64) list \<times> string"

definition stat :: "(string \<times> u64) list \<Rightarrow> string \<Rightarrow> u64" where
  "stat stats k = (case map_of stats k of None \<Rightarrow> 0 | Some v \<Rightarrow> v)"

definition said :: "severity \<Rightarrow> string list \<Rightarrow> log_line list" where
  "said sev msgs = map (\<lambda>m. (sev, [], m)) msgs"

definition PrintBpfTraceLog :: "log_line list" where
  "PrintBpfTraceLog = said SevInfo
     [''=== eBPF Trace Log (for debugging GID read failures) ==='', ''Run the following command to see eBPF debug output:'',
      ''  sudo cat /sys/kernel/debug/tracing/trace_pipe | grep '' @ [CHR 0x27] @ ''trace_modify_qp'' @ [CHR 0x5C] @ ''|read_dest_qp_info'' @ [CHR 0x5C] @ ''|read_source_gid_safe'' @ [CHR 0x27],
      ''Or to see all eBPF trace output:'', ''  sudo cat /sys/kernel/debug/tracing/trace_pipe'', ''=== End eBPF Trace Log Instructions ===''] "

definition DiagnoseGidReadFailures :: "(string \<times> u64) list \<Rightarrow> log_line list" where
  "DiagnoseGidReadFailures stats =
     (let gidReadSuccess = stat stats ''gid_read_success''; gidReadFailure = stat stats ''gid_read_failure''; errorCount = stat stats ''error_count'';
          portDataFailure = stat stats ''port_data_failure''; gidTableFailure = stat stats ''gid_table_failure'' in
      said SevInfo [''=== GID Read Failure Diagnosis ===''] @
      [(SevInfo, [(''gid_read_success'', gidReadSuccess), (''gid_read_failure'', gidReadFailure), (''port_data_failure'', portDataFailure),
          (''gid_table_failure'', gidTableFailure), (''total_errors'', errorCount)], ''Current eBPF statistics'')] @
      (if gidReadFailure > 0 \<or> errorCount > 0 \<or> portDataFailure > 0 \<or> gidTableFailure > 0 then
         said SevWarn [''Detected GID read failures. Possible causes:''] @
         (if portDataFailure > 0 then said SevWarn [''- Port data access failures: RDMA device structure mismatch''] else []) @
         (if gidTableFailure > 0 then said SevWarn [''- GID table access failures: Kernel structure alignment issues''] else []) @
         (if gidReadFailure > 0 then said SevWarn [''- GID read failures: Memory access or pointer issues''] else []) @
         said SevWarn [''1. Kernel version incompatibility with RDMA structure definitions'', ''2. RDMA driver not loaded or incompatible'',
           ''3. BTF (BPF Type Format) information mismatch'', ''4. Insufficient privileges for kernel memory access'', ''5. RDMA device not properly initialized''] @
         said SevInfo [''Troubleshooting steps:'', ''1. Check kernel version: uname -r'', ''2. Check RDMA modules: lsmod | grep ib_'', ''3. Check RDMA devices: ibv_devices'',
           ''4. Check eBPF trace log (see instructions above)'', ''5. Verify running with root privileges'', ''6. Check dmesg for RDMA/InfiniBand errors'']
       else if gidReadSuccess > 0 then said SevInfo [''GID reads are working correctly'']
       else said SevWarn [''No GID read attempts detected - RDMA traffic may not be present'']) @
      said SevInfo [''=== End GID Read Failure Diagnosis ===''])"

text \<open>The success rate, a float in the statistics line, is left out.\<close>

definition logEbpfStatistics :: "(string \<times> u64) list res \<Rightarrow> ServiceFlowMonitor \<Rightarrow> log_line list" where
  "logEbpfStatistics result m =
     (case result of
        Inl _ \<Rightarrow> said SevWarn [''Failed to get eBPF statistics'']
      | Inr stats \<Rightarrow>
        let errorCount = stat stats ''error_count''; gidReadSuccess = stat stats ''gid_read_success''; gidReadFailure = stat stats ''gid_read_failure'';
            portDataFailure = stat stats ''port_data_failure''; gidTableFailure = stat stats ''gid_table_failure''; modifyCount = stat stats ''modify_count'' in
        [(if errorCount > 0 \<or> gidReadFailure > 0 \<or> portDataFailure > 0 \<or> gidTableFailure > 0 then SevWarn else SevDebug,
          [(''modify_events'', modifyCount), (''errors'', errorCount), (''gid_read_success'', gidReadSuccess), (''gid_read_failure'', gidReadFailure),
           (''port_data_failure'', portDataFailure), (''gid_table_failure'', gidTableFailure), (''active_flows'', of_nat (length (sm_activeFlows m)))],
          ''eBPF ServiceFlowMonitor statistics'')] @
        (if gidReadFailure > 0 \<and> gidReadSuccess = 0 then
           said SevError [''All GID reads are failing - check RDMA driver compatibility and kernel structure alignment''] @
           (if modifyCount \<le> 5 then DiagnoseGidReadFailures stats @ PrintBpfTraceLog else [])
         else if gidReadFailure > gidReadSuccess then said SevWarn [''GID read failure rate is high - RDMA structure access may be unstable'']
         else []))"

text \<open>The names under which the report looks are those under which the statistics are kept, and a
  report above debug level is one of a counted failure.\<close>

lemma GetStatistics_stat:
  assumes "i < 8"
  shows "\<exists>stats. GetStatistics (Some counts) = Inr stats \<and> stat stats (stat_names ! i) = (case counts i of None \<Rightarrow> 0 | Some v \<Rightarrow> v)"
proof -
  let ?v = "\<lambda>i. case counts i of None \<Rightarrow> 0 | Some v \<Rightarrow> v"
  have d: "distinct (map fst (map (\<lambda>i. (stat_names ! i, ?v i)) [0..<8]))" by (simp add: stat_names_def upt_conv_Cons)
  have "(stat_names ! i, ?v i) \<in> set (map (\<lambda>i. (stat_names ! i, ?v i)) [0..<8])" using assms by force
  from map_of_is_SomeI[OF d this] show ?thesis by (simp add: GetStatistics_def stat_def)
qed

lemma report_quiet:
  assumes "(\<And>k. k \<in> {''error_count'', ''gid_read_failure'', ''port_data_failure'', ''gid_table_failure''} \<Longrightarrow> stat stats k = 0)"
  shows "\<exists>fields. logEbpfStatistics (Inr stats) m = [(SevDebug, fields, ''eBPF ServiceFlowMonitor statistics'')]"
  by (simp add: logEbpfStatistics_def assms)

subsection \<open>Layout\<close>

text \<open>The offsets that DiagnoseStructAlignment prints, and that each field stands there in the bytes of
  an event.\<close>

definition field_offsets :: "(string \<times> nat) list" where
  "field_offsets = [(''Timestamp'', 0), (''SrcGID'', 8), (''DstGID'', 24), (''SrcQPN'', 40), (''DstQPN'', 44), (''PID'', 48), (''TID'', 52), (''QPState'', 56),
     (''EventType'', 60), (''PortNum'', 61), (''Reserved'', 62), (''Comm'', 64)]"

definition DiagnoseStructAlignment :: "u64 \<Rightarrow> RdmaConnTuple \<Rightarrow> (severity \<times> string) list \<times> (string \<times> nat) list" where
  "DiagnoseStructAlignment now event =
     ([(SevInfo, ''=== Struct Alignment Diagnosis ===''), (SevInfo, ''Struct size comparison''), (SevInfo, ''Field offsets''),
       (case ValidateStructAlignment now event of Some _ \<Rightarrow> (SevError, ''Struct alignment validation failed'') | None \<Rightarrow> (SevInfo, ''Struct alignment validation passed'')),
       (SevInfo, ''=== End Struct Alignment Diagnosis ==='') ], field_offsets)"

lemma fields_at_offsets:
  assumes "event_ok e"
  shows "take 16 (drop (the (map_of field_offsets ''SrcGID'')) (event_bytes e)) = ev_SrcGID e" "take 16 (drop (the (map_of field_offsets ''DstGID'')) (event_bytes e)) = ev_DstGID e"
    "event_bytes e ! the (map_of field_offsets ''EventType'') = ev_EventType e" "event_bytes e ! the (map_of field_offsets ''PortNum'') = ev_PortNum e"
    "take 2 (drop (the (map_of field_offsets ''Reserved'')) (event_bytes e)) = ev_Reserved e" "take 16 (drop (the (map_of field_offsets ''Comm'')) (event_bytes e)) = ev_Comm e"
  using assms by (simp_all add: field_offsets_def event_bytes_def event_ok_def nth_append)

end
