(* ===== verification/Ebpf_Report.thy ===== *)
theory Ebpf_Report
  imports Flow_Life
begin

text \<open>
  What internal/ebpf/rdma_tracing.go checks and reports about its surroundings: the size of the event
  struct, tested when the package is initialised, and DiagnoseEnvironment, as the lines it
  logs.
\<close>

subsection \<open>Size of the event struct\<close>

text \<open>How a struct lies in memory: every field at the next multiple of its alignment, the size a
  multiple of the largest alignment. A field has a name, a size and an alignment.\<close>

type_synonym struct_field = "string \<times> nat \<times> nat"

definition align_up :: "nat \<Rightarrow> nat \<Rightarrow> nat" where
  "align_up n a = (n + a - 1) div a * a"

fun offsets_from :: "nat \<Rightarrow> struct_field list \<Rightarrow> (string \<times> nat) list" where
  "offsets_from n [] = []"
| "offsets_from n ((fname, fsize, a) # fs) = (fname, align_up n a) # offsets_from (align_up n a + fsize) fs"

fun end_from :: "nat \<Rightarrow> struct_field list \<Rightarrow> nat" where
  "end_from n [] = n"
| "end_from n ((fname, fsize, a) # fs) = end_from (align_up n a + fsize) fs"

definition size_of :: "struct_field list \<Rightarrow> nat" where
  "size_of fs = align_up (end_from 0 fs) (fold (\<lambda>(_, _, a). max a) fs 1)"

definition tuple_fields :: "struct_field list" where
  "tuple_fields = [(''Timestamp'', 8, 8), (''SrcGID'', 16, 1), (''DstGID'', 16, 1), (''SrcQPN'', 4, 4), (''DstQPN'', 4, 4), (''PID'', 4, 4), (''TID'', 4, 4),
     (''QPState'', 4, 4), (''EventType'', 1, 1), (''PortNum'', 1, 1), (''Reserved'', 2, 1), (''Comm'', 16, 1)]"

text \<open>The struct of the eBPF program is packed: no field is aligned.\<close>

definition packed :: "struct_field list \<Rightarrow> struct_field list" where
  "packed fs = map (\<lambda>(fname, fsize, _). (fname, fsize, 1)) fs"

definition init_ebpf :: "unit go" where
  "init_ebpf =
     (let actualSize = size_of tuple_fields in
      if actualSize \<noteq> expectedStructSize
      then Panic (''RdmaConnTuple size mismatch: expected '' @ dec_string expectedStructSize @ '' bytes, got '' @ dec_string actualSize @ '' bytes'')
      else Ret ())"

text \<open>Go's layout and the packed one of the C side put every field at the same offset, which is the one
  reported, and the size is the one expected: the check at initialisation passes.\<close>

lemma layouts_agree:
  "offsets_from 0 tuple_fields = field_offsets \<and> offsets_from 0 (packed tuple_fields) = field_offsets
     \<and> size_of tuple_fields = expectedStructSize \<and> size_of (packed tuple_fields) = expectedStructSize \<and> init_ebpf = Ret ()"
  by (simp add: tuple_fields_def packed_def field_offsets_def size_of_def align_up_def expectedStructSize_def init_ebpf_def Let_def)

subsection \<open>DiagnoseEnvironment\<close>

text \<open>A log line with fields of two types. The marks in front of the texts are the UTF-8 bytes of a
  check mark, a warning sign, a cross and an information sign.\<close>

datatype log_field = IntField int | StrField string

type_synonym diag_line = "severity \<times> (string \<times> log_field) list \<times> string"

definition mark_ok :: string where "mark_ok = [CHR 0xE2, CHR 0x9C, CHR 0x93, CHR 0x20]"
definition mark_warn :: string where "mark_warn = [CHR 0xE2, CHR 0x9A, CHR 0xA0, CHR 0x20]"
definition mark_bad :: string where "mark_bad = [CHR 0xE2, CHR 0x9C, CHR 0x97, CHR 0x20]"
definition mark_info :: string where "mark_info = [CHR 0xE2, CHR 0x84, CHR 0xB9, CHR 0x20]"

text \<open>What the function asks the system for: the user id, the memory lock limit (current and maximum),
  whether the BPF file system is there, the symbol table, the kernel's version, and the order
  in which a range over the map of functions visits them.\<close>

record host_env =
  he_uid :: int
  he_memlock :: "(u64 \<times> u64) res"
  he_statBpf :: "unit res"
  he_kallsyms :: "string option"
  he_version :: "string res"
  he_order :: "(string \<times> bool) list \<Rightarrow> (string \<times> bool) list"

definition no_limit :: u64 where "no_limit = - 1"

definition diagnose_functions :: "host_env \<Rightarrow> diag_line list" where
  "diagnose_functions env =
     (let available = map (\<lambda>f. (f, True)) (checkAvailableFunctions (he_kallsyms env)) in
      if length available > 0 then
        (SevInfo, [(''count'', IntField (int (length available)))], mark_ok @ ''RDMA functions available for monitoring'') #
        map (\<lambda>(fn, avail). if avail then (SevInfo, [(''function'', StrField fn)], ''  '' @ mark_ok @ ''Available'')
          else (SevWarn, [(''function'', StrField fn)], ''  '' @ mark_bad @ ''Not available'')) (he_order env available)
      else [(SevWarn, [], mark_warn @ ''No RDMA functions found - RDMA monitoring not available'')])"

definition DiagnoseEnvironment :: "host_env \<Rightarrow> diag_line list" where
  "DiagnoseEnvironment env =
     [(SevInfo, [], ''=== eBPF Environment Diagnostics ==='')] @
     [if he_uid env = 0 then (SevInfo, [], mark_ok @ ''Running as root (UID: 0)'')
      else (SevWarn, [(''uid'', IntField (he_uid env))], mark_warn @ ''Not running as root'')] @
     [case he_memlock env of
        Inl err \<Rightarrow> (SevError, [(''error'', StrField err)], mark_bad @ ''Failed to get MEMLOCK limit'')
      | Inr (cur, limit) \<Rightarrow>
          if cur = no_limit then (SevInfo, [], mark_ok @ ''MEMLOCK limit: unlimited'')
          else (SevWarn, [(''current'', IntField (uint cur)), (''max'', IntField (uint limit))], mark_warn @ ''MEMLOCK limit (bytes)'')] @
     [case he_statBpf env of
        Inl err \<Rightarrow> (SevWarn, [(''error'', StrField err)], mark_warn @ ''BPF filesystem not found at /sys/fs/bpf'')
      | Inr _ \<Rightarrow> (SevInfo, [], mark_ok @ ''BPF filesystem available'')] @
     diagnose_functions env @
     [case he_version env of
        Inl err \<Rightarrow> (SevWarn, [(''error'', StrField err)], mark_warn @ ''Failed to read kernel version'')
      | Inr text \<Rightarrow> (SevInfo, [(''version'', StrField (trim_space text))], mark_info @ ''Kernel version'')] @
     [(SevInfo, [], ''=== End Diagnostics ==='')]"

text \<open>No function is ever reported as not available: the map has no entry for a missing one, and when
  the symbol table cannot be read both count as available. The report is free of warnings and
  errors exactly when what it asks for is in order.\<close>

lemma no_function_reported_missing:
  assumes "\<And>xs. set (he_order env xs) = set xs"
  shows "(sev, fs, ''  '' @ mark_bad @ ''Not available'') \<notin> set (DiagnoseEnvironment env)"
  using assms by (auto simp: DiagnoseEnvironment_def diagnose_functions_def mark_bad_def mark_ok_def mark_warn_def mark_info_def Let_def
      split: sum.splits if_splits)

lemma clean_report_iff:
  assumes "\<And>xs. set (he_order env xs) = set xs"
  shows "(\<forall>l \<in> set (DiagnoseEnvironment env). fst l = SevInfo) \<longleftrightarrow> he_uid env = 0 \<and> (\<exists>limit. he_memlock env = Inr (no_limit, limit))
     \<and> he_statBpf env = Inr () \<and> checkAvailableFunctions (he_kallsyms env) \<noteq> [] \<and> (\<exists>text. he_version env = Inr text)"
  using assms by (auto simp: DiagnoseEnvironment_def diagnose_functions_def Let_def split: sum.splits if_splits)

end
