(* ===== verification/Service_Tracing.thy ===== *)
theory Service_Tracing
  imports Bpf_Program Ebpf_Example Ebpf_Report
begin

text \<open>
  Service tracing from the kernel to the table of flows: the eBPF program of Bpf_Program, the ring buffer
  and the loop of Ebpf_Tracer, and the two consumers, the service flow monitor and the example.
\<close>

subsection \<open>From the kernel to the event channel\<close>

lemma bpf_event_valid: "bpf_event e \<Longrightarrow> IsValidEvent e"
  by (auto simp: bpf_event_def IsValidEvent_def RdmaEventCreate_def RdmaEventModify_def RdmaEventDestroy_def)

lemma processEvents_records:
  "\<forall>e \<in> set es. bpf_event e \<Longrightarrow> processEvents (map (\<lambda>r. Sample r False) (map event_bytes es)) = (es, False)"
proof (induction es)
  case (Cons e es)
  then have "event_ok e" "IsValidEvent e" by (auto simp: bpf_event_def bpf_event_valid)
  with Cons read_event_bytes[of e "[]"] show ?case by simp
qed simp

lemma stats_by_name:
  "\<exists>stats. GetStatistics (Some (\<lambda>i. Some (s i))) = Inr stats \<and> stat stats ''create_count'' = s 0 \<and> stat stats ''modify_count'' = s 1
     \<and> stat stats ''destroy_count'' = s 2 \<and> stat stats ''gid_read_success'' = s 4"
  by (simp add: GetStatistics_def stat_def stat_names_def upt_conv_Cons eval_nat_numeral)

text \<open>C8: what user space learns of the runs of the eBPF programs. Reading the ring buffer that they
  filled, the tracer delivers one event per recording run (of a probed function, with room, whose
  parameters read as a queue pair that becomes ready to receive or as one with number and
  port), in order, with the type of the program and the queue pair number read. The statistics
  read at that moment agree with those events: so many modifications and destructions, so many
  source GIDs read, and no creation ever. What the parameters hold when the kernel enters the
  programs is not assumed: params is any function of the registers.\<close>

theorem kernel_events_reach_user:
  assumes "\<forall>c \<in> set calls. call_ok params c"
  shows "\<exists>es stats. processEvents (map (\<lambda>r. Sample r False) (bw_ring (bpf_run hooks params calls fresh_bpf))) = (es, False)
     \<and> map event_key es = map (call_key params) (filter (traced hooks params) calls)
     \<and> GetStatistics (Some (\<lambda>i. Some (bw_stats (bpf_run hooks params calls fresh_bpf) i))) = Inr stats
     \<and> stat stats ''create_count'' = 0
     \<and> stat stats ''modify_count'' = of_nat (length (filter (\<lambda>e. ev_EventType e = RdmaEventModify) es))
     \<and> stat stats ''destroy_count'' = of_nat (length (filter (\<lambda>e. ev_EventType e = RdmaEventDestroy) es))
     \<and> stat stats ''gid_read_success'' = of_nat (length (filter (\<lambda>e. \<not> all_zero (ev_SrcGID e)) es))"
proof -
  let ?w = "bpf_run hooks params calls fresh_bpf"
  from bpf_run_records[OF assms, of hooks] obtain es where es: "bw_ring ?w = map event_bytes es" "\<forall>e \<in> set es. bpf_event e"
    "map event_key es = map (call_key params) (filter (traced hooks params) calls)" "bw_stats ?w 0 = 0"
    "bw_stats ?w 1 = of_nat (length (filter (\<lambda>e. ev_EventType e = RdmaEventModify) es))"
    "bw_stats ?w 2 = of_nat (length (filter (\<lambda>e. ev_EventType e = RdmaEventDestroy) es))"
    "bw_stats ?w 4 = of_nat (length (filter (\<lambda>e. \<not> all_zero (ev_SrcGID e)) es))" by (auto simp: Let_def)
  from stats_by_name[of "bw_stats ?w"] obtain stats where "GetStatistics (Some (\<lambda>i. Some (bw_stats ?w i))) = Inr stats" "stat stats ''create_count'' = bw_stats ?w 0"
    "stat stats ''modify_count'' = bw_stats ?w 1" "stat stats ''destroy_count'' = bw_stats ?w 2" "stat stats ''gid_read_success'' = bw_stats ?w 4" by blast
  with es processEvents_records[OF es(2)] show ?thesis unfolding es(1)[symmetric] by (intro exI[of _ es] exI[of _ stats]) simp
qed

subsection \<open>No flow is ever recorded\<close>

text \<open>The events the loop delivers come from records it read.\<close>

lemma processEvents_from_samples:
  "e \<in> set (fst (processEvents rs)) \<Longrightarrow> \<exists>raw b. Sample raw b \<in> set rs \<and> read_event raw = Inr e"
  by (induction rs rule: processEvents.induct) (auto split: sum.splits if_splits prod.splits)

lemma kernel_event_ignored:
  assumes "bpf_event e" "sm_activeFlows m = []"
  shows "handleEbpfEvent now rpc e m = Ret m"
proof -
  have "handle_destroy e m = m" using assms(2) by (simp add: handle_destroy_def Let_def)
  moreover have "ev_EventType e = 2 \<Longrightarrow> ev_QPState e \<noteq> ibQpsRTR"
    using assms(1) by (auto simp: bpf_event_def IB_QPS_RTR_def ibQpsRTR_def RdmaEventModify_def RdmaEventDestroy_def)
  ultimately show ?thesis by (simp add: handleEbpfEvent_def handle_modify_def Let_def)
qed

lemma kernel_event_not_connecting: "bpf_event e \<Longrightarrow> \<not> connects e"
  by (auto simp: bpf_event_def connects_def IB_QPS_RTR_def RdmaEventModify_def RdmaEventDestroy_def)

lemma example_ignores: "\<forall>e \<in> set es. bpf_event e \<Longrightarrow> fold example_event es [] = []"
  by (induction es) (simp_all add: example_event_def store_conn_def remove_conns_def kernel_event_not_connecting)

text \<open>C4: service tracing finds no connection. The eBPF program reports a queue pair only when it becomes
  ready to receive, a state whose number in the kernel is 2; the service flow monitor and the
  example wait for state 3. Whatever calls the kernel sees, whatever the programs' parameters hold
  then, whatever part of the records is read, with whatever errors in between and at whatever
  times, a monitor without flows stays as it is, and the example's table stays empty.\<close>

theorem service_flows_never_recorded:
  assumes "\<forall>c \<in> set calls. call_ok params c" "sm_activeFlows m = []"
    and "\<forall>raw b. Sample raw b \<in> set reads \<longrightarrow> raw \<in> set (bw_ring (bpf_run hooks params calls fresh_bpf))"
    and "map snd timed = fst (processEvents reads)" "events_of ins = fst (processEvents reads)"
  shows "handle_events rpc timed m = Ret m \<and> fst (snd (example_loop fmt_time ins [])) = []"
proof
  from bpf_run_records[OF assms(1), of hooks] obtain es where es: "bw_ring (bpf_run hooks params calls fresh_bpf) = map event_bytes es" "\<forall>e \<in> set es. bpf_event e"
    by (auto simp: Let_def)
  have bpf: "bpf_event e" if "e \<in> set (fst (processEvents reads))" for e
  proof -
    from processEvents_from_samples[OF that] obtain raw b where r: "Sample raw b \<in> set reads" "read_event raw = Inr e" by blast
    with assms(3) es(1) obtain d where d: "d \<in> set es" "raw = event_bytes d" by force
    then have "event_ok d" using es(2) by (auto simp: bpf_event_def)
    from read_event_bytes[OF this, of "[]"] d r(2) es(2) show ?thesis by auto
  qed
  have all: "handle_events rpc timed m = Ret m" if "\<forall>e \<in> set (map snd timed). bpf_event e" for timed
    using that by (induction timed) (auto simp: kernel_event_ignored assms(2))
  show "handle_events rpc timed m = Ret m" by (rule all) (unfold assms(4), use bpf in blast)
  show "fst (snd (example_loop fmt_time ins [])) = []" using bpf assms(5) by (simp add: example_loop_table example_ignores)
qed

text \<open>Were a modification to state 3 delivered, both would record it: the monitor's handler is correct for
  such events (see Service_Flow). Here is one kernel call, with a reading of the registers as
  the parameters, and what comes of it.\<close>

definition sample_gid :: "byte list" where "sample_gid = 254 # replicate 14 0 @ [1]"

definition sample_qp :: ib_qp where
  "sample_qp = \<lparr>qp_device = Ptr \<lparr>dev_port_data = Ptr (\<lambda>_. Reads (Ptr (Ptr (\<lambda>_. Reads (Ptr sample_gid))))), dev_phys_port_cnt = 1\<rparr>, qp_num = 77, qp_port = 1\<rparr>"

text \<open>Registers are a number here; 0 are those whose pointers read as the sample queue pair.\<close>

definition sample_params :: "nat \<Rightarrow> kprobe_params" where
  "sample_params regs = (if regs = 0
     then \<lparr>kp_qp = Ptr sample_qp, kp_attr = Ptr \<lparr>qa_qp_state = 2, qa_dest_qp_num = 99, qa_dgid = replicate 15 0 @ [9], qa_port_num = 1\<rparr>, kp_attr_mask = 0x1000A1\<rparr>
     else \<lparr>kp_qp = Null, kp_attr = Null, kp_attr_mask = 0\<rparr>)"

definition sample_calls :: "nat kernel_call list" where
  "sample_calls = (let ctx = \<lparr>bx_ktime = 5000, bx_pid_tgid = 0x100000002, bx_comm = replicate 16 65, bx_room = True\<rparr> in [KModify ctx 1, KModify ctx 0])"

lemma sample_calls_ok: "\<forall>c \<in> set sample_calls. call_ok sample_params c"
  by (auto simp: sample_calls_def sample_params_def gids_ok_def sample_qp_def sample_gid_def Let_def)

lemma sample_calls_keys: "map (call_key sample_params) (filter (traced [modify_qp] sample_params) sample_calls) = [(2, 77)]"
  by (simp add: sample_calls_def sample_params_def sample_qp_def records_modify_def IB_QP_STATE_def IB_QPS_RTR_def RdmaEventModify_def Let_def)

theorem kernel_events_reach_user_witness:
  "\<exists>e stats. processEvents (map (\<lambda>r. Sample r False) (bw_ring (bpf_run [modify_qp] sample_params sample_calls fresh_bpf))) = ([e], False) \<and> event_key e = (2, 77)
     \<and> GetStatistics (Some (\<lambda>i. Some (bw_stats (bpf_run [modify_qp] sample_params sample_calls fresh_bpf) i))) = Inr stats \<and> stat stats ''modify_count'' = 1"
proof -
  obtain es stats where r: "processEvents (map (\<lambda>r. Sample r False) (bw_ring (bpf_run [modify_qp] sample_params sample_calls fresh_bpf))) = (es, False)"
    "map event_key es = map (call_key sample_params) (filter (traced [modify_qp] sample_params) sample_calls)"
    "GetStatistics (Some (\<lambda>i. Some (bw_stats (bpf_run [modify_qp] sample_params sample_calls fresh_bpf) i))) = Inr stats"
    "stat stats ''modify_count'' = of_nat (length (filter (\<lambda>e. ev_EventType e = RdmaEventModify) es))"
    using kernel_events_reach_user[OF sample_calls_ok, of "[modify_qp]"] by blast
  from r(2) sample_calls_keys obtain e where e: "es = [e]" "event_key e = (2, 77)" by auto
  then have "ev_EventType e = RdmaEventModify" by (simp add: event_key_def RdmaEventModify_def)
  with r e show ?thesis by (intro exI[of _ e] exI[of _ stats]) simp
qed

theorem service_flows_never_recorded_witness:
  "\<exists>e. processEvents [Sample (event_bytes e) False] = ([e], False) \<and> event_key e = (2, 77)
     \<and> handle_events (\<lambda>_. Inl ''down'') [(5000, e)] sample_sfm = Ret sample_sfm \<and> fst (snd (example_loop (\<lambda>_. '''') [ExEvent e, ExMinute] [])) = []"
proof -
  from bpf_run_records[OF sample_calls_ok, of "[modify_qp]"] sample_calls_keys
  obtain e where e: "bw_ring (bpf_run [modify_qp] sample_params sample_calls fresh_bpf) = [event_bytes e]"
    "bpf_event e" "event_key e = (2, 77)" by (auto simp: Let_def)
  have p: "processEvents [Sample (event_bytes e) False] = ([e], False)" using processEvents_records[of "[e]"] e(2) by simp
  have m: "sm_activeFlows sample_sfm = []" by (simp add: sample_sfm_def)
  have 1: "\<forall>raw b. Sample raw b \<in> set [Sample (event_bytes e) False] \<longrightarrow> raw \<in> set (bw_ring (bpf_run [modify_qp] sample_params sample_calls fresh_bpf))"
    by (simp add: e(1))
  have 2: "map snd [(5000, e)] = fst (processEvents [Sample (event_bytes e) False])" by (simp only: p fst_conv list.map snd_conv)
  have 3: "events_of [ExEvent e, ExMinute] = fst (processEvents [Sample (event_bytes e) False])" unfolding p by (simp add: events_of_def)
  from service_flows_never_recorded[OF sample_calls_ok m 1 2 3] p e(3) show ?thesis by blast
qed


subsection \<open>The two consumers on a destruction\<close>

text \<open>Of two flows of a destroyed queue pair the monitor keeps at least one; the example keeps none.\<close>

lemma destroy_leaves_flow:
  assumes "(k1, f1) \<in> set (sm_activeFlows m)" "(k2, f2) \<in> set (sm_activeFlows m)" "k1 \<noteq> k2"
  shows "(k1, f1) \<in> set (sm_activeFlows (handle_destroy e m)) \<or> (k2, f2) \<in> set (sm_activeFlows (handle_destroy e m))"
proof -
  have keeps: "(k', f') \<in> set (sm_activeFlows (delete_flow k m))" if "(k', f') \<in> set (sm_activeFlows m)" "k' \<noteq> k" for k k' f'
    using that by (simp add: delete_flow_def AList.delete_eq)
  have same: "sm_activeFlows (notifyProberUpdate m') = sm_activeFlows m'" for m' by (simp add: notifyProberUpdate_def Let_def split: prod.split option.split)
  from handle_destroy_cases[of e m] obtain k where "sm_activeFlows (handle_destroy e m) = sm_activeFlows m \<or> sm_activeFlows (handle_destroy e m) = sm_activeFlows (delete_flow k m)"
    using same by metis
  moreover have "k1 \<noteq> k \<or> k2 \<noteq> k" using assms(3) by auto
  ultimately show ?thesis using assms keeps by metis
qed

lemma example_destroy_removes_all:
  "destroys e \<Longrightarrow> (k, c) \<in> set (example_event e conns) \<Longrightarrow> ev_SrcQPN c \<noteq> ev_SrcQPN e"
  by (auto simp: example_event_def remove_conns_def)

end
