(* ===== verification/Path_Tracer.thy ===== *)
theory Path_Tracer
  imports Go_Net Go_Chan Go_Strings Proto
begin

text \<open>
  Path tracing (internal/tracer/tracer.go): running traceroute or tracepath, parsing their
  output into hops, and the goroutines that trace periodically. The commands' outcomes are
  parameters; so is the conversion of the text of a time in milliseconds to nanoseconds
  (strconv.ParseFloat, a product of 64-bit floats and its truncation): None where the text is
  no number.
\<close>

record Tracer =
  tr_traceResults :: "PathInfo gchan"

definition NewTracer :: Tracer where
  "NewTracer = \<lparr>tr_traceResults = chan_make 100\<rparr>"

subsection \<open>Commands\<close>

datatype cmd_outcome = CmdOk string | CmdExit string string | CmdError string

text \<open>What a command returned: its output, an exit error with the output, or another error.\<close>

definition runTraceroute :: "cmd_outcome \<Rightarrow> cmd_outcome \<Rightarrow> (string \<times> bool) res" where
  "runTraceroute traceroute tracepath =
     (let fallback = (case tracepath of
        CmdOk out \<Rightarrow> Inr (out, True)
      | CmdExit e out \<Rightarrow> if out \<noteq> '''' then Inr (out, True) else Inl (''both traceroute and tracepath commands failed: '' @ e)
      | CmdError e \<Rightarrow> Inl (''both traceroute and tracepath commands failed: '' @ e)) in
      case traceroute of
        CmdOk out \<Rightarrow> Inr (out, False)
      | CmdExit e out \<Rightarrow> if out \<noteq> '''' then Inr (out, False) else fallback
      | CmdError e \<Rightarrow> fallback)"

subsection \<open>Parsing\<close>

definition parseTracerouteLine :: "(string \<Rightarrow> int option) \<Rightarrow> string \<Rightarrow> PathHop res" where
  "parseTracerouteLine ms_to_ns line =
     (let fs = str_fields line in
      if length fs < 3 then Inl (''invalid traceroute line format: '' @ line)
      else if atoi (fs ! 0) = None then Inl (''invalid hop number: '' @ fs ! 0)
      else if fs ! 1 = ''*'' then Inr \<lparr>hop_IpAddress = ''*'', hop_RttNs = 0\<rparr>
      else case ParseIP (fs ! 1) of
        None \<Rightarrow> Inl (''invalid IP address: '' @ fs ! 1)
      | Some ip \<Rightarrow> (case ms_to_ns (fs ! 2) of
            None \<Rightarrow> Inl (''invalid RTT: '' @ fs ! 2)
          | Some rttNs \<Rightarrow> Inr \<lparr>hop_IpAddress = IP_String ip, hop_RttNs = rttNs\<rparr>))"

fun traceroute_lines :: "(string \<Rightarrow> int option) \<Rightarrow> string list \<Rightarrow> PathHop list" where
  "traceroute_lines ms_to_ns [] = []"
| "traceroute_lines ms_to_ns (l # ls) =
     (let line = trim_space l in
      if line = '''' then traceroute_lines ms_to_ns ls
      else case parseTracerouteLine ms_to_ns line of
        Inl _ \<Rightarrow> traceroute_lines ms_to_ns ls
      | Inr hop \<Rightarrow> hop # traceroute_lines ms_to_ns ls)"

definition parseTracerouteOutput :: "(string \<Rightarrow> int option) \<Rightarrow> string \<Rightarrow> PathHop list res" where
  "parseTracerouteOutput ms_to_ns output = Inr (traceroute_lines ms_to_ns (drop 1 (split_lines output)))"

fun first_rtt :: "(string \<Rightarrow> int option) \<Rightarrow> string list \<Rightarrow> int" where
  "first_rtt ms_to_ns [] = 0"
| "first_rtt ms_to_ns (f # fs) =
     (if suffix ''ms'' f then (case ms_to_ns (trim_suffix f ''ms'') of None \<Rightarrow> first_rtt ms_to_ns fs | Some ns \<Rightarrow> ns)
      else first_rtt ms_to_ns fs)"

definition parseTracepathLine :: "(string \<Rightarrow> int option) \<Rightarrow> string \<Rightarrow> PathHop option res" where
  "parseTracepathLine ms_to_ns line =
     (if str_contains line ''pmtu'' \<or> str_contains line ''no reply'' then Inr None
      else let fs = str_fields line in
        if length fs < 3 then Inr None
        else if atoi (trim_suffix (trim_suffix (fs ! 0) '':'') ''?'') = None then Inl (''invalid hop number: '' @ fs ! 0)
        else let ipStr = (if fs ! 1 = ''[LOCALHOST]'' then ''127.0.0.1'' else fs ! 1) in
          case ParseIP ipStr of
            None \<Rightarrow> Inl (''invalid IP address: '' @ ipStr)
          | Some ip \<Rightarrow> Inr (Some \<lparr>hop_IpAddress = IP_String ip, hop_RttNs = first_rtt ms_to_ns fs\<rparr>))"

fun tracepath_lines :: "(string \<Rightarrow> int option) \<Rightarrow> string list \<Rightarrow> PathHop list" where
  "tracepath_lines ms_to_ns [] = []"
| "tracepath_lines ms_to_ns (l # ls) =
     (let line = trim_space l in
      if line = '''' then tracepath_lines ms_to_ns ls
      else case parseTracepathLine ms_to_ns line of
        Inl _ \<Rightarrow> tracepath_lines ms_to_ns ls
      | Inr None \<Rightarrow> tracepath_lines ms_to_ns ls
      | Inr (Some hop) \<Rightarrow> hop # tracepath_lines ms_to_ns ls)"

definition parseTracepathOutput :: "(string \<Rightarrow> int option) \<Rightarrow> string \<Rightarrow> PathHop list res" where
  "parseTracepathOutput ms_to_ns output = Inr (tracepath_lines ms_to_ns (drop 1 (split_lines output)))"

subsection \<open>Traces\<close>

text \<open>Trace runs the commands on the target's address; its last step blocks (None) while the channel
  is full.\<close>

definition trace_target :: "string \<Rightarrow> string res" where
  "trace_target dstGid =
     (case ParseIP dstGid of
        None \<Rightarrow> Inl (''invalid destination GID format: '' @ dstGid)
      | Some ip \<Rightarrow> Inr (case To4 ip of Some ip4 \<Rightarrow> IP_String ip4 | None \<Rightarrow> IP_String ip))"

definition Trace ::
  "(string \<Rightarrow> int option) \<Rightarrow> gtime \<Rightarrow> (string \<Rightarrow> cmd_outcome) \<Rightarrow> (string \<Rightarrow> cmd_outcome) \<Rightarrow> ProbeFiveTuple \<Rightarrow> Tracer
     \<Rightarrow> (unit res \<times> Tracer) go option" where
  "Trace ms_to_ns now traceroute tracepath fiveTuple t =
     (case trace_target (ft_DstGid fiveTuple) of
        Inl e \<Rightarrow> Some (Ret (Inl e, t))
      | Inr targetIP \<Rightarrow>
        (case runTraceroute (traceroute targetIP) (tracepath targetIP) of
           Inl e \<Rightarrow> Some (Ret (Inl e, t))
         | Inr (out, isTracepath) \<Rightarrow>
           (case (if isTracepath then parseTracepathOutput ms_to_ns out else parseTracerouteOutput ms_to_ns out) of
              Inl e \<Rightarrow> Some (Ret (Inl e, t))
            | Inr hops \<Rightarrow>
              let ch = tr_traceResults t; info = \<lparr>pi_FiveTuple = fiveTuple, pi_Hops = hops, pi_Timestamp = now\<rparr> in
              if ch_closed ch then Some (Panic ''send on closed channel'')
              else if length (ch_buf ch) < ch_cap ch then Some (Ret (Inr (), t\<lparr>tr_traceResults := ch\<lparr>ch_buf := ch_buf ch @ [info]\<rparr>\<rparr>))
              else None)))"

definition int_min :: "int \<Rightarrow> int \<Rightarrow> int" where
  "int_min a b = (if a < b then a else b)"

definition periodic_tuple :: "string \<Rightarrow> string \<Rightarrow> ProbeFiveTuple" where
  "periodic_tuple sourceGID dstGid = \<lparr>ft_SrcGid = sourceGID, ft_SrcQpn = 0, ft_DstGid = dstGid, ft_DstQpn = 0, ft_FlowLabel = 0\<rparr>"

text \<open>The five-tuples for which a tracing goroutine is started; their number is the result.\<close>

fun start_loop :: "string \<Rightarrow> ProtoPingTarget list \<Rightarrow> ProbeFiveTuple list go" where
  "start_loop sourceGID [] = Ret []"
| "start_loop sourceGID (t # ts) =
     (case ppt_TargetRnic t of
        None \<Rightarrow> Panic ''nil pointer dereference: target.TargetRnic.Gid''
      | Some r \<Rightarrow> go_bind (start_loop sourceGID ts) (\<lambda>rest. Ret (periodic_tuple sourceGID (ri_Gid r) # rest)))"

definition StartPeriodicTracing :: "string \<Rightarrow> ProtoPingTarget list \<Rightarrow> int \<Rightarrow> ProbeFiveTuple list go" where
  "StartPeriodicTracing sourceGID targets maxTargets =
     (if length targets = 0 then Ret []
      else start_loop sourceGID (take (nat (int_min maxTargets (int (length targets)))) targets))"

definition StartPeriodicTracingToLocalhost :: "string \<Rightarrow> ProbeFiveTuple list" where
  "StartPeriodicTracingToLocalhost sourceGID = [periodic_tuple sourceGID ''127.0.0.1'']"

text \<open>TracePeriodically: a first trace and one for every tick until the context is done; what each finds
  (the clock and the outcomes of the commands) is given. Errors are only logged.\<close>

type_synonym trace_env = "gtime \<times> (string \<Rightarrow> cmd_outcome) \<times> (string \<Rightarrow> cmd_outcome)"

fun trace_rounds :: "(string \<Rightarrow> int option) \<Rightarrow> ProbeFiveTuple \<Rightarrow> trace_env list \<Rightarrow> Tracer \<Rightarrow> Tracer go option" where
  "trace_rounds ms_to_ns fiveTuple [] t = Some (Ret t)"
| "trace_rounds ms_to_ns fiveTuple ((now, traceroute, tracepath) # rounds) t =
     (case Trace ms_to_ns now traceroute tracepath fiveTuple t of
        None \<Rightarrow> None
      | Some (Panic m) \<Rightarrow> Some (Panic m)
      | Some (Ret (_, t1)) \<Rightarrow> trace_rounds ms_to_ns fiveTuple rounds t1)"

definition TracePeriodically :: "(string \<Rightarrow> int option) \<Rightarrow> ProbeFiveTuple \<Rightarrow> int \<Rightarrow> trace_env \<Rightarrow> trace_env list \<Rightarrow> Tracer \<Rightarrow> Tracer go option" where
  "TracePeriodically ms_to_ns fiveTuple interval first ticks t =
     (if interval \<le> 0 then Some (Panic ''non-positive interval for NewTicker'') else trace_rounds ms_to_ns fiveTuple (first # ticks) t)"

text \<open>Close, once the periodic goroutines have ended.\<close>

definition Tracer_Close :: "Tracer \<Rightarrow> Tracer go" where
  "Tracer_Close t = go_bind (chan_close (tr_traceResults t)) (\<lambda>ch. Ret (t\<lparr>tr_traceResults := ch\<rparr>))"

text \<open>Periodic tracing appends to the results, at most one per round and each of its own five-tuple,
  and does not panic while the channel is open.\<close>

lemma Trace_appends:
  assumes "Trace ms_to_ns now traceroute tracepath ft t = Some x" "\<not> ch_closed (tr_traceResults t)"
  shows "\<exists>r t' infos. x = Ret (r, t') \<and> ch_buf (tr_traceResults t') = ch_buf (tr_traceResults t) @ infos \<and> length infos \<le> 1
    \<and> (\<forall>i \<in> set infos. pi_FiveTuple i = ft \<and> pi_Timestamp i = now) \<and> \<not> ch_closed (tr_traceResults t')"
  using assms by (auto simp: Trace_def Let_def split: sum.splits prod.splits if_splits)

lemma trace_rounds_appends:
  "trace_rounds ms_to_ns ft rounds t = Some x \<Longrightarrow> \<not> ch_closed (tr_traceResults t) \<Longrightarrow>
     \<exists>t' infos. x = Ret t' \<and> ch_buf (tr_traceResults t') = ch_buf (tr_traceResults t) @ infos \<and> length infos \<le> length rounds \<and> (\<forall>i \<in> set infos. pi_FiveTuple i = ft)"
proof (induction rounds arbitrary: t)
  case (Cons e rounds)
  obtain now tr tp where e: "e = (now, tr, tp)" by (cases e)
  obtain y where y: "Trace ms_to_ns now tr tp ft t = Some y" using Cons.prems(1) e by (cases "Trace ms_to_ns now tr tp ft t") auto
  from Trace_appends[OF this Cons.prems(2)] obtain r t1 ks where t1: "y = Ret (r, t1)" "ch_buf (tr_traceResults t1) = ch_buf (tr_traceResults t) @ ks" "length ks \<le> 1"
    "\<forall>i \<in> set ks. pi_FiveTuple i = ft" "\<not> ch_closed (tr_traceResults t1)" by auto
  have "trace_rounds ms_to_ns ft rounds t1 = Some x" using Cons.prems(1) e y t1(1) by simp
  from Cons.IH[OF this t1(5)] obtain t' js where "x = Ret t'" "ch_buf (tr_traceResults t') = ch_buf (tr_traceResults t1) @ js" "length js \<le> length rounds" "\<forall>i \<in> set js. pi_FiveTuple i = ft"
    by blast
  with t1 show ?case by (intro exI[of _ t'] exI[of _ "ks @ js"]) auto
qed auto

subsection \<open>Hops of a traceroute\<close>

text \<open>What \<^verbatim>\<open>traceroute -n -q 1\<close> prints for a hop: the number in two columns and either the
  address and the time, or a single asterisk.\<close>

datatype hop_line = Answered nat string string | Silent nat

fun line_text :: "hop_line \<Rightarrow> string" where
  "line_text (Answered n a r) = (if n < 10 then '' '' else '''') @ dec_string n @ ''  '' @ a @ ''  '' @ r @ '' ms''"
| "line_text (Silent n) = (if n < 10 then '' '' else '''') @ dec_string n @ ''  *''"

definition output_text :: "string \<Rightarrow> hop_line list \<Rightarrow> string" where
  "output_text header ls = header @ newline # concat (map (\<lambda>l. line_text l @ [newline]) ls)"

definition plain_word :: "string \<Rightarrow> bool" where
  "plain_word w \<longleftrightarrow> w \<noteq> '''' \<and> list_all (\<lambda>c. \<not> is_space c) w"

fun line_ok :: "(string \<Rightarrow> int option) \<Rightarrow> hop_line \<Rightarrow> bool" where
  "line_ok ms_to_ns (Answered n a r) \<longleftrightarrow> n < 256 \<and> plain_word a \<and> plain_word r \<and> ParseIP a \<noteq> None \<and> ms_to_ns r \<noteq> None"
| "line_ok ms_to_ns (Silent n) \<longleftrightarrow> n < 256"

lemma digit_not_space: "is_digit c \<Longrightarrow> \<not> is_space c"
  by (auto simp: is_digit_def is_space_def)

lemma plain_dec: "plain_word (dec_string n)"
  using dec_string_digits digit_not_space by (auto simp: plain_word_def list_all_iff)

lemma fields_plain: "plain_word w \<Longrightarrow> str_fields (w @ CHR '' '' # s) = w # str_fields s" "plain_word w \<Longrightarrow> str_fields w = [w]"
  "str_fields (CHR '' '' # s) = str_fields s"
  by (simp_all add: plain_word_def fields_Cons fields_last fields_space is_space_def)

lemma fields_literal: "str_fields ''ms'' = [''ms'']" "str_fields ''*'' = [''*'']"
  by code_simp+

lemma fields_answered: "plain_word a \<Longrightarrow> plain_word r \<Longrightarrow> str_fields (line_text (Answered n a r)) = [dec_string n, a, r, ''ms'']"
  by (simp add: fields_plain plain_dec fields_literal)

lemma fields_silent: "str_fields (line_text (Silent n)) = [dec_string n, ''*'']"
  by (simp add: fields_plain plain_dec fields_literal)

lemma plain_no_newline: "plain_word w \<Longrightarrow> newline \<notin> set w"
  by (auto simp: plain_word_def list_all_iff is_space_def newline_def)

lemma line_no_newline: "line_ok p l \<Longrightarrow> newline \<notin> set (line_text l)"
  using plain_no_newline plain_dec by (cases l) (auto simp: newline_def)

lemma split_output:
  "newline \<notin> set header \<Longrightarrow> \<forall>l \<in> set ls. line_ok p l \<Longrightarrow> drop 1 (split_lines (output_text header ls)) = map line_text ls @ [[]]"
proof -
  have "\<forall>l \<in> set ls. line_ok p l \<Longrightarrow> split_lines (concat (map (\<lambda>l. line_text l @ [newline]) ls)) = map line_text ls @ [[]]"
    using line_no_newline by (induction ls) (auto simp: split_lines_append)
  then show "newline \<notin> set header \<Longrightarrow> \<forall>l \<in> set ls. line_ok p l \<Longrightarrow> drop 1 (split_lines (output_text header ls)) = map line_text ls @ [[]]"
    by (simp add: output_text_def split_lines_append)
qed

lemma dec_value_append: "dec_value acc (s @ [digit_char d]) = dec_value acc s * 10 + d" if "d < 10" for d
  using that by (induction s arbitrary: acc) (simp_all add: digit_char_def)

lemma dec_value_dec: "dec_value 0 (dec_string n) = n"
proof (induction n rule: dec_string.induct)
  case (1 n)
  then show ?case
    using dec_value_append[of n 0 "[]"] dec_value_append[of "n mod 10" 0] by (subst dec_string.simps) auto
qed

lemma atoi_dec: "n < 256 \<Longrightarrow> atoi (dec_string n) = Some (int n)"
proof -
  assume n: "n < 256"
  obtain c cs where c: "dec_string n = c # cs" by (cases "dec_string n") auto
  then have "is_digit c" using dec_string_digits[of c n] by simp
  then have "c \<noteq> CHR ''-''" "c \<noteq> CHR ''+''" by (auto simp: is_digit_def)
  moreover have "list_all is_digit (dec_string n)" using dec_string_digits by (auto simp: list_all_iff)
  moreover have "in_i64 (int n)" using n by (simp add: in_i64_def min_i64_def max_i64_def)
  ultimately show ?thesis using dec_value_dec[of n] by (simp add: atoi_def c)
qed

fun hop_of_line :: "(string \<Rightarrow> int option) \<Rightarrow> hop_line \<Rightarrow> PathHop option" where
  "hop_of_line ms_to_ns (Answered n a r) = Some \<lparr>hop_IpAddress = IP_String (the (ParseIP a)), hop_RttNs = the (ms_to_ns r)\<rparr>"
| "hop_of_line ms_to_ns (Silent n) = None"

lemma parse_line:
  assumes "line_ok p l"
  shows "parseTracerouteLine p (trim_space (line_text l)) =
    (case hop_of_line p l of Some h \<Rightarrow> Inr h | None \<Rightarrow> Inl (''invalid traceroute line format: '' @ trim_space (line_text l)))"
proof (cases l)
  case (Answered n a r)
  then have a: "n < 256" "plain_word a" "plain_word r" "ParseIP a \<noteq> None" "p r \<noteq> None" using assms by auto
  have "a \<noteq> ''*''"
  proof
    assume "a = ''*''"
    moreover have "ParseIP ''*'' = None" by (rule ParseIP_no_separator) simp
    ultimately show False using a(4) by simp
  qed
  with a show ?thesis by (auto simp: Answered parseTracerouteLine_def fields_trim_space fields_answered atoi_dec Let_def simp del: line_text.simps)
next
  case (Silent n)
  then show ?thesis by (simp add: parseTracerouteLine_def fields_trim_space fields_silent Let_def del: line_text.simps)
qed

lemma trim_line_ne: "line_ok p l \<Longrightarrow> trim_space (line_text l) \<noteq> ''''"
proof
  assume "line_ok p l" and "trim_space (line_text l) = ''''"
  then have "str_fields (line_text l) = []" using fields_trim_space[of "line_text l"] by (simp add: str_fields_def del: line_text.simps)
  with \<open>line_ok p l\<close> show False by (cases l) (simp_all add: fields_answered fields_silent del: line_text.simps)
qed

text \<open>From the output of traceroute the parser recovers exactly the hops that answered, in order,
  with their address and time. A hop that did not answer is printed as a number and an
  asterisk, which are two fields: the line is refused, so the branch that records such a
  hop is never reached and it disappears from the path.\<close>

theorem traceroute_hops:
  assumes "newline \<notin> set header" and "\<forall>l \<in> set ls. line_ok ms_to_ns l"
  shows "parseTracerouteOutput ms_to_ns (output_text header ls) = Inr (List.map_filter (hop_of_line ms_to_ns) ls)"
proof -
  have "traceroute_lines ms_to_ns (map line_text ls @ [[]]) = List.map_filter (hop_of_line ms_to_ns) ls"
    using assms(2)
  proof (induction ls)
    case (Cons l ls)
    then have "trim_space (line_text l) \<noteq> ''''" using trim_line_ne by auto
    with Cons show ?case by (simp add: parse_line List.map_filter_simps Let_def split: option.split del: line_text.simps)
  qed (simp add: trim_space_def List.map_filter_simps)
  then show ?thesis by (simp add: parseTracerouteOutput_def split_output[OF assms] del: One_nat_def)
qed

theorem traceroute_hops_witness:
  "parseTracerouteOutput (\<lambda>s. if s = ''0.445'' then Some 445000 else None)
     (output_text ''traceroute to 10.0.0.9 (10.0.0.9), 30 hops max'' [Answered 1 ''10.0.0.1'' ''0.445'', Silent 2])
   = Inr [\<lparr>hop_IpAddress = ''10.0.0.1'', hop_RttNs = 445000\<rparr>]"
proof -
  let ?p = "\<lambda>s. if s = ''0.445'' then Some 445000 else None"
  have p: "ParseIP ''10.0.0.1'' = Some (mapped4 10 0 0 1)" by code_simp
  have s: "IP_String (mapped4 10 0 0 1) = ''10.0.0.1''" by code_simp
  have "\<forall>l \<in> set [Answered 1 ''10.0.0.1'' ''0.445'', Silent 2]. line_ok ?p l" by (simp add: p plain_word_def is_space_def)
  from traceroute_hops[OF _ this, of "''traceroute to 10.0.0.9 (10.0.0.9), 30 hops max''"] show ?thesis
    by (simp add: newline_def List.map_filter_simps p s)
qed


end
