(* ===== verification/Tracer_Life.thy ===== *)
theory Tracer_Life
  imports Path_Tracer
begin

text \<open>
  The path tracer at work (internal/tracer/tracer.go with resultHandler and Stop of agent/agent.go): the
  goroutines that trace periodically, those that a timeout starts, the handler that takes
  the results, and Close, as threads over the tracer's channel. Shown: Close waits for the
  periodic traces; when it can return and when it cannot; the traces it does not wait for.
\<close>

subsection \<open>A trace up to its send\<close>

definition trace_result :: "(string \<Rightarrow> int option) \<Rightarrow> trace_env \<Rightarrow> ProbeFiveTuple \<Rightarrow> PathInfo res" where
  "trace_result ms_to_ns env fiveTuple =
     (case env of (now, traceroute, tracepath) \<Rightarrow>
       (case trace_target (ft_DstGid fiveTuple) of
          Inl e \<Rightarrow> Inl e
        | Inr targetIP \<Rightarrow>
          (case runTraceroute (traceroute targetIP) (tracepath targetIP) of
             Inl e \<Rightarrow> Inl e
           | Inr (out, isTracepath) \<Rightarrow>
             (case (if isTracepath then parseTracepathOutput ms_to_ns out else parseTracerouteOutput ms_to_ns out) of
                Inl e \<Rightarrow> Inl e
              | Inr hops \<Rightarrow> Inr \<lparr>pi_FiveTuple = fiveTuple, pi_Hops = hops, pi_Timestamp = now\<rparr>))))"

lemma Trace_split:
  "Trace ms_to_ns now traceroute tracepath ft t =
     (case trace_result ms_to_ns (now, traceroute, tracepath) ft of
        Inl e \<Rightarrow> Some (Ret (Inl e, t))
      | Inr info \<Rightarrow> let ch = tr_traceResults t in
          if ch_closed ch then Some (Panic ''send on closed channel'')
          else if length (ch_buf ch) < ch_cap ch then Some (Ret (Inr (), t\<lparr>tr_traceResults := ch\<lparr>ch_buf := ch_buf ch @ [info]\<rparr>\<rparr>)) else None)"
  by (simp add: Trace_def trace_result_def Let_def split: sum.split prod.split)

subsection \<open>Threads\<close>

text \<open>A tracing goroutine sleeps before its first trace, runs the commands, waits to send, waits for its
  ticker, or has ended. One that a timeout started traces once and is in no wait group.\<close>

datatype trace_pc = Offset | Tracing | Sending PathInfo | AtTicker | Ended

record trace_thread =
  tt_periodic :: bool
  tt_tuple :: ProbeFiveTuple
  tt_pc :: trace_pc

datatype tracer_close_pc = CloseNotCalled | CloseWaiting | CloseReturned

record trace_world =
  tl_t :: Tracer
  tl_threads :: "trace_thread list"
  tl_wg :: nat
  tl_cancelled :: bool
  tl_handler :: bool
  tl_close :: tracer_close_pc
  tl_panic :: "string option"

definition traces_started :: "ProbeFiveTuple list \<Rightarrow> trace_world" where
  "traces_started fts = \<lparr>tl_t = NewTracer, tl_threads = map (\<lambda>ft. \<lparr>tt_periodic = True, tt_tuple = ft, tt_pc = Offset\<rparr>) fts, tl_wg = length fts,
     tl_cancelled = False, tl_handler = True, tl_close = CloseNotCalled, tl_panic = None\<rparr>"

abbreviation results :: "trace_world \<Rightarrow> PathInfo gchan" where
  "results w \<equiv> tr_traceResults (tl_t w)"

definition set_pc :: "nat \<Rightarrow> trace_pc \<Rightarrow> trace_world \<Rightarrow> trace_world" where
  "set_pc i pc w = w\<lparr>tl_threads := (tl_threads w)[i := (tl_threads w ! i)\<lparr>tt_pc := pc\<rparr>]\<rparr>"

definition set_buf :: "PathInfo list \<Rightarrow> trace_world \<Rightarrow> trace_world" where
  "set_buf xs w = w\<lparr>tl_t := (tl_t w)\<lparr>tr_traceResults := (results w)\<lparr>ch_buf := xs\<rparr>\<rparr>\<rparr>"

definition at_pc :: "trace_world \<Rightarrow> nat \<Rightarrow> trace_pc \<Rightarrow> bool" where
  "at_pc w i pc \<longleftrightarrow> tl_panic w = None \<and> i < length (tl_threads w) \<and> tt_pc (tl_threads w ! i) = pc"

text \<open>Where a goroutine goes after a trace.\<close>

definition after_trace :: "trace_world \<Rightarrow> nat \<Rightarrow> trace_pc" where
  "after_trace w i = (if tt_periodic (tl_threads w ! i) then AtTicker else Ended)"

text \<open>The steps, given what a trace can meet and whether timeouts start traces. A ticker may win against
  a cancelled context. A panic ends the process.\<close>

inductive trace_step :: "(string \<Rightarrow> int option) \<Rightarrow> trace_env set \<Rightarrow> bool \<Rightarrow> trace_world \<Rightarrow> trace_world \<Rightarrow> bool"
  for ms_to_ns envs on_timeout where
  tl_begin: "at_pc w i Offset \<Longrightarrow> trace_step ms_to_ns envs on_timeout w (set_pc i Tracing w)"
| tl_failed: "at_pc w i Tracing \<Longrightarrow> env \<in> envs \<Longrightarrow> trace_result ms_to_ns env (tt_tuple (tl_threads w ! i)) = Inl e \<Longrightarrow>
     trace_step ms_to_ns envs on_timeout w (set_pc i (after_trace w i) w)"
| tl_traced: "at_pc w i Tracing \<Longrightarrow> env \<in> envs \<Longrightarrow> trace_result ms_to_ns env (tt_tuple (tl_threads w ! i)) = Inr info \<Longrightarrow>
     trace_step ms_to_ns envs on_timeout w (set_pc i (Sending info) w)"
| tl_sent: "at_pc w i (Sending info) \<Longrightarrow> \<not> ch_closed (results w) \<Longrightarrow> length (ch_buf (results w)) < ch_cap (results w) \<Longrightarrow>
     trace_step ms_to_ns envs on_timeout w (set_pc i (after_trace w i) (set_buf (ch_buf (results w) @ [info]) w))"
| tl_send_panics: "at_pc w i (Sending info) \<Longrightarrow> ch_closed (results w) \<Longrightarrow>
     trace_step ms_to_ns envs on_timeout w (w\<lparr>tl_panic := Some ''send on closed channel''\<rparr>)"
| tl_tick: "at_pc w i AtTicker \<Longrightarrow> trace_step ms_to_ns envs on_timeout w (set_pc i Tracing w)"
| tl_ends: "at_pc w i AtTicker \<Longrightarrow> tl_cancelled w \<Longrightarrow> trace_step ms_to_ns envs on_timeout w ((set_pc i Ended w)\<lparr>tl_wg := tl_wg w - 1\<rparr>)"
| tl_taken: "tl_panic w = None \<Longrightarrow> tl_handler w \<Longrightarrow> ch_buf (results w) = x # xs \<Longrightarrow> trace_step ms_to_ns envs on_timeout w (set_buf xs w)"
| tl_timeout: "tl_panic w = None \<Longrightarrow> tl_handler w \<Longrightarrow> on_timeout \<Longrightarrow>
     trace_step ms_to_ns envs on_timeout w (w\<lparr>tl_threads := tl_threads w @ [\<lparr>tt_periodic = False, tt_tuple = ft, tt_pc = Tracing\<rparr>]\<rparr>)"
| tl_handler_ends: "tl_panic w = None \<Longrightarrow> tl_handler w \<Longrightarrow> tl_cancelled w \<Longrightarrow> trace_step ms_to_ns envs on_timeout w (w\<lparr>tl_handler := False\<rparr>)"
| tl_cancel: "tl_panic w = None \<Longrightarrow> \<not> tl_cancelled w \<Longrightarrow> trace_step ms_to_ns envs on_timeout w (w\<lparr>tl_cancelled := True\<rparr>)"
| tl_close_called: "tl_panic w = None \<Longrightarrow> tl_close w = CloseNotCalled \<Longrightarrow> tl_cancelled w \<Longrightarrow> trace_step ms_to_ns envs on_timeout w (w\<lparr>tl_close := CloseWaiting\<rparr>)"
| tl_closes: "tl_panic w = None \<Longrightarrow> tl_close w = CloseWaiting \<Longrightarrow> tl_wg w = 0 \<Longrightarrow> Tracer_Close (tl_t w) = Ret t \<Longrightarrow>
     trace_step ms_to_ns envs on_timeout w (w\<lparr>tl_close := CloseReturned, tl_t := t\<rparr>)"

inductive_cases trace_stepE: "trace_step ms_to_ns envs on_timeout w w'"

subsection \<open>Invariant\<close>

definition unfinished :: "trace_thread \<Rightarrow> bool" where
  "unfinished th \<longleftrightarrow> tt_periodic th \<and> tt_pc th \<noteq> Ended"

definition trace_inv :: "bool \<Rightarrow> trace_world \<Rightarrow> bool" where
  "trace_inv on_timeout w \<longleftrightarrow> tl_wg w = length (filter unfinished (tl_threads w))
     \<and> (ch_closed (results w) \<longleftrightarrow> tl_close w = CloseReturned) \<and> (tl_close w = CloseReturned \<longrightarrow> tl_wg w = 0)
     \<and> (tl_close w \<noteq> CloseNotCalled \<longrightarrow> tl_cancelled w) \<and> (\<not> tl_handler w \<longrightarrow> tl_cancelled w)
     \<and> (\<not> on_timeout \<longrightarrow> tl_panic w = None \<and> (\<forall>th \<in> set (tl_threads w). tt_periodic th))
     \<and> (\<forall>th \<in> set (tl_threads w). \<not> tt_periodic th \<longrightarrow> tt_pc th \<notin> {Offset, AtTicker})"

text \<open>Counting threads of a kind when one of them moves.\<close>

lemma count_update:
  "i < length xs \<Longrightarrow> length (filter P (xs[i := x])) + of_bool (P (xs ! i)) = length (filter P xs) + of_bool (P x)"
proof (induction xs arbitrary: i)
  case (Cons y ys)
  then show ?case by (cases i) auto
qed simp

lemma set_pc_simps [simp]:
  "tl_t (set_pc i pc w) = tl_t w" "tl_wg (set_pc i pc w) = tl_wg w" "tl_cancelled (set_pc i pc w) = tl_cancelled w" "tl_handler (set_pc i pc w) = tl_handler w"
  "tl_close (set_pc i pc w) = tl_close w" "tl_panic (set_pc i pc w) = tl_panic w"
  "tl_threads (set_pc i pc w) = (tl_threads w)[i := (tl_threads w ! i)\<lparr>tt_pc := pc\<rparr>]"
  by (simp_all add: set_pc_def)

lemma set_buf_simps [simp]:
  "tl_wg (set_buf xs w) = tl_wg w" "tl_cancelled (set_buf xs w) = tl_cancelled w" "tl_handler (set_buf xs w) = tl_handler w" "tl_close (set_buf xs w) = tl_close w"
  "tl_panic (set_buf xs w) = tl_panic w" "tl_threads (set_buf xs w) = tl_threads w"
  "ch_buf (results (set_buf xs w)) = xs" "ch_cap (results (set_buf xs w)) = ch_cap (results w)" "ch_closed (results (set_buf xs w)) = ch_closed (results w)"
  by (simp_all add: set_buf_def)


lemma all_update: "\<forall>x \<in> set xs. P x \<Longrightarrow> P y \<Longrightarrow> \<forall>x \<in> set (xs[i := y]). P x"
  using set_update_subset_insert[of xs i y] by blast

text \<open>A thread that moves without finishing, or one that is in no wait group, keeps the invariant.\<close>

lemma trace_inv_move:
  assumes "trace_inv to w" "i < length (tl_threads w)" "unfinished ((tl_threads w ! i)\<lparr>tt_pc := pc\<rparr>) \<longleftrightarrow> unfinished (tl_threads w ! i)"
    and "tt_periodic (tl_threads w ! i) \<or> pc \<notin> {Offset, AtTicker}"
  shows "trace_inv to (set_pc i pc w)"
proof -
  let ?x = "(tl_threads w ! i)\<lparr>tt_pc := pc\<rparr>"
  have "length (filter unfinished ((tl_threads w)[i := ?x])) = length (filter unfinished (tl_threads w))"
    using count_update[OF assms(2), of unfinished ?x] assms(3) by simp
  moreover have "\<not> to \<longrightarrow> (\<forall>th \<in> set ((tl_threads w)[i := ?x]). tt_periodic th)"
    using assms(1,2) all_update[of "tl_threads w" tt_periodic ?x i] by (simp add: trace_inv_def)
  moreover have "\<forall>th \<in> set ((tl_threads w)[i := ?x]). \<not> tt_periodic th \<longrightarrow> tt_pc th \<notin> {Offset, AtTicker}"
    using assms(1,4) by (intro all_update) (auto simp: trace_inv_def)
  ultimately show ?thesis using assms(1) unfolding trace_inv_def by auto
qed

lemma at_pcD: "at_pc w i pc \<Longrightarrow> i < length (tl_threads w) \<and> tt_pc (tl_threads w ! i) = pc \<and> tl_threads w ! i \<in> set (tl_threads w)"
  by (simp add: at_pc_def)

lemma after_trace_unfinished:
  "tt_pc (tl_threads w ! i) \<noteq> Ended \<Longrightarrow> unfinished ((tl_threads w ! i)\<lparr>tt_pc := after_trace w i\<rparr>) \<longleftrightarrow> unfinished (tl_threads w ! i)"
  by (simp add: unfinished_def after_trace_def)

lemma set_buf_inv: "trace_inv to (set_buf xs w) \<longleftrightarrow> trace_inv to w"
  by (simp add: trace_inv_def)

lemma finished_count:
  assumes "trace_inv to w" "i < length (tl_threads w)" "unfinished (tl_threads w ! i)"
  shows "tl_wg w - 1 = length (filter unfinished ((tl_threads w)[i := (tl_threads w ! i)\<lparr>tt_pc := Ended\<rparr>]))"
  using count_update[OF assms(2), of unfinished "(tl_threads w ! i)\<lparr>tt_pc := Ended\<rparr>"] assms by (simp add: trace_inv_def unfinished_def)

lemma trace_inv_step:
  assumes "trace_step ms_to_ns envs to w w'" "trace_inv to w"
  shows "trace_inv to w'"
  using assms(1)
proof cases
  case (tl_begin i)
  then show ?thesis using at_pcD[of w i Offset] by (auto intro!: trace_inv_move[OF assms(2)] simp: unfinished_def)
next
  case (tl_failed i env e)
  then show ?thesis using at_pcD[of w i Tracing] after_trace_unfinished[of w i]
    by (auto intro!: trace_inv_move[OF assms(2)] simp: after_trace_def)
next
  case (tl_traced i env info)
  then show ?thesis using at_pcD[of w i Tracing] by (auto intro!: trace_inv_move[OF assms(2)] simp: unfinished_def)
next
  case (tl_sent i info)
  have "trace_inv to (set_buf (ch_buf (results w) @ [info]) w)" using assms(2) by (simp add: set_buf_inv)
  from trace_inv_move[OF this] tl_sent show ?thesis using at_pcD[of w i "Sending info"] after_trace_unfinished[of w i]
    by (auto simp: after_trace_def)
next
  case (tl_send_panics i info)
  then have "to" using assms(2) at_pcD[of w i "Sending info"] by (auto simp: trace_inv_def unfinished_def filter_empty_conv)
  with assms(2) show ?thesis unfolding trace_inv_def tl_send_panics(1) by auto
next
  case (tl_tick i)
  then have "tt_periodic (tl_threads w ! i)" using assms(2) at_pcD[of w i AtTicker] by (auto simp: trace_inv_def)
  then show ?thesis using tl_tick at_pcD[of w i AtTicker] by (auto intro!: trace_inv_move[OF assms(2)] simp: unfinished_def)
next
  case (tl_ends i)
  then have u: "i < length (tl_threads w)" "unfinished (tl_threads w ! i)" using assms(2) at_pcD[of w i AtTicker] by (auto simp: trace_inv_def unfinished_def)
  have "\<not> to \<longrightarrow> (\<forall>th \<in> set ((tl_threads w)[i := (tl_threads w ! i)\<lparr>tt_pc := Ended\<rparr>]). tt_periodic th)"
    using assms(2) u all_update[of "tl_threads w" tt_periodic "(tl_threads w ! i)\<lparr>tt_pc := Ended\<rparr>" i] by (simp add: trace_inv_def)
  moreover have "\<forall>th \<in> set ((tl_threads w)[i := (tl_threads w ! i)\<lparr>tt_pc := Ended\<rparr>]). \<not> tt_periodic th \<longrightarrow> tt_pc th \<notin> {Offset, AtTicker}"
    using assms(2) by (intro all_update) (auto simp: trace_inv_def)
  ultimately show ?thesis using tl_ends assms(2) finished_count[OF assms(2) u] unfolding trace_inv_def by auto
next
  case (tl_closes t)
  then show ?thesis using assms(2) by (auto simp: trace_inv_def Tracer_Close_def chan_close_def elim!: go_bind.elims split: if_splits)
qed (use assms(2) in \<open>auto simp: trace_inv_def unfinished_def set_buf_inv\<close>)

lemma trace_inv_start: "trace_inv to (traces_started fts)"
proof -
  have "filter unfinished (map (\<lambda>ft. \<lparr>tt_periodic = True, tt_tuple = ft, tt_pc = Offset\<rparr>) fts) = map (\<lambda>ft. \<lparr>tt_periodic = True, tt_tuple = ft, tt_pc = Offset\<rparr>) fts"
    by (rule filter_True) (auto simp: unfinished_def)
  then show ?thesis by (auto simp: trace_inv_def traces_started_def NewTracer_def chan_make_def)
qed

lemma trace_inv_steps: "(trace_step ms_to_ns envs to)\<^sup>*\<^sup>* w w' \<Longrightarrow> trace_inv to w \<Longrightarrow> trace_inv to w'"
  by (induction rule: rtranclp_induct) (auto intro: trace_inv_step)


subsection \<open>When Close cannot return\<close>

definition sends :: "trace_thread \<Rightarrow> bool" where
  "sends th \<longleftrightarrow> tt_periodic th \<and> (case tt_pc th of Sending _ \<Rightarrow> True | _ \<Rightarrow> False)"

definition blocked :: "trace_world \<Rightarrow> nat" where
  "blocked w = length (filter sends (tl_threads w))"

definition room :: "trace_world \<Rightarrow> nat" where
  "room w = ch_cap (results w) - length (ch_buf (results w))"

text \<open>With the handler gone and more periodic traces waiting to send than the channel has room for.\<close>

definition jammed :: "trace_world \<Rightarrow> bool" where
  "jammed w \<longleftrightarrow> \<not> tl_handler w \<and> room w < blocked w"

lemma jammed_open:
  assumes "trace_inv to w" "jammed w"
  shows "tl_close w \<noteq> CloseReturned \<and> tl_wg w \<noteq> 0"
proof -
  obtain th where "th \<in> set (tl_threads w)" "sends th" using assms(2) unfolding jammed_def blocked_def by (metis filter_empty_conv less_nat_zero_code list.size(3))
  then have "filter unfinished (tl_threads w) \<noteq> []" by (auto simp: filter_empty_conv sends_def unfinished_def)
  then show ?thesis using assms(1) by (auto simp: trace_inv_def)
qed

lemma blocked_move:
  "i < length (tl_threads w) \<Longrightarrow> blocked (set_pc i pc w) + of_bool (sends (tl_threads w ! i)) = blocked w + of_bool (sends ((tl_threads w ! i)\<lparr>tt_pc := pc\<rparr>))"
  using count_update[of i "tl_threads w" sends "(tl_threads w ! i)\<lparr>tt_pc := pc\<rparr>"] by (simp add: blocked_def)

lemma room_set_pc [simp]: "room (set_pc i pc w) = room w"
  by (simp add: room_def)

lemma jammed_move:
  assumes "jammed w" "i < length (tl_threads w)" "\<not> sends (tl_threads w ! i)"
  shows "jammed (set_pc i pc w)"
  using blocked_move[OF assms(2), of pc] assms(1,3) by (simp add: jammed_def)

lemma not_sending: "at_pc w i pc \<Longrightarrow> (\<And>info. pc \<noteq> Sending info) \<Longrightarrow> i < length (tl_threads w) \<and> \<not> sends (tl_threads w ! i)"
  by (auto simp: at_pc_def sends_def split: trace_pc.splits)

lemma jammed_step:
  assumes "trace_step ms_to_ns envs to w w'" "trace_inv to w" "jammed w"
  shows "jammed w'"
  using assms(1)
proof cases
  case (tl_begin i)
  then show ?thesis using jammed_move[OF assms(3)] not_sending[of w i Offset] by auto
next
  case (tl_failed i env e)
  then show ?thesis using jammed_move[OF assms(3)] not_sending[of w i Tracing] by auto
next
  case (tl_traced i env info)
  then show ?thesis using jammed_move[OF assms(3)] not_sending[of w i Tracing] by auto
next
  case (tl_sent i info)
  let ?v = "set_buf (ch_buf (results w) @ [info]) w"
  have "room ?v + 1 = room w" using tl_sent by (simp add: room_def)
  moreover have "blocked ?v = blocked w" by (simp add: blocked_def)
  moreover have "blocked (set_pc i (after_trace w i) ?v) + 1 \<ge> blocked ?v"
    using blocked_move[of i ?v "after_trace w i"] at_pcD[OF tl_sent(2)] by (auto simp: of_bool_def split: if_splits)
  ultimately show ?thesis using assms(3) tl_sent(1) by (simp add: jammed_def)
next
  case (tl_tick i)
  then show ?thesis using jammed_move[OF assms(3)] not_sending[of w i AtTicker] by auto
next
  case (tl_ends i)
  have "jammed (set_pc i Ended w)" using tl_ends jammed_move[OF assms(3)] not_sending[of w i AtTicker] by auto
  then show ?thesis unfolding tl_ends(1) by (simp add: jammed_def blocked_def room_def)
next
  case (tl_closes t)
  then show ?thesis using jammed_open[OF assms(2,3)] by simp
qed (use assms(3) in \<open>auto simp: jammed_def blocked_def room_def\<close>)

lemma jammed_steps: "(trace_step ms_to_ns envs to)\<^sup>*\<^sup>* w w' \<Longrightarrow> trace_inv to w \<Longrightarrow> jammed w \<Longrightarrow> jammed w' \<and> trace_inv to w'"
  by (induction rule: rtranclp_induct) (auto intro: jammed_step trace_inv_step)

subsection \<open>When it can\<close>

text \<open>The periodic traces that may still send, and how far a periodic thread is from its end.\<close>

definition may_send :: "trace_thread \<Rightarrow> bool" where
  "may_send th \<longleftrightarrow> tt_periodic th \<and> tt_pc th \<noteq> AtTicker \<and> tt_pc th \<noteq> Ended"

definition pending :: "trace_world \<Rightarrow> nat" where
  "pending w = length (filter may_send (tl_threads w))"

fun pc_rank :: "trace_pc \<Rightarrow> nat" where
  "pc_rank Offset = 4" | "pc_rank Tracing = 3" | "pc_rank (Sending _) = 2" | "pc_rank AtTicker = 1" | "pc_rank Ended = 0"

definition thread_rank :: "trace_thread \<Rightarrow> nat" where
  "thread_rank th = (if tt_periodic th then pc_rank (tt_pc th) else 0)"

definition trace_left :: "trace_world \<Rightarrow> nat" where
  "trace_left w = sum_list (map thread_rank (tl_threads w))"

lemma pending_move:
  "i < length (tl_threads w) \<Longrightarrow> pending (set_pc i pc w) + of_bool (may_send (tl_threads w ! i)) = pending w + of_bool (may_send ((tl_threads w ! i)\<lparr>tt_pc := pc\<rparr>))"
  using count_update[of i "tl_threads w" may_send "(tl_threads w ! i)\<lparr>tt_pc := pc\<rparr>"] by (simp add: pending_def)

lemma rank_update: "i < length xs \<Longrightarrow> sum_list (map f (xs[i := x])) + f (xs ! i) = sum_list (map f xs) + (f x :: nat)"
proof (induction xs arbitrary: i)
  case (Cons y ys)
  then show ?case by (cases i) auto
qed simp

lemma trace_left_move:
  assumes "i < length (tl_threads w)" "tt_periodic (tl_threads w ! i)" "pc_rank pc < pc_rank (tt_pc (tl_threads w ! i))"
  shows "trace_left (set_pc i pc w) < trace_left w"
  using rank_update[OF assms(1), of thread_rank "(tl_threads w ! i)\<lparr>tt_pc := pc\<rparr>"] assms(2,3) by (simp add: trace_left_def thread_rank_def)

text \<open>A cancelled tracer whose channel has room for every trace that may still send.\<close>

definition closable :: "trace_world \<Rightarrow> bool" where
  "closable w \<longleftrightarrow> tl_panic w = None \<and> tl_cancelled w \<and> tl_close w \<noteq> CloseReturned \<and> pending w \<le> room w"

lemma closable_move:
  assumes "closable w" "i < length (tl_threads w)" "may_send ((tl_threads w ! i)\<lparr>tt_pc := pc\<rparr>) \<longrightarrow> may_send (tl_threads w ! i)"
  shows "closable (set_pc i pc w)"
  using pending_move[OF assms(2), of pc] assms(1,3) by (auto simp: closable_def of_bool_def split: if_splits)

lemma closable_step:
  assumes "trace_inv to w" "closable w" "env \<in> envs" "0 < trace_left w"
  shows "\<exists>w'. trace_step ms_to_ns envs to w w' \<and> closable w' \<and> trace_left w' < trace_left w"
proof -
  have "\<exists>th \<in> set (tl_threads w). thread_rank th \<noteq> 0"
  proof (rule ccontr)
    assume "\<not> (\<exists>th \<in> set (tl_threads w). thread_rank th \<noteq> 0)"
    then have "trace_left w = 0" by (simp add: trace_left_def)
    with assms(4) show False by simp
  qed
  then obtain i where i: "i < length (tl_threads w)" "tt_periodic (tl_threads w ! i)" "pc_rank (tt_pc (tl_threads w ! i)) \<noteq> 0"
    by (auto simp: in_set_conv_nth thread_rank_def split: if_splits)
  have at: "at_pc w i (tt_pc (tl_threads w ! i))" using i(1) assms(2) by (simp add: at_pc_def closable_def)
  note move = closable_move[OF assms(2) i(1)] trace_left_move[OF i(1,2)]
  show ?thesis
  proof (cases "tt_pc (tl_threads w ! i)")
    case Offset
    then show ?thesis using at i move[of Tracing] tl_begin[of w i ms_to_ns envs to] by (intro exI[of _ "set_pc i Tracing w"]) (auto simp: may_send_def)
  next
    case Tracing
    show ?thesis
    proof (cases "trace_result ms_to_ns env (tt_tuple (tl_threads w ! i))")
      case (Inl e)
      then show ?thesis using at Tracing i move[of AtTicker] tl_failed[of w i env envs ms_to_ns e to] assms(3)
        by (intro exI[of _ "set_pc i AtTicker w"]) (auto simp: may_send_def after_trace_def)
    next
      case (Inr info)
      then show ?thesis using at Tracing i move[of "Sending info"] tl_traced[of w i env envs ms_to_ns info to] assms(3)
        by (intro exI[of _ "set_pc i (Sending info) w"]) (auto simp: may_send_def)
    qed
  next
    case (Sending info)
    let ?v = "set_buf (ch_buf (results w) @ [info]) w"
    have s: "may_send (tl_threads w ! i)" using Sending i(2) by (simp add: may_send_def)
    then have "pending w \<noteq> 0" using i(1) by (auto simp: pending_def filter_empty_conv)
    then have free: "length (ch_buf (results w)) < ch_cap (results w)" using assms(2) unfolding closable_def room_def by linarith
    have "\<not> ch_closed (results w)" using assms(1,2) by (simp add: closable_def trace_inv_def)
    then have step: "trace_step ms_to_ns envs to w (set_pc i AtTicker ?v)"
      using tl_sent[of w i info ms_to_ns envs to] at Sending free i(2) by (simp add: after_trace_def)
    have "pending (set_pc i AtTicker ?v) + 1 = pending w" using pending_move[of i ?v AtTicker] i(1) s by (simp add: may_send_def pending_def)
    moreover have "room (set_pc i AtTicker ?v) + 1 = room w" using free by (simp add: room_def)
    ultimately have "closable (set_pc i AtTicker ?v)" using assms(2) by (simp add: closable_def)
    moreover have "trace_left (set_pc i AtTicker ?v) < trace_left w" using trace_left_move[of i ?v AtTicker] i Sending by (simp add: trace_left_def)
    ultimately show ?thesis using step by blast
  next
    case AtTicker
    let ?v = "(set_pc i Ended w)\<lparr>tl_wg := tl_wg w - 1\<rparr>"
    have step: "trace_step ms_to_ns envs to w ?v" using tl_ends[of w i ms_to_ns envs to] at AtTicker assms(2) by (simp add: closable_def)
    have "closable (set_pc i Ended w)" "trace_left (set_pc i Ended w) < trace_left w" using move[of Ended] i AtTicker by (auto simp: may_send_def)
    then have "closable ?v" "trace_left ?v < trace_left w" by (simp_all add: closable_def pending_def room_def trace_left_def)
    with step show ?thesis by blast
  qed (use i in simp)
qed

lemma closable_drains:
  assumes "trace_inv to w" "closable w" "env \<in> envs"
  shows "\<exists>w'. (trace_step ms_to_ns envs to)\<^sup>*\<^sup>* w w' \<and> closable w' \<and> trace_inv to w' \<and> trace_left w' = 0"
  using assms(1,2)
proof (induction "trace_left w" arbitrary: w rule: less_induct)
  case less
  show ?case
  proof (cases "trace_left w = 0")
    case False
    then obtain v where v: "trace_step ms_to_ns envs to w v" "closable v" "trace_left v < trace_left w"
      using closable_step[OF less.prems assms(3), of ms_to_ns] by blast
    with less.hyps[OF v(3)] trace_inv_step[OF v(1) less.prems(1)] show ?thesis by (blast intro: converse_rtranclp_into_rtranclp)
  qed (use less.prems in blast)
qed

lemma closable_closes:
  assumes "trace_inv to w" "closable w" "trace_left w = 0"
  shows "\<exists>w'. (trace_step ms_to_ns envs to)\<^sup>*\<^sup>* w w' \<and> tl_close w' = CloseReturned"
proof -
  have "\<forall>th \<in> set (tl_threads w). \<not> unfinished th"
  proof
    fix th assume "th \<in> set (tl_threads w)"
    then have "thread_rank th = 0" using assms(3) by (simp add: trace_left_def)
    then show "\<not> unfinished th" by (cases "tt_pc th") (auto simp: thread_rank_def unfinished_def split: if_splits)
  qed
  then have wg: "tl_wg w = 0" using assms(1) by (simp add: trace_inv_def filter_empty_conv)
  have closes: "\<exists>w'. trace_step ms_to_ns envs to v w' \<and> tl_close w' = CloseReturned" if "tl_close v = CloseWaiting" "tl_panic v = None" "tl_wg v = 0" "\<not> ch_closed (results v)" for v
    using tl_closes[OF that(2,1,3)] that(4) by (fastforce simp: Tracer_Close_def chan_close_def)
  have p: "tl_panic w = None" "tl_cancelled w" "\<not> ch_closed (results w)" using assms(1,2) by (auto simp: closable_def trace_inv_def)
  show ?thesis
  proof (cases "tl_close w")
    case CloseNotCalled
    let ?v = "w\<lparr>tl_close := CloseWaiting\<rparr>"
    have "trace_step ms_to_ns envs to w ?v" using tl_close_called[OF p(1) CloseNotCalled p(2)] .
    with closes[of ?v] p wg show ?thesis by (simp, blast intro: converse_rtranclp_into_rtranclp)
  next
    case CloseWaiting
    with closes[of w] p wg show ?thesis by blast
  next
    case CloseReturned
    then show ?thesis by blast
  qed
qed


subsection \<open>Close\<close>

text \<open>C33: Close of the path tracer. In whatever order the tracing goroutines, the handler and the stopping
  agent move: when Close has returned, every periodic trace has ended; and as long as timeouts
  start no traces, nothing ever sends on the closed channel. Close can return from every state
  in which the channel has room for the traces that may still send. It cannot, in any
  continuation, once the handler has ended and more periodic traces wait to send than there
  is room for.\<close>

theorem tracer_Close_returns:
  assumes "(trace_step ms_to_ns envs on_timeout)\<^sup>*\<^sup>* (traces_started fts) w"
  shows "(tl_close w = CloseReturned \<longrightarrow> (\<forall>th \<in> set (tl_threads w). tt_periodic th \<longrightarrow> tt_pc th = Ended))
    \<and> (\<not> on_timeout \<longrightarrow> tl_panic w = None)
    \<and> (tl_panic w = None \<and> envs \<noteq> {} \<and> pending w \<le> room w \<longrightarrow> (\<exists>w'. (trace_step ms_to_ns envs on_timeout)\<^sup>*\<^sup>* w w' \<and> tl_close w' = CloseReturned))
    \<and> (jammed w \<longrightarrow> (\<forall>w'. (trace_step ms_to_ns envs on_timeout)\<^sup>*\<^sup>* w w' \<longrightarrow> tl_close w' \<noteq> CloseReturned))"
proof (intro conjI impI allI)
  have inv: "trace_inv on_timeout w" using trace_inv_steps[OF assms trace_inv_start] .
  show "\<forall>th \<in> set (tl_threads w). tt_periodic th \<longrightarrow> tt_pc th = Ended" if "tl_close w = CloseReturned"
    using inv that by (auto simp: trace_inv_def filter_empty_conv unfinished_def)
  show "tl_panic w = None" if "\<not> on_timeout" using inv that by (simp add: trace_inv_def)
  show "tl_close w' \<noteq> CloseReturned" if "jammed w" "(trace_step ms_to_ns envs on_timeout)\<^sup>*\<^sup>* w w'" for w'
    using jammed_steps[OF that(2) inv that(1)] jammed_open by blast
  show "\<exists>w'. (trace_step ms_to_ns envs on_timeout)\<^sup>*\<^sup>* w w' \<and> tl_close w' = CloseReturned"
    if h: "tl_panic w = None \<and> envs \<noteq> {} \<and> pending w \<le> room w"
  proof (cases "tl_close w = CloseReturned")
    case False
    obtain env where env: "env \<in> envs" using h by blast
    let ?v = "w\<lparr>tl_cancelled := True\<rparr>"
    have s: "(trace_step ms_to_ns envs on_timeout)\<^sup>*\<^sup>* w ?v"     proof (cases "tl_cancelled w")
      case True
      then have "?v = w" by (cases w) simp
      then show ?thesis by simp
    next
      case False
      with tl_cancel[of w ms_to_ns envs on_timeout] h show ?thesis by simp
    qed
    have "closable ?v" using h False by (simp add: closable_def pending_def room_def)
    from closable_drains[OF trace_inv_steps[OF s inv] this env] closable_closes s show ?thesis by (meson rtranclp_trans)
  qed blast
qed

lemma channel_fills:
  assumes "env \<in> envs" "trace_result ms_to_ns env ft = Inr info" "n \<le> 100"
  shows "\<exists>w. (trace_step ms_to_ns envs to)\<^sup>*\<^sup>* (traces_started (ft # fts)) w \<and> at_pc w 0 Tracing \<and> tt_periodic (tl_threads w ! 0) \<and> tt_tuple (tl_threads w ! 0) = ft
    \<and> length (ch_buf (results w)) = n \<and> ch_cap (results w) = 100 \<and> \<not> ch_closed (results w) \<and> tl_handler w \<and> \<not> tl_cancelled w"
  using assms(3)
proof (induction n)
  case 0
  let ?w = "traces_started (ft # fts)"
  have "trace_step ms_to_ns envs to ?w (set_pc 0 Tracing ?w)" by (rule tl_begin) (simp add: at_pc_def traces_started_def)
  then show ?case by (intro exI[of _ "set_pc 0 Tracing ?w"]) (simp add: at_pc_def traces_started_def NewTracer_def chan_make_def r_into_rtranclp)
next
  case (Suc n)
  then obtain w where w: "(trace_step ms_to_ns envs to)\<^sup>*\<^sup>* (traces_started (ft # fts)) w" "at_pc w 0 Tracing" "tt_periodic (tl_threads w ! 0)" "tt_tuple (tl_threads w ! 0) = ft"
    "length (ch_buf (results w)) = n" "ch_cap (results w) = 100" "\<not> ch_closed (results w)" "tl_handler w" "\<not> tl_cancelled w" by auto
  let ?w1 = "set_pc 0 (Sending info) w"
  let ?w2 = "set_pc 0 AtTicker (set_buf (ch_buf (results ?w1) @ [info]) ?w1)"
  have "trace_step ms_to_ns envs to w ?w1" using tl_traced[OF w(2) assms(1)] assms(2) w(4) by simp
  moreover have "trace_step ms_to_ns envs to ?w1 ?w2"
    using tl_sent[of ?w1 0 info ms_to_ns envs to] w Suc.prems by (simp add: at_pc_def after_trace_def)
  moreover have "trace_step ms_to_ns envs to ?w2 (set_pc 0 Tracing ?w2)" by (rule tl_tick) (use w(2) in \<open>simp add: at_pc_def\<close>)
  ultimately have "(trace_step ms_to_ns envs to)\<^sup>*\<^sup>* (traces_started (ft # fts)) (set_pc 0 Tracing ?w2)"
    using w(1) by (meson rtranclp.rtrancl_into_rtrancl)
  then show ?case using w by (intro exI[of _ "set_pc 0 Tracing ?w2"]) (simp add: at_pc_def)
qed

text \<open>C34: two hazards of that shutdown, as soon as some trace can succeed. With a periodic trace there is a
  run that ends with a full channel, the handler gone and the trace waiting to send: Close
  hangs. And an agent that traces on timeouts only has a run in which Close does not wait for
  such a trace, which then sends on the closed channel and panics.\<close>

theorem tracer_Close_hazards:
  assumes "env \<in> envs" "trace_result ms_to_ns env ft = Inr info"
  shows "(\<exists>w. (trace_step ms_to_ns envs on_timeout)\<^sup>*\<^sup>* (traces_started (ft # fts)) w \<and> jammed w)
    \<and> (\<exists>w. (trace_step ms_to_ns envs True)\<^sup>*\<^sup>* (traces_started []) w \<and> tl_close w = CloseReturned \<and> tl_panic w = Some ''send on closed channel'')"
proof
  from channel_fills[OF assms, of 100 on_timeout fts] obtain w where w: "(trace_step ms_to_ns envs on_timeout)\<^sup>*\<^sup>* (traces_started (ft # fts)) w" "at_pc w 0 Tracing"
    "tt_periodic (tl_threads w ! 0)" "tt_tuple (tl_threads w ! 0) = ft" "length (ch_buf (results w)) = 100" "ch_cap (results w) = 100" "tl_handler w" "\<not> tl_cancelled w" by auto
  let ?w1 = "set_pc 0 (Sending info) w"
  let ?w2 = "?w1\<lparr>tl_cancelled := True\<rparr>"
  let ?w3 = "?w2\<lparr>tl_handler := False\<rparr>"
  have p: "tl_panic w = None" "0 < length (tl_threads w)" using w(2) by (simp_all add: at_pc_def)
  have "trace_step ms_to_ns envs on_timeout w ?w1" using tl_traced[OF w(2) assms(1)] assms(2) w(4) by simp
  moreover have "trace_step ms_to_ns envs on_timeout ?w1 ?w2" by (rule tl_cancel) (simp_all add: p w(8))
  moreover have "trace_step ms_to_ns envs on_timeout ?w2 ?w3" by (rule tl_handler_ends) (simp_all add: p w(7))
  ultimately have r: "(trace_step ms_to_ns envs on_timeout)\<^sup>*\<^sup>* (traces_started (ft # fts)) ?w3" using w(1) by (meson rtranclp.rtrancl_into_rtrancl)
  have "sends (tl_threads ?w3 ! 0)" "0 < length (tl_threads ?w3)" using p w(3) by (simp_all add: sends_def)
  then have "filter sends (tl_threads ?w3) \<noteq> []" unfolding filter_empty_conv by (meson nth_mem)
  then have "jammed ?w3" using w(5,6) unfolding jammed_def blocked_def room_def by simp
  with r show "\<exists>w. (trace_step ms_to_ns envs on_timeout)\<^sup>*\<^sup>* (traces_started (ft # fts)) w \<and> jammed w" by blast
next
  let ?R = "trace_step ms_to_ns envs True"
  let ?w0 = "traces_started []"
  let ?w1 = "?w0\<lparr>tl_threads := tl_threads ?w0 @ [\<lparr>tt_periodic = False, tt_tuple = ft, tt_pc = Tracing\<rparr>]\<rparr>"
  let ?w2 = "set_pc 0 (Sending info) ?w1"
  let ?w3 = "?w2\<lparr>tl_cancelled := True\<rparr>"
  let ?w4 = "?w3\<lparr>tl_close := CloseWaiting\<rparr>"
  let ?t = "(tl_t ?w4)\<lparr>tr_traceResults := (results ?w4)\<lparr>ch_closed := True\<rparr>\<rparr>"
  let ?w5 = "?w4\<lparr>tl_close := CloseReturned, tl_t := ?t\<rparr>"
  let ?w6 = "?w5\<lparr>tl_panic := Some ''send on closed channel''\<rparr>"
  have s: "tl_panic ?w0 = None" "tl_threads ?w0 = []" "tl_wg ?w0 = 0" "tl_handler ?w0" "tl_close ?w0 = CloseNotCalled" "\<not> tl_cancelled ?w0" "\<not> ch_closed (results ?w0)"
    by (simp_all add: traces_started_def NewTracer_def chan_make_def)
  have "?R ?w0 ?w1" by (rule tl_timeout) (simp_all add: s)
  moreover have "?R ?w1 ?w2" using tl_traced[of ?w1 0 env envs ms_to_ns info True] assms s by (simp add: at_pc_def)
  moreover have "?R ?w2 ?w3" by (rule tl_cancel) (simp_all add: s)
  moreover have "?R ?w3 ?w4" by (rule tl_close_called) (simp_all add: s)
  moreover have "?R ?w4 ?w5" by (rule tl_closes) (simp_all add: s Tracer_Close_def chan_close_def)
  moreover have "?R ?w5 ?w6" by (rule tl_send_panics[of _ 0 info]) (simp_all add: s at_pc_def)
  ultimately have "?R\<^sup>*\<^sup>* ?w0 ?w6" by (meson converse_rtranclp_into_rtranclp rtranclp.rtrancl_refl)
  then show "\<exists>w. ?R\<^sup>*\<^sup>* ?w0 w \<and> tl_close w = CloseReturned \<and> tl_panic w = Some ''send on closed channel''" by (intro exI[of _ ?w6]) simp
qed

definition sample_trace_env :: trace_env where
  "sample_trace_env = (1700000000, \<lambda>_. CmdOk '''', \<lambda>_. CmdError ''not found'')"


definition sample_traced :: ProbeFiveTuple where
  "sample_traced = periodic_tuple ''fe80::1'' ''127.0.0.1''"

lemma sample_trace_result:
  "trace_result (\<lambda>_. None) sample_trace_env sample_traced = Inr \<lparr>pi_FiveTuple = sample_traced, pi_Hops = [], pi_Timestamp = 1700000000\<rparr>"
proof -
  have "trace_target ''127.0.0.1'' = Inr ''127.0.0.1''" by code_simp
  moreover have "parseTracerouteOutput (\<lambda>_. None) '''' = Inr []" by code_simp
  ultimately show ?thesis by (simp add: trace_result_def sample_trace_env_def sample_traced_def periodic_tuple_def runTraceroute_def)
qed

theorem tracer_Close_returns_witness:
  "\<exists>w. (trace_step (\<lambda>_. None) {sample_trace_env} False)\<^sup>*\<^sup>* (traces_started [sample_traced]) w \<and> tl_close w = CloseReturned"
proof -
  have "pending (traces_started [sample_traced]) \<le> room (traces_started [sample_traced])" "tl_panic (traces_started [sample_traced]) = None"
    by (simp_all add: pending_def room_def traces_started_def NewTracer_def chan_make_def)
  with tracer_Close_returns[of "\<lambda>_. None" "{sample_trace_env}" False "[sample_traced]" "traces_started [sample_traced]"] show ?thesis by blast
qed

theorem tracer_Close_hazards_witness:
  "\<exists>w. (trace_step (\<lambda>_. None) {sample_trace_env} True)\<^sup>*\<^sup>* (traces_started []) w \<and> tl_panic w = Some ''send on closed channel''"
  using tracer_Close_hazards[OF _ sample_trace_result, of "{sample_trace_env}" False "[]"] by blast

end
