(* ===== verification/Config.thy ===== *)
theory Config
  imports Go_Strings
begin

text \<open>
  Configuration and the main programs (internal/config and cmd): the flags each program
  declares, how a configuration is loaded and written, and what main does with it. The
  libraries viper and pflag are parameters: what the code has told viper is a record, and
  what the documentation of the two says is stated in \<^verbatim>\<open>viper_documented\<close> and
  \<^verbatim>\<open>pflag_documented\<close>.
\<close>

subsection \<open>Flags\<close>

datatype cval = CStr string | CInt int | CBool bool | CList "string list"

type_synonym settings = "(string \<times> cval) list"

text \<open>Declaring a flag on a flag set, with its default.\<close>

type_synonym add_flag = "settings \<Rightarrow> string \<times> cval \<Rightarrow> settings go"

text \<open>Declaring a name twice panics.\<close>

definition pflag_documented :: "add_flag \<Rightarrow> bool" where
  "pflag_documented add \<longleftrightarrow> (\<forall>fs k v. if k \<in> fst ` set fs then (\<exists>m. add fs (k, v) = Panic m) else add fs (k, v) = Ret (fs @ [(k, v)]))"

fun declare_flags :: "add_flag \<Rightarrow> settings \<Rightarrow> settings \<Rightarrow> settings go" where
  "declare_flags add fs [] = Ret fs"
| "declare_flags add fs (f # rest) = go_bind (add fs f) (\<lambda>fs1. declare_flags add fs1 rest)"

definition DefaultTargetProbeRatePerSecond :: int where "DefaultTargetProbeRatePerSecond = 10"

definition agent_flags :: settings where
  "agent_flags =
     [(''config'', CStr ''''), (''create-config'', CBool False), (''config-output'', CStr ''agent.yaml''), (''version'', CBool False),
      (''agent-id'', CStr ''''), (''controller-addr'', CStr ''localhost:50051''), (''analyzer-addr'', CStr ''localhost:50052''),
      (''log-level'', CStr ''info''), (''probe-interval-ms'', CInt 500), (''data-upload-interval-ms'', CInt 10000),
      (''traceroute-interval-ms'', CInt 300000), (''traceroute-on-timeout'', CBool True), (''ebpf-enabled'', CBool True),
      (''service-flow-monitor-enabled'', CBool True), (''otel-collector-addr'', CStr ''grpc://localhost:4317''),
      (''metrics-enabled'', CBool True), (''analyzer-enabled'', CBool False), (''tracer-enabled'', CBool False),
      (''allowed-device-names'', CList []), (''gid-index'', CInt 0), (''pinglist-update-interval-sec'', CInt 300),
      (''target-probe-rate-per-second'', CInt DefaultTargetProbeRatePerSecond)]"

definition SetupAgentFlags :: "add_flag \<Rightarrow> settings \<Rightarrow> settings go" where
  "SetupAgentFlags add fs = declare_flags add fs agent_flags"

definition controller_flags :: settings where
  "controller_flags =
     [(''config'', CStr ''''), (''create-config'', CBool False), (''config-output'', CStr ''controller.yaml''), (''version'', CBool False),
      (''listen-addr'', CStr ''0.0.0.0:50051''), (''database-uri'', CStr ''http://localhost:4001''), (''log-level'', CStr ''info'')]"

definition SetupControllerFlags :: "add_flag \<Rightarrow> settings \<Rightarrow> settings go" where
  "SetupControllerFlags add fs = declare_flags add fs controller_flags"

definition analyzer_flags :: settings where
  "analyzer_flags =
     [(''config'', CStr ''''), (''create-config'', CBool False), (''config-output'', CStr ''analyzer.yaml''), (''version'', CBool False),
      (''listen-addr'', CStr ''0.0.0.0:50052''), (''database-uri'', CStr ''http://localhost:4001''), (''log-level'', CStr ''info'')]"

definition SetupAnalyzerFlags :: "add_flag \<Rightarrow> settings \<Rightarrow> settings go" where
  "SetupAnalyzerFlags add fs = declare_flags add fs analyzer_flags"

subsection \<open>Viper\<close>

text \<open>Outside: the flags given on the command line, the environment, the files at given paths and the
  file found by a search for a name.\<close>

datatype file_read = FileText string | FileMissing string | FileBad string

record outside =
  os_changed :: settings
  os_environ :: "string \<Rightarrow> string option"
  os_files :: "string \<Rightarrow> file_read"
  os_search :: "string \<Rightarrow> file_read"

text \<open>What the code has told a viper instance. The configuration is a file at a path or the one found
  under a name in the search path.\<close>

datatype config_source = NoConfig | ConfigFile string | ConfigName string

record viper =
  vi_defaults :: settings
  vi_auto :: bool
  vi_prefix :: string
  vi_replacer :: "(char \<times> char) list"
  vi_flags :: settings
  vi_source :: config_source
  vi_file :: settings

definition viper_New :: viper where
  "viper_New = \<lparr>vi_defaults = [], vi_auto = False, vi_prefix = '''', vi_replacer = [], vi_flags = [], vi_source = NoConfig, vi_file = []\<rparr>"

definition lower_letter :: "char \<Rightarrow> bool" where
  "lower_letter c \<longleftrightarrow> 97 \<le> (of_char c :: nat) \<and> (of_char c :: nat) \<le> 122"

definition upper_char :: "char \<Rightarrow> char" where
  "upper_char c = (if lower_letter c then char_of (of_char c - 32 :: nat) else c)"

definition env_name :: "viper \<Rightarrow> string \<Rightarrow> string" where
  "env_name v k = map (\<lambda>c. case map_of (vi_replacer v) c of None \<Rightarrow> c | Some d \<Rightarrow> d) (map upper_char (vi_prefix v @ ''_'' @ k))"

text \<open>The documented order: a flag that was given, the environment if AutomaticEnv was called (an
  empty variable counts as unset), the configuration file, a default, the default of a bound flag.\<close>

definition effective :: "outside \<Rightarrow> viper \<Rightarrow> string \<Rightarrow> cval option" where
  "effective os v k =
     (case (if k \<in> fst ` set (vi_flags v) then map_of (os_changed os) k else None) of
        Some x \<Rightarrow> Some x
      | None \<Rightarrow>
        (case (if vi_auto v then os_environ os (env_name v k) else None) of
           Some s \<Rightarrow> if s \<noteq> '''' then Some (CStr s) else (map_of (vi_flags v) ++ map_of (vi_defaults v) ++ map_of (vi_file v)) k
         | None \<Rightarrow> (map_of (vi_flags v) ++ map_of (vi_defaults v) ++ map_of (vi_file v)) k))"

text \<open>Flat YAML: comments, and lines of a key and a quoted value with an optional comment, in printable
  ASCII, no key twice. A key is a name of lower-case letters, dashes and underscores.\<close>

definition plain_key :: "string \<Rightarrow> bool" where
  "plain_key k \<longleftrightarrow> (case k of [] \<Rightarrow> False | c # cs \<Rightarrow> lower_letter c \<and> list_all (\<lambda>d. lower_letter d \<or> d \<in> set ''-_'') cs) \<and> length k < 1000 \<and> k \<noteq> ''null''"

definition flat_value :: "string \<Rightarrow> string option" where
  "flat_value s =
     (case s of
        c # rest \<Rightarrow>
          if c = CHR 0x22 \<and> CHR 0x22 \<in> set rest \<and> CHR 0x5C \<notin> set rest
             \<and> (let after = drop 1 (dropWhile (\<lambda>d. d \<noteq> CHR 0x22) rest) in after = '''' \<or> take 2 after = '' #'')
          then Some (takeWhile (\<lambda>d. d \<noteq> CHR 0x22) rest) else None
      | [] \<Rightarrow> None)"

fun flat_lines :: "string list \<Rightarrow> settings option" where
  "flat_lines [] = Some []"
| "flat_lines (l # ls) =
     (if l = '''' \<or> take 1 l = ''#'' then flat_lines ls
      else let k = takeWhile (\<lambda>c. c \<noteq> CHR '':'') l; rest = drop (length k) l in
        if \<not> plain_key k \<or> take 2 rest \<noteq> '': '' then None
        else case (flat_value (drop 2 rest), flat_lines ls) of
          (Some x, Some kv) \<Rightarrow> Some ((k, CStr x) # kv)
        | _ \<Rightarrow> None)"

definition printable :: "char \<Rightarrow> bool" where
  "printable c \<longleftrightarrow> 32 \<le> (of_char c :: nat) \<and> (of_char c :: nat) \<le> 126 \<or> c = newline"

definition flat_yaml :: "string \<Rightarrow> settings option" where
  "flat_yaml text =
     (if list_all printable text then
        (case flat_lines (split_lines text) of
           Some kv \<Rightarrow> if distinct (map fst kv) then Some kv else None
         | None \<Rightarrow> None)
      else None)"

text \<open>The extension of a path (filepath.Ext), from which viper takes the format of a file that is
  named by its path: the extensions it knows, and those of YAML.\<close>

definition file_ext :: "string \<Rightarrow> string" where
  "file_ext p =
     (let back = takeWhile (\<lambda>c. c \<noteq> CHR ''.'' \<and> c \<noteq> CHR ''/'') (rev p) in
      case drop (length back) (rev p) of
        c # _ \<Rightarrow> if c = CHR ''.'' then c # rev back else ''''
      | [] \<Rightarrow> '''')"

definition supported_path :: "string \<Rightarrow> bool" where
  "supported_path p \<longleftrightarrow> file_ext p \<in> set [''.json'', ''.toml'', ''.yaml'', ''.yml'', ''.properties'', ''.props'', ''.prop'', ''.hcl'', ''.tfvars'', ''.dotenv'', ''.env'', ''.ini'']"

definition yaml_path :: "string \<Rightarrow> bool" where
  "yaml_path p \<longleftrightarrow> file_ext p \<in> set [''.yaml'', ''.yml''] \<and> p \<noteq> file_ext p"

lemma yaml_supported: "yaml_path p \<Longrightarrow> supported_path p"
  by (auto simp: yaml_path_def supported_path_def)

text \<open>The errors of ReadInConfig that the code tells apart: the file does not exist, the search found
  none, anything else.\<close>

datatype read_err = NotExist string | NotFound string | OtherErr string

record viper_lib =
  vl_read :: "outside \<Rightarrow> viper \<Rightarrow> read_err + settings"
  vl_string :: "outside \<Rightarrow> viper \<Rightarrow> string \<Rightarrow> string"
  vl_u32 :: "outside \<Rightarrow> viper \<Rightarrow> string \<Rightarrow> u32"
  vl_int :: "outside \<Rightarrow> viper \<Rightarrow> string \<Rightarrow> int"
  vl_bool :: "outside \<Rightarrow> viper \<Rightarrow> string \<Rightarrow> bool"
  vl_slice :: "outside \<Rightarrow> viper \<Rightarrow> string \<Rightarrow> string list"
  vl_write :: "string \<Rightarrow> settings \<Rightarrow> string"

text \<open>The file that a read gets to, if it gets to one.\<close>

definition source_file :: "outside \<Rightarrow> viper \<Rightarrow> file_read option" where
  "source_file os v = (case vi_source v of NoConfig \<Rightarrow> None | ConfigFile p \<Rightarrow> if supported_path p then Some (os_files os p) else None | ConfigName n \<Rightarrow> Some (os_search os n))"

text \<open>ReadInConfig looks at the extension of a path first: one it does not know is an error, whether the
  file exists or not. A file found under a name is read as YAML, which is the type the code sets
  before every such search.\<close>

definition reads_documented :: "viper_lib \<Rightarrow> bool" where
  "reads_documented L \<longleftrightarrow> (\<forall>os v.
     (\<forall>p text kv. vi_source v = ConfigFile p \<and> yaml_path p \<and> os_files os p = FileText text \<and> flat_yaml text = Some kv \<longrightarrow> vl_read L os v = Inr kv)
   \<and> (\<forall>p e. vi_source v = ConfigFile p \<and> supported_path p \<and> os_files os p = FileMissing e \<longrightarrow> vl_read L os v = Inl (NotExist e))
   \<and> (\<forall>p e. vi_source v = ConfigFile p \<and> supported_path p \<and> os_files os p = FileBad e \<longrightarrow> vl_read L os v = Inl (OtherErr e))
   \<and> (\<forall>p. vi_source v = ConfigFile p \<and> \<not> supported_path p \<longrightarrow> (\<exists>e. vl_read L os v = Inl (OtherErr e)))
   \<and> (\<forall>n text kv. vi_source v = ConfigName n \<and> os_search os n = FileText text \<and> flat_yaml text = Some kv \<longrightarrow> vl_read L os v = Inr kv)
   \<and> (\<forall>n e. vi_source v = ConfigName n \<and> os_search os n = FileMissing e \<longrightarrow> vl_read L os v = Inl (NotFound e))
   \<and> (\<forall>n e. vi_source v = ConfigName n \<and> os_search os n = FileBad e \<longrightarrow> vl_read L os v = Inl (OtherErr e)))"

text \<open>Viper does not tell keys apart by case and splits them at dots. What it answers is stated for
  lower-case keys without dots, which all keys of the programs are, on an instance that knows
  no others.\<close>

definition plain_keys :: "viper \<Rightarrow> bool" where
  "plain_keys v \<longleftrightarrow> list_all plain_key (map fst (vi_flags v)) \<and> list_all plain_key (map fst (vi_defaults v)) \<and> list_all plain_key (map fst (vi_file v))"

definition gets_documented :: "viper_lib \<Rightarrow> bool" where
  "gets_documented L \<longleftrightarrow> (\<forall>os v k. plain_keys v \<and> plain_key k \<longrightarrow>
     (\<forall>s. effective os v k = Some (CStr s) \<longrightarrow> vl_string L os v k = s)
   \<and> (\<forall>i. effective os v k = Some (CInt i) \<and> 0 \<le> i \<and> i < 2 ^ 32 \<longrightarrow> vl_u32 L os v k = of_int i)
   \<and> (\<forall>i. effective os v k = Some (CInt i) \<and> - (2 ^ 63) \<le> i \<and> i < 2 ^ 63 \<longrightarrow> vl_int L os v k = i)
   \<and> (\<forall>b. effective os v k = Some (CBool b) \<longrightarrow> vl_bool L os v k = b)
   \<and> (\<forall>xs. effective os v k = Some (CList xs) \<longrightarrow> vl_slice L os v k = xs)
   \<and> (effective os v k = None \<longrightarrow> vl_string L os v k = ''''))"

definition viper_documented :: "viper_lib \<Rightarrow> bool" where
  "viper_documented L \<longleftrightarrow> reads_documented L \<and> gets_documented L"

text \<open>Settings written to the path of a YAML file are read back from there. The format in which they
  are written follows the path.\<close>

definition writes_documented :: "viper_lib \<Rightarrow> settings \<Rightarrow> bool" where
  "writes_documented L kv \<longleftrightarrow> (\<forall>os v p. vi_source v = ConfigFile p \<and> yaml_path p \<and> os_files os p = FileText (vl_write L p kv) \<longrightarrow>
     (\<exists>kv'. vl_read L os v = Inr kv' \<and> map_of kv' = map_of kv))"

subsection \<open>Agent configuration\<close>

record AgentConfig =
  cf_AgentID :: string
  cf_HostName :: string
  cf_ControllerAddr :: string
  cf_AnalyzerAddr :: string
  cf_LogLevel :: string
  cf_ProbeIntervalMS :: u32
  cf_DataUploadIntervalMS :: u32
  cf_TracerouteIntervalMS :: u32
  cf_TracerouteOnTimeout :: bool
  cf_EBPFEnabled :: bool
  cf_ServiceFlowMonitorEnabled :: bool
  cf_OtelCollectorAddr :: string
  cf_MetricsEnabled :: bool
  cf_AnalyzerEnabled :: bool
  cf_TracerEnabled :: bool
  cf_AllowedDeviceNames :: "string list"
  cf_GIDIndex :: int
  cf_PinglistUpdateIntervalSec :: u32
  cf_TargetProbeRatePerSecond :: int

text \<open>ReadInConfig on an instance, keeping what it has read.\<close>

definition ReadInConfig :: "viper_lib \<Rightarrow> outside \<Rightarrow> viper \<Rightarrow> read_err option \<times> viper" where
  "ReadInConfig L os v = (case vl_read L os v of Inl e \<Rightarrow> (Some e, v) | Inr kv \<Rightarrow> (None, v\<lparr>vi_file := kv\<rparr>))"

fun err_text :: "read_err \<Rightarrow> string" where
  "err_text (NotExist e) = e" | "err_text (NotFound e) = e" | "err_text (OtherErr e) = e"

definition is_not_exist :: "read_err \<Rightarrow> bool" where
  "is_not_exist e = (case e of NotExist _ \<Rightarrow> True | _ \<Rightarrow> False)"

definition is_not_found :: "read_err \<Rightarrow> bool" where
  "is_not_found e = (case e of NotFound _ \<Rightarrow> True | _ \<Rightarrow> False)"

definition agent_viper :: "settings \<Rightarrow> viper" where
  "agent_viper flagSet = viper_New\<lparr>vi_auto := True, vi_prefix := ''RPINGMESH'', vi_replacer := [(CHR ''-'', CHR ''_'')], vi_flags := flagSet\<rparr>"

definition read_agent_file :: "viper_lib \<Rightarrow> outside \<Rightarrow> viper \<Rightarrow> viper res" where
  "read_agent_file L os v =
     (let configFile = vl_string L os v ''config'' in
      if configFile \<noteq> '''' then
        (let v1 = v\<lparr>vi_source := ConfigFile configFile\<rparr> in
         case ReadInConfig L os v1 of
           (Some err, v2) \<Rightarrow>
             if \<not> is_not_exist err \<or> configFile \<noteq> vl_string L os v2 ''config'' then Inl (''failed to read config file: '' @ err_text err) else Inr v2
         | (None, v2) \<Rightarrow> Inr v2)
      else Inr v)"

definition agent_config_of :: "viper_lib \<Rightarrow> outside \<Rightarrow> viper \<Rightarrow> string \<Rightarrow> AgentConfig" where
  "agent_config_of L os v osHostName =
     (let agentID = vl_string L os v ''agent-id'' in
      \<lparr>cf_AgentID = if agentID = '''' then osHostName else agentID, cf_HostName = osHostName,
       cf_ControllerAddr = vl_string L os v ''controller-addr'', cf_AnalyzerAddr = vl_string L os v ''analyzer-addr'',
       cf_LogLevel = vl_string L os v ''log-level'', cf_ProbeIntervalMS = vl_u32 L os v ''probe-interval-ms'',
       cf_DataUploadIntervalMS = vl_u32 L os v ''data-upload-interval-ms'', cf_TracerouteIntervalMS = vl_u32 L os v ''traceroute-interval-ms'',
       cf_TracerouteOnTimeout = vl_bool L os v ''traceroute-on-timeout'', cf_EBPFEnabled = vl_bool L os v ''ebpf-enabled'',
       cf_ServiceFlowMonitorEnabled = vl_bool L os v ''service-flow-monitor-enabled'', cf_OtelCollectorAddr = vl_string L os v ''otel-collector-addr'',
       cf_MetricsEnabled = vl_bool L os v ''metrics-enabled'', cf_AnalyzerEnabled = vl_bool L os v ''analyzer-enabled'',
       cf_TracerEnabled = vl_bool L os v ''tracer-enabled'', cf_AllowedDeviceNames = vl_slice L os v ''allowed-device-names'',
       cf_GIDIndex = vl_int L os v ''gid-index'', cf_PinglistUpdateIntervalSec = vl_u32 L os v ''pinglist-update-interval-sec'',
       cf_TargetProbeRatePerSecond = vl_int L os v ''target-probe-rate-per-second''\<rparr>)"

text \<open>The errors of binding the flags and of asking for the host name are given.\<close>

definition LoadAgentConfig :: "viper_lib \<Rightarrow> outside \<Rightarrow> string option \<Rightarrow> string res \<Rightarrow> settings \<Rightarrow> AgentConfig res" where
  "LoadAgentConfig L os bind_err hostname flagSet =
     (case bind_err of
        Some e \<Rightarrow> Inl (''failed to bind flags: '' @ e)
      | None \<Rightarrow>
        (case read_agent_file L os (agent_viper flagSet) of
           Inl e \<Rightarrow> Inl e
         | Inr v \<Rightarrow>
           (case hostname of
              Inl e \<Rightarrow> Inl (''failed to get OS hostname: '' @ e)
            | Inr osHostName \<Rightarrow>
              let config = agent_config_of L os v osHostName in
              if cf_GIDIndex config < 0 then Inl (''gid-index must be greater than or equal to 0, got: '' @ dec_int (cf_GIDIndex config))
              else Inr config)))"

definition default_agent_settings :: settings where
  "default_agent_settings =
     [(''agent-id'', CStr ''''), (''controller-addr'', CStr ''localhost:50051''), (''analyzer-addr'', CStr ''localhost:50052''),
      (''log-level'', CStr ''info''), (''probe-interval-ms'', CInt 10), (''target-probe-rate-per-second'', CInt DefaultTargetProbeRatePerSecond),
      (''data-upload-interval-ms'', CInt 10000), (''traceroute-interval-ms'', CInt 300000), (''traceroute-on-timeout'', CBool True),
      (''ebpf-enabled'', CBool True), (''service-flow-monitor-enabled'', CBool True), (''otel-collector-addr'', CStr ''grpc://localhost:4317''),
      (''metrics-enabled'', CBool True), (''analyzer-enabled'', CBool False), (''tracer-enabled'', CBool False),
      (''allowed-device-names'', CList []), (''gid-index'', CInt 0), (''pinglist-update-interval-sec'', CInt 300)]"

definition WriteDefaultConfig :: "viper_lib \<Rightarrow> string option \<Rightarrow> string \<Rightarrow> outside \<Rightarrow> unit res \<times> outside" where
  "WriteDefaultConfig L write_err path os =
     (case write_err of
        Some e \<Rightarrow> (Inl (''failed to write config file: '' @ e), os)
      | None \<Rightarrow> (Inr (), os\<lparr>os_files := (os_files os)(path := FileText (vl_write L path default_agent_settings))\<rparr>))"

subsection \<open>Controller and analyzer configuration\<close>

record ControllerConfig =
  ck_ListenAddr :: string
  ck_DatabaseURI :: string
  ck_LogLevel :: string

text \<open>LoadControllerConfig reads keys with underscores, LoadControllerConfigWithFlags keys with dashes.\<close>

definition LoadControllerConfig :: "viper_lib \<Rightarrow> outside \<Rightarrow> string \<Rightarrow> ControllerConfig res" where
  "LoadControllerConfig L os configPath =
     (let v = viper_New\<lparr>vi_defaults := [(''listen_addr'', CStr ''0.0.0.0:50051''), (''database_uri'', CStr ''http://localhost:4001''), (''log_level'', CStr ''info'')],
                vi_auto := True, vi_prefix := ''RPINGMESH_CONTROLLER'', vi_replacer := [(CHR ''.'', CHR ''_'')],
                vi_source := (if configPath \<noteq> '''' then ConfigFile configPath else ConfigName ''controller'')\<rparr>;
          (err, v1) = ReadInConfig L os v in
      case err of
        Some e \<Rightarrow>
          if \<not> is_not_found e then Inl (''error reading config file: '' @ err_text e)
          else Inr \<lparr>ck_ListenAddr = vl_string L os v1 ''listen_addr'', ck_DatabaseURI = vl_string L os v1 ''database_uri'', ck_LogLevel = vl_string L os v1 ''log_level''\<rparr>
      | None \<Rightarrow> Inr \<lparr>ck_ListenAddr = vl_string L os v1 ''listen_addr'', ck_DatabaseURI = vl_string L os v1 ''database_uri'', ck_LogLevel = vl_string L os v1 ''log_level''\<rparr>)"

definition controller_viper :: "settings \<Rightarrow> viper" where
  "controller_viper flags = viper_New\<lparr>vi_defaults := [(''listen-addr'', CStr ''0.0.0.0:50051''), (''database-uri'', CStr ''http://localhost:4001''), (''log-level'', CStr ''info'')],
     vi_auto := True, vi_prefix := ''RPINGMESH_CONTROLLER'', vi_replacer := [(CHR ''-'', CHR ''_''), (CHR ''.'', CHR ''_'')], vi_flags := flags\<rparr>"

definition read_controller_file :: "viper_lib \<Rightarrow> outside \<Rightarrow> viper \<Rightarrow> viper res" where
  "read_controller_file L os v =
     (let configPath = vl_string L os v ''config'' in
      if configPath \<noteq> '''' then
        (case ReadInConfig L os (v\<lparr>vi_source := ConfigFile configPath\<rparr>) of
           (Some err, _) \<Rightarrow> Inl (''error reading config file: '' @ err_text err)
         | (None, v1) \<Rightarrow> Inr v1)
      else
        (case ReadInConfig L os (v\<lparr>vi_source := ConfigName ''controller''\<rparr>) of
           (Some err, v1) \<Rightarrow> if \<not> is_not_found err then Inl (''error reading config file: '' @ err_text err) else Inr v1
         | (None, v1) \<Rightarrow> Inr v1))"

definition LoadControllerConfigWithFlags :: "viper_lib \<Rightarrow> outside \<Rightarrow> settings \<Rightarrow> ControllerConfig res" where
  "LoadControllerConfigWithFlags L os flags =
     (case read_controller_file L os (controller_viper flags) of
        Inl e \<Rightarrow> Inl e
      | Inr v \<Rightarrow> Inr \<lparr>ck_ListenAddr = vl_string L os v ''listen-addr'', ck_DatabaseURI = vl_string L os v ''database-uri'', ck_LogLevel = vl_string L os v ''log-level''\<rparr>)"

text \<open>getSystemHostname, which no program calls: a name made of the process id when the host has none.\<close>

definition getSystemHostname :: "nat \<Rightarrow> string res \<Rightarrow> string" where
  "getSystemHostname pid hostname = (case hostname of Inl _ \<Rightarrow> ''agent-'' @ dec_string pid | Inr h \<Rightarrow> h)"

text \<open>createConfigDirectory and writeConfigFile: what the calls of the system report is given.\<close>

definition createConfigDirectory :: "bool \<Rightarrow> string option \<Rightarrow> string option" where
  "createConfigDirectory dir_missing mkdir_err =
     (if dir_missing then map_option (\<lambda>e. ''error creating config directory: '' @ e) mkdir_err else None)"

definition writeConfigFile :: "bool \<Rightarrow> string option \<Rightarrow> string option \<Rightarrow> string \<Rightarrow> string \<Rightarrow> outside \<Rightarrow> unit res \<times> outside" where
  "writeConfigFile dir_missing mkdir_err write_err path content os =
     (case createConfigDirectory dir_missing mkdir_err of
        Some e \<Rightarrow> (Inl e, os)
      | None \<Rightarrow> (case write_err of
            Some e \<Rightarrow> (Inl (''error writing config file: '' @ e), os)
          | None \<Rightarrow> (Inr (), os\<lparr>os_files := (os_files os)(path := FileText content)\<rparr>)))"

definition default_controller_text :: string where
  "default_controller_text =
     ''# RPingMesh Controller Configuration'' @ [newline]
     @ ''listen_addr: '' @ [CHR 0x22] @ ''0.0.0.0:50051'' @ [CHR 0x22, newline]
     @ ''database_uri: '' @ [CHR 0x22] @ ''http://localhost:4001'' @ [CHR 0x22, newline]
     @ ''log_level: '' @ [CHR 0x22] @ ''info'' @ [CHR 0x22] @ '' # debug, info, warn, error'' @ [newline]"

definition CreateDefaultControllerConfig :: "bool \<Rightarrow> string option \<Rightarrow> string option \<Rightarrow> string \<Rightarrow> outside \<Rightarrow> unit res \<times> outside" where
  "CreateDefaultControllerConfig dir_missing mkdir_err write_err path os =
     writeConfigFile dir_missing mkdir_err write_err path default_controller_text os"

record AnalyzerConfig =
  az_ListenAddr :: string
  az_DatabaseURI :: string
  az_LogLevel :: string

definition LoadAnalyzerConfig :: "viper_lib \<Rightarrow> outside \<Rightarrow> string option \<Rightarrow> settings \<Rightarrow> AnalyzerConfig res" where
  "LoadAnalyzerConfig L os bind_err flagSet =
     (let v = viper_New\<lparr>vi_auto := True, vi_prefix := ''RPINGMESH_ANALYZER'', vi_replacer := [(CHR ''-'', CHR ''_'')], vi_flags := flagSet\<rparr>;
          config = (\<lambda>v. \<lparr>az_ListenAddr = vl_string L os v ''listen-addr'', az_DatabaseURI = vl_string L os v ''database-uri'', az_LogLevel = vl_string L os v ''log-level''\<rparr>) in
      case bind_err of
        Some e \<Rightarrow> Inl (''failed to bind flags: '' @ e)
      | None \<Rightarrow>
        let configFile = vl_string L os v ''config'' in
        if configFile \<noteq> '''' then
          (case ReadInConfig L os (v\<lparr>vi_source := ConfigFile configFile\<rparr>) of
             (Some err, _) \<Rightarrow> Inl (''failed to read config file: '' @ err_text err)
           | (None, v1) \<Rightarrow> Inr (config v1))
        else Inr (config v))"

definition default_analyzer_settings :: settings where
  "default_analyzer_settings = [(''listen-addr'', CStr ''0.0.0.0:50052''), (''database-uri'', CStr ''http://localhost:4001''), (''log-level'', CStr ''info'')]"

definition CreateDefaultAnalyzerConfig :: "viper_lib \<Rightarrow> string option \<Rightarrow> string \<Rightarrow> outside \<Rightarrow> unit res \<times> outside" where
  "CreateDefaultAnalyzerConfig L write_err path os =
     (case write_err of
        Some e \<Rightarrow> (Inl (''failed to write config file: '' @ e), os)
      | None \<Rightarrow> (Inr (), os\<lparr>os_files := (os_files os)(path := FileText (vl_write L path default_analyzer_settings))\<rparr>))"


subsection \<open>What is loaded\<close>

lemma viper_gets:
  assumes "gets_documented L" "plain_keys v" "plain_key k"
  shows "effective os v k = Some (CStr s) \<Longrightarrow> vl_string L os v k = s"
    and "effective os v k = Some (CInt i) \<Longrightarrow> 0 \<le> i \<Longrightarrow> i < 2 ^ 32 \<Longrightarrow> vl_u32 L os v k = of_int i"
    and "effective os v k = Some (CInt i) \<Longrightarrow> - (2 ^ 63) \<le> i \<Longrightarrow> i < 2 ^ 63 \<Longrightarrow> vl_int L os v k = i"
    and "effective os v k = Some (CBool b) \<Longrightarrow> vl_bool L os v k = b"
    and "effective os v k = Some (CList xs) \<Longrightarrow> vl_slice L os v k = xs"
    and "effective os v k = None \<Longrightarrow> vl_string L os v k = ''''"
  using assms unfolding gets_documented_def by blast+

lemma program_keys:
  "list_all plain_key (map fst agent_flags)" "list_all plain_key (map fst default_agent_settings)"
  "list_all plain_key (map fst controller_flags)" "list_all plain_key (map fst analyzer_flags)"
  "list_all plain_key [''listen-addr'', ''database-uri'', ''log-level'', ''listen_addr'', ''database_uri'', ''log_level'']"
  by code_simp+

lemma plain_key_of_map:
  assumes "(map_of agent_flags ++ map_of kv) k = Some x" "list_all plain_key (map fst kv)"
  shows "plain_key k"
proof -
  have "k \<in> set (map fst agent_flags) \<union> set (map fst kv)" using assms(1) by (force simp: map_add_Some_iff dest: map_of_SomeD)
  then show ?thesis using assms(2) program_keys(1) by (auto simp only: list_all_iff)
qed

lemma plain_keys_same_map:
  assumes "map_of kv = map_of kv'" "list_all plain_key (map fst kv')"
  shows "list_all plain_key (map fst kv)"
proof -
  have "fst ` set kv = fst ` set kv'" using assms(1) by (metis dom_map_of_conv_image_fst)
  then show ?thesis using assms(2) by (simp add: list_all_iff)
qed

definition clean_env :: "outside \<Rightarrow> bool" where
  "clean_env os \<longleftrightarrow> (\<forall>n. os_environ os n = None)"

lemma effective_clean:
  "clean_env os \<Longrightarrow> effective os v k = (case (if k \<in> fst ` set (vi_flags v) then map_of (os_changed os) k else None) of
      Some x \<Rightarrow> Some x | None \<Rightarrow> (map_of (vi_flags v) ++ map_of (vi_defaults v) ++ map_of (vi_file v)) k)"
  by (auto simp: effective_def clean_env_def split: option.split)

text \<open>The configuration of an agent that is told nothing, but for its probe interval.\<close>

definition default_agent_config :: "string \<Rightarrow> u32 \<Rightarrow> AgentConfig" where
  "default_agent_config host interval =
     \<lparr>cf_AgentID = host, cf_HostName = host, cf_ControllerAddr = ''localhost:50051'', cf_AnalyzerAddr = ''localhost:50052'',
      cf_LogLevel = ''info'', cf_ProbeIntervalMS = interval, cf_DataUploadIntervalMS = 10000, cf_TracerouteIntervalMS = 300000,
      cf_TracerouteOnTimeout = True, cf_EBPFEnabled = True, cf_ServiceFlowMonitorEnabled = True,
      cf_OtelCollectorAddr = ''grpc://localhost:4317'', cf_MetricsEnabled = True, cf_AnalyzerEnabled = False, cf_TracerEnabled = False,
      cf_AllowedDeviceNames = [], cf_GIDIndex = 0, cf_PinglistUpdateIntervalSec = 300, cf_TargetProbeRatePerSecond = 10\<rparr>"

lemma flag_lookups:
  shows "map_of agent_flags ''agent-id'' = Some (CStr '''')"
    and "map_of agent_flags ''controller-addr'' = Some (CStr ''localhost:50051'')"
    and "map_of agent_flags ''analyzer-addr'' = Some (CStr ''localhost:50052'')"
    and "map_of agent_flags ''log-level'' = Some (CStr ''info'')"
    and "map_of agent_flags ''otel-collector-addr'' = Some (CStr ''grpc://localhost:4317'')"
    and "map_of agent_flags ''probe-interval-ms'' = Some (CInt 500)"
    and "map_of agent_flags ''data-upload-interval-ms'' = Some (CInt 10000)"
    and "map_of agent_flags ''traceroute-interval-ms'' = Some (CInt 300000)"
    and "map_of agent_flags ''pinglist-update-interval-sec'' = Some (CInt 300)"
    and "map_of agent_flags ''gid-index'' = Some (CInt 0)"
    and "map_of agent_flags ''target-probe-rate-per-second'' = Some (CInt 10)"
    and "map_of agent_flags ''traceroute-on-timeout'' = Some (CBool True)"
    and "map_of agent_flags ''ebpf-enabled'' = Some (CBool True)"
    and "map_of agent_flags ''service-flow-monitor-enabled'' = Some (CBool True)"
    and "map_of agent_flags ''metrics-enabled'' = Some (CBool True)"
    and "map_of agent_flags ''analyzer-enabled'' = Some (CBool False)"
    and "map_of agent_flags ''tracer-enabled'' = Some (CBool False)"
    and "map_of agent_flags ''allowed-device-names'' = Some (CList [])"
  by code_simp+

lemma file_lookups:
  shows "(map_of agent_flags ++ map_of default_agent_settings) ''agent-id'' = Some (CStr '''')"
    and "(map_of agent_flags ++ map_of default_agent_settings) ''controller-addr'' = Some (CStr ''localhost:50051'')"
    and "(map_of agent_flags ++ map_of default_agent_settings) ''analyzer-addr'' = Some (CStr ''localhost:50052'')"
    and "(map_of agent_flags ++ map_of default_agent_settings) ''log-level'' = Some (CStr ''info'')"
    and "(map_of agent_flags ++ map_of default_agent_settings) ''otel-collector-addr'' = Some (CStr ''grpc://localhost:4317'')"
    and "(map_of agent_flags ++ map_of default_agent_settings) ''probe-interval-ms'' = Some (CInt 10)"
    and "(map_of agent_flags ++ map_of default_agent_settings) ''data-upload-interval-ms'' = Some (CInt 10000)"
    and "(map_of agent_flags ++ map_of default_agent_settings) ''traceroute-interval-ms'' = Some (CInt 300000)"
    and "(map_of agent_flags ++ map_of default_agent_settings) ''pinglist-update-interval-sec'' = Some (CInt 300)"
    and "(map_of agent_flags ++ map_of default_agent_settings) ''gid-index'' = Some (CInt 0)"
    and "(map_of agent_flags ++ map_of default_agent_settings) ''target-probe-rate-per-second'' = Some (CInt 10)"
    and "(map_of agent_flags ++ map_of default_agent_settings) ''traceroute-on-timeout'' = Some (CBool True)"
    and "(map_of agent_flags ++ map_of default_agent_settings) ''ebpf-enabled'' = Some (CBool True)"
    and "(map_of agent_flags ++ map_of default_agent_settings) ''service-flow-monitor-enabled'' = Some (CBool True)"
    and "(map_of agent_flags ++ map_of default_agent_settings) ''metrics-enabled'' = Some (CBool True)"
    and "(map_of agent_flags ++ map_of default_agent_settings) ''analyzer-enabled'' = Some (CBool False)"
    and "(map_of agent_flags ++ map_of default_agent_settings) ''tracer-enabled'' = Some (CBool False)"
    and "(map_of agent_flags ++ map_of default_agent_settings) ''allowed-device-names'' = Some (CList [])"
  by code_simp+

lemma agent_lookups:
  assumes "kv = [] \<or> kv = default_agent_settings"
  shows "(map_of agent_flags ++ map_of kv) ''agent-id'' = Some (CStr '''')"
    and "(map_of agent_flags ++ map_of kv) ''controller-addr'' = Some (CStr ''localhost:50051'')"
    and "(map_of agent_flags ++ map_of kv) ''analyzer-addr'' = Some (CStr ''localhost:50052'')"
    and "(map_of agent_flags ++ map_of kv) ''log-level'' = Some (CStr ''info'')"
    and "(map_of agent_flags ++ map_of kv) ''otel-collector-addr'' = Some (CStr ''grpc://localhost:4317'')"
    and "(map_of agent_flags ++ map_of kv) ''probe-interval-ms'' = Some (CInt (if kv = [] then 500 else 10))"
    and "(map_of agent_flags ++ map_of kv) ''data-upload-interval-ms'' = Some (CInt 10000)"
    and "(map_of agent_flags ++ map_of kv) ''traceroute-interval-ms'' = Some (CInt 300000)"
    and "(map_of agent_flags ++ map_of kv) ''pinglist-update-interval-sec'' = Some (CInt 300)"
    and "(map_of agent_flags ++ map_of kv) ''gid-index'' = Some (CInt 0)"
    and "(map_of agent_flags ++ map_of kv) ''target-probe-rate-per-second'' = Some (CInt 10)"
    and "(map_of agent_flags ++ map_of kv) ''traceroute-on-timeout'' = Some (CBool True)"
    and "(map_of agent_flags ++ map_of kv) ''ebpf-enabled'' = Some (CBool True)"
    and "(map_of agent_flags ++ map_of kv) ''service-flow-monitor-enabled'' = Some (CBool True)"
    and "(map_of agent_flags ++ map_of kv) ''metrics-enabled'' = Some (CBool True)"
    and "(map_of agent_flags ++ map_of kv) ''analyzer-enabled'' = Some (CBool False)"
    and "(map_of agent_flags ++ map_of kv) ''tracer-enabled'' = Some (CBool False)"
    and "(map_of agent_flags ++ map_of kv) ''allowed-device-names'' = Some (CList [])"
  using assms by (auto simp: flag_lookups file_lookups default_agent_settings_def[THEN arg_cong, of "\<lambda>x. x = []"])

lemma agent_config_of_default:
  assumes "gets_documented L" "clean_env os" "set (map fst (os_changed os)) \<subseteq> {''config''}"
    and "vi_flags v = agent_flags" "vi_defaults v = []" "map_of (vi_file v) = map_of kv" "kv = [] \<or> kv = default_agent_settings"
  shows "agent_config_of L os v host = default_agent_config host (if kv = [] then 500 else 10)"
proof -
  have e: "effective os v k = (map_of agent_flags ++ map_of kv) k" if "k \<noteq> ''config''" for k
  proof -
    have "map_of (os_changed os) k = None" using assms(3) that by (auto simp: map_of_eq_None_iff)
    then show ?thesis using assms by (simp add: effective_clean)
  qed
  have kvk: "list_all plain_key (map fst kv)" using assms(7) program_keys(2) by auto
  then have "plain_keys v" using assms(4-6) program_keys(1) by (simp add: plain_keys_def plain_keys_same_map)
  note gets = viper_gets[OF assms(1) this plain_key_of_map[OF _ kvk]]
  have s: "vl_string L os v k = x" if "k \<noteq> ''config''" "(map_of agent_flags ++ map_of kv) k = Some (CStr x)" for k x using gets(1)[OF that(2)] e that by simp
  have u: "vl_u32 L os v k = of_int x" if "k \<noteq> ''config''" "(map_of agent_flags ++ map_of kv) k = Some (CInt x)" "0 \<le> x" "x < 2 ^ 32" for k x
    using gets(2)[OF that(2)] e that by simp
  have i: "vl_int L os v k = x" if "k \<noteq> ''config''" "(map_of agent_flags ++ map_of kv) k = Some (CInt x)" "- (2 ^ 63) \<le> x" "x < 2 ^ 63" for k x
    using gets(3)[OF that(2)] e that by simp
  have b: "vl_bool L os v k = x" if "k \<noteq> ''config''" "(map_of agent_flags ++ map_of kv) k = Some (CBool x)" for k x using gets(4)[OF that(2)] e that by simp
  have l: "vl_slice L os v k = x" if "k \<noteq> ''config''" "(map_of agent_flags ++ map_of kv) k = Some (CList x)" for k x using gets(5)[OF that(2)] e that by simp
  note lk = agent_lookups[OF assms(7)]
  show ?thesis unfolding agent_config_of_def default_agent_config_def
    by (simp add: Let_def s[OF _ lk(1)] s[OF _ lk(2)] s[OF _ lk(3)] s[OF _ lk(4)] s[OF _ lk(5)] u[OF _ lk(6)] u[OF _ lk(7)] u[OF _ lk(8)] u[OF _ lk(9)] i[OF _ lk(10)] i[OF _ lk(11)] b[OF _ lk(12)] b[OF _ lk(13)] b[OF _ lk(14)] b[OF _ lk(15)] b[OF _ lk(16)] b[OF _ lk(17)] l[OF _ lk(18)])
qed


lemma config_flag:
  assumes "gets_documented L" "clean_env os" "vi_flags v = agent_flags" "vi_defaults v = []" "vi_file v = []"
  shows "os_changed os = [] \<Longrightarrow> vl_string L os v ''config'' = ''''"
    and "os_changed os = [(''config'', CStr p)] \<Longrightarrow> vl_string L os v ''config'' = p"
proof -
  have c: "map_of agent_flags ''config'' = Some (CStr '''')" "''config'' \<in> fst ` set agent_flags" "plain_key ''config''" by code_simp+
  have keys: "plain_keys v" using assms(3-5) program_keys(1) by (simp add: plain_keys_def)
  show "os_changed os = [] \<Longrightarrow> vl_string L os v ''config'' = ''''"
    using assms c by (intro viper_gets(1)[OF assms(1) keys c(3)]) (simp add: effective_clean)
  show "os_changed os = [(''config'', CStr p)] \<Longrightarrow> vl_string L os v ''config'' = p"
    using assms c by (intro viper_gets(1)[OF assms(1) keys c(3)]) (simp add: effective_clean)
qed

lemma agent_viper_sel [simp]:
  "vi_flags (agent_viper fs) = fs" "vi_defaults (agent_viper fs) = []" "vi_file (agent_viper fs) = []"
  by (simp_all add: agent_viper_def viper_New_def)

lemma load_from_viper:
  assumes "gets_documented L" "clean_env os" "set (map fst (os_changed os)) \<subseteq> {''config''}"
    and "read_agent_file L os (agent_viper agent_flags) = Inr v" "vi_flags v = agent_flags" "vi_defaults v = []"
    and "map_of (vi_file v) = map_of kv" "kv = [] \<or> kv = default_agent_settings"
  shows "LoadAgentConfig L os None (Inr h) agent_flags = Inr (default_agent_config h (if kv = [] then 500 else 10))"
  using agent_config_of_default[OF assms(1-3,5-8)] assms(4) by (simp add: LoadAgentConfig_def Let_def) (simp add: default_agent_config_def)

text \<open>Where an agent's configuration comes from. Without a file, and without anything in the
  environment, it is that of the flags' defaults. With the file that the program itself writes as
  the default configuration it is the same but for the probe interval, which is 10 ms there
  and 500 ms in the flags. A file named on the command line that does not exist is ignored; one
  that cannot be read, or whose name has no extension that viper knows, is an error.\<close>

lemma agent_config_sources:
  assumes "viper_documented L" "writes_documented L default_agent_settings" "clean_env os"
  shows "(os_changed os = [] \<longrightarrow> LoadAgentConfig L os None (Inr h) agent_flags = Inr (default_agent_config h 500))
    \<and> (os_changed os = [(''config'', CStr p)] \<and> p \<noteq> '''' \<longrightarrow>
         (yaml_path p \<longrightarrow> LoadAgentConfig L (snd (WriteDefaultConfig L None p os)) None (Inr h) agent_flags = Inr (default_agent_config h 10))
       \<and> (\<forall>e. supported_path p \<and> os_files os p = FileMissing e \<longrightarrow> LoadAgentConfig L os None (Inr h) agent_flags = Inr (default_agent_config h 500))
       \<and> (\<forall>e. supported_path p \<and> os_files os p = FileBad e \<longrightarrow> LoadAgentConfig L os None (Inr h) agent_flags = Inl (''failed to read config file: '' @ e))
       \<and> (\<not> supported_path p \<longrightarrow> (\<exists>e. LoadAgentConfig L os None (Inr h) agent_flags = Inl e)))"
proof (intro conjI impI allI)
  have g: "gets_documented L" and r: "reads_documented L" using assms(1) by (simp_all add: viper_documented_def)
  let ?v = "agent_viper agent_flags"
  have same: "vl_string L os (?v\<lparr>vi_source := c\<rparr>) ''config'' = p" if "clean_env os" "os_changed os = [(''config'', CStr p)]" for c os
    using config_flag(2)[OF g that(1), of "?v\<lparr>vi_source := c\<rparr>"] that(2) by simp
  have cfg: "vl_string L os ?v ''config'' = p" if "clean_env os" "os_changed os = [(''config'', CStr p)]" for os
    using config_flag(2)[OF g that(1), of ?v] that(2) by simp
  show "LoadAgentConfig L os None (Inr h) agent_flags = Inr (default_agent_config h 500)" if "os_changed os = []"
    using load_from_viper[OF g assms(3), of ?v "[]"] config_flag(1)[OF g assms(3), of ?v] that by (simp add: read_agent_file_def)
  assume ch: "os_changed os = [(''config'', CStr p)] \<and> p \<noteq> ''''"
  let ?v1 = "?v\<lparr>vi_source := ConfigFile p\<rparr>" and ?os1 = "snd (WriteDefaultConfig L None p os)"
  show "LoadAgentConfig L ?os1 None (Inr h) agent_flags = Inr (default_agent_config h 10)" if y: "yaml_path p"
  proof -
    have os1: "clean_env ?os1" "os_changed ?os1 = [(''config'', CStr p)]" "vi_source ?v1 = ConfigFile p \<and> yaml_path p \<and> os_files ?os1 p = FileText (vl_write L p default_agent_settings)"
      using assms(3) ch y by (simp_all add: WriteDefaultConfig_def clean_env_def)
    obtain kv' where kv': "vl_read L ?os1 ?v1 = Inr kv'" "map_of kv' = map_of default_agent_settings"
      using assms(2) os1(3) unfolding writes_documented_def by blast
    have "read_agent_file L ?os1 ?v = Inr (?v1\<lparr>vi_file := kv'\<rparr>)" using cfg[OF os1(1,2)] kv'(1) ch by (simp add: read_agent_file_def ReadInConfig_def Let_def)
    from load_from_viper[OF g os1(1) _ this, of default_agent_settings h] os1(2) kv'(2) show ?thesis by (simp add: default_agent_settings_def)
  qed
  show "LoadAgentConfig L os None (Inr h) agent_flags = Inr (default_agent_config h 500)" if "supported_path p \<and> os_files os p = FileMissing e" for e
  proof -
    have "vl_read L os ?v1 = Inl (NotExist e)" using r that by (simp add: reads_documented_def)
    then have "read_agent_file L os ?v = Inr ?v1"
      using cfg[OF assms(3)] same[OF assms(3), of "ConfigFile p"] ch by (simp add: read_agent_file_def ReadInConfig_def is_not_exist_def Let_def)
    from load_from_viper[OF g assms(3) _ this, of "[]" h] ch show ?thesis by simp
  qed
  have other: "LoadAgentConfig L os None (Inr h) agent_flags = Inl (''failed to read config file: '' @ e)" if "vl_read L os ?v1 = Inl (OtherErr e)" for e
    using cfg[OF assms(3)] ch that by (simp add: LoadAgentConfig_def read_agent_file_def ReadInConfig_def is_not_exist_def Let_def)
  show "LoadAgentConfig L os None (Inr h) agent_flags = Inl (''failed to read config file: '' @ e)" if "supported_path p \<and> os_files os p = FileBad e" for e
    by (rule other) (use r that in \<open>simp add: reads_documented_def\<close>)
  show "\<exists>e. LoadAgentConfig L os None (Inr h) agent_flags = Inl e" if "\<not> supported_path p"
  proof -
    have "\<exists>e. vl_read L os ?v1 = Inl (OtherErr e)" using r that by (simp add: reads_documented_def)
    then show ?thesis using other by blast
  qed
qed

subsection \<open>The controller's file\<close>

definition default_controller_config :: ControllerConfig where
  "default_controller_config = \<lparr>ck_ListenAddr = ''0.0.0.0:50051'', ck_DatabaseURI = ''http://localhost:4001'', ck_LogLevel = ''info''\<rparr>"

lemma default_controller_text_keys:
  "flat_yaml default_controller_text = Some [(''listen_addr'', CStr ''0.0.0.0:50051''), (''database_uri'', CStr ''http://localhost:4001''), (''log_level'', CStr ''info'')]"
  by code_simp

text \<open>The controller ignores its own configuration file. Of a file with the keys that
  CreateDefaultControllerConfig writes, whatever values its user has put there, the controller takes
  none: LoadControllerConfigWithFlags asks for keys with dashes, and the result is that of
  the defaults. The values are in the file: LoadControllerConfig, which the program does not
  call, finds them.\<close>

lemma controller_file_ignored:
  assumes "viper_documented L" "clean_env os" "os_changed os = [(''config'', CStr p)]" "yaml_path p"
    and "os_files os p = FileText text" "flat_yaml text = Some kv" "map fst kv = [''listen_addr'', ''database_uri'', ''log_level'']"
  shows "LoadControllerConfigWithFlags L os controller_flags = Inr default_controller_config
    \<and> (\<forall>s. map_of kv ''listen_addr'' = Some (CStr s) \<longrightarrow> (\<exists>c. LoadControllerConfig L os p = Inr c \<and> ck_ListenAddr c = s))"
proof (intro conjI allI impI)
  have g: "gets_documented L" and r: "reads_documented L" using assms(1) by (simp_all add: viper_documented_def)
  let ?v = "controller_viper controller_flags"
  let ?v1 = "?v\<lparr>vi_source := ConfigFile p\<rparr>"
  let ?v2 = "?v1\<lparr>vi_file := kv\<rparr>"
  have sel: "vi_flags ?v = controller_flags" "vi_file ?v = []" "vi_defaults ?v = [(''listen-addr'', CStr ''0.0.0.0:50051''), (''database-uri'', CStr ''http://localhost:4001''), (''log-level'', CStr ''info'')]"
    by (simp_all add: controller_viper_def viper_New_def)
  obtain x y z where kv: "kv = [(''listen_addr'', x), (''database_uri'', y), (''log_level'', z)]"
    using assms(7) by (auto simp: map_eq_Cons_conv)
  have keys: "plain_keys ?v" "plain_keys ?v2" "plain_key ''config''" "plain_key ''listen-addr''" "plain_key ''database-uri''" "plain_key ''log-level''" "plain_key ''listen_addr''"
    using program_keys(3,5) by (simp_all add: plain_keys_def sel kv) (simp_all add: controller_flags_def)
  have p: "p \<noteq> ''''" using assms(4) by (auto simp: yaml_path_def file_ext_def)
  have "vl_string L os ?v ''config'' = p"
    by (rule viper_gets(1)[OF g keys(1,3)], unfold effective_clean[OF assms(2)] sel assms(3)) (simp add: controller_flags_def)
  moreover have "vl_read L os ?v1 = Inr kv" using r assms(4-6) by (simp add: reads_documented_def)
  moreover have "vl_string L os ?v2 ''listen-addr'' = ''0.0.0.0:50051''" "vl_string L os ?v2 ''database-uri'' = ''http://localhost:4001''" "vl_string L os ?v2 ''log-level'' = ''info''"
    using viper_gets(1)[OF g keys(2,4)] viper_gets(1)[OF g keys(2,5)] viper_gets(1)[OF g keys(2,6)] by (simp_all add: effective_clean[OF assms(2)] sel assms(3) kv map_add_def)
  ultimately show "LoadControllerConfigWithFlags L os controller_flags = Inr default_controller_config"
    using p by (simp add: LoadControllerConfigWithFlags_def read_controller_file_def ReadInConfig_def default_controller_config_def Let_def)
  fix s assume s: "map_of kv ''listen_addr'' = Some (CStr s)"
  let ?w = "viper_New\<lparr>vi_defaults := [(''listen_addr'', CStr ''0.0.0.0:50051''), (''database_uri'', CStr ''http://localhost:4001''), (''log_level'', CStr ''info'')],
                vi_auto := True, vi_prefix := ''RPINGMESH_CONTROLLER'', vi_replacer := [(CHR ''.'', CHR ''_'')], vi_source := ConfigFile p\<rparr>"
  have "vl_read L os ?w = Inr kv" using r assms(4-6) by (simp add: reads_documented_def)
  moreover have "vl_string L os (?w\<lparr>vi_file := kv\<rparr>) ''listen_addr'' = s"
    using keys(7) program_keys(5) by (intro viper_gets(1)[OF g]) (use s in \<open>simp_all add: plain_keys_def kv effective_clean[OF assms(2)] viper_New_def\<close>)
  ultimately show "\<exists>c. LoadControllerConfig L os p = Inr c \<and> ck_ListenAddr c = s"
    using p by (simp add: LoadControllerConfig_def ReadInConfig_def Let_def)
qed


subsection \<open>A concrete library\<close>

definition plain_viper :: viper_lib where
  "plain_viper =
     \<lparr>vl_read = (\<lambda>os v. case source_file os v of
          None \<Rightarrow> Inl (OtherErr ''unsupported'')
        | Some (FileText t) \<Rightarrow> if t = ''!'' then Inr default_agent_settings else (case flat_yaml t of Some kv \<Rightarrow> Inr kv | None \<Rightarrow> Inl (OtherErr ''yaml''))
        | Some (FileMissing e) \<Rightarrow> Inl (case vi_source v of ConfigName _ \<Rightarrow> NotFound e | _ \<Rightarrow> NotExist e)
        | Some (FileBad e) \<Rightarrow> Inl (OtherErr e)),
      vl_string = (\<lambda>os v k. case effective os v k of Some (CStr s) \<Rightarrow> s | _ \<Rightarrow> ''''),
      vl_u32 = (\<lambda>os v k. case effective os v k of Some (CInt i) \<Rightarrow> of_int i | _ \<Rightarrow> 0),
      vl_int = (\<lambda>os v k. case effective os v k of Some (CInt i) \<Rightarrow> i | _ \<Rightarrow> 0),
      vl_bool = (\<lambda>os v k. case effective os v k of Some (CBool b) \<Rightarrow> b | _ \<Rightarrow> False),
      vl_slice = (\<lambda>os v k. case effective os v k of Some (CList xs) \<Rightarrow> xs | _ \<Rightarrow> []),
      vl_write = (\<lambda>p kv. ''!'')\<rparr>"

lemma plain_viper_ok: "viper_documented plain_viper" "writes_documented plain_viper default_agent_settings"
proof -
  have "flat_yaml ''!'' = None" by code_simp
  then show "viper_documented plain_viper"
    by (auto simp: viper_documented_def reads_documented_def gets_documented_def plain_viper_def source_file_def yaml_supported split: config_source.splits)
  show "writes_documented plain_viper default_agent_settings" by (auto simp: writes_documented_def plain_viper_def source_file_def yaml_supported)
qed

lemma plain_path [simp]: "yaml_path ''a.yaml''" "supported_path ''a.yaml''"
  by code_simp+

definition plain_outside :: "settings \<Rightarrow> outside" where
  "plain_outside changed = \<lparr>os_changed = changed, os_environ = (\<lambda>_. None), os_files = (\<lambda>_. FileMissing ''no such file''), os_search = (\<lambda>_. FileMissing ''no such file'')\<rparr>"

definition edited_controller_text :: string where
  "edited_controller_text = ''listen_addr: '' @ [CHR 0x22] @ ''10.0.0.1:6000'' @ [CHR 0x22, newline]
     @ ''database_uri: '' @ [CHR 0x22] @ ''http://db:4001'' @ [CHR 0x22, newline] @ ''log_level: '' @ [CHR 0x22] @ ''debug'' @ [CHR 0x22, newline]"

end
