(* ===== verification/Cluster_Monitor.thy ===== *)
theory Cluster_Monitor
  imports Prober "HOL-Library.Multiset"
begin

text \<open>
  The cluster monitor (internal/monitor/cluster_monitor.go): the scheduler that hands out
  probe targets in turn with a rate limiter per target GID, the conversion of a pinglist
  into targets, and one pass of the worker loop, which launches at most one probe. The
  interface of a round-robin cursor is interpreted on the scheduler.
\<close>

subsection \<open>Scheduler\<close>

text \<open>A rate limiter is how the code constructs it; taking from it only delays.\<close>

datatype limiter = Unlimited | PerSecond int

record ProbeScheduler =
  sc_targets :: "PingTarget list"
  sc_targetLimiters :: "(string \<times> limiter) list"
  sc_currentIndex :: nat
  sc_targetProbeRatePerSec :: int

definition NewProbeScheduler :: ProbeScheduler where
  "NewProbeScheduler = \<lparr>sc_targets = [], sc_targetLimiters = [], sc_currentIndex = 0, sc_targetProbeRatePerSec = 10\<rparr>"

fun make_limiters :: "int \<Rightarrow> PingTarget list \<Rightarrow> (string \<times> limiter) list \<Rightarrow> (string \<times> limiter) list" where
  "make_limiters rate [] m = m"
| "make_limiters rate (t # ts) m =
     make_limiters rate ts
       (case map_of m (pt_GID t) of
          Some _ \<Rightarrow> m
        | None \<Rightarrow> AList.update (pt_GID t) (if rate \<le> 0 then Unlimited else PerSecond rate) m)"

definition UpdateTargets :: "PingTarget list \<Rightarrow> int \<Rightarrow> ProbeScheduler \<Rightarrow> ProbeScheduler" where
  "UpdateTargets targets rate ps =
     ps\<lparr>sc_targets := targets, sc_currentIndex := 0, sc_targetProbeRatePerSec := rate,
        sc_targetLimiters := make_limiters rate targets []\<rparr>"

text \<open>The cursor step of GetNextTarget, on a scheduler with targets.\<close>

definition advance :: "ProbeScheduler \<Rightarrow> nat \<times> ProbeScheduler" where
  "advance ps = (sc_currentIndex ps, ps\<lparr>sc_currentIndex := (sc_currentIndex ps + 1) mod length (sc_targets ps)\<rparr>)"

text \<open>The target handed out and the limiter taken from, if there is one.\<close>

definition GetNextTarget :: "ProbeScheduler \<Rightarrow> (PingTarget \<times> limiter option) option \<times> ProbeScheduler" where
  "GetNextTarget ps =
     (if length (sc_targets ps) = 0 then (None, ps)
      else let (i, ps1) = advance ps; target = sc_targets ps ! i in
        (Some (target, map_of (sc_targetLimiters ps) (pt_GID target)), ps1))"

definition GetTargetCount :: "ProbeScheduler \<Rightarrow> nat" where
  "GetTargetCount ps = length (sc_targets ps)"

definition GetRateInfo :: "ProbeScheduler \<Rightarrow> int \<times> nat" where
  "GetRateInfo ps = (sc_targetProbeRatePerSec ps, length (sc_targetLimiters ps))"

subsection \<open>Monitor\<close>

record ClusterMonitor =
  cm_agentState :: AgentState
  cm_intervalMs :: u32
  cm_targetProbeRatePerSec :: int
  cm_scheduler :: ProbeScheduler
  cm_stopCh_closed :: bool
  cm_running :: bool

definition NewClusterMonitor :: "AgentState \<Rightarrow> u32 \<Rightarrow> int \<Rightarrow> ClusterMonitor" where
  "NewClusterMonitor a intervalMs rate =
     \<lparr>cm_agentState = a, cm_intervalMs = intervalMs, cm_targetProbeRatePerSec = rate, cm_scheduler = NewProbeScheduler,
      cm_stopCh_closed = False, cm_running = False\<rparr>"

text \<open>Start: True when a worker goroutine is launched.\<close>

definition ClusterMonitor_Start :: "ClusterMonitor \<Rightarrow> bool \<times> ClusterMonitor" where
  "ClusterMonitor_Start c = (if cm_running c then (False, c) else (True, c\<lparr>cm_running := True, cm_stopCh_closed := False\<rparr>))"

text \<open>Stop, once the worker has seen the closed channel and ended.\<close>

definition ClusterMonitor_Stop :: "ClusterMonitor \<Rightarrow> ClusterMonitor go" where
  "ClusterMonitor_Stop c =
     (if \<not> cm_running c then Ret c
      else if cm_stopCh_closed c then Panic ''close of closed channel''
      else Ret (c\<lparr>cm_stopCh_closed := True, cm_running := False\<rparr>))"

definition isLinkLocalGID :: "string \<Rightarrow> bool go" where
  "isLinkLocalGID gid =
     (if length gid < 4 then Ret False
      else if length gid < 5 then Panic ''slice bounds out of range [:5]''
      else let prefix = take 5 gid in Ret (prefix = ''fe80:'' \<or> prefix = ''FE80:''))"

definition shouldSkipLinkLocalTarget :: "string \<Rightarrow> string \<Rightarrow> string \<Rightarrow> string \<Rightarrow> bool go" where
  "shouldSkipLinkLocalTarget sourceGID targetGID sourceDevice targetDevice =
     go_bind (isLinkLocalGID sourceGID) (\<lambda>sourceIsLinkLocal.
     go_bind (isLinkLocalGID targetGID) (\<lambda>targetIsLinkLocal.
       Ret (if \<not> sourceIsLinkLocal \<and> \<not> targetIsLinkLocal then False
            else if sourceIsLinkLocal \<and> targetIsLinkLocal \<and> sourceDevice \<noteq> targetDevice then True
            else False)))"

definition probe_target_of :: "RnicInfo \<Rightarrow> RnicInfo \<Rightarrow> ProtoPingTarget \<Rightarrow> PingTarget" where
  "probe_target_of src dst t =
     \<lparr>pt_GID = ri_Gid dst, pt_QPN = ri_Qpn dst, pt_IPAddress = ri_IpAddress dst, pt_HostName = ri_HostName dst,
      pt_TorID = ri_TorId dst, pt_DeviceName = ri_DeviceName dst, pt_SourceRnicGID = ri_Gid src, pt_SourceRnicQPN = ri_Qpn src,
      pt_SourceRnicIP = ri_IpAddress src, pt_SourceHostName = ri_HostName src, pt_SourceTorID = ri_TorId src,
      pt_SourceDeviceName = ri_DeviceName src, pt_SourcePort = ppt_SourcePort t, pt_FlowLabel = ppt_FlowLabel t,
      pt_Priority = ppt_Priority t, pt_ServiceFlowTuple = None, pt_ProbeType = ''''\<rparr>"

definition source_device :: "AgentState \<Rightarrow> RnicInfo \<Rightarrow> string" where
  "source_device a src =
     (if ri_DeviceName src = '''' then (case GetRnicByGID a (ri_Gid src) of None \<Rightarrow> '''' | Some r \<Rightarrow> rn_DeviceName r)
      else ri_DeviceName src)"

fun pinglist_loop :: "AgentState \<Rightarrow> ProtoPingTarget list \<Rightarrow> PingTarget list go" where
  "pinglist_loop a [] = Ret []"
| "pinglist_loop a (t # ts) =
     (case (ppt_TargetRnic t, ppt_SourceRnic t) of
        (Some dst, Some src) \<Rightarrow>
          if ri_HostName dst = GetHostName a then pinglist_loop a ts
          else go_bind (shouldSkipLinkLocalTarget (ri_Gid src) (ri_Gid dst) (source_device a src) (ri_DeviceName dst)) (\<lambda>skip.
            if skip then pinglist_loop a ts
            else go_bind (pinglist_loop a ts) (\<lambda>rest. Ret (probe_target_of src dst t # rest)))
      | _ \<Rightarrow> pinglist_loop a ts)"

definition UpdatePinglist :: "ProtoPingTarget list \<Rightarrow> ClusterMonitor \<Rightarrow> ClusterMonitor go" where
  "UpdatePinglist pinglist c =
     go_bind (pinglist_loop (cm_agentState c) pinglist) (\<lambda>probeTargets.
       Ret (c\<lparr>cm_scheduler := UpdateTargets probeTargets (cm_targetProbeRatePerSec c) (cm_scheduler c)\<rparr>))"

definition resolveTargetGID :: "PingTarget \<Rightarrow> string" where
  "resolveTargetGID t = pt_GID t"

text \<open>processNextProbe: the source RNIC and the target of the probe it launches, if any.\<close>

definition probe_details :: "AgentState \<Rightarrow> PingTarget \<Rightarrow> PingTarget" where
  "probe_details a t =
     \<lparr>pt_GID = resolveTargetGID t, pt_QPN = pt_QPN t, pt_IPAddress = pt_IPAddress t, pt_HostName = pt_HostName t,
      pt_TorID = pt_TorID t, pt_DeviceName = pt_DeviceName t, pt_SourceRnicGID = '''', pt_SourceRnicQPN = 0, pt_SourceRnicIP = '''',
      pt_SourceHostName = '''', pt_SourceTorID = '''', pt_SourceDeviceName = '''', pt_SourcePort = pt_SourcePort t,
      pt_FlowLabel = pt_FlowLabel t, pt_Priority = pt_Priority t, pt_ServiceFlowTuple = pt_ServiceFlowTuple t,
      pt_ProbeType = (if pt_TorID t = GetLocalTorID a then ProbeTypeTorMesh else ProbeTypeInterTor)\<rparr>"

definition probe_for :: "AgentState \<Rightarrow> PingTarget \<Rightarrow> (RNIC \<times> PingTarget) option" where
  "probe_for a target =
     (case GetRnicByGID a (pt_SourceRnicGID target) of
        None \<Rightarrow> None
      | Some sourceRnic \<Rightarrow>
          if pt_GID target = pt_SourceRnicGID target then None
          else if pt_HostName target = GetHostName a then None
          else case GetSenderUDQueue a (rn_GID sourceRnic) of
            None \<Rightarrow> None
          | Some _ \<Rightarrow> Some (sourceRnic, probe_details a target))"

definition processNextProbe :: "ClusterMonitor \<Rightarrow> (RNIC \<times> PingTarget) option \<times> ClusterMonitor" where
  "processNextProbe c =
     (case GetNextTarget (cm_scheduler c) of
        (None, ps) \<Rightarrow> (None, c\<lparr>cm_scheduler := ps\<rparr>)
      | (Some (target, _), ps) \<Rightarrow> (probe_for (cm_agentState c) target, c\<lparr>cm_scheduler := ps\<rparr>))"

text \<open>The worker loop while it is not stopped: the probes of its first passes.\<close>

fun worker_passes :: "nat \<Rightarrow> ClusterMonitor \<Rightarrow> (RNIC \<times> PingTarget) list" where
  "worker_passes 0 c = []"
| "worker_passes (Suc n) c =
     (case processNextProbe c of (None, c') \<Rightarrow> worker_passes n c' | (Some x, c') \<Rightarrow> x # worker_passes n c')"

subsection \<open>Targets are handed out in turn\<close>

definition sched_ok :: "ProbeScheduler \<Rightarrow> bool" where
  "sched_ok ps \<longleftrightarrow> sc_currentIndex ps < length (sc_targets ps)"

interpretation sched_rr: round_robin advance sc_currentIndex "\<lambda>ps. length (sc_targets ps)" sched_ok
  by unfold_locales (auto simp: advance_def sched_ok_def intro: mod_less_divisor)

lemma advance_simps [simp]:
  "sc_targets (snd (advance ps)) = sc_targets ps" "sc_targetLimiters (snd (advance ps)) = sc_targetLimiters ps"
  by (simp_all add: advance_def)

lemma processNextProbe_advance:
  "sc_targets (cm_scheduler c) \<noteq> [] \<Longrightarrow>
   processNextProbe c = (probe_for (cm_agentState c) (sc_targets (cm_scheduler c) ! fst (advance (cm_scheduler c))),
      c\<lparr>cm_scheduler := snd (advance (cm_scheduler c))\<rparr>)"
  by (simp add: processNextProbe_def GetNextTarget_def Let_def split: prod.split)

lemma worker_passes_eq:
  "sched_ok (cm_scheduler c) \<Longrightarrow>
   worker_passes n c = List.map_filter (\<lambda>i. probe_for (cm_agentState c) (sc_targets (cm_scheduler c) ! i)) (iter_next advance n (cm_scheduler c))"
proof (induction n arbitrary: c)
  case (Suc n)
  let ?c = "c\<lparr>cm_scheduler := snd (advance (cm_scheduler c))\<rparr>"
  have "sc_targets (cm_scheduler c) \<noteq> []" using Suc.prems by (auto simp: sched_ok_def)
  moreover have "sched_ok (cm_scheduler ?c)" using sched_rr.next_ok[OF Suc.prems] by simp
  ultimately show ?case
    using Suc.IH[of ?c] by (simp add: processNextProbe_advance List.map_filter_simps split: option.split)
qed simp

subsection \<open>The pinglist as targets\<close>

definition link_local :: "string \<Rightarrow> bool" where
  "link_local gid \<longleftrightarrow> take 5 gid = ''fe80:'' \<or> take 5 gid = ''FE80:''"

lemma link_local_length: "link_local gid \<Longrightarrow> 5 \<le> length gid"
  by (auto simp: link_local_def dest!: arg_cong[of _ _ length])

lemma isLinkLocalGID_eq: "isLinkLocalGID gid = (if length gid = 4 then Panic ''slice bounds out of range [:5]'' else Ret (link_local gid))"
proof (cases "length gid < 4")
  case True
  then have "\<not> link_local gid" using link_local_length[of gid] by linarith
  with True show ?thesis by (simp add: isLinkLocalGID_def)
qed (auto simp: isLinkLocalGID_def link_local_def Let_def)

text \<open>A target with both RNICs on another host whose check of the GIDs panics.\<close>

definition short_gid :: "AgentState \<Rightarrow> ProtoPingTarget \<Rightarrow> bool" where
  "short_gid a t \<longleftrightarrow> (\<exists>dst src. ppt_TargetRnic t = Some dst \<and> ppt_SourceRnic t = Some src \<and> ri_HostName dst \<noteq> as_hostName a
     \<and> (length (ri_Gid src) = 4 \<or> length (ri_Gid dst) = 4))"

text \<open>What the loop makes of one target when it does not panic.\<close>

definition kept_target :: "AgentState \<Rightarrow> ProtoPingTarget \<Rightarrow> PingTarget option" where
  "kept_target a t =
     (case (ppt_TargetRnic t, ppt_SourceRnic t) of
        (Some dst, Some src) \<Rightarrow>
          if ri_HostName dst \<noteq> as_hostName a \<and> \<not> (link_local (ri_Gid src) \<and> link_local (ri_Gid dst) \<and> source_device a src \<noteq> ri_DeviceName dst)
          then Some (probe_target_of src dst t) else None
      | _ \<Rightarrow> None)"

lemma shouldSkip_eq:
  "shouldSkipLinkLocalTarget s d sd dd =
     (if length s = 4 \<or> length d = 4 then Panic ''slice bounds out of range [:5]''
      else Ret (link_local s \<and> link_local d \<and> sd \<noteq> dd))"
  by (auto simp: shouldSkipLinkLocalTarget_def isLinkLocalGID_eq)

lemma pinglist_loop_eq:
  "pinglist_loop a pl = (if \<exists>t \<in> set pl. short_gid a t then Panic ''slice bounds out of range [:5]'' else Ret (List.map_filter (kept_target a) pl))"
proof (induction pl)
  case (Cons t ts)
  show ?case
  proof (cases "\<exists>dst src. ppt_TargetRnic t = Some dst \<and> ppt_SourceRnic t = Some src")
    case True
    then obtain dst src where ds: "ppt_TargetRnic t = Some dst" "ppt_SourceRnic t = Some src" by blast
    have s: "short_gid a t \<longleftrightarrow> ri_HostName dst \<noteq> as_hostName a \<and> (length (ri_Gid src) = 4 \<or> length (ri_Gid dst) = 4)"
      by (auto simp: short_gid_def ds)
    have k: "kept_target a t = (if ri_HostName dst \<noteq> as_hostName a \<and> \<not> (link_local (ri_Gid src) \<and> link_local (ri_Gid dst) \<and> source_device a src \<noteq> ri_DeviceName dst)
          then Some (probe_target_of src dst t) else None)"
      by (simp add: kept_target_def ds)
    show ?thesis
      using Cons.IH by (auto simp: ds s k shouldSkip_eq List.map_filter_simps)
  next
    case False
    then have "\<not> short_gid a t" "kept_target a t = None" "pinglist_loop a (t # ts) = pinglist_loop a ts"
      by (auto simp: short_gid_def kept_target_def split: option.splits)
    with Cons.IH show ?thesis by (simp add: List.map_filter_simps)
  qed
qed (simp add: List.map_filter_simps)

lemma UpdatePinglist_eq:
  "UpdatePinglist pl c = (if \<exists>t \<in> set pl. short_gid (cm_agentState c) t then Panic ''slice bounds out of range [:5]''
     else Ret (c\<lparr>cm_scheduler := UpdateTargets (List.map_filter (kept_target (cm_agentState c)) pl) (cm_targetProbeRatePerSec c) (cm_scheduler c)\<rparr>))"
  by (simp add: UpdatePinglist_def pinglist_loop_eq)

text \<open>A pinglist update panics exactly when the list names a target on another host with
  a source or target GID of four characters: the length check before the five-character
  prefix is off by one.\<close>

theorem UpdatePinglist_panics_iff:
  "panics (UpdatePinglist pl c) \<longleftrightarrow>
     (\<exists>t \<in> set pl. \<exists>dst src. ppt_TargetRnic t = Some dst \<and> ppt_SourceRnic t = Some src
        \<and> ri_HostName dst \<noteq> as_hostName (cm_agentState c) \<and> (length (ri_Gid src) = 4 \<or> length (ri_Gid dst) = 4))"
  by (auto simp: UpdatePinglist_eq short_gid_def)

subsection \<open>Fairness of the worker\<close>

text \<open>The probe that a pinglist entry calls for: from the named local RNIC, if that has a sender
  queue, to a different GID on another host, unless both GIDs are link-local and the
  devices differ.\<close>

definition wanted_probe :: "AgentState \<Rightarrow> ProtoPingTarget \<Rightarrow> (RNIC \<times> PingTarget) option" where
  "wanted_probe a t =
     (case (ppt_TargetRnic t, ppt_SourceRnic t) of
        (Some dst, Some src) \<Rightarrow>
          (case GetRnicByGID a (ri_Gid src) of
             None \<Rightarrow> None
           | Some r \<Rightarrow>
               if ri_HostName dst \<noteq> as_hostName a \<and> ri_Gid dst \<noteq> ri_Gid src \<and> GetSenderUDQueue a (rn_GID r) \<noteq> None
                 \<and> \<not> (link_local (ri_Gid src) \<and> link_local (ri_Gid dst) \<and> source_device a src \<noteq> ri_DeviceName dst)
               then Some (r, probe_details a (probe_target_of src dst t)) else None)
      | _ \<Rightarrow> None)"

lemma wanted_probe_eq: "wanted_probe a t = (case kept_target a t of None \<Rightarrow> None | Some x \<Rightarrow> probe_for a x)"
  by (auto simp: wanted_probe_def kept_target_def probe_for_def probe_target_of_def split: option.splits)

lemma map_filter_comp:
  "List.map_filter g (List.map_filter f xs) = List.map_filter (\<lambda>x. case f x of None \<Rightarrow> None | Some y \<Rightarrow> g y) xs"
  by (induction xs) (auto simp: List.map_filter_simps split: option.split)

lemma mset_map_filter_cong: "mset xs = mset ys \<Longrightarrow> mset (List.map_filter f xs) = mset (List.map_filter f ys)"
  by (simp add: List.map_filter_def)

lemma map_filter_map: "List.map_filter f (map g xs) = List.map_filter (\<lambda>x. f (g x)) xs"
  by (induction xs) (simp_all add: List.map_filter_simps split: option.split)

lemma map_filter_upt: "List.map_filter (\<lambda>i. f (xs ! i)) [0..<length xs] = List.map_filter f xs"
  by (simp add: map_filter_map[symmetric] map_nth)

lemma iter_next_mset:
  assumes "sched_ok ps"
  shows "mset (iter_next advance (length (sc_targets ps)) ps) = mset [0..<length (sc_targets ps)]"
proof (rule iffD1[OF set_eq_iff_mset_eq_distinct])
  show "distinct (iter_next advance (length (sc_targets ps)) ps)" by (rule sched_rr.one_round(1)[OF assms])
  show "set (iter_next advance (length (sc_targets ps)) ps) = set [0..<length (sc_targets ps)]"
    using sched_rr.one_round(2)[OF assms] by (simp only: set_upt atLeast0LessThan)
qed simp

text \<open>The monitor after the worker has made some passes.\<close>

fun after_passes :: "nat \<Rightarrow> ClusterMonitor \<Rightarrow> ClusterMonitor" where
  "after_passes 0 c = c"
| "after_passes (Suc n) c = after_passes n (snd (processNextProbe c))"

lemma after_passes_state:
  "sched_ok (cm_scheduler c) \<Longrightarrow>
   sched_ok (cm_scheduler (after_passes m c)) \<and> cm_agentState (after_passes m c) = cm_agentState c
     \<and> sc_targets (cm_scheduler (after_passes m c)) = sc_targets (cm_scheduler c)"
proof (induction m arbitrary: c)
  case (Suc m)
  have "sc_targets (cm_scheduler c) \<noteq> []" using Suc.prems by (auto simp: sched_ok_def)
  with Suc.IH[of "snd (processNextProbe c)"] sched_rr.next_ok[OF Suc.prems] show ?case
    by (simp add: processNextProbe_advance)
qed simp

lemma worker_round:
  assumes "UpdatePinglist pl c = Ret c'"
  shows "mset (worker_passes (GetTargetCount (cm_scheduler c')) (after_passes m c'))
       = mset (List.map_filter (wanted_probe (cm_agentState c)) pl)"
proof -
  let ?a = "cm_agentState c" and ?ts = "List.map_filter (kept_target (cm_agentState c)) pl"
  have c': "c' = c\<lparr>cm_scheduler := UpdateTargets ?ts (cm_targetProbeRatePerSec c) (cm_scheduler c)\<rparr>"
    using assms by (simp add: UpdatePinglist_eq split: if_splits)
  have t: "sc_targets (cm_scheduler c') = ?ts" "sc_currentIndex (cm_scheduler c') = 0" "cm_agentState c' = ?a" by (simp_all add: c' UpdateTargets_def)
  have w: "wanted_probe ?a = (\<lambda>t. case kept_target ?a t of None \<Rightarrow> None | Some x \<Rightarrow> probe_for ?a x)" by (rule ext) (rule wanted_probe_eq)
  have wanted: "List.map_filter (wanted_probe ?a) pl = List.map_filter (probe_for ?a) ?ts" unfolding w map_filter_comp ..
  show ?thesis
  proof (cases "?ts = []")
    case True
    then show ?thesis by (simp add: wanted GetTargetCount_def t List.map_filter_simps)
  next
    case False
    let ?d = "after_passes m c'"
    have "sched_ok (cm_scheduler c')" using False by (simp add: sched_ok_def t)
    from after_passes_state[OF this, of m] t have d: "sched_ok (cm_scheduler ?d)" "cm_agentState ?d = ?a" "sc_targets (cm_scheduler ?d) = ?ts"
      by simp_all
    have "mset (worker_passes (length ?ts) ?d) = mset (List.map_filter (\<lambda>i. probe_for ?a (?ts ! i)) (iter_next advance (length ?ts) (cm_scheduler ?d)))"
      by (simp add: worker_passes_eq[OF d(1)] d)
    also have "\<dots> = mset (List.map_filter (\<lambda>i. probe_for ?a (?ts ! i)) [0..<length ?ts])"
      using iter_next_mset[OF d(1)] by (intro mset_map_filter_cong) (simp add: d)
    finally show ?thesis by (simp add: wanted GetTargetCount_def t map_filter_upt)
  qed
qed

text \<open>C11: the worker is fair. After a pinglist update, wherever the worker stands, as many
  further passes as there are targets launch exactly the probes the pinglist calls for,
  each as often as it is listed: none is starved and none is favoured.\<close>

theorem worker_round_probes_pinglist:
  assumes "UpdatePinglist pl c = Ret c'"
  shows "mset (worker_passes (GetTargetCount (cm_scheduler c')) (after_passes m c'))
       = mset (List.map_filter (wanted_probe (cm_agentState c)) pl)"
  using assms by (rule worker_round)

definition sample_monitor :: ClusterMonitor where
  "sample_monitor = NewClusterMonitor (sample_agent\<lparr>as_rnicByGID := Some [(''fe80::1'', 0)], as_senderQueues := Some [(''fe80::1'', Some \<lparr>qr_id = 0, qr_QPN = 5\<rparr>)]\<rparr>) 100 10"

definition sample_info_of :: "string \<Rightarrow> string \<Rightarrow> string \<Rightarrow> RnicInfo" where
  "sample_info_of gid host dev = \<lparr>ri_Gid = gid, ri_Qpn = 1, ri_IpAddress = '''', ri_HostName = host, ri_TorId = '''', ri_DeviceName = dev\<rparr>"

text \<open>Two targets to probe, one on this host, and one over link-local GIDs of different devices.\<close>

definition sample_pinglist :: "ProtoPingTarget list" where
  "sample_pinglist = map (\<lambda>(g, h, d). \<lparr>ppt_TargetRnic = Some (sample_info_of g h d), ppt_SourceRnic = Some (sample_info_of ''fe80::1'' ''h'' ''mlx5_0''),
     ppt_SourcePort = 1, ppt_FlowLabel = 2, ppt_Priority = 0\<rparr>)
     [(''::ffff:10.0.0.2'', ''h2'', ''mlx5_1''), (''fe80::3'', ''h3'', ''mlx5_0''), (''fe80::4'', ''h'', ''mlx5_0''), (''fe80::5'', ''h5'', ''mlx5_1'')]"

theorem worker_round_probes_pinglist_witness:
  "\<exists>c'. UpdatePinglist sample_pinglist sample_monitor = Ret c' \<and> GetTargetCount (cm_scheduler c') = 2
     \<and> size (mset (worker_passes 2 (after_passes 5 c'))) = 2"
proof -
  let ?a = "cm_agentState sample_monitor"
  have s: "\<not> (\<exists>t \<in> set sample_pinglist. short_gid ?a t)"
    by (simp add: sample_pinglist_def short_gid_def sample_info_of_def)
  have h: "as_hostName ?a = ''h''" by (simp add: sample_monitor_def NewClusterMonitor_def sample_agent_def NewAgentState_def)
  have k: "length (List.map_filter (kept_target ?a) sample_pinglist) = 2"
    by (simp add: sample_pinglist_def kept_target_def List.map_filter_simps h sample_info_of_def link_local_def source_device_def)
  have r: "GetRnicByGID ?a ''fe80::1'' = Some (mg_Devices sample_manager ! 0)" "GetSenderUDQueue ?a ''fe80::1'' = Some \<lparr>qr_id = 0, qr_QPN = 5\<rparr>"
    by (simp_all add: sample_monitor_def NewClusterMonitor_def GetRnicByGID_def GetSenderUDQueue_def lookup_def rnic_at_def sample_agent_def)
  have w: "length (List.map_filter (wanted_probe ?a) sample_pinglist) = 2"
    by (simp add: sample_pinglist_def wanted_probe_def List.map_filter_simps h r sample_manager_gid sample_info_of_def link_local_def source_device_def)
  from s obtain c' where c': "UpdatePinglist sample_pinglist sample_monitor = Ret c'" by (auto simp: UpdatePinglist_eq)
  then have n: "GetTargetCount (cm_scheduler c') = 2" using s k by (auto simp: UpdatePinglist_eq GetTargetCount_def UpdateTargets_def)
  from worker_round_probes_pinglist[OF c', of 5] n w have "size (mset (worker_passes 2 (after_passes 5 c'))) = 2" by (simp only: size_mset)
  with c' n show ?thesis by blast
qed


end
