(* ===== verification/Go_Slice.thy ===== *)
theory Go_Slice
  imports Go_Base
begin

text \<open>
  Go slices of pointers: a slice is a window of a backing array, arrays live in a heap (a
  list, addressed by position), and append writes into the window's spare capacity when
  the new elements fit, so two slices of one array can overwrite each other's elements.
  nil is None. The lemmas give the elements of the result of each operation and say which
  other slices keep theirs.
\<close>

type_synonym 'a arrays = "'a option list list"

record slice =
  sl_arr :: nat
  sl_off :: nat
  sl_len :: nat
  sl_cap :: nat

definition elems :: "'a arrays \<Rightarrow> slice \<Rightarrow> 'a option list" where
  "elems h s = take (sl_len s) (drop (sl_off s) (h ! sl_arr s))"

definition slice_ok :: "'a arrays \<Rightarrow> slice \<Rightarrow> bool" where
  "slice_ok h s \<longleftrightarrow> sl_arr s < length h \<and> sl_len s \<le> sl_cap s \<and> sl_off s + sl_cap s \<le> length (h ! sl_arr s)"

text \<open>make([]*T, 0, cap)\<close>

definition slice_make :: "nat \<Rightarrow> 'a arrays \<Rightarrow> slice \<times> 'a arrays" where
  "slice_make cap h = (\<lparr>sl_arr = length h, sl_off = 0, sl_len = 0, sl_cap = cap\<rparr>, h @ [replicate cap None])"

text \<open>s[:n] and s[n:]; both panic outside the bounds Go checks.\<close>

definition slice_upto :: "slice \<Rightarrow> int \<Rightarrow> slice go" where
  "slice_upto s n = (if 0 \<le> n \<and> n \<le> int (sl_cap s) then Ret (s\<lparr>sl_len := nat n\<rparr>) else Panic ''slice bounds out of range'')"

definition slice_from :: "slice \<Rightarrow> int \<Rightarrow> slice go" where
  "slice_from s n =
     (if 0 \<le> n \<and> n \<le> int (sl_len s)
      then Ret (s\<lparr>sl_off := sl_off s + nat n, sl_len := sl_len s - nat n, sl_cap := sl_cap s - nat n\<rparr>)
      else Panic ''slice bounds out of range'')"

definition overwrite :: "nat \<Rightarrow> 'b list \<Rightarrow> 'b list \<Rightarrow> 'b list" where
  "overwrite i xs ys = take i ys @ xs @ drop (i + length xs) ys"

text \<open>append(s, xs...): the capacity of a grown array is the runtime's choice, at least
  what is needed.\<close>

definition slice_append :: "(nat \<Rightarrow> nat \<Rightarrow> nat) \<Rightarrow> slice \<Rightarrow> 'a option list \<Rightarrow> 'a arrays \<Rightarrow> slice \<times> 'a arrays" where
  "slice_append grow s xs h =
     (let n = sl_len s + length xs in
      if n \<le> sl_cap s then (s\<lparr>sl_len := n\<rparr>, h[sl_arr s := overwrite (sl_off s + sl_len s) xs (h ! sl_arr s)])
      else let cap = max n (grow (sl_cap s) n) in
        (\<lparr>sl_arr = length h, sl_off = 0, sl_len = n, sl_cap = cap\<rparr>, h @ [elems h s @ xs @ replicate (cap - n) None]))"

subsection \<open>Elements\<close>

lemma length_elems: "slice_ok h s \<Longrightarrow> length (elems h s) = sl_len s"
  by (auto simp: elems_def slice_ok_def)

lemma elems_empty: "sl_len s = 0 \<Longrightarrow> elems h s = []"
  by (simp add: elems_def)

lemma length_overwrite [simp]: "i + length xs \<le> length ys \<Longrightarrow> length (overwrite i xs ys) = length ys"
  by (simp add: overwrite_def)

lemma slice_make_ok:
  "slice_make cap h = (s, h') \<Longrightarrow> slice_ok h' s \<and> elems h' s = []"
  by (auto simp: slice_make_def slice_ok_def elems_def)

lemma slice_upto_elems:
  "slice_ok h s \<Longrightarrow> 0 \<le> n \<Longrightarrow> n \<le> int (sl_len s) \<Longrightarrow>
   \<exists>t. slice_upto s n = Ret t \<and> slice_ok h t \<and> elems h t = take (nat n) (elems h s)"
  by (auto simp: slice_upto_def slice_ok_def elems_def min_def)

lemma slice_from_elems:
  "slice_ok h s \<Longrightarrow> 0 \<le> n \<Longrightarrow> n \<le> int (sl_len s) \<Longrightarrow>
   \<exists>t. slice_from s n = Ret t \<and> slice_ok h t \<and> elems h t = drop (nat n) (elems h s) \<and> sl_arr t = sl_arr s \<and> sl_off t = sl_off s + nat n"
  by (auto simp: slice_from_def slice_ok_def elems_def drop_take add.commute)

lemma elems_overwrite:
  assumes "i + n + length xs \<le> length a"
  shows "take (n + length xs) (drop i (overwrite (i + n) xs a)) = take n (drop i a) @ xs"
proof -
  have "drop i (overwrite (i + n) xs a) = take n (drop i a) @ xs @ drop (i + n + length xs) a"
    using assms by (simp add: overwrite_def drop_take)
  moreover have "length (take n (drop i a)) = n" using assms by simp
  ultimately show ?thesis by simp
qed

lemma slice_append_elems:
  assumes "slice_ok h s" and "slice_append grow s xs h = (t, h')"
  shows "slice_ok h' t \<and> elems h' t = elems h s @ xs"
proof (cases "sl_len s + length xs \<le> sl_cap s")
  case True
  with assms show ?thesis
    by (auto simp: slice_append_def slice_ok_def elems_def Let_def elems_overwrite)
next
  case False
  with assms length_elems[OF assms(1)] show ?thesis
    by (auto simp: slice_append_def slice_ok_def elems_def Let_def)
qed

text \<open>A slice keeps its elements under an append to another one when it is in another array
  or lies before the place appended to.\<close>

definition before :: "slice \<Rightarrow> slice \<Rightarrow> bool" where
  "before b s \<longleftrightarrow> sl_arr b \<noteq> sl_arr s \<or> sl_off b + sl_len b \<le> sl_off s + sl_len s"

lemma slice_append_frame:
  assumes "slice_ok h s" "slice_ok h b" "before b s" "slice_append grow s xs h = (t, h')"
  shows "slice_ok h' b \<and> elems h' b = elems h b"
proof (cases "sl_len s + length xs \<le> sl_cap s")
  case True
  let ?i = "sl_off s + sl_len s"
  have l: "?i + length xs \<le> length (h ! sl_arr s)" using True assms(1) by (simp add: slice_ok_def)
  have h': "h' = h[sl_arr s := overwrite ?i xs (h ! sl_arr s)]" using assms(4) True by (simp add: slice_append_def Let_def)
  have e: "take (sl_off b + sl_len b) (overwrite ?i xs (h ! sl_arr s)) = take (sl_off b + sl_len b) (h ! sl_arr s)"
    if "sl_off b + sl_len b \<le> ?i"
    using that l by (simp add: overwrite_def)
  have "take (sl_len b) (drop (sl_off b) (overwrite ?i xs (h ! sl_arr s))) = take (sl_len b) (drop (sl_off b) (h ! sl_arr s))"
    if "sl_off b + sl_len b \<le> ?i"
    using arg_cong[OF e[OF that], of "drop (sl_off b)"] by (simp add: drop_take)
  then show ?thesis using assms(1-3) l
    by (cases "sl_arr b = sl_arr s") (auto simp: h' slice_ok_def elems_def before_def)
next
  case False
  with assms show ?thesis by (auto simp: slice_append_def slice_ok_def elems_def Let_def nth_append)
qed

lemma slice_make_frame: "slice_ok h b \<Longrightarrow> slice_make cap h = (s, h') \<Longrightarrow> slice_ok h' b \<and> elems h' b = elems h b \<and> sl_arr b \<noteq> sl_arr s"
  by (auto simp: slice_make_def slice_ok_def elems_def nth_append)

end
