(* ===== verification/Uploader.thy ===== *)
theory Uploader
  imports Go_Slice Controller "HOL-Library.Sublist"
begin

text \<open>
  The uploader (internal/upload/uploader.go): the two upload queues as slices over backing
  arrays, one upload from taking a batch over connecting and sending to putting the data
  back on failure, and start and stop of the upload loop. Uploads one at a time refine a
  queue of lists that loses, repeats and reorders nothing but what its bound drops; two
  overlapping uploads do not.
\<close>

subsection \<open>State and queues\<close>

record Uploader =
  up_addr :: string
  up_agentID :: string
  up_arrays :: "ProbeResult arrays"
  up_parrays :: "PathInfo arrays"
  up_probeResults :: slice
  up_pathInfos :: slice
  up_uploadInterval :: duration
  up_batchSize :: int
  up_maxQueueSize :: int
  up_connected :: bool
  up_cancelled :: bool
  up_running :: bool

definition NewUploader :: "string \<Rightarrow> string \<Rightarrow> u32 \<Rightarrow> int \<Rightarrow> int \<Rightarrow> Uploader go" where
  "NewUploader addr agentID uploadIntervalMs batchSize maxQueueSize =
     (if maxQueueSize < 0 then Panic ''makeslice: cap out of range''
      else let (rs, h) = slice_make (nat maxQueueSize) []; (ps, ph) = slice_make 100 [] in
        Ret \<lparr>up_addr = addr, up_agentID = agentID, up_arrays = h, up_parrays = ph, up_probeResults = rs, up_pathInfos = ps,
          up_uploadInterval = uint uploadIntervalMs * 1000000, up_batchSize = batchSize, up_maxQueueSize = maxQueueSize,
          up_connected = False, up_cancelled = False, up_running = False\<rparr>)"

text \<open>The error of creating the client and the rounds of the wait for READY are given.\<close>

definition Uploader_Connect :: "string option \<Rightarrow> (bool \<times> bool) list \<Rightarrow> Uploader \<Rightarrow> (unit res \<times> Uploader) option" where
  "Uploader_Connect new_err rounds u =
     (if up_connected u then Some (Inr (), u)
      else case new_err of
        Some e \<Rightarrow> Some (Inl (''failed to connect to analyzer at '' @ up_addr u @ '': '' @ e), u)
      | None \<Rightarrow> (case connect_wait rounds of
            None \<Rightarrow> None
          | Some False \<Rightarrow> Some (Inl (''connection to analyzer at '' @ up_addr u @ '' failed to become READY within timeout''), u)
          | Some True \<Rightarrow> Some (Inr (), u\<lparr>up_connected := True\<rparr>)))"

text \<open>Start: True when the upload loop is launched; a failed connect is only logged.\<close>

definition Uploader_Start :: "string option \<Rightarrow> (bool \<times> bool) list \<Rightarrow> Uploader \<Rightarrow> (bool \<times> Uploader) option" where
  "Uploader_Start new_err rounds u =
     (if up_running u then Some (False, u)
      else map_option (\<lambda>u1. (True, u1\<lparr>up_running := True\<rparr>))
        (if up_connected u then Some u else map_option snd (Uploader_Connect new_err rounds u)))"

text \<open>AddProbeResult: whether an upload goroutine is launched because the queue is full.\<close>

definition AddProbeResult :: "(nat \<Rightarrow> nat \<Rightarrow> nat) \<Rightarrow> ProbeResult option \<Rightarrow> Uploader \<Rightarrow> bool \<times> Uploader" where
  "AddProbeResult grow result u =
     (let (q, h) = slice_append grow (up_probeResults u) [result] (up_arrays u) in
      (up_maxQueueSize u \<le> int (sl_len q), u\<lparr>up_probeResults := q, up_arrays := h\<rparr>))"

definition AddPathInfo :: "(nat \<Rightarrow> nat \<Rightarrow> nat) \<Rightarrow> PathInfo option \<Rightarrow> Uploader \<Rightarrow> Uploader" where
  "AddPathInfo grow pathInfo u =
     (let (q, h) = slice_append grow (up_pathInfos u) [pathInfo] (up_parrays u) in u\<lparr>up_pathInfos := q, up_parrays := h\<rparr>)"

subsection \<open>One upload\<close>

text \<open>The first critical section: nothing to do, or the batch of results and path infos.\<close>

definition take_results :: "Uploader \<Rightarrow> (slice \<times> Uploader) go" where
  "take_results u =
     (if up_batchSize u < int (sl_len (up_probeResults u))
      then go_bind (slice_upto (up_probeResults u) (up_batchSize u)) (\<lambda>results.
           go_bind (slice_from (up_probeResults u) (up_batchSize u)) (\<lambda>rest. Ret (results, u\<lparr>up_probeResults := rest\<rparr>)))
      else let (q, h) = slice_make (nat (up_maxQueueSize u)) (up_arrays u) in
        Ret (up_probeResults u, u\<lparr>up_probeResults := q, up_arrays := h\<rparr>))"

definition take_paths :: "Uploader \<Rightarrow> slice \<times> Uploader" where
  "take_paths u = (let (q, h) = slice_make 100 (up_parrays u) in (up_pathInfos u, u\<lparr>up_pathInfos := q, up_parrays := h\<rparr>))"

definition take_batch :: "Uploader \<Rightarrow> ((slice \<times> slice) option \<times> Uploader) go" where
  "take_batch u =
     (if sl_len (up_probeResults u) = 0 \<and> sl_len (up_pathInfos u) = 0 then Ret (None, u)
      else go_bind (take_results u) (\<lambda>(results, u1). let (pathInfos, u2) = take_paths u1 in Ret (Some (results, pathInfos), u2)))"

text \<open>The critical section after a failure, written three times in the source.\<close>

definition return_results :: "(nat \<Rightarrow> nat \<Rightarrow> nat) \<Rightarrow> slice \<Rightarrow> Uploader \<Rightarrow> Uploader go" where
  "return_results grow results u =
     go_bind
       (if up_maxQueueSize u < int (sl_len results) + int (sl_len (up_probeResults u))
        then let toKeep = up_maxQueueSize u - int (sl_len results) in
          if 0 < toKeep
          then go_bind (slice_from (up_probeResults u) (int (sl_len (up_probeResults u)) - toKeep)) (\<lambda>q. Ret (q, up_arrays u))
          else Ret (slice_make (nat (up_maxQueueSize u)) (up_arrays u))
        else Ret (up_probeResults u, up_arrays u))
       (\<lambda>(q, h). let (q', h') = slice_append grow results (elems h q) h in Ret (u\<lparr>up_probeResults := q', up_arrays := h'\<rparr>))"

definition return_paths :: "(nat \<Rightarrow> nat \<Rightarrow> nat) \<Rightarrow> slice \<Rightarrow> Uploader \<Rightarrow> Uploader go" where
  "return_paths grow pathInfos u =
     (let (q, h) = slice_append grow pathInfos (elems (up_parrays u) (up_pathInfos u)) (up_parrays u) in
      go_bind (if 100 < sl_len q then slice_upto q 100 else Ret q) (\<lambda>q'. Ret (u\<lparr>up_pathInfos := q', up_parrays := h\<rparr>)))"

definition return_data :: "(nat \<Rightarrow> nat \<Rightarrow> nat) \<Rightarrow> slice \<times> slice \<Rightarrow> Uploader \<Rightarrow> Uploader go" where
  "return_data grow b u = go_bind (return_results grow (fst b) u) (return_paths grow (snd b))"

definition request_of :: "slice \<times> slice \<Rightarrow> Uploader \<Rightarrow> UploadDataRequest" where
  "request_of b u = \<lparr>ud_AgentId = up_agentID u, ud_ProbeResults = elems (up_arrays u) (fst b), ud_PathInfos = elems (up_parrays u) (snd b)\<rparr>"

definition drop_connection :: "Uploader \<Rightarrow> Uploader" where
  "drop_connection u = u\<lparr>up_connected := False\<rparr>"

text \<open>uploadData run without interruption; the rpc is the analyzer behind the transport.\<close>

definition uploadData ::
  "(nat \<Rightarrow> nat \<Rightarrow> nat) \<Rightarrow> string option \<Rightarrow> (bool \<times> bool) list \<Rightarrow> (UploadDataRequest \<Rightarrow> UploadDataResponse res) \<Rightarrow> Uploader
     \<Rightarrow> (unit res \<times> Uploader) go option" where
  "uploadData grow new_err rounds rpc u =
     (case take_batch u of
        Panic m \<Rightarrow> Some (Panic m)
      | Ret (None, u1) \<Rightarrow> Some (Ret (Inr (), u1))
      | Ret (Some b, u1) \<Rightarrow>
          (case (if up_connected u1 then Some (Inr (), u1) else Uploader_Connect new_err rounds u1) of
             None \<Rightarrow> None
           | Some (Inl e, u2) \<Rightarrow> Some (go_bind (return_data grow b u2) (\<lambda>u3. Ret (Inl (''failed to connect to analyzer: '' @ e), u3)))
           | Some (Inr _, u2) \<Rightarrow>
               (case rpc (request_of b u2) of
                  Inl e \<Rightarrow> Some (go_bind (return_data grow b u2) (\<lambda>u3. Ret (Inl (''failed to upload data: '' @ e), drop_connection u3)))
                | Inr resp \<Rightarrow>
                    if \<not> udr_Success resp
                    then Some (go_bind (return_data grow b u2) (\<lambda>u3. Ret (Inl (''upload failed: '' @ udr_Message resp), u3)))
                    else Some (Ret (Inr (), u2)))))"

text \<open>One tick of the upload loop.\<close>

definition upload_tick ::
  "(nat \<Rightarrow> nat \<Rightarrow> nat) \<Rightarrow> string option \<Rightarrow> (bool \<times> bool) list \<Rightarrow> (UploadDataRequest \<Rightarrow> UploadDataResponse res) \<Rightarrow> Uploader
     \<Rightarrow> Uploader go option" where
  "upload_tick grow new_err rounds rpc u =
     map_option (\<lambda>g. go_bind g (\<lambda>(r, u1). Ret (case r of Inl _ \<Rightarrow> drop_connection u1 | Inr _ \<Rightarrow> u1)))
       (uploadData grow new_err rounds rpc u)"

subsection \<open>Uploads one at a time refine a queue of lists\<close>

text \<open>What can happen between two uploads: a result or a path info is added, a batch is taken,
  and the upload under way succeeds or fails. Taking while one is under way, or finishing
  when none is, does nothing.\<close>

datatype up_op = Add "ProbeResult option" | AddPath "PathInfo option" | Take | Succeed | Fail

record up_run =
  ur_u :: Uploader
  ur_flight :: "(slice \<times> slice) option"
  ur_sent :: "UploadDataRequest list"

definition exec_op :: "(nat \<Rightarrow> nat \<Rightarrow> nat) \<Rightarrow> up_op \<Rightarrow> up_run \<Rightarrow> up_run go" where
  "exec_op grow x s =
     (case x of
        Add r \<Rightarrow> Ret (s\<lparr>ur_u := snd (AddProbeResult grow r (ur_u s))\<rparr>)
      | AddPath p \<Rightarrow> Ret (s\<lparr>ur_u := AddPathInfo grow p (ur_u s)\<rparr>)
      | Take \<Rightarrow>
          (case ur_flight s of
             Some _ \<Rightarrow> Ret s
           | None \<Rightarrow> go_bind (take_batch (ur_u s)) (\<lambda>(b, u). Ret (s\<lparr>ur_u := u, ur_flight := b\<rparr>)))
      | Succeed \<Rightarrow>
          (case ur_flight s of
             None \<Rightarrow> Ret s
           | Some b \<Rightarrow> Ret (s\<lparr>ur_flight := None, ur_sent := ur_sent s @ [request_of b (ur_u s)]\<rparr>))
      | Fail \<Rightarrow>
          (case ur_flight s of
             None \<Rightarrow> Ret s
           | Some b \<Rightarrow> go_bind (return_data grow b (ur_u s)) (\<lambda>u. Ret (s\<lparr>ur_u := u, ur_flight := None\<rparr>))))"

fun exec_ops :: "(nat \<Rightarrow> nat \<Rightarrow> nat) \<Rightarrow> up_op list \<Rightarrow> up_run \<Rightarrow> up_run go" where
  "exec_ops grow [] s = Ret s"
| "exec_ops grow (x # xs) s = go_bind (exec_op grow x s) (exec_ops grow xs)"

text \<open>The specification: two lists, a batch under way, and the batches sent.\<close>

record spec_queue =
  sq_results :: "ProbeResult option list"
  sq_paths :: "PathInfo option list"
  sq_flight :: "(ProbeResult option list \<times> PathInfo option list) option"
  sq_sent :: "(ProbeResult option list \<times> PathInfo option list) list"

definition keep_back :: "nat \<Rightarrow> 'a list \<Rightarrow> 'a list \<Rightarrow> 'a list" where
  "keep_back M b q = b @ (if length b + length q \<le> M then q else drop (length q - (M - length b)) q)"

definition spec_op :: "nat \<Rightarrow> nat \<Rightarrow> up_op \<Rightarrow> spec_queue \<Rightarrow> spec_queue" where
  "spec_op B M x s =
     (case x of
        Add r \<Rightarrow> s\<lparr>sq_results := sq_results s @ [r]\<rparr>
      | AddPath p \<Rightarrow> s\<lparr>sq_paths := sq_paths s @ [p]\<rparr>
      | Take \<Rightarrow>
          (if sq_flight s \<noteq> None \<or> (sq_results s = [] \<and> sq_paths s = []) then s
           else s\<lparr>sq_flight := Some (take B (sq_results s), sq_paths s), sq_results := drop B (sq_results s), sq_paths := []\<rparr>)
      | Succeed \<Rightarrow> (case sq_flight s of None \<Rightarrow> s | Some b \<Rightarrow> s\<lparr>sq_flight := None, sq_sent := sq_sent s @ [b]\<rparr>)
      | Fail \<Rightarrow>
          (case sq_flight s of None \<Rightarrow> s
           | Some (b, p) \<Rightarrow> s\<lparr>sq_flight := None, sq_results := keep_back M b (sq_results s), sq_paths := take 100 (p @ sq_paths s)\<rparr>))"

definition abs_run :: "up_run \<Rightarrow> spec_queue" where
  "abs_run s =
     \<lparr>sq_results = elems (up_arrays (ur_u s)) (up_probeResults (ur_u s)), sq_paths = elems (up_parrays (ur_u s)) (up_pathInfos (ur_u s)),
      sq_flight = map_option (\<lambda>b. (elems (up_arrays (ur_u s)) (fst b), elems (up_parrays (ur_u s)) (snd b))) (ur_flight s),
      sq_sent = map (\<lambda>r. (ud_ProbeResults r, ud_PathInfos r)) (ur_sent s)\<rparr>"

definition run_ok :: "nat \<Rightarrow> nat \<Rightarrow> up_run \<Rightarrow> bool" where
  "run_ok B M s \<longleftrightarrow> up_batchSize (ur_u s) = int B \<and> up_maxQueueSize (ur_u s) = int M
     \<and> slice_ok (up_arrays (ur_u s)) (up_probeResults (ur_u s)) \<and> slice_ok (up_parrays (ur_u s)) (up_pathInfos (ur_u s))
     \<and> (\<forall>b \<in> set_option (ur_flight s).
          slice_ok (up_arrays (ur_u s)) (fst b) \<and> before (fst b) (up_probeResults (ur_u s))
        \<and> slice_ok (up_parrays (ur_u s)) (snd b) \<and> before (snd b) (up_pathInfos (ur_u s)))"

lemma append_before:
  assumes "slice_ok h b" "before b s" "slice_append grow s xs h = (t, h')"
  shows "before b t"
  using assms by (auto simp: slice_append_def before_def slice_ok_def Let_def split: if_splits)

lemma exec_Add:
  assumes "run_ok B M s"
  shows "\<exists>s'. exec_op grow (Add r) s = Ret s' \<and> run_ok B M s' \<and> abs_run s' = spec_op B M (Add r) (abs_run s)"
proof -
  obtain q h where a: "slice_append grow (up_probeResults (ur_u s)) [r] (up_arrays (ur_u s)) = (q, h)" by (cases "slice_append grow (up_probeResults (ur_u s)) [r] (up_arrays (ur_u s))")
  with assms slice_append_elems[OF _ a] slice_append_frame[OF _ _ _ a] append_before[OF _ _ a] show ?thesis
    by (cases "ur_flight s") (auto simp: exec_op_def AddProbeResult_def run_ok_def abs_run_def spec_op_def)
qed

lemma exec_AddPath:
  assumes "run_ok B M s"
  shows "\<exists>s'. exec_op grow (AddPath p) s = Ret s' \<and> run_ok B M s' \<and> abs_run s' = spec_op B M (AddPath p) (abs_run s)"
proof -
  obtain q h where a: "slice_append grow (up_pathInfos (ur_u s)) [p] (up_parrays (ur_u s)) = (q, h)" by (cases "slice_append grow (up_pathInfos (ur_u s)) [p] (up_parrays (ur_u s))")
  with assms slice_append_elems[OF _ a] slice_append_frame[OF _ _ _ a] append_before[OF _ _ a] show ?thesis
    by (cases "ur_flight s") (auto simp: exec_op_def AddPathInfo_def run_ok_def abs_run_def spec_op_def)
qed

text \<open>Taking a batch: what is taken and what is left, and that they do not overlap.\<close>

lemma take_results_ok:
  assumes "slice_ok (up_arrays u) (up_probeResults u)" and "0 \<le> up_batchSize u"
  shows "\<exists>b u'. take_results u = Ret (b, u') \<and> slice_ok (up_arrays u') b \<and> slice_ok (up_arrays u') (up_probeResults u') \<and> before b (up_probeResults u')
     \<and> elems (up_arrays u') b = take (nat (up_batchSize u)) (elems (up_arrays u) (up_probeResults u))
     \<and> elems (up_arrays u') (up_probeResults u') = drop (nat (up_batchSize u)) (elems (up_arrays u) (up_probeResults u))
     \<and> u' = u\<lparr>up_probeResults := up_probeResults u', up_arrays := up_arrays u'\<rparr>"
proof (cases "up_batchSize u < int (sl_len (up_probeResults u))")
  case True
  then have n: "up_batchSize u \<le> int (sl_len (up_probeResults u))" by simp
  obtain b where b: "slice_upto (up_probeResults u) (up_batchSize u) = Ret b" "slice_ok (up_arrays u) b"
      "elems (up_arrays u) b = take (nat (up_batchSize u)) (elems (up_arrays u) (up_probeResults u))"
    using slice_upto_elems[OF assms n] by blast
  obtain q where q: "slice_from (up_probeResults u) (up_batchSize u) = Ret q" "slice_ok (up_arrays u) q"
      "elems (up_arrays u) q = drop (nat (up_batchSize u)) (elems (up_arrays u) (up_probeResults u))"
    using slice_from_elems[OF assms n] by blast
  have "before b q" using b(1) q(1) True assms(2) by (auto simp: slice_upto_def slice_from_def before_def split: if_splits)
  with True b q show ?thesis by (auto simp: take_results_def)
next
  case False
  obtain q h where m: "slice_make (nat (up_maxQueueSize u)) (up_arrays u) = (q, h)" by (cases "slice_make (nat (up_maxQueueSize u)) (up_arrays u)")
  have "length (elems (up_arrays u) (up_probeResults u)) \<le> nat (up_batchSize u)" using False assms by (simp add: length_elems)
  with False slice_make_ok[OF m] slice_make_frame[OF assms(1) m] show ?thesis by (auto simp: take_results_def m before_def)
qed

lemma exec_Take:
  assumes "run_ok B M s"
  shows "\<exists>s'. exec_op grow Take s = Ret s' \<and> run_ok B M s' \<and> abs_run s' = spec_op B M Take (abs_run s)"
proof (cases "ur_flight s \<noteq> None \<or> sl_len (up_probeResults (ur_u s)) = 0 \<and> sl_len (up_pathInfos (ur_u s)) = 0")
  case True
  with assms show ?thesis
    by (cases "ur_flight s") (auto simp: exec_op_def take_batch_def spec_op_def abs_run_def run_ok_def elems_empty)
next
  case False
  let ?u = "ur_u s"
  have ok: "slice_ok (up_arrays ?u) (up_probeResults ?u)" "slice_ok (up_parrays ?u) (up_pathInfos ?u)" "0 \<le> up_batchSize ?u" "up_batchSize ?u = int B"
    using assms by (simp_all add: run_ok_def)
  obtain b u1 where 1: "take_results ?u = Ret (b, u1)" "slice_ok (up_arrays u1) b" "slice_ok (up_arrays u1) (up_probeResults u1)" "before b (up_probeResults u1)"
      "elems (up_arrays u1) b = take B (elems (up_arrays ?u) (up_probeResults ?u))" "elems (up_arrays u1) (up_probeResults u1) = drop B (elems (up_arrays ?u) (up_probeResults ?u))"
      "u1 = ?u\<lparr>up_probeResults := up_probeResults u1, up_arrays := up_arrays u1\<rparr>"
    using take_results_ok[OF ok(1,3)] ok(4) by auto
  have same: "up_pathInfos u1 = up_pathInfos ?u" "up_parrays u1 = up_parrays ?u" "up_batchSize u1 = up_batchSize ?u" "up_maxQueueSize u1 = up_maxQueueSize ?u"
    by (subst 1(7), simp)+
  obtain q h where m: "slice_make 100 (up_parrays ?u) = (q, h)" by (cases "slice_make 100 (up_parrays ?u)")
  have ne: "\<not> (elems (up_arrays ?u) (up_probeResults ?u) = [] \<and> elems (up_parrays ?u) (up_pathInfos ?u) = [])"
    using False length_elems[OF ok(1)] length_elems[OF ok(2)] by auto
  have fl: "ur_flight s = None" using False by blast
  let ?s = "s\<lparr>ur_u := u1\<lparr>up_pathInfos := q, up_parrays := h\<rparr>, ur_flight := Some (b, up_pathInfos ?u)\<rparr>"
  have "exec_op grow Take s = Ret ?s" using False 1(1) same m by (auto simp: exec_op_def take_batch_def take_paths_def fl)
  moreover have "run_ok B M ?s"
    using assms 1(2-4) same slice_make_ok[OF m] slice_make_frame[OF ok(2) m] by (simp add: run_ok_def) (simp add: before_def)
  moreover have "abs_run ?s = spec_op B M Take (abs_run s)"
    using 1(5,6) slice_make_ok[OF m] slice_make_frame[OF ok(2) m] ne by (simp add: abs_run_def spec_op_def fl)
  ultimately show ?thesis by blast
qed


text \<open>Putting a batch back: the queue that results, for any batch and queue.\<close>

lemma return_results_ok:
  assumes "slice_ok (up_arrays u) (up_probeResults u)" "slice_ok (up_arrays u) b" "up_maxQueueSize u = int M"
  shows "\<exists>u'. return_results grow b u = Ret u' \<and> slice_ok (up_arrays u') (up_probeResults u')
     \<and> elems (up_arrays u') (up_probeResults u') = keep_back M (elems (up_arrays u) b) (elems (up_arrays u) (up_probeResults u))
     \<and> u' = u\<lparr>up_probeResults := up_probeResults u', up_arrays := up_arrays u'\<rparr>"
proof -
  let ?q = "up_probeResults u" and ?h = "up_arrays u"
  define kept where "kept = (if up_maxQueueSize u < int (sl_len b) + int (sl_len ?q)
        then let toKeep = up_maxQueueSize u - int (sl_len b) in
          if 0 < toKeep then go_bind (slice_from ?q (int (sl_len ?q) - toKeep)) (\<lambda>q. Ret (q, ?h))
          else Ret (slice_make (nat (up_maxQueueSize u)) ?h)
        else Ret (?q, ?h))"
  have "\<exists>q h. kept = Ret (q, h) \<and> slice_ok h b \<and> elems h b = elems ?h b
     \<and> elems h q = (if sl_len b + sl_len ?q \<le> M then elems ?h ?q else drop (sl_len ?q - (M - sl_len b)) (elems ?h ?q))"
  proof (cases "M < sl_len b + sl_len ?q \<and> sl_len b < M")
    case True
    then have n: "0 \<le> int (sl_len ?q) - (int M - int (sl_len b))" "int (sl_len ?q) - (int M - int (sl_len b)) \<le> int (sl_len ?q)" by simp_all
    have "nat (int (sl_len ?q) - (int M - int (sl_len b))) = sl_len ?q - (M - sl_len b)" using True by (simp add: nat_diff_distrib of_nat_diff)
    with slice_from_elems[OF assms(1) n] True assms(2) show ?thesis by (auto simp: kept_def assms(3) Let_def)
  next
    case False
    have "drop (sl_len ?q) (elems ?h ?q) = []" using assms(1) by (simp add: length_elems)
    with False assms(2) show ?thesis
      by (auto simp: kept_def assms(3) Let_def slice_make_def slice_ok_def elems_def nth_append)
  qed
  then obtain q h where k: "kept = Ret (q, h)" "slice_ok h b" "elems h b = elems ?h b"
    "elems h q = (if sl_len b + sl_len ?q \<le> M then elems ?h ?q else drop (sl_len ?q - (M - sl_len b)) (elems ?h ?q))" by blast
  obtain q' h' where a: "slice_append grow b (elems h q) h = (q', h')" by (cases "slice_append grow b (elems h q) h")
  have "return_results grow b u = Ret (u\<lparr>up_probeResults := q', up_arrays := h'\<rparr>)"
    using k(1) a by (simp add: return_results_def kept_def)
  moreover have "elems h' q' = keep_back M (elems ?h b) (elems ?h ?q)"
    using slice_append_elems[OF k(2) a] k(3,4) assms by (simp add: keep_back_def length_elems)
  ultimately show ?thesis using slice_append_elems[OF k(2) a] by simp
qed

lemma return_paths_ok:
  assumes "slice_ok (up_parrays u) p"
  shows "\<exists>u'. return_paths grow p u = Ret u' \<and> slice_ok (up_parrays u') (up_pathInfos u')
     \<and> elems (up_parrays u') (up_pathInfos u') = take 100 (elems (up_parrays u) p @ elems (up_parrays u) (up_pathInfos u))
     \<and> u' = u\<lparr>up_pathInfos := up_pathInfos u', up_parrays := up_parrays u'\<rparr>"
proof -
  obtain q h where a: "slice_append grow p (elems (up_parrays u) (up_pathInfos u)) (up_parrays u) = (q, h)"
    by (cases "slice_append grow p (elems (up_parrays u) (up_pathInfos u)) (up_parrays u)")
  note e = slice_append_elems[OF assms a]
  show ?thesis
  proof (cases "100 < sl_len q")
    case True
    then obtain t where "slice_upto q 100 = Ret t" "slice_ok h t" "elems h t = take 100 (elems h q)"
      using slice_upto_elems[of h q 100] e by auto
    with True e show ?thesis by (auto simp: return_paths_def a)
  next
    case False
    then have "length (elems h q) \<le> 100" using e length_elems by (metis not_less)
    then have "take 100 (elems h q) = elems h q" by simp
    with False e show ?thesis by (auto simp: return_paths_def a)
  qed
qed

lemma return_data_ok:
  assumes "slice_ok (up_arrays u) (up_probeResults u)" "slice_ok (up_arrays u) b" "slice_ok (up_parrays u) p" "up_maxQueueSize u = int M"
  shows "\<exists>u'. return_data grow (b, p) u = Ret u' \<and> slice_ok (up_arrays u') (up_probeResults u') \<and> slice_ok (up_parrays u') (up_pathInfos u')
     \<and> elems (up_arrays u') (up_probeResults u') = keep_back M (elems (up_arrays u) b) (elems (up_arrays u) (up_probeResults u))
     \<and> elems (up_parrays u') (up_pathInfos u') = take 100 (elems (up_parrays u) p @ elems (up_parrays u) (up_pathInfos u))
     \<and> u' = u\<lparr>up_probeResults := up_probeResults u', up_arrays := up_arrays u', up_pathInfos := up_pathInfos u', up_parrays := up_parrays u'\<rparr>"
proof -
  obtain u1 where 1: "return_results grow b u = Ret u1" "slice_ok (up_arrays u1) (up_probeResults u1)"
     "elems (up_arrays u1) (up_probeResults u1) = keep_back M (elems (up_arrays u) b) (elems (up_arrays u) (up_probeResults u))"
     "u1 = u\<lparr>up_probeResults := up_probeResults u1, up_arrays := up_arrays u1\<rparr>"
    using return_results_ok[OF assms(1,2,4)] by blast
  have s: "up_parrays u1 = up_parrays u" "up_pathInfos u1 = up_pathInfos u" by (subst 1(4), simp)+
  obtain u2 where 2: "return_paths grow p u1 = Ret u2" "slice_ok (up_parrays u2) (up_pathInfos u2)"
     "elems (up_parrays u2) (up_pathInfos u2) = take 100 (elems (up_parrays u) p @ elems (up_parrays u) (up_pathInfos u))"
     "u2 = u1\<lparr>up_pathInfos := up_pathInfos u2, up_parrays := up_parrays u2\<rparr>"
    using return_paths_ok[of u1 p] assms(3) unfolding s by blast
  have t: "up_arrays u2 = up_arrays u1" "up_probeResults u2 = up_probeResults u1" by (subst 2(4), simp)+
  have "u2 = u\<lparr>up_probeResults := up_probeResults u2, up_arrays := up_arrays u2, up_pathInfos := up_pathInfos u2, up_parrays := up_parrays u2\<rparr>"
    unfolding t by (subst 2(4), subst 1(4), simp)
  with 1 2 t show ?thesis by (simp add: return_data_def)
qed

lemma exec_finish:
  assumes "run_ok B M s" and "x = Succeed \<or> x = Fail"
  shows "\<exists>s'. exec_op grow x s = Ret s' \<and> run_ok B M s' \<and> abs_run s' = spec_op B M x (abs_run s)"
proof (cases "ur_flight s")
  case None
  with assms show ?thesis by (auto simp: exec_op_def spec_op_def abs_run_def)
next
  case (Some bp)
  then obtain b p where f: "ur_flight s = Some (b, p)" by (cases bp) auto
  show ?thesis
  proof (cases "x = Fail")
    case True
    have "slice_ok (up_arrays (ur_u s)) (up_probeResults (ur_u s))" "slice_ok (up_arrays (ur_u s)) b" "slice_ok (up_parrays (ur_u s)) p" "up_maxQueueSize (ur_u s) = int M"
      using assms(1) f by (simp_all add: run_ok_def)
    from return_data_ok[OF this, of grow] obtain u' where u': "return_data grow (b, p) (ur_u s) = Ret u'" "slice_ok (up_arrays u') (up_probeResults u')"
        "slice_ok (up_parrays u') (up_pathInfos u')" "elems (up_arrays u') (up_probeResults u') = keep_back M (elems (up_arrays (ur_u s)) b) (elems (up_arrays (ur_u s)) (up_probeResults (ur_u s)))"
        "elems (up_parrays u') (up_pathInfos u') = take 100 (elems (up_parrays (ur_u s)) p @ elems (up_parrays (ur_u s)) (up_pathInfos (ur_u s)))"
        "u' = (ur_u s)\<lparr>up_probeResults := up_probeResults u', up_arrays := up_arrays u', up_pathInfos := up_pathInfos u', up_parrays := up_parrays u'\<rparr>" by blast
    have "up_batchSize u' = up_batchSize (ur_u s)" "up_maxQueueSize u' = up_maxQueueSize (ur_u s)" by (subst u'(6), simp)+
    with u'(1-5) assms(1) f True show ?thesis by (auto simp: exec_op_def spec_op_def abs_run_def run_ok_def)
  next
    case False
    with assms f show ?thesis by (auto simp: exec_op_def spec_op_def abs_run_def run_ok_def request_of_def)
  qed
qed

lemma exec_op_refines:
  assumes "run_ok B M s"
  shows "\<exists>s'. exec_op grow x s = Ret s' \<and> run_ok B M s' \<and> abs_run s' = spec_op B M x (abs_run s)"
  using assms exec_Add exec_AddPath exec_Take exec_finish by (cases x) metis+

lemma exec_ops_refines:
  "run_ok B M s \<Longrightarrow> \<exists>s'. exec_ops grow xs s = Ret s' \<and> run_ok B M s' \<and> abs_run s' = fold (spec_op B M) xs (abs_run s)"
proof (induction xs arbitrary: s)
  case (Cons x xs)
  obtain s1 where 1: "exec_op grow x s = Ret s1" "run_ok B M s1" "abs_run s1 = spec_op B M x (abs_run s)"
    using exec_op_refines[OF Cons.prems] by blast
  from Cons.IH[OF 1(2)] 1 show ?case by auto
qed simp

definition empty_spec :: spec_queue where
  "empty_spec = \<lparr>sq_results = [], sq_paths = [], sq_flight = None, sq_sent = []\<rparr>"

lemma NewUploader_ok:
  "NewUploader addr aid ms (int B) (int M) = Ret u \<Longrightarrow>
     run_ok B M \<lparr>ur_u = u, ur_flight = None, ur_sent = []\<rparr> \<and> abs_run \<lparr>ur_u = u, ur_flight = None, ur_sent = []\<rparr> = empty_spec"
  by (auto simp: NewUploader_def slice_make_def run_ok_def abs_run_def empty_spec_def slice_ok_def elems_def)

text \<open>C5: as long as uploads do not overlap, the uploader implements a queue of lists. Whatever
  the sequence of additions, uploads, successes and failures, and however the runtime
  grows arrays, no operation panics, and the queues, the batch under way and the requests
  sent are those of the specification.\<close>

theorem uploader_refines_queue:
  assumes "NewUploader addr aid ms (int B) (int M) = Ret u"
  shows "\<exists>s. exec_ops grow xs \<lparr>ur_u = u, ur_flight = None, ur_sent = []\<rparr> = Ret s \<and> abs_run s = fold (spec_op B M) xs empty_spec"
  using exec_ops_refines NewUploader_ok[OF assms] by metis


subsection \<open>Order, loss and bounds\<close>

definition added :: "up_op list \<Rightarrow> ProbeResult option list" where
  "added xs = List.map_filter (\<lambda>x. case x of Add r \<Rightarrow> Some r | _ \<Rightarrow> None) xs"

lemma added_simps [simp]:
  "added [] = []" "added (Add r # xs) = r # added xs" "added (AddPath p # xs) = added xs" "added (Take # xs) = added xs"
  "added (Succeed # xs) = added xs" "added (Fail # xs) = added xs"
  by (simp_all add: added_def List.map_filter_simps)

text \<open>Everything that was added and not dropped, in the order sent, under way, waiting.\<close>

definition pipeline :: "spec_queue \<Rightarrow> ProbeResult option list" where
  "pipeline s = concat (map fst (sq_sent s)) @ (case sq_flight s of None \<Rightarrow> [] | Some b \<Rightarrow> fst b) @ sq_results s"

lemma keep_back_subseq: "subseq (keep_back M b q) (b @ q)"
  by (simp add: keep_back_def list_emb_append_mono suffix_imp_subseq[OF suffix_drop])

lemma keep_back_length: "length (keep_back M b q) \<le> max M (length b)"
  by (auto simp: keep_back_def)

lemma pipeline_op: "subseq (pipeline (spec_op B M x s)) (pipeline s @ added [x])"
    "x \<noteq> Fail \<Longrightarrow> pipeline (spec_op B M x s) = pipeline s @ added [x]"
  by (cases x; auto simp: spec_op_def pipeline_def keep_back_subseq list_emb_append_mono split: option.split)+

lemma added_append: "added (xs @ ys) = added xs @ added ys"
  by (simp add: added_def List.map_filter_def)

lemma pipeline_ops:
  "subseq (pipeline (fold (spec_op B M) xs s)) (pipeline s @ added xs)"
  "Fail \<notin> set xs \<Longrightarrow> pipeline (fold (spec_op B M) xs s) = pipeline s @ added xs"
proof (induction xs rule: rev_induct)
  case (snoc x xs)
  { case 1
    have "subseq (pipeline (spec_op B M x (fold (spec_op B M) xs s))) (pipeline (fold (spec_op B M) xs s) @ added [x])" by (rule pipeline_op)
    also have "subseq \<dots> ((pipeline s @ added xs) @ added [x])" using snoc.IH(1) by (intro list_emb_append_mono) auto
    finally show ?case by (simp add: added_append) }
  { case 2
    then have "x \<noteq> Fail" "Fail \<notin> set xs" by auto
    then show ?case using snoc.IH(2) pipeline_op(2)[of x B M "fold (spec_op B M) xs s"] by (simp add: added_append[of xs "[x]"]) }
qed simp_all

text \<open>Without overlapping uploads the uploader is first in, first out. What has been sent,
  then what is under way, then what is waiting is a subsequence of what was added: nothing
  is repeated or reordered, and if no upload failed nothing is missing.\<close>

theorem uploader_fifo:
  assumes "NewUploader addr aid ms (int B) (int M) = Ret u"
    and "exec_ops grow xs \<lparr>ur_u = u, ur_flight = None, ur_sent = []\<rparr> = Ret s"
  shows "subseq (concat (map ud_ProbeResults (ur_sent s)) @ (case ur_flight s of None \<Rightarrow> [] | Some b \<Rightarrow> elems (up_arrays (ur_u s)) (fst b))
           @ elems (up_arrays (ur_u s)) (up_probeResults (ur_u s))) (added xs)
     \<and> (Fail \<notin> set xs \<longrightarrow> concat (map ud_ProbeResults (ur_sent s)) @ (case ur_flight s of None \<Rightarrow> [] | Some b \<Rightarrow> elems (up_arrays (ur_u s)) (fst b))
           @ elems (up_arrays (ur_u s)) (up_probeResults (ur_u s)) = added xs)"
proof -
  have "pipeline (abs_run s) = concat (map ud_ProbeResults (ur_sent s)) @ (case ur_flight s of None \<Rightarrow> [] | Some b \<Rightarrow> elems (up_arrays (ur_u s)) (fst b))
           @ elems (up_arrays (ur_u s)) (up_probeResults (ur_u s))"
    by (simp add: pipeline_def abs_run_def comp_def split: option.split)
  moreover have "abs_run s = fold (spec_op B M) xs empty_spec"
    using exec_ops_refines[of B M _ grow xs] NewUploader_ok[OF assms(1)] assms(2) by fastforce
  moreover have "pipeline empty_spec = []" by (simp add: pipeline_def empty_spec_def)
  ultimately show ?thesis
    using pipeline_ops[where B = B and M = M and xs = xs and s = empty_spec] by simp
qed

lemma flight_bound_op:
  "sq_flight (spec_op B M x s) = Some b \<Longrightarrow> (\<And>b. sq_flight s = Some b \<Longrightarrow> length (fst b) \<le> B) \<Longrightarrow> length (fst b) \<le> B"
  by (cases x) (auto simp: spec_op_def split: if_splits option.splits prod.splits)

lemma flight_bound: "sq_flight (fold (spec_op B M) xs empty_spec) = Some b \<Longrightarrow> length (fst b) \<le> B"
proof (induction xs arbitrary: b rule: rev_induct)
  case (snoc x xs)
  then show ?case using flight_bound_op[of B M x "fold (spec_op B M) xs empty_spec"] by simp
qed (simp add: empty_spec_def)

lemma keep_back_drops:
  "\<exists>n \<le> length q. keep_back M b q = b @ drop n q \<and> (n = 0 \<or> length (keep_back M b q) = max M (length b))"
proof (cases "length b + length q \<le> M")
  case True
  then show ?thesis by (intro exI[of _ 0]) (simp add: keep_back_def)
next
  case False
  then show ?thesis by (intro exI[of _ "length q - (M - length b)"]) (auto simp: keep_back_def)
qed

text \<open>C27: after any run without overlapping uploads, putting the batch of a failed upload back returns.
  The batch, of at most the batch size, is then at the front of the queue of results. Of the
  results that waited behind it only the oldest are dropped, and no more than needed: the queue is
  no longer than the maximal queue size (or the batch alone, when that is longer), and if
  anything was dropped it has exactly that length. Of the path infos the first 100 are kept, those
  of the failed upload first.\<close>

theorem failed_upload_bounds:
  assumes "NewUploader addr aid ms (int B) (int M) = Ret u"
    and "exec_ops grow xs \<lparr>ur_u = u, ur_flight = None, ur_sent = []\<rparr> = Ret s" and "ur_flight s = Some b"
  shows "\<exists>u' n. return_data grow b (ur_u s) = Ret u' \<and> sl_len (fst b) \<le> B
    \<and> elems (up_arrays u') (up_probeResults u')
        = elems (up_arrays (ur_u s)) (fst b) @ drop n (elems (up_arrays (ur_u s)) (up_probeResults (ur_u s)))
    \<and> n \<le> sl_len (up_probeResults (ur_u s))
    \<and> sl_len (up_probeResults u') \<le> max M (sl_len (fst b)) \<and> (n = 0 \<or> sl_len (up_probeResults u') = max M (sl_len (fst b)))
    \<and> elems (up_parrays u') (up_pathInfos u')
        = take 100 (elems (up_parrays (ur_u s)) (snd b) @ elems (up_parrays (ur_u s)) (up_pathInfos (ur_u s)))
    \<and> sl_len (up_pathInfos u') \<le> 100"
proof -
  have ok: "run_ok B M s" and f: "abs_run s = fold (spec_op B M) xs empty_spec"
    using exec_ops_refines[of B M _ grow xs] NewUploader_ok[OF assms(1)] assms(2) by fastforce+
  obtain r p where b: "b = (r, p)" by (cases b)
  let ?u = "ur_u s"
  let ?R = "elems (up_arrays ?u) r" and ?Q = "elems (up_arrays ?u) (up_probeResults ?u)"
  have R: "length ?R \<le> B" using flight_bound[of B M xs] assms(3) by (simp add: f[symmetric]) (simp add: abs_run_def b)
  have s: "slice_ok (up_arrays ?u) (up_probeResults ?u)" "slice_ok (up_arrays ?u) r" "slice_ok (up_parrays ?u) p" "up_maxQueueSize ?u = int M"
    using ok assms(3) by (simp_all add: run_ok_def b)
  from return_data_ok[OF this, of grow] obtain u' where u': "return_data grow (r, p) ?u = Ret u'"
    "slice_ok (up_arrays u') (up_probeResults u')" "slice_ok (up_parrays u') (up_pathInfos u')"
    "elems (up_arrays u') (up_probeResults u') = keep_back M ?R ?Q"
    "elems (up_parrays u') (up_pathInfos u') = take 100 (elems (up_parrays ?u) p @ elems (up_parrays ?u) (up_pathInfos ?u))" by blast
  obtain n where n: "n \<le> length ?Q" "keep_back M ?R ?Q = ?R @ drop n ?Q" "n = 0 \<or> length (keep_back M ?R ?Q) = max M (length ?R)"
    using keep_back_drops by blast
  have "sl_len (up_probeResults u') = length (keep_back M ?R ?Q)" "sl_len r = length ?R" "sl_len (up_probeResults ?u) = length ?Q"
    "sl_len (up_pathInfos u') = length (elems (up_parrays u') (up_pathInfos u'))"
    using s u'(2-4) by (simp_all add: length_elems flip: u'(4))
  with u' n R keep_back_length[of M ?R ?Q] show ?thesis
    unfolding b fst_conv snd_conv by (intro exI[of _ u'] exI[of _ n]) simp
qed


subsection \<open>Overlapping uploads\<close>

definition add_all :: "(nat \<Rightarrow> nat \<Rightarrow> nat) \<Rightarrow> ProbeResult option list \<Rightarrow> Uploader \<Rightarrow> Uploader" where
  "add_all grow xs u = fold (\<lambda>r u. snd (AddProbeResult grow r u)) xs u"

lemma add_all_layout:
  assumes "NewUploader addr aid ms (int B) (int M) = Ret u" and "length xs \<le> M"
  shows "add_all grow xs u = u\<lparr>up_probeResults := \<lparr>sl_arr = 0, sl_off = 0, sl_len = length xs, sl_cap = M\<rparr>,
     up_arrays := [xs @ replicate (M - length xs) None]\<rparr>"
  using assms(2)
proof (induction xs rule: rev_induct)
  case Nil
  then show ?case using assms(1) by (auto simp: add_all_def NewUploader_def slice_make_def)
next
  case (snoc x xs)
  then have "replicate (M - length xs) None = (None :: ProbeResult option) # replicate (M - Suc (length xs)) None"
    by (metis Suc_diff_le diff_Suc_Suc length_append_singleton replicate_Suc)
  with snoc show ?case
    by (simp add: add_all_def AddProbeResult_def slice_append_def overwrite_def Let_def)
qed

text \<open>C28: two uploads that overlap lose results. With at least three batches waiting, two uploads
  take the first and the second batch; when the first fails and puts its batch back, append
  moves the waiting results down over the array cells of the second batch. The second
  request then carries the third batch, which also stays queued, and the second batch is
  neither sent nor queued.\<close>

theorem overlapping_uploads_lose_batch:
  assumes "NewUploader addr aid ms (int B) (int M) = Ret u0" and "0 < B" and "3 * B \<le> length xs" and "length xs \<le> M"
  shows "\<exists>b1 b2 u2 u3 u4. take_batch (add_all grow xs u0) = Ret (Some b1, u2) \<and> take_batch u2 = Ret (Some b2, u3)
     \<and> ud_ProbeResults (request_of b2 u3) = take B (drop B xs)
     \<and> return_data grow b1 u3 = Ret u4
     \<and> ud_ProbeResults (request_of b2 u4) = take B (drop (2 * B) xs)
     \<and> elems (up_arrays u4) (up_probeResults u4) = take B xs @ drop (2 * B) xs"
proof -
  let ?A = "xs @ replicate (M - length xs) None" and ?n = "length xs"
  let ?S = "\<lambda>i n. \<lparr>sl_arr = 0, sl_off = i, sl_len = n, sl_cap = M - i\<rparr>"
  have u: "up_batchSize u0 = int B" "up_maxQueueSize u0 = int M" "up_pathInfos u0 = \<lparr>sl_arr = 0, sl_off = 0, sl_len = 0, sl_cap = 100\<rparr>"
      "up_parrays u0 = [replicate 100 None]"
    using assms(1) by (auto simp: NewUploader_def slice_make_def)
  define u1 where "u1 = add_all grow xs u0"
  have u1: "u1 = u0\<lparr>up_probeResults := ?S 0 ?n, up_arrays := [?A]\<rparr>" using add_all_layout[OF assms(1,4)] by (simp add: u1_def)
  define u2 where "u2 = u1\<lparr>up_probeResults := ?S B (?n - B), up_pathInfos := \<lparr>sl_arr = 1, sl_off = 0, sl_len = 0, sl_cap = 100\<rparr>,
    up_parrays := [replicate 100 None, replicate 100 None]\<rparr>"
  define u3 where "u3 = u1\<lparr>up_probeResults := ?S (2 * B) (?n - 2 * B), up_pathInfos := \<lparr>sl_arr = Suc (Suc 0), sl_off = 0, sl_len = 0, sl_cap = 100\<rparr>,
    up_parrays := [replicate 100 None, replicate 100 None, replicate 100 None]\<rparr>"
  let ?b1 = "(?S 0 B, up_pathInfos u1)" and ?b2 = "(?S B B, up_pathInfos u2)"
  have 1: "take_batch u1 = Ret (Some ?b1, u2)"
    using assms(2-4) by (auto simp: take_batch_def take_results_def take_paths_def u1 u2_def u slice_upto_def slice_from_def slice_make_def)
  have 2: "take_batch u2 = Ret (Some ?b2, u3)"
    using assms(2-4) by (simp add: take_batch_def take_results_def take_paths_def u1 u2_def u3_def u slice_upto_def slice_from_def slice_make_def mult_2[symmetric])
  let ?A' = "take B xs @ drop (2 * B) xs @ drop (?n - B) ?A"
  have e: "elems [?A] (?S (2 * B) (?n - 2 * B)) = drop (2 * B) xs" "elems [?A] (?S B B) = take B (drop B xs)"
    using assms(2-4) by (simp_all add: elems_def)
  have ow: "overwrite B (drop (2 * B) xs) ?A = ?A'" using assms(3) by (simp add: overwrite_def)
  have rr: "return_results grow (?S 0 B) u3 = Ret (u3\<lparr>up_probeResults := ?S 0 (?n - B), up_arrays := [?A']\<rparr>)"
    using assms(2-4) e ow by (simp add: return_results_def u3_def u1 u slice_append_def Let_def)
  have "\<exists>u4. return_data grow ?b1 u3 = Ret u4 \<and> up_arrays u4 = [?A'] \<and> up_probeResults u4 = ?S 0 (?n - B)"
    unfolding return_data_def fst_conv snd_conv rr go_bind.simps by (simp add: return_paths_def u3_def u1 u slice_append_def elems_def overwrite_def Let_def)
  then obtain u4 where 4: "return_data grow ?b1 u3 = Ret u4" "up_arrays u4 = [?A']" "up_probeResults u4 = ?S 0 (?n - B)" by blast
  have "ud_ProbeResults (request_of ?b2 u3) = take B (drop B xs)" using e by (simp add: request_of_def u3_def u1)
  moreover have "ud_ProbeResults (request_of ?b2 u4) = take B (drop (2 * B) xs)" using assms(3) by (simp add: request_of_def 4 elems_def)
  moreover have "elems (up_arrays u4) (up_probeResults u4) = take B xs @ drop (2 * B) xs" using assms(3) by (simp add: 4 elems_def)
  ultimately show ?thesis using 1 2 4(1) unfolding u1_def by blast
qed

subsection \<open>Stop\<close>

text \<open>Stop, the upload loop and the other users of the mutex as threads. The loop is in its
  select, at the lock of one of uploadData's critical sections, inside one, or between
  them (connecting, sending); the flag tells the final upload after cancellation. The wait
  group counts the loop.\<close>

datatype holder = Free | ByStop | ByLoop | ByOther
datatype stop_pc = SCalled | SLocked | SWaiting | SReturned
datatype loop_pc = LSelect | LLock bool | LHeld bool | LUnlocked bool | LEnded

record stop_world =
  sw_mutex :: holder
  sw_cancelled :: bool
  sw_running :: bool
  sw_wg :: nat
  sw_stop :: stop_pc
  sw_loop :: loop_pc

definition stop_start :: stop_world where
  "stop_start = \<lparr>sw_mutex = Free, sw_cancelled = False, sw_running = True, sw_wg = 1, sw_stop = SCalled, sw_loop = LSelect\<rparr>"

inductive stop_step :: "stop_world \<Rightarrow> stop_world \<Rightarrow> bool" where
  stop_lock: "sw_stop s = SCalled \<Longrightarrow> sw_mutex s = Free \<Longrightarrow> stop_step s (s\<lparr>sw_stop := SLocked, sw_mutex := ByStop\<rparr>)"
| stop_not_running: "sw_stop s = SLocked \<Longrightarrow> \<not> sw_running s \<Longrightarrow> stop_step s (s\<lparr>sw_stop := SReturned, sw_mutex := Free\<rparr>)"
| stop_cancel: "sw_stop s = SLocked \<Longrightarrow> sw_running s \<Longrightarrow> stop_step s (s\<lparr>sw_stop := SWaiting, sw_cancelled := True\<rparr>)"
| stop_waited: "sw_stop s = SWaiting \<Longrightarrow> sw_wg s = 0 \<Longrightarrow> stop_step s (s\<lparr>sw_stop := SReturned, sw_running := False, sw_mutex := Free\<rparr>)"
| loop_tick: "sw_loop s = LSelect \<Longrightarrow> stop_step s (s\<lparr>sw_loop := LLock False\<rparr>)"
| loop_done: "sw_loop s = LSelect \<Longrightarrow> sw_cancelled s \<Longrightarrow> stop_step s (s\<lparr>sw_loop := LLock True\<rparr>)"
| loop_lock: "sw_loop s = LLock f \<Longrightarrow> sw_mutex s = Free \<Longrightarrow> stop_step s (s\<lparr>sw_loop := LHeld f, sw_mutex := ByLoop\<rparr>)"
| loop_unlock: "sw_loop s = LHeld f \<Longrightarrow> stop_step s (s\<lparr>sw_loop := LUnlocked f, sw_mutex := Free\<rparr>)"
| loop_relock: "sw_loop s = LUnlocked f \<Longrightarrow> stop_step s (s\<lparr>sw_loop := LLock f\<rparr>)"
| loop_next: "sw_loop s = LUnlocked False \<Longrightarrow> stop_step s (s\<lparr>sw_loop := LSelect\<rparr>)"
| loop_end: "sw_loop s = LUnlocked True \<Longrightarrow> stop_step s (s\<lparr>sw_loop := LEnded, sw_wg := sw_wg s - 1\<rparr>)"
| other_lock: "sw_mutex s = Free \<Longrightarrow> stop_step s (s\<lparr>sw_mutex := ByOther\<rparr>)"
| other_unlock: "sw_mutex s = ByOther \<Longrightarrow> stop_step s (s\<lparr>sw_mutex := Free\<rparr>)"

inductive_cases stop_stepE: "stop_step s s'"

definition stop_inv :: "stop_world \<Rightarrow> bool" where
  "stop_inv s \<longleftrightarrow> sw_stop s \<noteq> SReturned \<and> sw_running s \<and> sw_wg s = 1
     \<and> (sw_stop s \<in> {SLocked, SWaiting} \<longrightarrow> sw_mutex s = ByStop) \<and> (sw_cancelled s \<longrightarrow> sw_stop s = SWaiting)
     \<and> (\<forall>f. sw_loop s = LHeld f \<longrightarrow> sw_mutex s = ByLoop) \<and> (sw_loop s = LLock True \<longrightarrow> sw_cancelled s)
     \<and> sw_loop s \<notin> {LHeld True, LUnlocked True, LEnded}"

lemma stop_inv_step: "stop_step s s' \<Longrightarrow> stop_inv s \<Longrightarrow> stop_inv s'"
  by (erule stop_stepE) (auto simp: stop_inv_def)

text \<open>C30: Stop of a running uploader never returns. In every interleaving with the upload loop and
  the other users of the mutex Stop has not returned, and once it waits for the loop it
  holds the mutex for good: the loop's final upload and every later AddProbeResult block.\<close>

theorem Uploader_Stop_never_returns:
  assumes "stop_step\<^sup>*\<^sup>* stop_start s"
  shows "sw_stop s \<noteq> SReturned \<and> sw_loop s \<noteq> LEnded
     \<and> (sw_stop s = SWaiting \<longrightarrow> (\<forall>s'. stop_step\<^sup>*\<^sup>* s s' \<longrightarrow> sw_stop s' = SWaiting \<and> sw_mutex s' = ByStop))"
proof -
  have inv: "stop_inv s'" if "stop_step\<^sup>*\<^sup>* t s'" "stop_inv t" for t s'
    using that by (induction) (auto intro: stop_inv_step)
  have s: "stop_inv s" using inv[OF assms] by (simp add: stop_inv_def stop_start_def)
  have wait: "sw_stop s' = SWaiting" if "stop_step\<^sup>*\<^sup>* s s'" "sw_stop s = SWaiting" for s'
    using that
  proof (induction)
    case (step x y)
    then have "stop_inv x" using inv s by blast
    with step show ?case by (auto elim!: stop_stepE simp: stop_inv_def)
  qed
  from wait inv s show ?thesis unfolding stop_inv_def by (metis insertCI)
qed

text \<open>Close, once its call of Stop has returned with the given state.\<close>

definition Uploader_Close :: "string option \<Rightarrow> Uploader \<Rightarrow> unit res \<times> Uploader" where
  "Uploader_Close close_err u =
     (if up_connected u then (case close_err of Some e \<Rightarrow> (Inl e, u) | None \<Rightarrow> (Inr (), drop_connection u)) else (Inr (), u))"


subsection \<open>Concrete uploads\<close>

definition sample_rid :: RnicIdentifier where
  "sample_rid = \<lparr>rid_Gid = '''', rid_Qpn = 0, rid_IpAddress = '''', rid_HostName = '''', rid_TorId = '''', rid_DeviceName = ''''\<rparr>"

definition sample_tuple :: ProbeFiveTuple where
  "sample_tuple = \<lparr>ft_SrcGid = '''', ft_SrcQpn = 0, ft_DstGid = '''', ft_DstQpn = 0, ft_FlowLabel = 0\<rparr>"

definition sample_result :: "int \<Rightarrow> ProbeResult option" where
  "sample_result n = Some \<lparr>pr_SourceRnic = sample_rid, pr_DestinationRnic = sample_rid, pr_T1 = None, pr_T2 = None, pr_T3 = None,
     pr_T4 = None, pr_T5 = None, pr_T6 = None, pr_NetworkRtt = n, pr_ProberDelay = 0, pr_ResponderDelay = 0, pr_Status = STATUS_OK,
     pr_FiveTuple = sample_tuple, pr_ProbeType = ''''\<rparr>"

definition sample_ops :: "up_op list" where
  "sample_ops = [Add (sample_result 1), Add (sample_result 2), Add (sample_result 3), Take, Add (sample_result 4), Fail, Take, Succeed, Take]"

lemma sample_uploader: "\<exists>u. NewUploader ''a'' ''b'' 10 (int 2) (int 4) = Ret u"
  by (simp add: NewUploader_def split: prod.split)

lemma sample_spec:
  "fold (spec_op 2 4) sample_ops empty_spec =
     \<lparr>sq_results = [], sq_paths = [], sq_flight = Some ([sample_result 3, sample_result 4], []), sq_sent = [([sample_result 1, sample_result 2], [])]\<rparr>"
  by (simp add: sample_ops_def empty_spec_def spec_op_def keep_back_def)

lemma sample_run:
  "\<exists>u s. NewUploader ''a'' ''b'' 10 (int 2) (int 4) = Ret u
     \<and> exec_ops max sample_ops \<lparr>ur_u = u, ur_flight = None, ur_sent = []\<rparr> = Ret s \<and> abs_run s = fold (spec_op 2 4) sample_ops empty_spec"
  using sample_uploader exec_ops_refines NewUploader_ok by metis

theorem uploader_refines_queue_witness:
  "\<exists>u s. NewUploader ''a'' ''b'' 10 (int 2) (int 4) = Ret u \<and> exec_ops max sample_ops \<lparr>ur_u = u, ur_flight = None, ur_sent = []\<rparr> = Ret s
     \<and> sq_sent (abs_run s) = [([sample_result 1, sample_result 2], [])]"
proof -
  obtain u where u: "NewUploader ''a'' ''b'' 10 (int 2) (int 4) = Ret u" using sample_uploader by blast
  from uploader_refines_queue[OF u, of max sample_ops] u show ?thesis by (auto simp: sample_spec)
qed

theorem uploader_fifo_witness:
  "\<exists>(s :: up_run) b. concat (map ud_ProbeResults (ur_sent s)) = [sample_result 1, sample_result 2] \<and> ur_flight s = Some b
     \<and> subseq ([sample_result 1, sample_result 2] @ elems (up_arrays (ur_u s)) (fst b) @ elems (up_arrays (ur_u s)) (up_probeResults (ur_u s))) (added sample_ops)"
proof -
  obtain u s where r: "NewUploader ''a'' ''b'' 10 (int 2) (int 4) = Ret u" "exec_ops max sample_ops \<lparr>ur_u = u, ur_flight = None, ur_sent = []\<rparr> = Ret s"
      "abs_run s = fold (spec_op 2 4) sample_ops empty_spec" using sample_run by blast
  have "map (\<lambda>r. (ud_ProbeResults r, ud_PathInfos r)) (ur_sent s) = [([sample_result 1, sample_result 2], [])]"
    using arg_cong[OF r(3), of sq_sent] by (simp add: sample_spec abs_run_def)
  then have "concat (map ud_ProbeResults (ur_sent s)) = [sample_result 1, sample_result 2]" by auto
  moreover obtain b where "ur_flight s = Some b" using arg_cong[OF r(3), of sq_flight] by (auto simp: sample_spec abs_run_def)
  ultimately show ?thesis using uploader_fifo[OF r(1,2)] by - (intro exI[of _ s] exI[of _ b], simp)
qed

theorem failed_upload_bounds_witness:
  "\<exists>(s :: up_run) b u'. ur_flight s = Some b \<and> return_data max b (ur_u s) = Ret u' \<and> sl_len (up_probeResults u') \<le> 4 \<and> sl_len (up_pathInfos u') \<le> 100"
proof -
  obtain u s where r: "NewUploader ''a'' ''b'' 10 (int 2) (int 4) = Ret u" "exec_ops max sample_ops \<lparr>ur_u = u, ur_flight = None, ur_sent = []\<rparr> = Ret s"
      "abs_run s = fold (spec_op 2 4) sample_ops empty_spec" using sample_run by blast
  obtain b where b: "ur_flight s = Some b" using arg_cong[OF r(3), of sq_flight] by (auto simp: sample_spec abs_run_def)
  from failed_upload_bounds[OF r(1,2) b] obtain u' where "return_data max b (ur_u s) = Ret u'" "sl_len (fst b) \<le> 2"
    "sl_len (up_probeResults u') \<le> max 4 (sl_len (fst b))" "sl_len (up_pathInfos u') \<le> 100" by blast
  with b show ?thesis by (intro exI[of _ s] exI[of _ b] exI[of _ u']) simp
qed

theorem overlapping_uploads_lose_batch_witness:
  "\<exists>u0 b1 b2 u2 u3 u4. NewUploader ''a'' ''b'' 10 (int 1) (int 3) = Ret u0
     \<and> take_batch (add_all max [sample_result 1, sample_result 2, sample_result 3] u0) = Ret (Some b1, u2) \<and> take_batch u2 = Ret (Some b2, u3)
     \<and> return_data max b1 u3 = Ret u4 \<and> ud_ProbeResults (request_of b2 u4) = [sample_result 3]
     \<and> elems (up_arrays u4) (up_probeResults u4) = [sample_result 1, sample_result 3]"
proof -
  obtain u0 where u0: "NewUploader ''a'' ''b'' 10 (int 1) (int 3) = Ret u0" by (simp add: NewUploader_def slice_make_def)
  from overlapping_uploads_lose_batch[OF u0, of "[sample_result 1, sample_result 2, sample_result 3]" max] u0 show ?thesis by auto
qed

text \<open>A run in which Stop waits and the loop is at the lock of its final upload.\<close>

theorem Uploader_Stop_never_returns_witness:
  "\<exists>s. stop_step\<^sup>*\<^sup>* stop_start s \<and> sw_stop s = SWaiting \<and> sw_loop s = LLock True \<and> sw_mutex s = ByStop"
proof -
  let ?s1 = "stop_start\<lparr>sw_stop := SLocked, sw_mutex := ByStop\<rparr>"
  let ?s2 = "?s1\<lparr>sw_stop := SWaiting, sw_cancelled := True\<rparr>" and ?s3 = "?s1\<lparr>sw_stop := SWaiting, sw_cancelled := True, sw_loop := LLock True\<rparr>"
  have "stop_step stop_start ?s1" by (rule stop_lock) (simp_all add: stop_start_def)
  moreover have "stop_step ?s1 ?s2" by (rule stop_cancel) (simp_all add: stop_start_def)
  moreover have "stop_step ?s2 ?s3" using loop_done[of ?s2] by (simp add: stop_start_def)
  ultimately have r: "stop_step\<^sup>*\<^sup>* stop_start ?s3" by (meson converse_rtranclp_into_rtranclp rtranclp.rtrancl_refl)
  from Uploader_Stop_never_returns[OF r] have "sw_mutex ?s3 = ByStop" by simp
  with r show ?thesis by (intro exI[of _ ?s3]) simp
qed


end
