(* ===== verification/Analyzer.thy ===== *)
theory Analyzer
  imports Uploader
begin

text \<open>
  The analyzer (internal/analyzer): its upload handler, the storage behind it, which so far
  stores nothing, and the check on new data. The handler is the other end of the uploader's
  call.
\<close>

text \<open>Both store functions only log; logging reads through the pointer.\<close>

definition StoreProbeResult :: "ProbeResult option \<Rightarrow> string option go" where
  "StoreProbeResult result = (case result of None \<Rightarrow> Panic ''nil pointer dereference: result.SourceRnic'' | Some _ \<Rightarrow> Ret None)"

definition StorePathInfo :: "PathInfo option \<Rightarrow> string option go" where
  "StorePathInfo pathInfo = (case pathInfo of None \<Rightarrow> Panic ''nil pointer dereference: pathInfo.FiveTuple'' | Some _ \<Rightarrow> Ret None)"

definition GetRecentProbeResults :: "ProbeResult option list res" where
  "GetRecentProbeResults = Inr []"

fun store_all :: "('a \<Rightarrow> string option go) \<Rightarrow> 'a list \<Rightarrow> unit go" where
  "store_all f [] = Ret ()"
| "store_all f (x # xs) = go_bind (f x) (\<lambda>_. store_all f xs)"

text \<open>AnalyzeNewData: the number of timeouts and whether the warning is logged. The quotient of two
  counts below 2 to the 50 exceeds the float 0.1 exactly when ten times the first exceeds
  the second.\<close>

definition AnalyzeNewData :: "ProbeResult option list \<Rightarrow> (nat \<times> bool) go" where
  "AnalyzeNewData results =
     (if None \<in> set results then Panic ''nil pointer dereference: result.Status''
      else let timeouts = length (filter (\<lambda>r. pr_Status (the r) = STATUS_TIMEOUT) results) in Ret (timeouts, length results < 10 * timeouts))"

text \<open>The periodic tasks, so far only log lines: what the select of StartPeriodicTasks takes, up to the
  end of the context. The result says whether it has returned.\<close>

datatype task_event = TasksDone | AnomalyTick | SlaTick

definition detectAnomalies :: "string list" where
  "detectAnomalies = [''Running anomaly detection'']"

definition generateSLAReport :: "string list" where
  "generateSLAReport = [''Generating SLA report'']"

fun StartPeriodicTasks :: "task_event list \<Rightarrow> string list \<times> bool" where
  "StartPeriodicTasks [] = ([], False)"
| "StartPeriodicTasks (TasksDone # es) = ([''Stopping periodic analysis tasks''], True)"
| "StartPeriodicTasks (AnomalyTick # es) = (let (out, ended) = StartPeriodicTasks es in (detectAnomalies @ out, ended))"
| "StartPeriodicTasks (SlaTick # es) = (let (out, ended) = StartPeriodicTasks es in (generateSLAReport @ out, ended))"

lemma StartPeriodicTasks_ends: "snd (StartPeriodicTasks es) \<longleftrightarrow> TasksDone \<in> set es"
  by (induction es rule: StartPeriodicTasks.induct) (simp_all add: split_beta Let_def)

text \<open>UploadData: the response, and the results handed to the analysis goroutine.\<close>

definition UploadData :: "UploadDataRequest \<Rightarrow> (UploadDataResponse \<times> ProbeResult option list) go" where
  "UploadData req =
     go_bind (store_all StoreProbeResult (ud_ProbeResults req)) (\<lambda>_.
     go_bind (store_all StorePathInfo (ud_PathInfos req)) (\<lambda>_.
       Ret (\<lparr>udr_Success = True, udr_Message = ''Data uploaded successfully''\<rparr>,
            if length (ud_ProbeResults req) > 0 then ud_ProbeResults req else [])))"

text \<open>The handler behind a transport that does not fail; a panic of the handler is a broken call.\<close>

definition serve_upload :: "UploadDataRequest \<Rightarrow> UploadDataResponse res" where
  "serve_upload req = (case UploadData req of Ret (resp, _) \<Rightarrow> Inr resp | Panic m \<Rightarrow> Inl m)"

subsection \<open>Uploader and analyzer together\<close>

lemma store_all_ok: "None \<notin> set xs \<Longrightarrow> store_all StoreProbeResult xs = Ret ()"
proof (induction xs)
  case (Cons x xs)
  then show ?case by (cases x) (auto simp: StoreProbeResult_def)
qed simp

lemma store_paths_ok: "None \<notin> set xs \<Longrightarrow> store_all StorePathInfo xs = Ret ()"
proof (induction xs)
  case (Cons x xs)
  then show ?case by (cases x) (auto simp: StorePathInfo_def)
qed simp

lemma UploadData_ok:
  "None \<notin> set (ud_ProbeResults req) \<Longrightarrow> None \<notin> set (ud_PathInfos req) \<Longrightarrow>
   UploadData req = Ret (\<lparr>udr_Success = True, udr_Message = ''Data uploaded successfully''\<rparr>, ud_ProbeResults req)"
  by (simp add: UploadData_def store_all_ok store_paths_ok)

text \<open>An upload to the analyzer over a working connection succeeds, and one batch leaves the
  queue: whatever the analyzer did with it, the agent does not keep it.\<close>

lemma upload_acknowledged:
  assumes "run_ok B M \<lparr>ur_u = u, ur_flight = None, ur_sent = []\<rparr>" and "up_connected u" and "0 < sl_len (up_probeResults u)"
    and "None \<notin> set (elems (up_arrays u) (up_probeResults u))" "None \<notin> set (elems (up_parrays u) (up_pathInfos u))"
  shows "\<exists>u'. uploadData grow new_err rounds serve_upload u = Some (Ret (Inr (), u'))
     \<and> elems (up_arrays u') (up_probeResults u') = drop B (elems (up_arrays u) (up_probeResults u))"
proof -
  let ?s = "\<lparr>ur_u = u, ur_flight = None, ur_sent = []\<rparr>"
  obtain s' where s': "exec_op grow Take ?s = Ret s'" "abs_run s' = spec_op B M Take (abs_run ?s)"
    using exec_Take[OF assms(1)] by blast
  obtain b u1 where t: "take_batch u = Ret (b, u1)" "s' = ?s\<lparr>ur_u := u1, ur_flight := b\<rparr>"
    using s'(1) by (auto simp: exec_op_def elim!: go_bind.elims)
  have ne: "elems (up_arrays u) (up_probeResults u) \<noteq> []"
    using assms(1,3) length_elems[of "up_arrays u" "up_probeResults u"] by (auto simp: run_ok_def)
  have sp: "spec_op B M Take (abs_run ?s) = (abs_run ?s)\<lparr>sq_flight := Some (take B (elems (up_arrays u) (up_probeResults u)), elems (up_parrays u) (up_pathInfos u)),
      sq_results := drop B (elems (up_arrays u) (up_probeResults u)), sq_paths := []\<rparr>"
    using ne by (simp add: spec_op_def abs_run_def)
  note s2 = s'(2)[unfolded sp]
  obtain bp where b: "b = Some bp" using arg_cong[OF s2, of sq_flight] by (auto simp: t(2) abs_run_def)
  have e: "elems (up_arrays u1) (fst bp) = take B (elems (up_arrays u) (up_probeResults u))" "elems (up_parrays u1) (snd bp) = elems (up_parrays u) (up_pathInfos u)"
      "elems (up_arrays u1) (up_probeResults u1) = drop B (elems (up_arrays u) (up_probeResults u))"
    using s2 by (simp_all add: t(2) abs_run_def b)
  have "up_connected u1"
    using t(1) assms(2) by (auto simp: take_batch_def take_results_def take_paths_def slice_upto_def slice_from_def Let_def split: if_splits prod.splits)
  moreover have "UploadData (request_of bp u1) = Ret (\<lparr>udr_Success = True, udr_Message = ''Data uploaded successfully''\<rparr>, ud_ProbeResults (request_of bp u1))"
    using assms(4,5) e by (intro UploadData_ok) (auto simp: request_of_def dest: in_set_takeD)
  ultimately show ?thesis using t(1) b e(3) by (simp add: uploadData_def serve_upload_def)
qed

end
