(* ===== verification/Agent.thy ===== *)
theory Agent
  imports Config Cluster_Monitor Service_Flow Path_Tracer Analyzer
begin

text \<open>
  The agent (internal/agent/agent.go): how it creates, starts, feeds and stops its parts. The
  agent state, the client and the prober are shared by pointer: the copies of the agent state
  in the prober and the cluster monitor are the state at their creation, after which nothing
  but queue objects changes, and the flow monitor's client is updated with the agent's.
  Start is given by its stages, in the order of the code; what each stage meets outside is a
  parameter.
\<close>

subsection \<open>Configuration and state\<close>

definition UploaderBatchSize :: int where "UploaderBatchSize = 1000"
definition UploaderMaxQueueSize :: int where "UploaderMaxQueueSize = 10000"
definition NumBackgroundGoroutines :: nat where "NumBackgroundGoroutines = 2"
definition PeriodicTraceHopLimit :: int where "PeriodicTraceHopLimit = 3"

record Agent =
  ag_config :: AgentConfig
  ag_agentState :: AgentState
  ag_controllerClient :: ControllerClient
  ag_prober :: "Prober option"
  ag_clusterMonitor :: "ClusterMonitor option"
  ag_tracer :: "Tracer option"
  ag_uploader :: "Uploader option"
  ag_metrics :: bool
  ag_serviceTracer :: "ServiceTracer option"
  ag_serviceFlowMonitor :: "ServiceFlowMonitor option"
  ag_traced :: "ProbeFiveTuple list"
  ag_wg :: nat

datatype log_level = DebugLevel | InfoLevel | WarnLevel | ErrorLevel | TraceLevel

definition initLogging :: "string \<Rightarrow> log_level" where
  "initLogging level =
     (if level = ''debug'' then DebugLevel else if level = ''info'' then InfoLevel else if level = ''warn'' then WarnLevel
      else if level = ''error'' then ErrorLevel else if level = ''trace'' then TraceLevel else InfoLevel)"

definition Agent_New :: "load_env \<Rightarrow> AgentConfig \<Rightarrow> Agent" where
  "Agent_New env cfg =
     \<lparr>ag_config = cfg, ag_agentState = NewAgentState (cf_AgentID cfg) (cf_HostName cfg) '''' (cf_GIDIndex cfg),
      ag_controllerClient = NewControllerClient (cf_ControllerAddr cfg), ag_prober = None, ag_clusterMonitor = None,
      ag_tracer = (if cf_TracerEnabled cfg then Some NewTracer else None), ag_uploader = None, ag_metrics = False,
      ag_serviceTracer = (if cf_EBPFEnabled cfg then (case NewServiceTracer env of Inl _ \<Rightarrow> None | Inr st \<Rightarrow> Some st) else None),
      ag_serviceFlowMonitor = None, ag_traced = [], ag_wg = 0\<rparr>"

subsection \<open>Start\<close>

record start_env =
  se_addrs :: "ip_bytes option list res"
  se_devices :: "string option list option"
  se_open :: "nat \<Rightarrow> open_reply"
  se_queues :: "nat \<Rightarrow> create_env \<times> create_env"
  se_kallsyms :: "string option"
  se_attach :: "string \<Rightarrow> string option"
  se_ringErr :: "string option"
  se_connErr :: "string option"
  se_connRounds :: "(bool \<times> bool) list"
  se_register :: "AgentRegistrationRequest \<Rightarrow> AgentRegistrationResponse res \<times> unit"
  se_pinglist :: "PinglistRequest \<Rightarrow> PinglistResponse res"
  se_metricsErr :: "string option"
  se_upErr :: "string option"
  se_upRounds :: "(bool \<times> bool) list"

text \<open>The RDMA stage: infrastructure, prober, ACK handler, queues. The prober's loops start next.\<close>

definition start_rdma :: "start_env \<Rightarrow> Agent \<Rightarrow> (unit res \<times> Agent) go option" where
  "start_rdma env a =
     (case InitializeRDMAInfrastructure (se_addrs env) (se_devices env) (se_open env) (cf_AllowedDeviceNames (ag_config a)) (ag_agentState a) of
        None \<Rightarrow> None
      | Some (Inl err, s) \<Rightarrow> Some (Ret (Inl (''failed to initialize agent RDMA infrastructure: '' @ err), a\<lparr>ag_agentState := s\<rparr>))
      | Some (Inr _, s) \<Rightarrow>
        if length (as_detectedRNICs s) = 0
        then Some (Ret (Inl (if length (cf_AllowedDeviceNames (ag_config a)) > 0
               then ''No RNIC devices available after RDMA infra initialization and filtering by AllowedDeviceNames''
               else ''No RNIC devices detected or initialized successfully in RDMA infra. Agent cannot start.''), a\<lparr>ag_agentState := s\<rparr>))
        else case InitializeUDQueues (se_queues env) (SetAckHandler True s) of
          None \<Rightarrow> None
        | Some (Panic m) \<Rightarrow> Some (Panic m)
        | Some (Ret (Inl err, s1)) \<Rightarrow>
            Some (Ret (Inl (''failed to initialize agent UD queues: '' @ err), a\<lparr>ag_agentState := s1, ag_prober := Some (NewProber s1)\<rparr>))
        | Some (Ret (Inr _, s1)) \<Rightarrow> Some (Ret (Inr (), a\<lparr>ag_agentState := s1, ag_prober := Some (NewProber s1)\<rparr>)))"

text \<open>The service flow stage never fails the start: its errors are only logged. The flow monitor is
  kept even when the tracer cannot start.\<close>

definition start_flows :: "start_env \<Rightarrow> Agent \<Rightarrow> Agent" where
  "start_flows env a =
     (if \<not> cf_ServiceFlowMonitorEnabled (ag_config a) then a
      else case ag_serviceTracer a of
        None \<Rightarrow> a
      | Some st \<Rightarrow>
        if \<not> cf_EBPFEnabled (ag_config a) then a
        else case NewServiceFlowMonitor False (Some (ag_controllerClient a)) (ag_prober a) False of
          Inl _ \<Rightarrow> a
        | Inr sfm \<Rightarrow>
            a\<lparr>ag_serviceFlowMonitor := Some sfm,
              ag_serviceTracer := Some (snd (Tracer_Start (se_kallsyms env) (se_attach env) (se_ringErr env) st))\<rparr>)"

definition GetPrimaryRNIC :: "AgentState \<Rightarrow> RNIC option" where
  "GetPrimaryRNIC s = (case as_primaryRNIC s of None \<Rightarrow> None | Some i \<Rightarrow> rnic_at s i)"

definition start_controller :: "start_env \<Rightarrow> Agent \<Rightarrow> (unit res \<times> Agent) option" where
  "start_controller env a =
     (case Client_Connect (se_connErr env) (se_connRounds env) (ag_controllerClient a) of
        None \<Rightarrow> None
      | Some (Inl err, c) \<Rightarrow> Some (Inl (''failed to connect to controller: '' @ err), a\<lparr>ag_controllerClient := c\<rparr>)
      | Some (Inr _, c) \<Rightarrow>
        let s = ag_agentState a;
            a1 = a\<lparr>ag_controllerClient := c, ag_serviceFlowMonitor := map_option (\<lambda>m. m\<lparr>sm_client := c\<rparr>) (ag_serviceFlowMonitor a)\<rparr> in
        (case Client_RegisterAgent c (se_register env) () (GetAgentID s) (GetHostName s) (GetAgentIP s) (GetDetectedRNICs s) of
           (Inl err, _) \<Rightarrow> Some (Inl (''failed to register agent with controller: '' @ err), a1)
         | (Inr _, _) \<Rightarrow>
           (case GetPrimaryRNIC s of
              None \<Rightarrow> Some (Inl (if length (cf_AllowedDeviceNames (ag_config a)) > 0
                 then ''no primary RDMA device available after filtering with allowed names'' else ''no primary RDMA device available or none initialized successfully''), a1)
            | Some _ \<Rightarrow> Some (Inr (), a1))))"

text \<open>Periodic tracing: to the first targets of a ToR-mesh pinglist, or to the local host.\<close>

definition start_tracing :: "start_env \<Rightarrow> Agent \<Rightarrow> Agent go" where
  "start_tracing env a =
     (if cf_TracerouteIntervalMS (ag_config a) > 0
      then case GetPrimaryRNIC (ag_agentState a) of
        None \<Rightarrow> Ret a
      | Some primary \<Rightarrow>
        (case Client_GetPinglist (ag_controllerClient a) (se_pinglist env) primary (GetHostName (ag_agentState a)) TOR_MESH of
           Inl _ \<Rightarrow> Ret (if ag_tracer a = None then a else a\<lparr>ag_traced := StartPeriodicTracingToLocalhost (rn_GID primary)\<rparr>)
         | Inr (targets, _, _) \<Rightarrow>
             if ag_tracer a = None then Ret a
             else go_bind (StartPeriodicTracing (rn_GID primary) targets PeriodicTraceHopLimit) (\<lambda>fts. Ret (a\<lparr>ag_traced := fts\<rparr>)))
      else Ret a)"

definition start_uploader :: "start_env \<Rightarrow> Agent \<Rightarrow> Agent go option" where
  "start_uploader env a =
     (case NewUploader (cf_AnalyzerAddr (ag_config a)) (GetAgentID (ag_agentState a)) (cf_DataUploadIntervalMS (ag_config a)) UploaderBatchSize UploaderMaxQueueSize of
        Panic m \<Rightarrow> Some (Panic m)
      | Ret u \<Rightarrow>
        if cf_AnalyzerEnabled (ag_config a)
        then map_option (\<lambda>(_, u1). Ret (a\<lparr>ag_uploader := Some u1\<rparr>)) (Uploader_Start (se_upErr env) (se_upRounds env) u)
        else Some (Ret (a\<lparr>ag_uploader := Some u\<rparr>)))"

definition start_monitor :: "start_env \<Rightarrow> Agent \<Rightarrow> Agent" where
  "start_monitor env a =
     (let a1 = a\<lparr>ag_metrics := cf_MetricsEnabled (ag_config a) \<and> se_metricsErr env = None\<rparr> in
      a1\<lparr>ag_clusterMonitor := Some (snd (ClusterMonitor_Start
        (NewClusterMonitor (ag_agentState a) (cf_ProbeIntervalMS (ag_config a)) (cf_TargetProbeRatePerSecond (ag_config a)))))\<rparr>)"

definition Agent_Start :: "start_env \<Rightarrow> Agent \<Rightarrow> (unit res \<times> Agent) go option" where
  "Agent_Start env a =
     (case start_rdma env a of
        None \<Rightarrow> None
      | Some (Panic m) \<Rightarrow> Some (Panic m)
      | Some (Ret (Inl err, a1)) \<Rightarrow> Some (Ret (Inl err, a1))
      | Some (Ret (Inr _, a1)) \<Rightarrow>
        (case start_controller env (start_flows env a1) of
           None \<Rightarrow> None
         | Some (Inl err, a2) \<Rightarrow> Some (Ret (Inl err, a2))
         | Some (Inr _, a2) \<Rightarrow>
           (case start_tracing env (start_monitor env a2) of
              Panic m \<Rightarrow> Some (Panic m)
            | Ret a3 \<Rightarrow>
              (case start_uploader env a3 of
                 None \<Rightarrow> None
               | Some (Panic m) \<Rightarrow> Some (Panic m)
               | Some (Ret a4) \<Rightarrow> Some (Ret (Inr (), a4\<lparr>ag_wg := ag_wg a4 + NumBackgroundGoroutines\<rparr>))))))"

subsection \<open>Results\<close>

text \<open>What the select of resultHandler takes, and what an iteration does outside the agent: metrics
  recorded (with the name of the instrument and the attributes), a traceroute launched, an
  upload goroutine launched. Once the trace channel is closed its case is disabled.\<close>

datatype handler_event = CtxDone | GotProbe ProbeResult | ProbesClosed | GotTrace PathInfo | TracesClosed

datatype handler_action = Record string int "(string \<times> string) list" | LaunchTrace ProbeFiveTuple | LaunchUpload

definition common_attrs :: "AgentState \<Rightarrow> ProbeResult \<Rightarrow> (string \<times> string) list" where
  "common_attrs s r =
     [(''src_agent_id'', GetAgentID s), (''dst_agent_id'', rid_HostName (pr_DestinationRnic r)), (''src_hostname'', GetHostName s),
      (''dst_hostname'', rid_HostName (pr_DestinationRnic r)), (''src_gid'', ft_SrcGid (pr_FiveTuple r)), (''dst_gid'', ft_DstGid (pr_FiveTuple r)),
      (''src_device_name'', rid_DeviceName (pr_SourceRnic r)), (''dst_device_name'', rid_DeviceName (pr_DestinationRnic r)),
      (''probe_type'', pr_ProbeType r)]"

definition record_metrics :: "Agent \<Rightarrow> ProbeResult \<Rightarrow> handler_action list" where
  "record_metrics a r =
     (let attrs = common_attrs (ag_agentState a) r in
      if \<not> ag_metrics a then []
      else if pr_Status r = STATUS_OK
      then [Record ''nwrtt'' (pr_NetworkRtt r) attrs, Record ''prober_delay'' (pr_ProberDelay r) attrs, Record ''responder_delay'' (pr_ResponderDelay r) attrs]
      else if pr_Status r = STATUS_TIMEOUT then [Record ''timeout'' 1 attrs] else [])"

definition forward_probe :: "(nat \<Rightarrow> nat \<Rightarrow> nat) \<Rightarrow> Agent \<Rightarrow> ProbeResult \<Rightarrow> handler_action list \<times> Agent" where
  "forward_probe grow a r =
     (case ag_uploader a of
        None \<Rightarrow> ([], a)
      | Some u \<Rightarrow>
          if cf_AnalyzerEnabled (ag_config a)
          then let (full, u1) = AddProbeResult grow (Some r) u in (if full then [LaunchUpload] else [], a\<lparr>ag_uploader := Some u1\<rparr>)
          else ([], a))"

text \<open>One iteration: the actions, whether the loop goes on, the agent.\<close>

definition handle_result :: "(nat \<Rightarrow> nat \<Rightarrow> nat) \<Rightarrow> handler_event \<Rightarrow> Agent \<Rightarrow> handler_action list \<times> bool \<times> Agent" where
  "handle_result grow ev a =
     (case ev of
        CtxDone \<Rightarrow> ([], False, a)
      | ProbesClosed \<Rightarrow> ([], False, a)
      | TracesClosed \<Rightarrow> ([], True, a)
      | GotProbe r \<Rightarrow>
          (let (up, a1) = forward_probe grow a r;
               tr = (if pr_Status r = STATUS_TIMEOUT \<and> cf_TracerouteOnTimeout (ag_config a) \<and> ag_tracer a \<noteq> None then [LaunchTrace (pr_FiveTuple r)] else []) in
           (record_metrics a r @ up @ tr, True, a1))
      | GotTrace info \<Rightarrow>
          (case ag_uploader a of
             None \<Rightarrow> ([], True, a)
           | Some u \<Rightarrow> if cf_AnalyzerEnabled (ag_config a) then ([], True, a\<lparr>ag_uploader := Some (AddPathInfo grow (Some info) u)\<rparr>) else ([], True, a)))"

fun resultHandler :: "(nat \<Rightarrow> nat \<Rightarrow> nat) \<Rightarrow> handler_event list \<Rightarrow> Agent \<Rightarrow> handler_action list \<times> bool \<times> Agent" where
  "resultHandler grow [] a = ([], True, a)"
| "resultHandler grow (ev # evs) a =
     (case handle_result grow ev a of
        (acts, False, a1) \<Rightarrow> (acts, False, a1)
      | (acts, True, a1) \<Rightarrow> (let (acts', goes_on, a2) = resultHandler grow evs a1 in (acts @ acts', goes_on, a2)))"

subsection \<open>Pinglists\<close>

text \<open>The loop over the local RNICs: all ToR-mesh targets, all inter-ToR targets, the last interval.\<close>

fun collect_targets ::
  "ControllerClient \<Rightarrow> (PinglistRequest \<Rightarrow> PinglistResponse res) \<Rightarrow> string \<Rightarrow> RNIC list
     \<Rightarrow> ProtoPingTarget list \<times> ProtoPingTarget list \<times> u32 \<Rightarrow> ProtoPingTarget list \<times> ProtoPingTarget list \<times> u32" where
  "collect_targets c rpc host [] acc = acc"
| "collect_targets c rpc host (r # rs) (tor, others, interval) =
     (if rn_GID r = '''' then collect_targets c rpc host rs (tor, others, interval)
      else case Client_GetPinglist c rpc r host TOR_MESH of
        Inl _ \<Rightarrow> collect_targets c rpc host rs (tor, others, interval)
      | Inr (torTargets, intervalMs, _) \<Rightarrow>
        (case Client_GetPinglist c rpc r host INTER_TOR of
           Inl _ \<Rightarrow> collect_targets c rpc host rs (tor @ torTargets, others, interval)
         | Inr (interTorTargets, _, _) \<Rightarrow>
             collect_targets c rpc host rs (tor @ torTargets, others @ interTorTargets, if intervalMs > 0 then intervalMs else interval)))"

definition updatePinglist :: "(PinglistRequest \<Rightarrow> PinglistResponse res) \<Rightarrow> Agent \<Rightarrow> Agent go" where
  "updatePinglist rpc a =
     (let localRnics = GetDetectedRNICs (ag_agentState a) in
      if length localRnics = 0 then Ret a
      else let (allTor, allInter, lastIntervalMs) = collect_targets (ag_controllerClient a) rpc (GetHostName (ag_agentState a)) localRnics ([], [], 0);
               cfg = ag_config a;
               a1 = (if lastIntervalMs > 0 \<and> lastIntervalMs \<noteq> cf_ProbeIntervalMS cfg then a\<lparr>ag_config := cfg\<lparr>cf_ProbeIntervalMS := lastIntervalMs\<rparr>\<rparr> else a) in
        case ag_clusterMonitor a1 of
          None \<Rightarrow> Panic ''nil pointer dereference: a.clusterMonitor''
        | Some cm \<Rightarrow> go_bind (UpdatePinglist allTor cm) (\<lambda>cm1. Ret (a1\<lparr>ag_clusterMonitor := Some cm1\<rparr>)))"

text \<open>The updater: once at its start and once per tick until it is cancelled.\<close>

fun runPinglistUpdater :: "(PinglistRequest \<Rightarrow> PinglistResponse res) list \<Rightarrow> Agent \<Rightarrow> Agent go" where
  "runPinglistUpdater [] a = Ret a"
| "runPinglistUpdater (rpc # rpcs) a = go_bind (updatePinglist rpc a) (runPinglistUpdater rpcs)"

lemma collect_tor:
  assumes "\<And>r. Client_GetPinglist c rpc r host TOR_MESH = Client_GetPinglist c rpc' r host TOR_MESH"
  shows "fst (collect_targets c rpc host rs (tor, others, i)) = fst (collect_targets c rpc' host rs (tor, others', i'))"
proof (induction rs arbitrary: tor others others' i i')
  case (Cons r rs)
  show ?case by (simp add: assms[of r] Cons split: sum.split prod.split)
qed simp

lemma get_pinglist_cong:
  "(\<And>req. plq_Type req = ty \<Longrightarrow> rpc req = rpc' req) \<Longrightarrow> Client_GetPinglist c rpc r host ty = Client_GetPinglist c rpc' r host ty"
  by (simp add: Client_GetPinglist_def Let_def)

text \<open>What the controller answers to inter-ToR requests has no influence on what is probed: two
  controllers that agree on ToR-mesh requests lead to the same targets (or the same
  panic), and the interval the controller sends never reaches the cluster monitor.\<close>

theorem inter_tor_answers_ignored:
  assumes "\<forall>req. plq_Type req = TOR_MESH \<longrightarrow> rpc req = rpc' req" and "updatePinglist rpc a = Ret a1" and "updatePinglist rpc' a = Ret a2"
  shows "ag_clusterMonitor a1 = ag_clusterMonitor a2
     \<and> map_option cm_intervalMs (ag_clusterMonitor a1) = map_option cm_intervalMs (ag_clusterMonitor a)"
proof -
  let ?c = "ag_controllerClient a" and ?h = "as_hostName (ag_agentState a)" and ?rs = "GetDetectedRNICs (ag_agentState a)"
  have "Client_GetPinglist ?c rpc r ?h TOR_MESH = Client_GetPinglist ?c rpc' r ?h TOR_MESH" for r
    using assms(1) by (intro get_pinglist_cong) simp
  from collect_tor[OF this] have "fst (collect_targets ?c rpc ?h ?rs ([], [], 0)) = fst (collect_targets ?c rpc' ?h ?rs ([], [], 0))" .
  then obtain t i j i' j' where c: "collect_targets ?c rpc ?h ?rs ([], [], 0) = (t, i, j)" "collect_targets ?c rpc' ?h ?rs ([], [], 0) = (t, i', j')"
    by (metis prod.collapse)
  show ?thesis
  proof (cases "?rs = [] \<or> ag_clusterMonitor a = None")
    case True
    with assms(2,3) show ?thesis by (auto simp: updatePinglist_def c Let_def split: if_splits)
  next
    case False
    then obtain cm where cm: "ag_clusterMonitor a = Some cm" "?rs \<noteq> []" by blast
    then obtain cm1 where "UpdatePinglist t cm = Ret cm1" "ag_clusterMonitor a1 = Some cm1" "ag_clusterMonitor a2 = Some cm1"
      using assms(2,3) by (cases "UpdatePinglist t cm") (auto simp: updatePinglist_def c Let_def split: if_splits)
    then show ?thesis using cm by (simp add: UpdatePinglist_eq split: if_splits) auto
  qed
qed


subsection \<open>Stop\<close>

text \<open>The parts Stop closes, in its order, after cancelling the context.\<close>

datatype part = PUploader | PTracer | PFlowMonitor | PServiceTracer | PClusterMonitor | PProber | PClient | PMetrics | PState

definition stop_order :: "Agent \<Rightarrow> part list" where
  "stop_order a =
     (if ag_uploader a \<noteq> None \<and> cf_AnalyzerEnabled (ag_config a) then [PUploader] else []) @ (if ag_tracer a \<noteq> None then [PTracer] else [])
   @ (if ag_serviceFlowMonitor a \<noteq> None then [PFlowMonitor] else []) @ (if ag_serviceTracer a \<noteq> None then [PServiceTracer] else [])
   @ (if ag_clusterMonitor a \<noteq> None then [PClusterMonitor] else []) @ (if ag_prober a \<noteq> None then [PProber] else []) @ [PClient]
   @ (if ag_metrics a then [PMetrics] else []) @ [PState]"

text \<open>Stop and the two background goroutines as threads: Stop cancels, closes one part after the
  other and waits for the wait group. The result handler may end once the context is
  cancelled or the prober's channel is closed, and then counts itself out; the pinglist
  updater ends once the context is cancelled.\<close>

datatype agent_stop_pc = StopCalled | StopClosing "part list" | StopWaiting | StopReturned

record agent_stop =
  ast_pc :: agent_stop_pc
  ast_cancelled :: bool
  ast_proberClosed :: bool
  ast_wg :: nat
  ast_handler :: bool
  ast_updater :: bool

definition agent_running :: "Agent \<Rightarrow> agent_stop" where
  "agent_running a = \<lparr>ast_pc = StopCalled, ast_cancelled = False, ast_proberClosed = False, ast_wg = ag_wg a, ast_handler = True, ast_updater = True\<rparr>"

inductive agent_stop_step :: "Agent \<Rightarrow> agent_stop \<Rightarrow> agent_stop \<Rightarrow> bool" for a where
  as_cancel: "ast_pc s = StopCalled \<Longrightarrow> agent_stop_step a s (s\<lparr>ast_pc := StopClosing (stop_order a), ast_cancelled := True\<rparr>)"
| as_close: "ast_pc s = StopClosing (p # ps) \<Longrightarrow>
    agent_stop_step a s (s\<lparr>ast_pc := StopClosing ps, ast_proberClosed := ast_proberClosed s \<or> p = PProber\<rparr>)"
| as_wait: "ast_pc s = StopClosing [] \<Longrightarrow> agent_stop_step a s (s\<lparr>ast_pc := StopWaiting\<rparr>)"
| as_return: "ast_pc s = StopWaiting \<Longrightarrow> ast_wg s = 0 \<Longrightarrow> agent_stop_step a s (s\<lparr>ast_pc := StopReturned\<rparr>)"
| as_handler_ends: "ast_handler s \<Longrightarrow> ast_cancelled s \<or> ast_proberClosed s \<Longrightarrow> agent_stop_step a s (s\<lparr>ast_handler := False, ast_wg := ast_wg s - 1\<rparr>)"
| as_updater_ends: "ast_updater s \<Longrightarrow> ast_cancelled s \<Longrightarrow> agent_stop_step a s (s\<lparr>ast_updater := False\<rparr>)"

inductive_cases agent_stop_stepE: "agent_stop_step a s s'"

definition agent_stop_inv :: "agent_stop \<Rightarrow> bool" where
  "agent_stop_inv s \<longleftrightarrow> ast_pc s \<noteq> StopReturned \<and> ast_wg s = (if ast_handler s then 2 else 1)"

lemma agent_stop_inv_step: "agent_stop_step a s s' \<Longrightarrow> agent_stop_inv s \<Longrightarrow> agent_stop_inv s'"
  by (erule agent_stop_stepE) (auto simp: agent_stop_inv_def split: if_splits)

lemma Agent_Start_wg: "Agent_Start env a = Some (Ret (Inr (), a')) \<Longrightarrow> ag_wg a = 0 \<Longrightarrow> ag_wg a' = 2"
proof -
  assume s: "Agent_Start env a = Some (Ret (Inr (), a'))" and z: "ag_wg a = 0"
  obtain a1 where a1: "start_rdma env a = Some (Ret (Inr (), a1))" using s by (auto simp: Agent_Start_def split: option.splits go.splits sum.splits)
  obtain a2 where a2: "start_controller env (start_flows env a1) = Some (Inr (), a2)"
    using s by (auto simp: Agent_Start_def a1 split: option.splits go.splits sum.splits)
  obtain a3 where a3: "start_tracing env (start_monitor env a2) = Ret a3"
    using s by (auto simp: Agent_Start_def a1 a2 split: option.splits go.splits sum.splits)
  obtain a4 where a4: "start_uploader env a3 = Some (Ret a4)" "a' = a4\<lparr>ag_wg := ag_wg a4 + 2\<rparr>"
    using s by (auto simp: Agent_Start_def a1 a2 a3 NumBackgroundGoroutines_def split: option.splits go.splits)
  have "ag_wg a1 = 0" using a1 z by (auto simp: start_rdma_def split: option.splits go.splits sum.splits if_splits)
  then have "ag_wg (start_flows env a1) = 0" by (simp add: start_flows_def split: option.splits sum.splits)
  then have "ag_wg a2 = 0" using a2 by (auto simp: start_controller_def Let_def split: option.splits sum.splits prod.splits)
  then have "ag_wg (start_monitor env a2) = 0" by (simp add: start_monitor_def Let_def)
  then have "ag_wg a3 = 0" using a3
    by (auto simp: start_tracing_def Let_def split: if_splits option.splits sum.splits prod.splits elim!: go_bind.elims)
  then have "ag_wg a4 = 0" using a4(1)
    by (auto simp: start_uploader_def split: go.splits if_splits option.splits)
  then show ?thesis using a4(2) by simp
qed

text \<open>The agent cannot be stopped. After a successful start the wait group counts two
  goroutines, but the pinglist updater never counts itself out: in every interleaving Stop
  has not returned and the counter stays positive, even when every part closes at once.\<close>

theorem Agent_Stop_never_returns:
  assumes "Agent_Start env (Agent_New lenv cfg) = Some (Ret (Inr (), a))" and "(agent_stop_step a)\<^sup>*\<^sup>* (agent_running a) s"
  shows "ast_pc s \<noteq> StopReturned \<and> 0 < ast_wg s"
proof -
  have "ag_wg a = 2" using Agent_Start_wg[OF assms(1)] by (simp add: Agent_New_def)
  then have "agent_stop_inv (agent_running a)" by (simp add: agent_stop_inv_def agent_running_def)
  with assms(2) have "agent_stop_inv s" by (induction rule: rtranclp_induct) (auto intro: agent_stop_inv_step)
  then show ?thesis by (simp add: agent_stop_inv_def split: if_splits)
qed


subsection \<open>A concrete start\<close>

definition sample_cfg :: AgentConfig where
  "sample_cfg = \<lparr>cf_AgentID = ''a'', cf_HostName = ''h'', cf_ControllerAddr = ''c:1'', cf_AnalyzerAddr = ''z:1'', cf_LogLevel = ''info'',
     cf_ProbeIntervalMS = 500, cf_DataUploadIntervalMS = 10000, cf_TracerouteIntervalMS = 0, cf_TracerouteOnTimeout = True, cf_EBPFEnabled = False,
     cf_ServiceFlowMonitorEnabled = False, cf_OtelCollectorAddr = '''', cf_MetricsEnabled = False, cf_AnalyzerEnabled = False, cf_TracerEnabled = False,
     cf_AllowedDeviceNames = [], cf_GIDIndex = 3, cf_PinglistUpdateIntervalSec = 300, cf_TargetProbeRatePerSecond = 10\<rparr>"

definition sample_start :: start_env where
  "sample_start = \<lparr>se_addrs = Inr [Some [10, 0, 0, 9]], se_devices = Some [Some ''mlx5_0''], se_open = \<lambda>_. sample_open,
     se_queues = \<lambda>_. (good_create, good_create), se_kallsyms = None, se_attach = \<lambda>_. None, se_ringErr = None, se_connErr = None,
     se_connRounds = [(True, False)], se_register = \<lambda>_. (Inr \<lparr>arp_Success = True, arp_Message = ''''\<rparr>, ()),
     se_pinglist = \<lambda>_. Inl ''down'', se_metricsErr = None, se_upErr = None, se_upRounds = []\<rparr>"


lemma sample_open_ready:
  "\<exists>r hs. OpenDevice sample_open 3 (new_rnic n) [] = Some (Inr (), r, hs) \<and> rn_IsOpen r"
proof -
  have z: "\<not> isZeroGid (mapped4 10 0 0 1)" by (simp add: isZeroGid_def mapped4_def)
  have "port_loop (or_port sample_open) 2 1 = Some (Some (2, mapped4 10 0 0 1))"
    by (simp add: port_loop.simps[of _ 2 1] port_loop.simps[of _ 2 2] sample_open_def usable_gid_def z)
  then show ?thesis by (simp add: OpenDevice_def sample_open_def new_rnic_def releaseDeviceResources_undo Let_def)
qed

lemma sample_rdma:
  "\<exists>a m. start_rdma sample_start (Agent_New sample_load sample_cfg) = Some (Ret (Inr (), a)) \<and> ag_config a = sample_cfg
     \<and> as_rdmaManager (ag_agentState a) = Some m \<and> as_detectedRNICs (ag_agentState a) = [0] \<and> as_primaryRNIC (ag_agentState a) = Some 0
     \<and> rn_ResponderQueue (mg_Devices m ! 0) \<noteq> None \<and> ag_controllerClient a = NewControllerClient ''c:1'' \<and> ag_tracer a = None"
proof -
  obtain r hs where op: "OpenDevice sample_open 3 (new_rnic ''mlx5_0'') [] = Some (Inr (), r, hs)" "rn_IsOpen r" using sample_open_ready by blast
  let ?m = "(new_manager [r])\<lparr>mg_handles := hs\<rparr>"
  have o: "rn_IsOpen (mg_Devices ?m ! 0)" "0 < length (mg_Devices ?m)" using op(2) by (simp_all add: new_manager_def)
  obtain ref m1 where 1: "CreateUDQueue good_create 0 UDQueueTypeSender True ?m = Some (Ret (Inr ref, m1))"
      "rn_IsOpen (mg_Devices m1 ! 0)" "0 < length (mg_Devices m1)"
    using good_create_ok[OF o, of UDQueueTypeSender True] o(2) by metis
  obtain ref2 m2 where 2: "CreateUDQueue good_create 0 UDQueueTypeResponder False m1 = Some (Ret (Inr ref2, m2))" "0 < length (mg_Devices m2)"
    using good_create_ok[OF 1(2,3), of UDQueueTypeResponder False] 1(3) by metis
  let ?m2 = "m2\<lparr>mg_Devices := (mg_Devices m2)[0 := (mg_Devices m2 ! 0)\<lparr>rn_ProberQueue := Some ref, rn_ResponderQueue := Some ref2\<rparr>]\<rparr>"
  have d: "devices_to_process [] [new_rnic ''mlx5_0''] = [0]" by (simp add: devices_to_process_def)
  obtain s where s: "InitializeRDMAInfrastructure (Inr [Some [10, 0, 0, 9]]) (Some [Some ''mlx5_0'']) (\<lambda>_. sample_open) [] (NewAgentState ''a'' ''h'' '''' 3)
       = Some (Inr (), s)" "as_rdmaManager s = Some ?m" "as_detectedRNICs s = [0]" "as_primaryRNIC s = Some 0" "as_senderQueues s = Some []" "as_responderQueues s = Some []"
    using op(1) d by (simp add: InitializeRDMAInfrastructure_def getLocalIP_def NewRDMAManager_devices_def NewAgentState_def Let_def)
  have q: "\<exists>s1. InitializeUDQueues (\<lambda>_. (good_create, good_create)) (SetAckHandler True s) = Some (Ret (Inr (), s1))
      \<and> as_rdmaManager s1 = Some ?m2 \<and> as_detectedRNICs s1 = [0] \<and> as_primaryRNIC s1 = Some 0"
    using 1 2 s(2-6) o(1) by (simp add: InitializeUDQueues_def SetAckHandler_def CreateSenderAndResponderQueues_def map_assign_def lookup_def Let_def)
  then show ?thesis
    using s(1,3) 2(2)
    by (auto simp: start_rdma_def Agent_New_def sample_start_def sample_cfg_def)
qed

lemma sample_started: "\<exists>a. Agent_Start sample_start (Agent_New sample_load sample_cfg) = Some (Ret (Inr (), a))"
proof -
  obtain a1 m where a1: "start_rdma sample_start (Agent_New sample_load sample_cfg) = Some (Ret (Inr (), a1))" "ag_config a1 = sample_cfg"
      "as_rdmaManager (ag_agentState a1) = Some m" "as_detectedRNICs (ag_agentState a1) = [0]" "as_primaryRNIC (ag_agentState a1) = Some 0"
      "rn_ResponderQueue (mg_Devices m ! 0) \<noteq> None" "ag_controllerClient a1 = NewControllerClient ''c:1''" "ag_tracer a1 = None"
    using sample_rdma by blast
  have f: "start_flows sample_start a1 = a1" using a1(2) by (simp add: start_flows_def sample_cfg_def)
  obtain a2 where a2: "start_controller sample_start a1 = Some (Inr (), a2)" "ag_config a2 = sample_cfg"
    using a1 by (auto simp: start_controller_def Client_Connect_def NewControllerClient_def Client_RegisterAgent_def GetDetectedRNICs_def GetPrimaryRNIC_def
        rnic_at_def sample_start_def Let_def)
  have t: "start_tracing sample_start (start_monitor sample_start a2) = Ret (start_monitor sample_start a2)"
    using a2(2) by (simp add: start_tracing_def start_monitor_def sample_cfg_def Let_def)
  obtain a3 where u: "start_uploader sample_start (start_monitor sample_start a2) = Some (Ret a3)"
    using a2(2) by (simp add: start_uploader_def start_monitor_def sample_cfg_def NewUploader_def UploaderMaxQueueSize_def slice_make_def Let_def)
  show ?thesis by (simp add: Agent_Start_def a1(1) f a2(1) t u)
qed

theorem Agent_Stop_never_returns_witness:
  "\<exists>a s. Agent_Start sample_start (Agent_New sample_load sample_cfg) = Some (Ret (Inr (), a)) \<and> (agent_stop_step a)\<^sup>*\<^sup>* (agent_running a) s
     \<and> ast_cancelled s \<and> 0 < ast_wg s"
proof -
  obtain a where st: "Agent_Start sample_start (Agent_New sample_load sample_cfg) = Some (Ret (Inr (), a))" using sample_started by blast
  let ?s = "(agent_running a)\<lparr>ast_pc := StopClosing (stop_order a), ast_cancelled := True\<rparr>"
  have r: "(agent_stop_step a)\<^sup>*\<^sup>* (agent_running a) ?s" by (rule r_into_rtranclp, rule as_cancel) (simp add: agent_running_def)
  from Agent_Stop_never_returns[OF st r] st r show ?thesis by (intro exI[of _ a] exI[of _ ?s]) simp
qed


definition sample_ag :: Agent where
  "sample_ag = (Agent_New sample_load sample_cfg)\<lparr>ag_agentState := sample_agent\<lparr>as_rdmaManager := Some (sample_manager\<lparr>mg_Devices := [sample_device]\<rparr>)\<rparr>,
     ag_controllerClient := \<lparr>cc_addr = ''c:1'', cc_connected = True\<rparr>, ag_clusterMonitor := Some sample_monitor\<rparr>"

text \<open>A controller that knows two hosts, and answers inter-ToR requests with the given result.\<close>

definition sample_rpc :: "PinglistResponse res \<Rightarrow> PinglistRequest \<Rightarrow> PinglistResponse res" where
  "sample_rpc inter_answer req =
     (if plq_Type req = TOR_MESH then Inr \<lparr>plp_Targets = sample_pinglist, plp_ProbeIntervalMs = 1000, plp_TimeoutMs = 500\<rparr> else inter_answer)"

lemma sample_collect:
  "\<exists>i j. collect_targets (ag_controllerClient sample_ag) (sample_rpc x) ''h'' (GetDetectedRNICs (ag_agentState sample_ag)) ([], [], 0) = (sample_pinglist, i, j)"
  by (cases x) (auto simp: sample_ag_def GetDetectedRNICs_def sample_agent_def Client_GetPinglist_def sample_rpc_def sample_device_def Let_def)

lemma sample_update: "\<exists>a. updatePinglist (sample_rpc x) sample_ag = Ret a"
proof -
  obtain i j where c: "collect_targets (ag_controllerClient sample_ag) (sample_rpc x) ''h'' (GetDetectedRNICs (ag_agentState sample_ag)) ([], [], 0) = (sample_pinglist, i, j)"
    using sample_collect by blast
  have h: "as_hostName (ag_agentState sample_ag) = ''h''" "GetDetectedRNICs (ag_agentState sample_ag) \<noteq> []" "ag_clusterMonitor sample_ag = Some sample_monitor"
    by (simp_all add: sample_ag_def sample_agent_def NewAgentState_def GetDetectedRNICs_def)
  have "\<not> (\<exists>t \<in> set sample_pinglist. short_gid y t)" for y by (simp add: sample_pinglist_def short_gid_def sample_info_of_def)
  then obtain cm where "UpdatePinglist sample_pinglist sample_monitor = Ret cm" by (simp add: UpdatePinglist_eq)
  then show ?thesis using h by (simp add: updatePinglist_def c Let_def)
qed

theorem inter_tor_answers_ignored_witness:
  "\<exists>a1 a2. updatePinglist (sample_rpc (Inl ''down'')) sample_ag = Ret a1
     \<and> updatePinglist (sample_rpc (Inr \<lparr>plp_Targets = sample_pinglist, plp_ProbeIntervalMs = 9, plp_TimeoutMs = 9\<rparr>)) sample_ag = Ret a2
     \<and> ag_clusterMonitor a1 = ag_clusterMonitor a2"
proof -
  let ?x = "Inl ''down''" and ?y = "Inr \<lparr>plp_Targets = sample_pinglist, plp_ProbeIntervalMs = 9, plp_TimeoutMs = 9\<rparr>"
  obtain a1 a2 where u: "updatePinglist (sample_rpc ?x) sample_ag = Ret a1" "updatePinglist (sample_rpc ?y) sample_ag = Ret a2"
    using sample_update[of ?x] sample_update[of ?y] by blast
  have "\<forall>req. plq_Type req = TOR_MESH \<longrightarrow> sample_rpc ?x req = sample_rpc ?y req" by (simp add: sample_rpc_def)
  from inter_tor_answers_ignored[OF this u] u show ?thesis by blast
qed


end
