(* ===== verification/Servers.thy ===== *)
theory Servers
  imports Analyzer Stopping
begin

text \<open>
  The controller and analyzer processes (internal/controller/controller.go and
  internal/analyzer/analyzer.go): how they are created, start serving and stop. The gRPC
  server is a parameter; what its documentation says of Serve and GracefulStop is the
  hypothesis \<^verbatim>\<open>grpc_documented\<close>. Stop runs beside the calls under way, the goroutine of Serve
  and, for the analyzer, the periodic tasks.
\<close>

subsection \<open>The gRPC server\<close>

text \<open>Whether a call is accepted, Serve returns and GracefulStop returns, as functions of whether
  GracefulStop has been called and of the calls under way.\<close>

record 'call grpc_server =
  gs_accepts :: "bool \<Rightarrow> bool"
  gs_serve_returns :: "bool \<Rightarrow> bool"
  gs_graceful_returns :: "'call list \<Rightarrow> bool"

text \<open>GracefulStop stops the server from accepting new connections and calls, makes Serve return,
  and blocks until all the pending calls are finished.\<close>

definition grpc_documented :: "'call grpc_server \<Rightarrow> bool" where
  "grpc_documented gs \<longleftrightarrow> \<not> gs_accepts gs True \<and> gs_serve_returns gs True \<and> (\<forall>calls. gs_graceful_returns gs calls \<longleftrightarrow> calls = [])"

subsection \<open>Controller\<close>

record Controller =
  co_ListenAddr :: string
  co_server :: bool
  co_registry :: conn_state
  co_rows :: rnics_table
  co_cancelled :: bool
  co_wg :: nat

text \<open>The table may hold rows of an earlier run: the database is not the process's own.\<close>

definition Controller_New :: "string \<Rightarrow> rnics_table \<Rightarrow> string option \<Rightarrow> string option \<Rightarrow> string option \<Rightarrow> Controller res" where
  "Controller_New addr rows open_err table_err index_err =
     (case NewRnicRegistry open_err table_err index_err of
        (_, Inl e) \<Rightarrow> Inl (''failed to initialize registry: '' @ e)
      | (_, Inr reg) \<Rightarrow> Inr \<lparr>co_ListenAddr = addr, co_server = False, co_registry = reg, co_rows = rows, co_cancelled = False, co_wg = 0\<rparr>)"

text \<open>Start: the server object exists even when listening fails.\<close>

definition Controller_Start :: "string option \<Rightarrow> Controller \<Rightarrow> unit res \<times> Controller" where
  "Controller_Start listen_err c =
     (let c1 = c\<lparr>co_server := True\<rparr> in
      case listen_err of
        Some e \<Rightarrow> (Inl (''failed to listen: '' @ e), c1)
      | None \<Rightarrow> (Inr (), c1\<lparr>co_wg := co_wg c1 + 1\<rparr>))"

text \<open>The periodic clean-up, which Start does not launch: the outcome and the time of each tick.\<close>

fun runPeriodicCleanup :: "(string option \<times> int) list \<Rightarrow> rnics_table \<Rightarrow> rnics_table" where
  "runPeriodicCleanup [] rows = rows"
| "runPeriodicCleanup ((err, now) # ticks) rows = runPeriodicCleanup ticks (snd (CleanupStaleEntries err now rows))"

text \<open>A call under way, with the replies of the database and the times it will see.\<close>

datatype ctl_call =
  RegisterCall "nat \<Rightarrow> string option" "nat \<Rightarrow> int" AgentRegistrationRequest
| PinglistCall db_reply int PinglistRequest
| TargetCall db_reply int TargetRnicInfoRequest

text \<open>Answering a call: the table it leaves behind, or the panic of its handler. The server installs no
  recovery, so such a panic ends the process.\<close>

fun answer_call :: "ctl_call \<Rightarrow> rnics_table \<Rightarrow> rnics_table go" where
  "answer_call (RegisterCall err now req) rows = Ret (snd (RegisterAgent err now req rows))"
| "answer_call (PinglistCall q now req) rows = go_bind (GetPinglist q now req rows) (\<lambda>_. Ret rows)"
| "answer_call (TargetCall q now req) rows = (let resp = GetTargetRnicInfo q now req rows in Ret rows)"

text \<open>A request for a pinglist that does not say which RNIC it is for.\<close>

fun no_requester :: "ctl_call \<Rightarrow> bool" where
  "no_requester (PinglistCall q now req) \<longleftrightarrow> plq_RequesterRnic req = None"
| "no_requester _ \<longleftrightarrow> False"

lemma answer_call_panics: "(\<exists>m. answer_call c rows = Panic m) \<longleftrightarrow> no_requester c"
  by (cases c) (auto simp: GetPinglist_def Let_def split: option.splits)

datatype ctl_stop_pc = CtlRunning | CtlDraining | CtlClosing | CtlWaiting | CtlStopped

record ctl_world =
  cw_c :: Controller
  cw_calls :: "ctl_call list"
  cw_serving :: bool
  cw_stop :: ctl_stop_pc
  cw_panic :: "string option"

definition ctl_draining :: "ctl_world \<Rightarrow> bool" where
  "ctl_draining w \<longleftrightarrow> cw_stop w \<noteq> CtlRunning"

inductive ctl_step :: "ctl_call grpc_server \<Rightarrow> ctl_world \<Rightarrow> ctl_world \<Rightarrow> bool" for gs where
  call_in: "cw_panic w = None \<Longrightarrow> cw_serving w \<Longrightarrow> gs_accepts gs (ctl_draining w) \<Longrightarrow> ctl_step gs w (w\<lparr>cw_calls := cw_calls w @ [c]\<rparr>)"
| call_out: "cw_panic w = None \<Longrightarrow> cw_calls w = cs @ c # ds \<Longrightarrow> answer_call c (co_rows (cw_c w)) = Ret rows \<Longrightarrow>
     ctl_step gs w (w\<lparr>cw_calls := cs @ ds, cw_c := (cw_c w)\<lparr>co_rows := rows\<rparr>\<rparr>)"
| call_panics: "cw_panic w = None \<Longrightarrow> c \<in> set (cw_calls w) \<Longrightarrow> answer_call c (co_rows (cw_c w)) = Panic m \<Longrightarrow>
     ctl_step gs w (w\<lparr>cw_panic := Some m\<rparr>)"
| serve_ends: "cw_panic w = None \<Longrightarrow> cw_serving w \<Longrightarrow> gs_serve_returns gs (ctl_draining w) \<Longrightarrow>
     ctl_step gs w (w\<lparr>cw_serving := False, cw_c := (cw_c w)\<lparr>co_wg := co_wg (cw_c w) - 1\<rparr>\<rparr>)"
| cancel: "cw_panic w = None \<Longrightarrow> cw_stop w = CtlRunning \<Longrightarrow>
     ctl_step gs w (w\<lparr>cw_stop := if co_server (cw_c w) then CtlDraining else CtlClosing, cw_c := (cw_c w)\<lparr>co_cancelled := True\<rparr>\<rparr>)"
| graceful: "cw_panic w = None \<Longrightarrow> cw_stop w = CtlDraining \<Longrightarrow> gs_graceful_returns gs (cw_calls w) \<Longrightarrow> ctl_step gs w (w\<lparr>cw_stop := CtlClosing\<rparr>)"
| close: "cw_panic w = None \<Longrightarrow> cw_stop w = CtlClosing \<Longrightarrow>
     ctl_step gs w (w\<lparr>cw_stop := CtlWaiting, cw_c := (cw_c w)\<lparr>co_registry := Registry_Close (co_registry (cw_c w))\<rparr>\<rparr>)"
| waited: "cw_panic w = None \<Longrightarrow> cw_stop w = CtlWaiting \<Longrightarrow> co_wg (cw_c w) = 0 \<Longrightarrow> ctl_step gs w (w\<lparr>cw_stop := CtlStopped\<rparr>)"

inductive_cases ctl_stepE: "ctl_step gs w w'"

definition ctl_running :: "Controller \<Rightarrow> ctl_world" where
  "ctl_running c = \<lparr>cw_c = c, cw_calls = [], cw_serving = True, cw_stop = CtlRunning, cw_panic = None\<rparr>"

definition ctl_ok :: "ctl_world \<Rightarrow> bool" where
  "ctl_ok w \<longleftrightarrow> co_server (cw_c w) \<and> co_wg (cw_c w) = (if cw_serving w then 1 else 0)
     \<and> (cw_stop w \<in> {CtlRunning, CtlDraining, CtlClosing} \<longrightarrow> co_registry (cw_c w) = Open_conn)
     \<and> (cw_stop w \<in> {CtlWaiting, CtlStopped} \<longrightarrow> co_registry (cw_c w) = Closed_conn)
     \<and> (cw_calls w \<noteq> [] \<longrightarrow> cw_stop w \<in> {CtlRunning, CtlDraining})
     \<and> (cw_stop w = CtlStopped \<longrightarrow> \<not> cw_serving w)
     \<and> (cw_panic w \<noteq> None \<longrightarrow> (\<exists>c \<in> set (cw_calls w). no_requester c))"

fun ctl_rank :: "ctl_stop_pc \<Rightarrow> nat" where
  "ctl_rank CtlRunning = 4" | "ctl_rank CtlDraining = 3" | "ctl_rank CtlClosing = 2" | "ctl_rank CtlWaiting = 1" | "ctl_rank CtlStopped = 0"

definition ctl_left :: "ctl_world \<Rightarrow> nat" where
  "ctl_left w = length (cw_calls w) + (if cw_serving w then 1 else 0) + ctl_rank (cw_stop w) + (if cw_panic w = None then 1 else 0)"

lemma accepts_not_draining: "grpc_documented gs \<Longrightarrow> gs_accepts gs b \<Longrightarrow> \<not> b"
  by (cases b) (simp_all add: grpc_documented_def)

lemma ctl_ok_step:
  assumes "ctl_step gs w w'" "grpc_documented gs" "ctl_ok w"
  shows "ctl_ok w'"
  using assms(1)
proof cases
  case (call_in c)
  have "cw_stop w = CtlRunning" using accepts_not_draining[OF assms(2) call_in(4)] by (simp add: ctl_draining_def)
  with assms(3) call_in(1,2) show ?thesis by (simp add: ctl_ok_def)
next
  case (call_out cs c ds rows)
  then have "cw_stop w \<in> {CtlRunning, CtlDraining}" using assms(3) by (auto simp: ctl_ok_def)
  with assms(3) call_out show ?thesis by (auto simp: ctl_ok_def)
next
  case (call_panics c m)
  then have "no_requester c" using answer_call_panics by blast
  with assms(3) call_panics show ?thesis by (auto simp: ctl_ok_def)
next
  case graceful
  then have "cw_calls w = []" using assms(2) by (simp add: grpc_documented_def)
  with assms(3) graceful show ?thesis by (simp add: ctl_ok_def)
qed (use assms(3) in \<open>simp_all add: ctl_ok_def Registry_Close_def split: if_splits\<close>)

lemma ctl_closer:
  assumes "ctl_step gs w w'" "grpc_documented gs" "ctl_draining w"
  shows "ctl_draining w' \<and> ctl_left w' < ctl_left w"
  using assms(1) by cases (use assms(2,3) in \<open>simp_all add: ctl_draining_def ctl_left_def grpc_documented_def\<close>)

lemma call_ends:
  assumes "cw_calls w = c # cs" "cw_panic w = None"
  shows "\<exists>w'. ctl_step gs w w'"
proof (cases "answer_call c (co_rows (cw_c w))")
  case (Ret rows)
  then show ?thesis using call_out[of w "[]" c cs rows gs] assms by auto
next
  case (Panic m)
  then show ?thesis using call_panics[of w c m gs] assms by auto
qed

lemma ctl_progress:
  assumes "grpc_documented gs" "ctl_ok w" "ctl_draining w" "cw_panic w = None" "cw_stop w \<noteq> CtlStopped"
  shows "\<exists>w'. ctl_step gs w w'"
proof (cases "cw_stop w")
  case CtlDraining
  show ?thesis
  proof (cases "cw_calls w")
    case Nil
    with CtlDraining assms(1,4) show ?thesis by (auto simp: grpc_documented_def intro: graceful)
  qed (use call_ends assms(4) in blast)
next
  case CtlWaiting
  show ?thesis
  proof (cases "cw_serving w")
    case True
    then show ?thesis using serve_ends[of w gs] assms(1,3,4) by (auto simp: grpc_documented_def)
  next
    case False
    then show ?thesis using CtlWaiting assms(2,4) by (auto simp: ctl_ok_def intro: waited)
  qed
qed (use assms in \<open>auto simp: ctl_draining_def intro: close\<close>)

definition ctl_ended :: "ctl_world \<Rightarrow> bool" where
  "ctl_ended w \<longleftrightarrow> cw_stop w = CtlStopped \<or> cw_panic w \<noteq> None"

lemma ctl_ended_how:
  assumes "ctl_ended w" "ctl_ok w"
  shows "cw_panic w = None \<and> cw_stop w = CtlStopped \<and> cw_calls w = [] \<and> co_registry (cw_c w) = Closed_conn
    \<or> cw_panic w \<noteq> None \<and> (\<exists>call \<in> set (cw_calls w). no_requester call)"
proof (cases "cw_panic w")
  case None
  then have "cw_stop w = CtlStopped" using assms(1) by (simp add: ctl_ended_def)
  with None assms(2) show ?thesis unfolding ctl_ok_def by force
next
  case (Some m)
  with assms(2) show ?thesis unfolding ctl_ok_def by simp
qed

interpretation ctl: graceful_stop "ctl_step gs" "\<lambda>w. grpc_documented gs \<and> ctl_ok w" ctl_draining ctl_ended ctl_left for gs
proof unfold_locales
  fix w w' assume s: "ctl_step gs w w'" "grpc_documented gs \<and> ctl_ok w"
  then show "grpc_documented gs \<and> ctl_ok w'" using ctl_ok_step by blast
  assume "ctl_draining w"
  with ctl_closer s show "ctl_draining w'" "ctl_left w' < ctl_left w" by blast+
qed (use ctl_progress in \<open>auto simp: ctl_ended_def\<close>)

lemma started_ok:
  assumes "Controller_New addr rows e1 e2 e3 = Inr c0" "Controller_Start None c0 = (Inr (), c)"
  shows "ctl_ok (ctl_running c)"
  using assms by (auto simp: Controller_New_def Controller_Start_def NewRnicRegistry_def ctl_ok_def ctl_running_def Let_def split: option.splits sum.splits)

text \<open>C29: a controller that has started can be stopped, and safely, unless a client crashes it. In every
  state it can reach, a call under way finds the registry open. Once Stop has been called there is
  no endless run, and a run that cannot go on has either ended with Stop returned, no call left
  unanswered and the registry closed, or with the process crashed by the handler of a request for
  a pinglist that names no requester; while such a request is under way it can crash the
  process, and nothing else can. So without such requests Stop returns under every schedule.\<close>

theorem Controller_Stop_returns:
  assumes "grpc_documented gs" "Controller_New addr rows e1 e2 e3 = Inr c0" "Controller_Start None c0 = (Inr (), c)"
    and "(ctl_step gs)\<^sup>*\<^sup>* (ctl_running c) w"
  shows "(cw_calls w \<noteq> [] \<longrightarrow> co_registry (cw_c w) = Open_conn)
    \<and> (ctl_draining w \<longrightarrow> \<not> (\<exists>run. run 0 = w \<and> (\<forall>i. ctl_step gs (run i) (run (Suc i))))
        \<and> (\<forall>w'. (ctl_step gs)\<^sup>*\<^sup>* w w' \<and> \<not> (\<exists>w''. ctl_step gs w' w'') \<longrightarrow>
             cw_panic w' = None \<and> cw_stop w' = CtlStopped \<and> cw_calls w' = [] \<and> co_registry (cw_c w') = Closed_conn
             \<or> cw_panic w' \<noteq> None \<and> (\<exists>call \<in> set (cw_calls w'). no_requester call)))
    \<and> (cw_panic w = None \<longrightarrow>
         (\<exists>call \<in> set (cw_calls w). no_requester call) = (\<exists>w' m. ctl_step gs w w' \<and> cw_panic w' = Some m))"
proof (intro conjI impI)
  have ok: "grpc_documented gs \<and> ctl_ok w" using ctl.ok_steps[OF assms(4)] assms(1) started_ok[OF assms(2,3)] by blast
  then show "cw_calls w \<noteq> [] \<Longrightarrow> co_registry (cw_c w) = Open_conn" by (auto simp: ctl_ok_def)
  show "\<not> (\<exists>run. run 0 = w \<and> (\<forall>i. ctl_step gs (run i) (run (Suc i))))" if "ctl_draining w"
    using ctl.no_endless_run[OF ok that] .
  show "\<forall>w'. (ctl_step gs)\<^sup>*\<^sup>* w w' \<and> \<not> (\<exists>w''. ctl_step gs w' w'') \<longrightarrow>
      cw_panic w' = None \<and> cw_stop w' = CtlStopped \<and> cw_calls w' = [] \<and> co_registry (cw_c w') = Closed_conn
      \<or> cw_panic w' \<noteq> None \<and> (\<exists>call \<in> set (cw_calls w'). no_requester call)" if d: "ctl_draining w"
  proof (intro allI impI)
    fix w' assume w': "(ctl_step gs)\<^sup>*\<^sup>* w w' \<and> \<not> (\<exists>w''. ctl_step gs w' w'')"
    have "ctl_ended w'" using ctl.ends_stopped[OF ok d] w' by blast
    moreover have "ctl_ok w'" using ctl.ok_steps ok w' by blast
    ultimately show "cw_panic w' = None \<and> cw_stop w' = CtlStopped \<and> cw_calls w' = [] \<and> co_registry (cw_c w') = Closed_conn
      \<or> cw_panic w' \<noteq> None \<and> (\<exists>call \<in> set (cw_calls w'). no_requester call)" by (rule ctl_ended_how)
  qed
  show "(\<exists>call \<in> set (cw_calls w). no_requester call) = (\<exists>w' m. ctl_step gs w w' \<and> cw_panic w' = Some m)" if "cw_panic w = None"
  proof
    assume "\<exists>call \<in> set (cw_calls w). no_requester call"
    then obtain call m where "call \<in> set (cw_calls w)" "answer_call call (co_rows (cw_c w)) = Panic m" using answer_call_panics by blast
    from call_panics[OF that this] show "\<exists>w' m. ctl_step gs w w' \<and> cw_panic w' = Some m" by fastforce
  next
    assume "\<exists>w' m. ctl_step gs w w' \<and> cw_panic w' = Some m"
    then obtain w' m where "ctl_step gs w w'" "cw_panic w' = Some m" by blast
    then have "\<exists>call \<in> set (cw_calls w). answer_call call (co_rows (cw_c w)) = Panic m"
      by cases (use that in auto)
    then show "\<exists>call \<in> set (cw_calls w). no_requester call" using answer_call_panics by blast
  qed
qed

subsection \<open>Analyzer\<close>

record Analyzer =
  an_ListenAddr :: string
  an_server :: bool
  an_storage_closed :: bool
  an_cancelled :: bool
  an_wg :: nat

text \<open>New: the storage is a stub whose creation cannot fail.\<close>

definition NewStorage :: "unit res" where
  "NewStorage = Inr ()"

definition Analyzer_New :: "string \<Rightarrow> Analyzer res" where
  "Analyzer_New addr =
     (case NewStorage of
        Inl e \<Rightarrow> Inl (''failed to create storage: '' @ e)
      | Inr _ \<Rightarrow> Inr \<lparr>an_ListenAddr = addr, an_server = False, an_storage_closed = False, an_cancelled = False, an_wg = 0\<rparr>)"

text \<open>Start: one goroutine serves, one runs the periodic tasks.\<close>

definition Analyzer_Start :: "string option \<Rightarrow> Analyzer \<Rightarrow> unit res \<times> Analyzer" where
  "Analyzer_Start listen_err a =
     (let a1 = a\<lparr>an_server := True\<rparr> in
      case listen_err of
        Some e \<Rightarrow> (Inl (''failed to listen: '' @ e), a1)
      | None \<Rightarrow> (Inr (), a1\<lparr>an_wg := an_wg a1 + 2\<rparr>))"

datatype an_stop_pc = AnRunning | AnDraining | AnCancelling | AnWaiting | AnClosing | AnStopped

text \<open>The ticks are those that the two tickers fire before the periodic tasks look at their context:
  when both are ready the select may take either.\<close>

record an_world =
  aw_a :: Analyzer
  aw_calls :: "UploadDataRequest list"
  aw_serving :: bool
  aw_tasks :: bool
  aw_ticks :: nat
  aw_stop :: an_stop_pc

definition an_draining :: "an_world \<Rightarrow> bool" where
  "an_draining w \<longleftrightarrow> aw_stop w \<noteq> AnRunning"

inductive an_step :: "UploadDataRequest grpc_server \<Rightarrow> an_world \<Rightarrow> an_world \<Rightarrow> bool" for gs where
  upload_in: "aw_serving w \<Longrightarrow> gs_accepts gs (an_draining w) \<Longrightarrow> an_step gs w (w\<lparr>aw_calls := aw_calls w @ [c]\<rparr>)"
| upload_out: "aw_calls w = cs @ c # ds \<Longrightarrow> an_step gs w (w\<lparr>aw_calls := cs @ ds\<rparr>)"
| an_serve_ends: "aw_serving w \<Longrightarrow> gs_serve_returns gs (an_draining w) \<Longrightarrow>
     an_step gs w (w\<lparr>aw_serving := False, aw_a := (aw_a w)\<lparr>an_wg := an_wg (aw_a w) - 1\<rparr>\<rparr>)"
| tick: "aw_tasks w \<Longrightarrow> aw_ticks w = Suc n \<Longrightarrow> an_step gs w (w\<lparr>aw_ticks := n\<rparr>)"
| tasks_end: "aw_tasks w \<Longrightarrow> an_cancelled (aw_a w) \<Longrightarrow>
     an_step gs w (w\<lparr>aw_tasks := False, aw_a := (aw_a w)\<lparr>an_wg := an_wg (aw_a w) - 1\<rparr>\<rparr>)"
| an_stop_called: "aw_stop w = AnRunning \<Longrightarrow> an_step gs w (w\<lparr>aw_stop := if an_server (aw_a w) then AnDraining else AnCancelling\<rparr>)"
| an_graceful: "aw_stop w = AnDraining \<Longrightarrow> gs_graceful_returns gs (aw_calls w) \<Longrightarrow> an_step gs w (w\<lparr>aw_stop := AnCancelling\<rparr>)"
| an_cancel: "aw_stop w = AnCancelling \<Longrightarrow> an_step gs w (w\<lparr>aw_stop := AnWaiting, aw_a := (aw_a w)\<lparr>an_cancelled := True\<rparr>\<rparr>)"
| an_waited: "aw_stop w = AnWaiting \<Longrightarrow> an_wg (aw_a w) = 0 \<Longrightarrow> an_step gs w (w\<lparr>aw_stop := AnClosing\<rparr>)"
| an_close: "aw_stop w = AnClosing \<Longrightarrow> an_step gs w (w\<lparr>aw_stop := AnStopped, aw_a := (aw_a w)\<lparr>an_storage_closed := True\<rparr>\<rparr>)"

definition an_running :: "nat \<Rightarrow> Analyzer \<Rightarrow> an_world" where
  "an_running ticks a = \<lparr>aw_a = a, aw_calls = [], aw_serving = True, aw_tasks = True, aw_ticks = ticks, aw_stop = AnRunning\<rparr>"

definition an_ok :: "an_world \<Rightarrow> bool" where
  "an_ok w \<longleftrightarrow> an_server (aw_a w) \<and> an_wg (aw_a w) = (if aw_serving w then 1 else 0) + (if aw_tasks w then 1 else 0)
     \<and> (an_cancelled (aw_a w) \<longleftrightarrow> aw_stop w \<in> {AnWaiting, AnClosing, AnStopped})
     \<and> (an_storage_closed (aw_a w) \<longleftrightarrow> aw_stop w = AnStopped)
     \<and> (aw_calls w \<noteq> [] \<longrightarrow> aw_stop w \<in> {AnRunning, AnDraining})
     \<and> (aw_stop w \<in> {AnClosing, AnStopped} \<longrightarrow> \<not> aw_serving w \<and> \<not> aw_tasks w)"

fun an_rank :: "an_stop_pc \<Rightarrow> nat" where
  "an_rank AnRunning = 5" | "an_rank AnDraining = 4" | "an_rank AnCancelling = 3" | "an_rank AnWaiting = 2" | "an_rank AnClosing = 1" | "an_rank AnStopped = 0"

definition an_left :: "an_world \<Rightarrow> nat" where
  "an_left w = length (aw_calls w) + (if aw_serving w then 1 else 0) + (if aw_tasks w then 1 else 0) + aw_ticks w + an_rank (aw_stop w)"

lemma an_ok_step:
  assumes "an_step gs w w'" "grpc_documented gs" "an_ok w"
  shows "an_ok w'"
  using assms(1)
proof cases
  case (upload_in c)
  have "aw_stop w = AnRunning" using accepts_not_draining[OF assms(2) upload_in(3)] by (simp add: an_draining_def)
  with assms(3) upload_in(1) show ?thesis by (simp add: an_ok_def)
next
  case (upload_out cs c ds)
  then have "aw_stop w \<in> {AnRunning, AnDraining}" using assms(3) by (auto simp: an_ok_def)
  with assms(3) upload_out show ?thesis by (auto simp: an_ok_def)
next
  case an_graceful
  then have "aw_calls w = []" using assms(2) by (simp add: grpc_documented_def)
  with assms(3) an_graceful show ?thesis by (simp add: an_ok_def)
qed (use assms(3) in \<open>auto simp: an_ok_def split: if_splits\<close>)

lemma an_closer:
  assumes "an_step gs w w'" "grpc_documented gs" "an_draining w"
  shows "an_draining w' \<and> an_left w' < an_left w"
  using assms(1) by cases (use assms(2,3) in \<open>simp_all add: an_draining_def an_left_def grpc_documented_def\<close>)

lemma an_progress:
  assumes "grpc_documented gs" "an_ok w" "an_draining w" "aw_stop w \<noteq> AnStopped"
  shows "\<exists>w'. an_step gs w w'"
proof (cases "aw_stop w")
  case AnDraining
  show ?thesis
  proof (cases "aw_calls w")
    case Nil
    with AnDraining assms(1) show ?thesis by (auto simp: grpc_documented_def intro: an_graceful)
  next
    case (Cons c cs)
    then show ?thesis using upload_out[of w "[]" c cs gs] by auto
  qed
next
  case AnWaiting
  consider "aw_serving w" | "aw_tasks w" | "\<not> aw_serving w \<and> \<not> aw_tasks w" by blast
  then show ?thesis
  proof cases
    case 1
    then show ?thesis using an_serve_ends[of w gs] assms(1,3) by (auto simp: grpc_documented_def)
  next
    case 2
    then show ?thesis using tasks_end[of w gs] AnWaiting assms(2) by (auto simp: an_ok_def)
  next
    case 3
    then show ?thesis using an_waited[of w gs] AnWaiting assms(2) by (auto simp: an_ok_def)
  qed
qed (use assms in \<open>auto simp: an_draining_def intro: an_cancel an_close\<close>)

interpretation an: graceful_stop "an_step gs" "\<lambda>w. grpc_documented gs \<and> an_ok w" an_draining "\<lambda>w. aw_stop w = AnStopped" an_left for gs
proof unfold_locales
  fix w w' assume s: "an_step gs w w'" "grpc_documented gs \<and> an_ok w"
  then show "grpc_documented gs \<and> an_ok w'" using an_ok_step by blast
  assume "an_draining w"
  with an_closer s show "an_draining w'" "an_left w' < an_left w" by blast+
qed (use an_progress in blast)

text \<open>Unlike the agent, the analyzer too can be stopped under every schedule, and its storage is closed
  only when no upload is under way and the periodic tasks have ended.\<close>

theorem Analyzer_Stop_returns:
  assumes "grpc_documented gs" "Analyzer_New addr = Inr a0" "Analyzer_Start None a0 = (Inr (), a)"
    and "(an_step gs)\<^sup>*\<^sup>* (an_running ticks a) w"
  shows "(an_storage_closed (aw_a w) \<longrightarrow> aw_calls w = [] \<and> \<not> aw_tasks w)
    \<and> (an_draining w \<longrightarrow> \<not> (\<exists>run. run 0 = w \<and> (\<forall>i. an_step gs (run i) (run (Suc i))))
        \<and> (\<forall>w'. (an_step gs)\<^sup>*\<^sup>* w w' \<and> \<not> (\<exists>w''. an_step gs w' w'') \<longrightarrow> aw_stop w' = AnStopped))"
proof -
  have "an_ok (an_running ticks a)"
    using assms(2,3) by (auto simp: Analyzer_New_def NewStorage_def Analyzer_Start_def an_ok_def an_running_def)
  then have ok: "grpc_documented gs \<and> an_ok w" using an.ok_steps[OF assms(4)] assms(1) by blast
  with an.no_endless_run[OF ok] an.ends_stopped[OF ok] show ?thesis by (auto simp: an_ok_def)
qed

subsection \<open>A concrete server\<close>

definition plain_grpc :: "'call grpc_server" where
  "plain_grpc = \<lparr>gs_accepts = Not, gs_serve_returns = (\<lambda>d. d), gs_graceful_returns = (\<lambda>calls. calls = [])\<rparr>"

lemma plain_grpc_ok: "grpc_documented plain_grpc"
  by (auto simp: grpc_documented_def plain_grpc_def)

definition sample_controller :: Controller where
  "sample_controller = \<lparr>co_ListenAddr = '':50051'', co_server = True, co_registry = Open_conn, co_rows = [], co_cancelled = False, co_wg = 1\<rparr>"

theorem Controller_Stop_returns_witness:
  "\<exists>w. (ctl_step plain_grpc)\<^sup>*\<^sup>* (ctl_running sample_controller) w \<and> cw_calls w \<noteq> [] \<and> ctl_draining w \<and> cw_panic w = None
     \<and> co_registry (cw_c w) = Open_conn \<and> \<not> (\<exists>run. run 0 = w \<and> (\<forall>i. ctl_step plain_grpc (run i) (run (Suc i))))
     \<and> \<not> (\<exists>w' m. ctl_step plain_grpc w w' \<and> cw_panic w' = Some m)"
proof -
  let ?w0 = "ctl_running sample_controller" and ?c = "PinglistCall plain_db 0 \<lparr>plq_RequesterRnic = Some Registry.sample_rnic, plq_Type = TOR_MESH\<rparr>"
  let ?w1 = "?w0\<lparr>cw_calls := cw_calls ?w0 @ [?c]\<rparr>"
  let ?w2 = "?w1\<lparr>cw_stop := if co_server (cw_c ?w1) then CtlDraining else CtlClosing, cw_c := (cw_c ?w1)\<lparr>co_cancelled := True\<rparr>\<rparr>"
  have "ctl_step plain_grpc ?w0 ?w1" by (rule call_in) (simp_all add: ctl_running_def ctl_draining_def plain_grpc_def)
  moreover have "ctl_step plain_grpc ?w1 ?w2" by (rule cancel) (simp_all add: ctl_running_def)
  ultimately have s: "(ctl_step plain_grpc)\<^sup>*\<^sup>* ?w0 ?w2" by auto
  have d: "cw_calls ?w2 \<noteq> []" "ctl_draining ?w2" "cw_panic ?w2 = None" "\<not> (\<exists>call \<in> set (cw_calls ?w2). no_requester call)"
    by (simp_all add: ctl_draining_def) (simp_all add: ctl_running_def)
  have "Controller_New '':50051'' [] None None None = Inr \<lparr>co_ListenAddr = '':50051'', co_server = False, co_registry = Open_conn, co_rows = [], co_cancelled = False, co_wg = 0\<rparr>"
    by (simp add: Controller_New_def NewRnicRegistry_def initializeSchema_def)
  moreover have "Controller_Start None \<lparr>co_ListenAddr = '':50051'', co_server = False, co_registry = Open_conn, co_rows = [], co_cancelled = False, co_wg = 0\<rparr> = (Inr (), sample_controller)"
    by (simp add: Controller_Start_def sample_controller_def)
  ultimately show ?thesis using Controller_Stop_returns[OF plain_grpc_ok _ _ s] s d by blast
qed

end
