(* ===== verification/Mains.thy ===== *)
theory Mains
  imports Agent Servers Config
begin

text \<open>
  The three programs (cmd/agent, cmd/controller and cmd/analyzer) and Run of the three processes.
  The flag library is a parameter; a program's end is an exit code, a panic, or a process that has
  been started and waits for a signal.
\<close>

subsection \<open>Command lines\<close>

text \<open>Parse in the mode ExitOnError: the flags given, or the exit code with which the library ends the
  process. A flag's value is what was given for it or its default.\<close>

record pflag_lib =
  pf_add :: add_flag
  pf_parse :: "settings \<Rightarrow> string list \<Rightarrow> int + settings"

definition flag_bool :: "settings \<Rightarrow> settings \<Rightarrow> string \<Rightarrow> bool res" where
  "flag_bool fs given k = (case (map_of fs ++ map_of given) k of Some (CBool b) \<Rightarrow> Inr b | _ \<Rightarrow> Inl (''flag accessed but not defined: '' @ k))"

definition flag_string :: "settings \<Rightarrow> settings \<Rightarrow> string \<Rightarrow> string res" where
  "flag_string fs given k = (case (map_of fs ++ map_of given) k of Some (CStr s) \<Rightarrow> Inr s | _ \<Rightarrow> Inl (''flag accessed but not defined: '' @ k))"

text \<open>The value of a call whose error is dropped.\<close>

definition drop_err :: "'a \<Rightarrow> 'a res \<Rightarrow> 'a" where
  "drop_err z r = (case r of Inl _ \<Rightarrow> z | Inr x \<Rightarrow> x)"

datatype 'w proc_end = Exited int | Crashed string | Waits 'w

record 'w proc =
  p_out :: "string list"
  p_err :: "string list"
  p_os :: outside
  p_end :: "'w proc_end"

text \<open>What the outside answers: errors of binding flags and of writing a file, the host name, what
  loading the eBPF object gives, the database behind an address and its errors, whether an
  address can be listened on.\<close>

record main_env =
  mn_bind :: "string option"
  mn_write :: "string option"
  mn_dirMissing :: bool
  mn_mkdir :: "string option"
  mn_hostname :: "string res"
  mn_load :: load_env
  mn_rows :: "string \<Rightarrow> rnics_table"
  mn_registry :: "string \<Rightarrow> string option \<times> string option \<times> string option"
  mn_listen :: "string \<Rightarrow> string option"

subsection \<open>Agent\<close>

definition agent_main :: "pflag_lib \<Rightarrow> viper_lib \<Rightarrow> main_env \<Rightarrow> string list \<Rightarrow> outside \<Rightarrow> Agent proc" where
  "agent_main PF L env args os =
     (case SetupAgentFlags (pf_add PF) [] of
        Panic m \<Rightarrow> \<lparr>p_out = [], p_err = [], p_os = os, p_end = Crashed m\<rparr>
      | Ret flagSet \<Rightarrow>
        (case pf_parse PF flagSet args of
           Inl code \<Rightarrow> \<lparr>p_out = [], p_err = [], p_os = os, p_end = Exited code\<rparr>
         | Inr given \<Rightarrow>
           let os1 = os\<lparr>os_changed := given\<rparr> in
           if drop_err False (flag_bool flagSet given ''version'') then \<lparr>p_out = [''RPingMesh Agent v0.1.0''], p_err = [], p_os = os1, p_end = Exited 0\<rparr>
           else if drop_err False (flag_bool flagSet given ''create-config'') then
             (let configOutput = drop_err '''' (flag_string flagSet given ''config-output'') in
              case WriteDefaultConfig L (mn_write env) configOutput os1 of
                (Inl e, os2) \<Rightarrow> \<lparr>p_out = [], p_err = [''Error creating default config: '' @ e], p_os = os2, p_end = Exited 1\<rparr>
              | (Inr _, os2) \<Rightarrow> \<lparr>p_out = [''Created default configuration at '' @ configOutput], p_err = [], p_os = os2, p_end = Exited 0\<rparr>)
           else
             (case LoadAgentConfig L os1 (mn_bind env) (mn_hostname env) flagSet of
                Inl e \<Rightarrow> \<lparr>p_out = [], p_err = [''Error loading configuration: '' @ e], p_os = os1, p_end = Exited 1\<rparr>
              | Inr cfg \<Rightarrow> \<lparr>p_out = [], p_err = [], p_os = os1, p_end = Waits (Agent_New (mn_load env) cfg)\<rparr>)))"

subsection \<open>Controller\<close>

text \<open>Run up to the point where it waits for a signal; Stop then runs as in \<^const>\<open>ctl_step\<close>.\<close>

definition Controller_Run :: "string option \<Rightarrow> Controller \<Rightarrow> Controller res" where
  "Controller_Run listen_err c =
     (case Controller_Start listen_err c of (Inl e, _) \<Rightarrow> Inl e | (Inr _, c1) \<Rightarrow> Inr c1)"

definition controller_main :: "pflag_lib \<Rightarrow> viper_lib \<Rightarrow> main_env \<Rightarrow> string list \<Rightarrow> outside \<Rightarrow> Controller proc" where
  "controller_main PF L env args os =
     (case SetupControllerFlags (pf_add PF) [] of
        Panic m \<Rightarrow> \<lparr>p_out = [], p_err = [], p_os = os, p_end = Crashed m\<rparr>
      | Ret commandLine \<Rightarrow>
        (case pf_parse PF commandLine args of
           Inl code \<Rightarrow> \<lparr>p_out = [], p_err = [], p_os = os, p_end = Exited code\<rparr>
         | Inr given \<Rightarrow>
           let os1 = os\<lparr>os_changed := given\<rparr>; v = viper_New\<lparr>vi_flags := commandLine\<rparr>;
               createConfig = vl_bool L os1 v ''create-config''; configOutput = vl_string L os1 v ''config-output''; showVersion = vl_bool L os1 v ''version'' in
           if showVersion then \<lparr>p_out = [''RPingMesh Controller'', ''Version: 0.1.0''], p_err = [], p_os = os1, p_end = Exited 0\<rparr>
           else if createConfig then
             (case CreateDefaultControllerConfig (mn_dirMissing env) (mn_mkdir env) (mn_write env) configOutput os1 of
                (Inl e, os2) \<Rightarrow> \<lparr>p_out = [], p_err = [''Failed to create default configuration: '' @ e], p_os = os2, p_end = Exited 1\<rparr>
              | (Inr _, os2) \<Rightarrow> \<lparr>p_out = [''Default configuration written to '' @ configOutput], p_err = [], p_os = os2, p_end = Exited 0\<rparr>)
           else
             (case LoadControllerConfigWithFlags L os1 commandLine of
                Inl e \<Rightarrow> \<lparr>p_out = [], p_err = [''Failed to load configuration: '' @ e], p_os = os1, p_end = Exited 1\<rparr>
              | Inr cfg \<Rightarrow>
                (case mn_registry env (ck_DatabaseURI cfg) of (e1, e2, e3) \<Rightarrow>
                 (case Controller_New (ck_ListenAddr cfg) (mn_rows env (ck_DatabaseURI cfg)) e1 e2 e3 of
                    Inl e \<Rightarrow> \<lparr>p_out = [], p_err = [''Failed to create controller: '' @ e], p_os = os1, p_end = Exited 1\<rparr>
                  | Inr c \<Rightarrow>
                    (case Controller_Run (mn_listen env (co_ListenAddr c)) c of
                       Inl e \<Rightarrow> \<lparr>p_out = [], p_err = [''Controller failed: '' @ e], p_os = os1, p_end = Exited 1\<rparr>
                     | Inr c1 \<Rightarrow> \<lparr>p_out = [], p_err = [], p_os = os1, p_end = Waits c1\<rparr>))))))"

subsection \<open>Analyzer\<close>

definition Analyzer_Run :: "string option \<Rightarrow> Analyzer \<Rightarrow> Analyzer res" where
  "Analyzer_Run listen_err a =
     (case Analyzer_Start listen_err a of (Inl e, _) \<Rightarrow> Inl e | (Inr _, a1) \<Rightarrow> Inr a1)"

text \<open>The main program declares one flag more after those of the configuration.\<close>

definition analyzer_main :: "pflag_lib \<Rightarrow> viper_lib \<Rightarrow> main_env \<Rightarrow> string list \<Rightarrow> outside \<Rightarrow> Analyzer proc" where
  "analyzer_main PF L env args os =
     (case go_bind (SetupAnalyzerFlags (pf_add PF) []) (\<lambda>fs. pf_add PF fs (''config-output'', CStr ''analyzer.yaml'')) of
        Panic m \<Rightarrow> \<lparr>p_out = [], p_err = [], p_os = os, p_end = Crashed m\<rparr>
      | Ret flags \<Rightarrow>
        (case pf_parse PF flags args of
           Inl code \<Rightarrow> \<lparr>p_out = [], p_err = [], p_os = os, p_end = Exited code\<rparr>
         | Inr given \<Rightarrow>
           let os1 = os\<lparr>os_changed := given\<rparr>; configOutput = drop_err '''' (flag_string flags given ''config-output'') in
           (case flag_bool flags given ''create-config'' of
              Inl e \<Rightarrow> \<lparr>p_out = [], p_err = [''Failed to get create-config flag value: '' @ e], p_os = os1, p_end = Exited 1\<rparr>
            | Inr True \<Rightarrow>
              (case CreateDefaultAnalyzerConfig L (mn_write env) configOutput os1 of
                 (Inl e, os2) \<Rightarrow> \<lparr>p_out = [], p_err = [''Failed to create default configuration: '' @ e], p_os = os2, p_end = Exited 1\<rparr>
               | (Inr _, os2) \<Rightarrow> \<lparr>p_out = [''Default configuration written to '' @ configOutput], p_err = [], p_os = os2, p_end = Exited 0\<rparr>)
            | Inr False \<Rightarrow>
              (case LoadAnalyzerConfig L os1 (mn_bind env) flags of
                 Inl e \<Rightarrow> \<lparr>p_out = [], p_err = [''Failed to load analyzer config: '' @ e], p_os = os1, p_end = Exited 1\<rparr>
               | Inr cfg \<Rightarrow>
                 (case Analyzer_New (az_ListenAddr cfg) of
                    Inl e \<Rightarrow> \<lparr>p_out = [], p_err = [''Failed to create analyzer: '' @ e], p_os = os1, p_end = Exited 1\<rparr>
                  | Inr a \<Rightarrow>
                    (case Analyzer_Run (mn_listen env (an_ListenAddr a)) a of
                       Inl e \<Rightarrow> \<lparr>p_out = [], p_err = [''Analyzer failed: '' @ e], p_os = os1, p_end = Exited 1\<rparr>
                     | Inr a1 \<Rightarrow> \<lparr>p_out = [], p_err = [], p_os = os1, p_end = Waits a1\<rparr>))))))"

subsection \<open>Run of the agent\<close>

text \<open>Run from the point where the goroutine that calls Start has returned: the signals not yet taken
  from the two channels of capacity one (a signal that finds its channel full is dropped; the
  second channel exists only once the first signal has been taken), and the state of Stop.\<close>

datatype run_pc = RunWaiting | RunNotified | RunStopping | RunReturned | RunForced

record agent_run =
  ru_pc :: run_pc
  ru_sigCh :: nat
  ru_forceQuitCh :: "nat option"
  ru_stop :: agent_stop
  ru_signals :: nat

text \<open>After a failed Start neither background goroutine runs.\<close>

definition run_after_start :: "bool \<Rightarrow> Agent \<Rightarrow> agent_run" where
  "run_after_start started a =
     \<lparr>ru_pc = RunWaiting, ru_sigCh = 0, ru_forceQuitCh = None,
      ru_stop = (if started then agent_running a else (agent_running a)\<lparr>ast_handler := False, ast_updater := False\<rparr>), ru_signals = 0\<rparr>"

inductive agent_run_step :: "Agent \<Rightarrow> agent_run \<Rightarrow> agent_run \<Rightarrow> bool" for a where
  run_signal: "ru_pc r \<notin> {RunReturned, RunForced} \<Longrightarrow>
     agent_run_step a r (r\<lparr>ru_signals := ru_signals r + 1, ru_sigCh := 1, ru_forceQuitCh := map_option (\<lambda>_. 1) (ru_forceQuitCh r)\<rparr>)"
| run_first: "ru_pc r = RunWaiting \<Longrightarrow> ru_sigCh r = 1 \<Longrightarrow> agent_run_step a r (r\<lparr>ru_pc := RunNotified, ru_sigCh := 0\<rparr>)"
| run_notify: "ru_pc r = RunNotified \<Longrightarrow> agent_run_step a r (r\<lparr>ru_pc := RunStopping, ru_forceQuitCh := Some 0\<rparr>)"
| run_stop: "ru_pc r = RunStopping \<Longrightarrow> agent_stop_step a (ru_stop r) s \<Longrightarrow> agent_run_step a r (r\<lparr>ru_stop := s\<rparr>)"
| run_force: "ru_pc r = RunStopping \<Longrightarrow> ru_forceQuitCh r = Some 1 \<Longrightarrow> agent_run_step a r (r\<lparr>ru_pc := RunForced\<rparr>)"
| run_return: "ru_pc r = RunStopping \<Longrightarrow> ast_pc (ru_stop r) = StopReturned \<Longrightarrow> agent_run_step a r (r\<lparr>ru_pc := RunReturned\<rparr>)"

inductive_cases agent_run_stepE: "agent_run_step a r r'"

text \<open>How the process ends: main returns after Run, or the second signal exits.\<close>

fun run_exit :: "run_pc \<Rightarrow> int option" where
  "run_exit RunReturned = Some 0" | "run_exit RunForced = Some 1" | "run_exit _ = None"

lemma declare_flags_distinct:
  "pflag_documented add \<Longrightarrow> distinct (map fst (fs @ gs)) \<Longrightarrow> declare_flags add fs gs = Ret (fs @ gs)"
  by (induction gs arbitrary: fs) (auto simp: pflag_documented_def image_iff)

lemma setup_flags:
  assumes "pflag_documented add"
  shows "SetupAgentFlags add [] = Ret agent_flags" "SetupControllerFlags add [] = Ret controller_flags" "SetupAnalyzerFlags add [] = Ret analyzer_flags"
proof -
  have "distinct (map fst agent_flags)" "distinct (map fst controller_flags)" "distinct (map fst analyzer_flags)"
    by (simp_all add: agent_flags_def controller_flags_def analyzer_flags_def)
  then show "SetupAgentFlags add [] = Ret agent_flags" "SetupControllerFlags add [] = Ret controller_flags" "SetupAnalyzerFlags add [] = Ret analyzer_flags"
    using declare_flags_distinct[OF assms, of "[]"] by (simp_all add: SetupAgentFlags_def SetupControllerFlags_def SetupAnalyzerFlags_def)
qed

text \<open>The analyzer never runs. Its main program declares the flag config-output that
  SetupAnalyzerFlags has already declared, and the flag library panics on a second declaration: with
  whatever arguments and surroundings, the process crashes before it looks at its arguments.
  The agent's and the controller's flags are declared once each.\<close>

theorem analyzer_main_crashes:
  assumes "pflag_documented (pf_add PF)"
  shows "(\<exists>m. p_end (analyzer_main PF L env args os) = Crashed m) \<and> p_os (analyzer_main PF L env args os) = os
    \<and> (\<forall>m. p_end (agent_main PF L env args os) \<noteq> Crashed m) \<and> (\<forall>m. p_end (controller_main PF L env args os) \<noteq> Crashed m)"
proof -
  have "''config-output'' \<in> fst ` set analyzer_flags" by (simp add: analyzer_flags_def)
  then obtain m where "pf_add PF analyzer_flags (''config-output'', CStr ''analyzer.yaml'') = Panic m"
    using assms unfolding pflag_documented_def by meson
  then have "(\<exists>m. p_end (analyzer_main PF L env args os) = Crashed m) \<and> p_os (analyzer_main PF L env args os) = os"
    by (simp add: analyzer_main_def setup_flags[OF assms])
  moreover have "p_end (agent_main PF L env args os) \<noteq> Crashed m" for m
    by (simp add: agent_main_def setup_flags[OF assms] Let_def split: sum.split prod.split)
  moreover have "p_end (controller_main PF L env args os) \<noteq> Crashed m" for m
    by (simp add: controller_main_def setup_flags[OF assms] Let_def split: sum.split prod.split)
  ultimately show ?thesis by blast
qed

subsection \<open>Signals\<close>

text \<open>Steps of Stop lift to Run.\<close>

definition run_inv :: "agent_run \<Rightarrow> bool" where
  "run_inv r \<longleftrightarrow> ru_sigCh r \<le> 1 \<and>
     (case ru_pc r of
        RunWaiting \<Rightarrow> ru_sigCh r \<le> ru_signals r \<and> (ru_signals r \<noteq> 0 \<longrightarrow> ru_sigCh r = 1) \<and> ru_forceQuitCh r = None
      | RunNotified \<Rightarrow> 1 \<le> ru_signals r \<and> ru_forceQuitCh r = None
      | RunStopping \<Rightarrow> (\<exists>n \<le> 1. ru_forceQuitCh r = Some n \<and> 1 + n \<le> ru_signals r)
      | RunReturned \<Rightarrow> 1 \<le> ru_signals r
      | RunForced \<Rightarrow> 2 \<le> ru_signals r)"

lemma run_inv_step: "agent_run_step a r r' \<Longrightarrow> run_inv r \<Longrightarrow> run_inv r'"
  by (erule agent_run_stepE) (auto simp: run_inv_def split: run_pc.splits)

lemma run_inv_reach: "(agent_run_step a)\<^sup>*\<^sup>* (run_after_start b a) r \<Longrightarrow> run_inv r"
  by (induction rule: rtranclp_induct) (auto simp: run_after_start_def run_inv_def[of "\<lparr>ru_pc = _, ru_sigCh = _, ru_forceQuitCh = _, ru_stop = _, ru_signals = _\<rparr>"] intro: run_inv_step)

lemma run_stop_inv: "agent_run_step a r r' \<Longrightarrow> agent_stop_inv (ru_stop r) \<and> ru_pc r \<noteq> RunReturned \<Longrightarrow> agent_stop_inv (ru_stop r') \<and> ru_pc r' \<noteq> RunReturned"
  by (erule agent_run_stepE) (auto dest: agent_stop_inv_step simp: agent_stop_inv_def)

lemma run_force_exits:
  assumes "run_inv r" "ru_pc r = RunStopping"
  shows "\<exists>r'. (agent_run_step a)\<^sup>*\<^sup>* r r' \<and> ru_signals r' = ru_signals r + 1 \<and> ru_pc r' = RunForced"
proof -
  obtain n where n: "ru_forceQuitCh r = Some n" using assms by (auto simp: run_inv_def)
  let ?r1 = "r\<lparr>ru_signals := ru_signals r + 1, ru_sigCh := 1, ru_forceQuitCh := Some 1\<rparr>"
  have "agent_run_step a r ?r1" using run_signal[of r a] assms(2) n by simp
  moreover have "agent_run_step a ?r1 (?r1\<lparr>ru_pc := RunForced\<rparr>)" using run_force[of ?r1 a] assms(2) by simp
  ultimately have "(agent_run_step a)\<^sup>*\<^sup>* r (?r1\<lparr>ru_pc := RunForced\<rparr>)" by (meson r_into_rtranclp rtranclp.rtrancl_into_rtrancl)
  then show ?thesis by (intro exI[of _ "?r1\<lparr>ru_pc := RunForced\<rparr>"]) simp
qed

lemma run_stop_lift: "(agent_stop_step a)\<^sup>*\<^sup>* s s' \<Longrightarrow> ru_pc r = RunStopping \<Longrightarrow> ru_stop r = s \<Longrightarrow> (agent_run_step a)\<^sup>*\<^sup>* r (r\<lparr>ru_stop := s'\<rparr>)"
proof (induction rule: rtranclp_induct)
  case base
  then have "r\<lparr>ru_stop := s\<rparr> = r" by (cases r) simp
  then show ?case by simp
next
  case (step s1 s2)
  have "agent_run_step a (r\<lparr>ru_stop := s1\<rparr>) (r\<lparr>ru_stop := s2\<rparr>)" using run_stop[of "r\<lparr>ru_stop := s1\<rparr>" a s2] step.prems(1) step.hyps(2) by simp
  with step show ?case by (auto intro: rtranclp.rtrancl_into_rtrancl)
qed

lemma closing_ends: "ast_pc s = StopClosing ps \<Longrightarrow> \<exists>s'. (agent_stop_step a)\<^sup>*\<^sup>* s s' \<and> ast_pc s' = StopWaiting \<and> ast_wg s' = ast_wg s"
proof (induction ps arbitrary: s)
  case Nil
  then show ?case using as_wait[of s a] by (intro exI[of _ "s\<lparr>ast_pc := StopWaiting\<rparr>"]) auto
next
  case (Cons p ps)
  let ?s = "s\<lparr>ast_pc := StopClosing ps, ast_proberClosed := ast_proberClosed s \<or> p = PProber\<rparr>"
  obtain s' where "(agent_stop_step a)\<^sup>*\<^sup>* ?s s'" "ast_pc s' = StopWaiting" "ast_wg s' = ast_wg ?s" using Cons.IH[of ?s] by auto
  moreover have "agent_stop_step a s ?s" using as_close[OF Cons.prems] by simp
  ultimately show ?case by (intro exI[of _ s']) (auto intro: converse_rtranclp_into_rtranclp)
qed

lemma stop_returns_when_none_wait:
  assumes "ast_pc s = StopCalled" "ast_wg s = 0"
  shows "\<exists>s'. (agent_stop_step a)\<^sup>*\<^sup>* s s' \<and> ast_pc s' = StopReturned"
proof -
  let ?s1 = "s\<lparr>ast_pc := StopClosing (stop_order a), ast_cancelled := True\<rparr>"
  have 1: "agent_stop_step a s ?s1" using as_cancel[OF assms(1)] by simp
  obtain s2 where 2: "(agent_stop_step a)\<^sup>*\<^sup>* ?s1 s2" "ast_pc s2 = StopWaiting" "ast_wg s2 = 0" using closing_ends[of ?s1 "stop_order a" a] assms(2) by auto
  have "agent_stop_step a s2 (s2\<lparr>ast_pc := StopReturned\<rparr>)" using as_return[OF 2(2,3)] by simp
  with 1 2(1) have "(agent_stop_step a)\<^sup>*\<^sup>* s (s2\<lparr>ast_pc := StopReturned\<rparr>)"
    by (meson converse_rtranclp_into_rtranclp rtranclp.rtrancl_into_rtrancl)
  then show ?thesis by (intro exI[of _ "s2\<lparr>ast_pc := StopReturned\<rparr>"]) simp
qed

text \<open>After a failed Start the wait group counts nobody, so one signal is enough.\<close>

lemma failed_start_wg: "Agent_Start env a = Some (Ret (Inl e, a')) \<Longrightarrow> ag_wg a = 0 \<Longrightarrow> ag_wg a' = 0"
proof -
  assume s: "Agent_Start env a = Some (Ret (Inl e, a'))" and z: "ag_wg a = 0"
  have r: "ag_wg a1 = 0" if "start_rdma env a = Some (Ret (x, a1))" for x a1
    using that z by (auto simp: start_rdma_def split: option.splits go.splits sum.splits if_splits)
  have c: "ag_wg a2 = 0" if "start_controller env (start_flows env a1) = Some (x, a2)" "ag_wg a1 = 0" for x a1 a2
  proof -
    have "ag_wg (start_flows env a1) = 0" using that(2) by (simp add: start_flows_def split: option.splits sum.splits)
    with that(1) show ?thesis by (auto simp: start_controller_def Let_def split: option.splits sum.splits prod.splits)
  qed
  show ?thesis using s r c by (auto simp: Agent_Start_def split: option.splits go.splits sum.splits)
qed

lemma one_signal_enough:
  assumes "ag_wg a = 0"
  shows "\<exists>r. (agent_run_step a)\<^sup>*\<^sup>* (run_after_start False a) r \<and> ru_signals r = 1 \<and> ru_pc r = RunReturned"
proof -
  let ?r = "run_after_start False a"
  let ?r1 = "?r\<lparr>ru_signals := 1, ru_sigCh := 1\<rparr>"
  let ?r2 = "?r1\<lparr>ru_pc := RunNotified, ru_sigCh := 0\<rparr>"
  let ?r3 = "?r2\<lparr>ru_pc := RunStopping, ru_forceQuitCh := Some 0\<rparr>"
  have "agent_run_step a ?r ?r1" using run_signal[of ?r a] by (simp add: run_after_start_def)
  moreover have "agent_run_step a ?r1 ?r2" using run_first[of ?r1 a] by (simp add: run_after_start_def)
  moreover have "agent_run_step a ?r2 ?r3" using run_notify[of ?r2 a] by simp
  ultimately have 3: "(agent_run_step a)\<^sup>*\<^sup>* ?r ?r3" by (meson r_into_rtranclp rtranclp.rtrancl_into_rtrancl)
  obtain s where s: "(agent_stop_step a)\<^sup>*\<^sup>* (ru_stop ?r3) s" "ast_pc s = StopReturned"
    using stop_returns_when_none_wait[of "ru_stop ?r3" a] assms by (auto simp: run_after_start_def agent_running_def)
  let ?r4 = "?r3\<lparr>ru_stop := s\<rparr>"
  have 4: "(agent_run_step a)\<^sup>*\<^sup>* ?r3 ?r4" using run_stop_lift[OF s(1), of ?r3] by simp
  have "agent_run_step a ?r4 (?r4\<lparr>ru_pc := RunReturned\<rparr>)" using run_return[of ?r4 a] s(2) by simp
  with 3 4 have "(agent_run_step a)\<^sup>*\<^sup>* ?r (?r4\<lparr>ru_pc := RunReturned\<rparr>)" by (meson rtranclp_trans rtranclp.rtrancl_into_rtrancl)
  then show ?thesis by (intro exI[of _ "?r4\<lparr>ru_pc := RunReturned\<rparr>"]) simp
qed

text \<open>C31: how an agent process ends. Whatever Start has returned, Run waits for a signal: an agent that
  could not start stays there, and ends with code 0 on one signal. An agent that did start
  never ends with code 0, under any schedule: Stop does not return, and it takes a second
  signal, with code 1. Once Stop is under way one more signal is enough.\<close>

theorem agent_Run_ends:
  assumes "Agent_Start env (Agent_New lenv cfg) = Some (Ret (res, a))"
  shows "(\<forall>b r. (agent_run_step a)\<^sup>*\<^sup>* (run_after_start b a) r \<and> ru_signals r = 0 \<longrightarrow> ru_pc r = RunWaiting)
    \<and> (\<forall>e. res = Inl e \<longrightarrow> (\<exists>r. (agent_run_step a)\<^sup>*\<^sup>* (run_after_start False a) r \<and> ru_signals r = 1 \<and> run_exit (ru_pc r) = Some 0))
    \<and> (res = Inr () \<longrightarrow> (\<forall>r. (agent_run_step a)\<^sup>*\<^sup>* (run_after_start True a) r \<longrightarrow>
         run_exit (ru_pc r) \<noteq> Some 0 \<and> (run_exit (ru_pc r) = Some 1 \<longrightarrow> 2 \<le> ru_signals r)
       \<and> (ru_pc r = RunStopping \<longrightarrow> (\<exists>r'. (agent_run_step a)\<^sup>*\<^sup>* r r' \<and> ru_signals r' = ru_signals r + 1 \<and> run_exit (ru_pc r') = Some 1))))"
proof (intro conjI allI impI)
  fix b r assume "(agent_run_step a)\<^sup>*\<^sup>* (run_after_start b a) r \<and> ru_signals r = 0"
  then show "ru_pc r = RunWaiting" using run_inv_reach[of a b r] by (auto simp: run_inv_def split: run_pc.splits)
next
  fix e assume "res = Inl e"
  then have "ag_wg a = 0" using failed_start_wg[of env "Agent_New lenv cfg" e a] assms by (simp add: Agent_New_def)
  from one_signal_enough[OF this]
  show "\<exists>r. (agent_run_step a)\<^sup>*\<^sup>* (run_after_start False a) r \<and> ru_signals r = 1 \<and> run_exit (ru_pc r) = Some 0" by (metis run_exit.simps(1))
next
  fix r assume ok: "res = Inr ()" and r: "(agent_run_step a)\<^sup>*\<^sup>* (run_after_start True a) r"
  have "ag_wg a = 2" using Agent_Start_wg[of env "Agent_New lenv cfg" a] assms ok by (simp add: Agent_New_def)
  then have "agent_stop_inv (ru_stop (run_after_start True a)) \<and> ru_pc (run_after_start True a) \<noteq> RunReturned"
    by (simp add: agent_stop_inv_def agent_running_def run_after_start_def)
  with r have "agent_stop_inv (ru_stop r) \<and> ru_pc r \<noteq> RunReturned" by (induction rule: rtranclp_induct) (auto dest: run_stop_inv)
  then show "run_exit (ru_pc r) \<noteq> Some 0" by (cases "ru_pc r") auto
  note inv = run_inv_reach[OF r]
  show "2 \<le> ru_signals r" if "run_exit (ru_pc r) = Some 1" using inv that by (cases "ru_pc r") (auto simp: run_inv_def)
  show "\<exists>r'. (agent_run_step a)\<^sup>*\<^sup>* r r' \<and> ru_signals r' = ru_signals r + 1 \<and> run_exit (ru_pc r') = Some 1" if "ru_pc r = RunStopping"
    using run_force_exits[OF inv that] by (metis run_exit.simps(2))
qed


subsection \<open>Configuration files, from the command line to the process\<close>

text \<open>The flag library gives back the flags named on the command line, nothing else.\<close>

definition parses :: "pflag_lib \<Rightarrow> settings \<Rightarrow> string list \<Rightarrow> settings \<Rightarrow> bool" where
  "parses PF fs args given \<longleftrightarrow> pf_parse PF fs args = Inr given"

text \<open>A system that answers every call: flags bind, files are written, the host is called h, the
  database opens and every address can be listened on.\<close>

definition answers :: "main_env \<Rightarrow> string \<Rightarrow> bool" where
  "answers env h \<longleftrightarrow> mn_bind env = None \<and> mn_write env = None \<and> mn_dirMissing env = False \<and> mn_hostname env = Inr h
     \<and> (\<forall>uri. mn_registry env uri = (None, None, None)) \<and> (\<forall>addr. mn_listen env addr = None)"

lemma agent_flag_values:
  "flag_bool agent_flags [(''config'', CStr p)] ''version'' = Inr False" "flag_bool agent_flags [(''config'', CStr p)] ''create-config'' = Inr False"
  "flag_bool agent_flags [] ''version'' = Inr False" "flag_bool agent_flags [] ''create-config'' = Inr False"
  "flag_bool agent_flags [(''create-config'', CBool True), (''config-output'', CStr p)] ''version'' = Inr False"
  "flag_bool agent_flags [(''create-config'', CBool True), (''config-output'', CStr p)] ''create-config'' = Inr True"
  "flag_string agent_flags [(''create-config'', CBool True), (''config-output'', CStr p)] ''config-output'' = Inr p"
  by (simp_all add: flag_bool_def flag_string_def agent_flags_def map_add_def)

lemma agent_main_loads:
  assumes "pflag_documented (pf_add PF)" "answers env h" "parses PF agent_flags args given" "given \<in> {[], [(''config'', CStr p)]}"
  shows "p_end (agent_main PF L env args os) =
    (case LoadAgentConfig L (os\<lparr>os_changed := given\<rparr>) None (Inr h) agent_flags of Inl e \<Rightarrow> Exited 1 | Inr cfg \<Rightarrow> Waits (Agent_New (mn_load env) cfg))"
  using assms(4)
  by (auto simp: agent_main_def setup_flags[OF assms(1)] assms(2)[unfolded answers_def] assms(3)[unfolded parses_def] agent_flag_values drop_err_def Let_def split: sum.split)

lemma agent_main_creates:
  assumes "pflag_documented (pf_add PF)" "answers env h" "parses PF agent_flags args [(''create-config'', CBool True), (''config-output'', CStr p)]"
  shows "agent_main PF L env args os = \<lparr>p_out = [''Created default configuration at '' @ p], p_err = [],
     p_os = snd (WriteDefaultConfig L None p (os\<lparr>os_changed := [(''create-config'', CBool True), (''config-output'', CStr p)]\<rparr>)), p_end = Exited 0\<rparr>"
  by (simp add: agent_main_def setup_flags[OF assms(1)] assms(2)[unfolded answers_def] assms(3)[unfolded parses_def] agent_flag_values drop_err_def WriteDefaultConfig_def Let_def)

text \<open>C37: agents and their configuration files. An agent started without flags runs with the flags'
  defaults. One started with --create-config --config-output=p, p the path of a YAML file, writes the file
  and ends with code 0, and the agent then started with --config=p runs with the defaults but
  for the probe interval, 10 ms in the file and 500 ms in the flags. A file that does not exist
  is ignored, one that cannot be read ends the process with code 1, and so does a path
  whose extension names no format, whether there is such a file or not.\<close>

theorem agent_config_roundtrip:
  assumes "pflag_documented (pf_add PF)" "viper_documented L" "writes_documented L default_agent_settings" "clean_env os" "answers env h" "p \<noteq> ''''"
    and "parses PF agent_flags create [(''create-config'', CBool True), (''config-output'', CStr p)]" "parses PF agent_flags start [(''config'', CStr p)]" "parses PF agent_flags bare []"
  shows "p_end (agent_main PF L env bare os) = Waits (Agent_New (mn_load env) (default_agent_config h 500))
    \<and> (yaml_path p \<longrightarrow> p_end (agent_main PF L env create os) = Exited 0)
    \<and> (yaml_path p \<longrightarrow> p_end (agent_main PF L env start (p_os (agent_main PF L env create os))) = Waits (Agent_New (mn_load env) (default_agent_config h 10)))
    \<and> (\<forall>e. supported_path p \<and> os_files os p = FileMissing e \<longrightarrow> p_end (agent_main PF L env start os) = Waits (Agent_New (mn_load env) (default_agent_config h 500)))
    \<and> (\<forall>e. supported_path p \<and> os_files os p = FileBad e \<longrightarrow> p_end (agent_main PF L env start os) = Exited 1)
    \<and> (\<not> supported_path p \<longrightarrow> p_end (agent_main PF L env start os) = Exited 1)"
proof (intro conjI allI impI)
  note main = agent_main_loads[OF assms(1,5)] and made = agent_main_creates[OF assms(1,5,7), of L]
  let ?given = "\<lambda>os. os\<lparr>os_changed := [(''config'', CStr p)]\<rparr>"
  have clean: "clean_env (os\<lparr>os_changed := g\<rparr>)" for g using assms(4) by (simp add: clean_env_def)
  note src = agent_config_sources[OF assms(2,3) clean]
  show "p_end (agent_main PF L env bare os) = Waits (Agent_New (mn_load env) (default_agent_config h 500))"
    using main[OF assms(9), of p L os] src[of "[]"] by simp
  show "p_end (agent_main PF L env create os) = Exited 0" by (simp add: made)
  have "?given (p_os (agent_main PF L env create os)) = snd (WriteDefaultConfig L None p (?given os))" by (simp add: made WriteDefaultConfig_def)
  then show "p_end (agent_main PF L env start (p_os (agent_main PF L env create os))) = Waits (Agent_New (mn_load env) (default_agent_config h 10))" if "yaml_path p"
    using main[OF assms(8), of p L "p_os (agent_main PF L env create os)"] src[of "[(''config'', CStr p)]" h p] assms(6) that by simp
  note starts = main[OF assms(8), of p L os] src[of "[(''config'', CStr p)]" h p]
  show "p_end (agent_main PF L env start os) = Waits (Agent_New (mn_load env) (default_agent_config h 500))" if "supported_path p \<and> os_files os p = FileMissing e" for e
    using starts assms(6) that by simp
  show "p_end (agent_main PF L env start os) = Exited 1" if "supported_path p \<and> os_files os p = FileBad e" for e
    using starts assms(6) that by simp
  show "p_end (agent_main PF L env start os) = Exited 1" if "\<not> supported_path p"
    using starts assms(6) that by auto
qed

lemma controller_flag_values:
  assumes "gets_documented L"
  defines "v \<equiv> viper_New\<lparr>vi_flags := controller_flags\<rparr>"
  shows "\<not> vl_bool L (os\<lparr>os_changed := [(''config'', CStr p)]\<rparr>) v ''create-config''" "\<not> vl_bool L (os\<lparr>os_changed := [(''config'', CStr p)]\<rparr>) v ''version''"
proof -
  let ?os = "os\<lparr>os_changed := [(''config'', CStr p)]\<rparr>"
  have e: "effective ?os v k = Some (CBool False)" if "k \<in> {''create-config'', ''version''}" for k
    using that by (auto simp: effective_def v_def viper_New_def controller_flags_def)
  have keys: "plain_keys v" "plain_key ''create-config''" "plain_key ''version''"
    using program_keys(3) by (simp_all add: plain_keys_def v_def viper_New_def) (simp_all add: controller_flags_def)
  note g = viper_gets(4)[OF assms(1) keys(1)]
  show "\<not> vl_bool L ?os v ''create-config''" "\<not> vl_bool L ?os v ''version''" using g[OF keys(2) e] g[OF keys(3) e] by simp_all
qed

text \<open>The controller does not use its configuration file. The file that its --create-config option
  writes has keys with underscores. Of a file with these keys, whatever its user has put
  there, the controller started with --config takes nothing: it asks for keys with dashes,
  listens on the default address and opens the default database. The values are there:
  LoadControllerConfig, which no program calls, finds them.\<close>

theorem controller_main_ignores_file:
  assumes "pflag_documented (pf_add PF)" "viper_documented L" "clean_env os" "answers env h" "yaml_path p"
    and "parses PF controller_flags start [(''config'', CStr p)]"
    and "os_files os p = FileText text" "flat_yaml text = Some kv" "map fst kv = [''listen_addr'', ''database_uri'', ''log_level'']"
  shows "map_option (map fst) (flat_yaml default_controller_text) = Some [''listen_addr'', ''database_uri'', ''log_level'']
    \<and> (\<exists>c. p_end (controller_main PF L env start os) = Waits c \<and> co_ListenAddr c = ''0.0.0.0:50051'' \<and> co_rows c = mn_rows env ''http://localhost:4001'')
    \<and> (\<forall>s. map_of kv ''listen_addr'' = Some (CStr s) \<longrightarrow> (\<exists>c. LoadControllerConfig L (os\<lparr>os_changed := [(''config'', CStr p)]\<rparr>) p = Inr c \<and> ck_ListenAddr c = s))"
proof -
  let ?os = "os\<lparr>os_changed := [(''config'', CStr p)]\<rparr>"
  have "clean_env ?os" "os_changed ?os = [(''config'', CStr p)]" "os_files ?os p = FileText text" using assms(3,7) by (simp_all add: clean_env_def)
  note ign = controller_file_ignored[OF assms(2) this(1,2) assms(5) this(3) assms(8,9)]
  have "gets_documented L" using assms(2) by (simp add: viper_documented_def)
  note cmd = controller_flag_values[OF this, where os = os and p = p]
  have "\<exists>c. p_end (controller_main PF L env start os) = Waits c \<and> co_ListenAddr c = ''0.0.0.0:50051'' \<and> co_rows c = mn_rows env ''http://localhost:4001''"
    using assms(4,6) cmd conjunct1[OF ign]
    by (simp add: controller_main_def setup_flags[OF assms(1)] parses_def answers_def default_controller_config_def
        Controller_New_def NewRnicRegistry_def initializeSchema_def Controller_Run_def Controller_Start_def Let_def)
  then show ?thesis using default_controller_text_keys ign by simp
qed


subsection \<open>Concrete processes\<close>

text \<open>A flag library for lists of arguments of the form --name=value and --create-config.\<close>

definition plain_parse :: "settings \<Rightarrow> string list \<Rightarrow> int + settings" where
  "plain_parse fs args =
     (if args = [] then Inr []
      else if args = [''--create-config'', ''--config-output=a.yaml''] then Inr [(''create-config'', CBool True), (''config-output'', CStr ''a.yaml'')]
      else if args = [''--config=a.yaml''] then Inr [(''config'', CStr ''a.yaml'')]
      else Inl 2)"

definition plain_pflag :: pflag_lib where
  "plain_pflag = \<lparr>pf_add = (\<lambda>fs (k, v). if k \<in> fst ` set fs then Panic (''flag redefined: '' @ k) else Ret (fs @ [(k, v)])), pf_parse = plain_parse\<rparr>"

definition plain_main_env :: main_env where
  "plain_main_env = \<lparr>mn_bind = None, mn_write = None, mn_dirMissing = False, mn_mkdir = None, mn_hostname = Inr ''h'', mn_load = sample_load,
     mn_rows = (\<lambda>_. []), mn_registry = (\<lambda>_. (None, None, None)), mn_listen = (\<lambda>_. None)\<rparr>"

lemma plain_pflag_ok:
  "pflag_documented (pf_add plain_pflag)" "parses plain_pflag fs [] []" "parses plain_pflag fs [''--config=a.yaml''] [(''config'', CStr ''a.yaml'')]"
  "parses plain_pflag fs [''--create-config'', ''--config-output=a.yaml''] [(''create-config'', CBool True), (''config-output'', CStr ''a.yaml'')]"
  "answers plain_main_env ''h''" "clean_env (plain_outside given)"
  by (simp_all add: plain_pflag_def pflag_documented_def parses_def plain_parse_def answers_def plain_main_env_def clean_env_def plain_outside_def)

theorem analyzer_main_crashes_witness:
  "\<exists>m. p_end (analyzer_main plain_pflag plain_viper plain_main_env [] (plain_outside [])) = Crashed m"
  using analyzer_main_crashes[OF plain_pflag_ok(1)] by blast

theorem agent_config_roundtrip_witness:
  "let os = plain_outside []; made = agent_main plain_pflag plain_viper plain_main_env [''--create-config'', ''--config-output=a.yaml''] os in
     p_end made = Exited 0
   \<and> p_end (agent_main plain_pflag plain_viper plain_main_env [''--config=a.yaml''] (p_os made)) = Waits (Agent_New sample_load (default_agent_config ''h'' 10))
   \<and> p_end (agent_main plain_pflag plain_viper plain_main_env [''--config=a.yaml''] os) = Waits (Agent_New sample_load (default_agent_config ''h'' 500))"
  using agent_config_roundtrip[OF plain_pflag_ok(1) plain_viper_ok plain_pflag_ok(6,5) _ plain_pflag_ok(4,3,2), of "[]"]
  by (simp add: plain_main_env_def plain_outside_def Let_def)

theorem controller_main_ignores_file_witness:
  "\<exists>c. p_end (controller_main plain_pflag plain_viper plain_main_env [''--config=a.yaml''] ((plain_outside [])\<lparr>os_files := (\<lambda>_. FileText edited_controller_text)\<rparr>)) = Waits c
     \<and> co_ListenAddr c = ''0.0.0.0:50051''"
proof -
  let ?os = "(plain_outside [])\<lparr>os_files := (\<lambda>_. FileText edited_controller_text)\<rparr>"
  have kv: "flat_yaml edited_controller_text = Some [(''listen_addr'', CStr ''10.0.0.1:6000''), (''database_uri'', CStr ''http://db:4001''), (''log_level'', CStr ''debug'')]"
    by code_simp
  have "clean_env ?os" by (simp add: clean_env_def plain_outside_def)
  from controller_main_ignores_file[OF plain_pflag_ok(1) plain_viper_ok(1) this plain_pflag_ok(5) _ plain_pflag_ok(3) _ kv] show ?thesis by simp blast
qed

theorem agent_Run_ends_witness:
  "\<exists>a r. Agent_Start sample_start (Agent_New sample_load sample_cfg) = Some (Ret (Inr (), a))
     \<and> (agent_run_step a)\<^sup>*\<^sup>* (run_after_start True a) r \<and> ru_signals r = 1 \<and> run_exit (ru_pc r) \<noteq> Some 0"
proof -
  obtain a where a: "Agent_Start sample_start (Agent_New sample_load sample_cfg) = Some (Ret (Inr (), a))" using sample_started by blast
  let ?r = "run_after_start True a"
  let ?r1 = "?r\<lparr>ru_signals := 1, ru_sigCh := 1\<rparr>"
  have "agent_run_step a ?r ?r1" using run_signal[of ?r a] by (simp add: run_after_start_def)
  then have r: "(agent_run_step a)\<^sup>*\<^sup>* ?r ?r1" by blast
  then have "run_exit (ru_pc ?r1) \<noteq> Some 0" using agent_Run_ends[OF a] by blast
  then show ?thesis using a r by (intro exI[of _ a] exI[of _ ?r1]) simp
qed

end
