(* ===== verification/Spec2Isabelle.thy ===== *)
theory Spec2Isabelle
  imports Prober_Life Cq_Poller Telemetry Service_Tracing Tracer_Life Mains
begin

text \<open>
  R-Pingmesh measures the RDMA network of a cluster. On every host an agent opens the local
  RNICs, registers them with a controller, asks the controller for lists of RNICs to probe
  (pinglists), probes them with timestamped UD packets, follows the RDMA connections of services
  with eBPF, traces routes, and uploads the results to an analyzer. The controller keeps the
  registered RNICs in an SQL table. This development models those parts as the Go sources under
  src/ have them and proves what they guarantee, including where the code does something else
  than it means to.

  \<^bold>\<open>Language and library.\<close> Go_Base: fixed-width integers, errors as sums (\<^verbatim>\<open>res\<close>), panics as
  values (\<^verbatim>\<open>go\<close>), maps as association lists, saturating durations. Go_Chan: buffered
  channels and keyed stores, with their locales. Go_Slice: slices over backing arrays, so that
  append may overwrite what another slice sees; the capacity append allocates is a parameter
  (\<^verbatim>\<open>grow\<close>). Go_Strings, Go_Net, Go_Time: the functions of strings, strconv, net and time that
  the code calls, and SQLite's datetime.

  \<^bold>\<open>Messages.\<close> Proto: the structs of src/proto as records; pointers that the code tests against
  nil are options.

  \<^bold>\<open>Controller.\<close> Registry (internal/controller/registry/registry.go): every method as the SQL
  statement it runs on a list of rows, with the database's errors and its order of rows given.
  The reachable tables have one row per GID and the registry refines a map; freshness is
  compared as text and so decided by the day. Pinglist (controller/pinglist/pinglist.go): the
  targets, ports and flow labels at their widths. Controller (controller/service.go and
  agent/controller_client/client.go): the RPC handlers and the client, composed; what is
  registered is found, a failed write leaves a prefix, inter-ToR lists are empty. Servers
  (controller/controller.go and analyzer/analyzer.go): the two processes, whose Stop returns under
  every schedule, unless a request for a pinglist without a requester crashes the controller; the
  gRPC server is a parameter with its documented behaviour as a hypothesis.

  \<^bold>\<open>Stopping.\<close> Stopping holds two contracts for calls that stop a component, as locales: every step
  brings the end closer, or other goroutines go on beside the stopping ones without putting the
  end off. The first is interpreted on the controller and the analyzer, the second on the prober
  and the service flow monitor.

  \<^bold>\<open>RDMA.\<close> Rdma_Device (internal/rdma/device.go): opening a device with the handles in an
  explicit list, GID formatting. Rdma_Packet (rdma/packet.go): packet layout and the GRH
  parsers. Rdma_Queue (rdma/cq.go and the slots of packet.go): completions, receive slots,
  senders, the poller. The ACK handler is a parameter, a function that may return or panic, called where
  cq.go calls it, on the poller's goroutine; the slot counters divide by the number of slots, and
  that is a panic for a queue without slots. Cq_Poller: stopping the poller, as threads, with
  the crash of the process by a panic of the handler. Rdma_Manager
  (rdma/queue.go): creation, destruction and shutdown of queues over a heap of queue objects. Whether the
  poller of a queue ends once its done channel is closed is a parameter there (Cq_Poller says
  when it does), and both answers are covered: a clean-up that waits for a poller that does not end
  is None. Shown: failures that return give everything back, exactly which creation and which
  shutdown hang, the poller panics only with the ACK handler, a probe reported as sent was sent
  once; and the slot that is posted twice, the late completion, the shutdown that panics, and the
  stop that waits for the hardware.

  \<^bold>\<open>Agent.\<close> Agent_State (internal/state/state.go): start-up in two phases. Prober
  (internal/probe/prober.go): sessions, ACK dispatch, responder, ProbeTarget by phases.
  Prober_Runs: all interleavings of probes, handlers, clean-ups and the consumer of the result
  channel as an inductive step relation with its invariant (what was received and what waits
  in the channel are the results of the finished probes), the round-trip time, and the race on
  a closed channel.
  Prober_Life: the loops that Start launches, the service probes they launch, and Close beside
  all of it; Close returns, but does not wait for service probes.
  Cluster_Monitor (internal/monitor/cluster_monitor.go): the scheduler, an instance of a
  round-robin locale, and the conversion of pinglists. Ebpf_Tracer
  (internal/ebpf/rdma_tracing.go and the generated rdmatracing_x86_bpfel.go) and Service_Flow
  (agent/serviceflowmonitor/serviceflowmonitor.go): connection events, the kernel objects of the
  tracer, the flow table and the targets it hands to the prober. Flow_Life: the flow table stays
  well formed whatever events arrive; the monitor's and the tracer's Stop as threads; the
  reports on the statistics. Ebpf_Report: the layout check and DiagnoseEnvironment. Bpf_Program
  (internal/ebpf/bpf/rdma_tracing.c): what the two probed kernel functions count and record. What
  their parameters hold when the kernel enters them is a parameter, any function of the registers:
  the kernel passes a kprobe program a pointer to the registers only, the source declares the
  parameters of the probed function, and nothing in it reads them out of the registers.
  Ebpf_Example (service_tracing_example.go): a program that keeps a table of connections.
  Service_Tracing composes them from the runs of the eBPF programs to the tables of the consumers:
  every run that records arrives, and no connection is ever stored, for the two sides disagree on
  the number of a state, whatever the parameters hold. Path_Tracer (internal/tracer/tracer.go): the parsers of
  traceroute and tracepath. Tracer_Life: the tracing goroutines, the handler and Close as threads;
  when Close returns, when it hangs and when a trace panics. Uploader (internal/upload/uploader.go): the queues, refined to
  lists as long as uploads do not overlap, what a failed upload keeps and drops, the loss when uploads
  overlap, the deadlock of Stop.
  Analyzer (internal/analyzer): the handler the uploader meets. Agent (agent/agent.go): New,
  Start by its stages, the result handler, pinglist updates, Stop. Go_Url and Telemetry
  (agent/telemetry/otel_metrics.go): url.Parse, which addresses name a collector and how, and
  what a recording hands to which instrument.

  \<^bold>\<open>Programs.\<close> Config (internal/config): flags, environment, files and defaults of the three
  programs; viper and pflag are parameters, what their documentation says of the order of sources,
  of reading and writing a file (in the format that the extension of its path names, an unknown
  extension being an error before the file is looked at), of lower-case keys and of declaring a
  flag twice are hypotheses, and a concrete library shows they can hold. Mains (cmd and the Run methods): from the command line to a running process, and the
  signals that end it.

  \<^bold>\<open>This theory\<close> composes registry, pinglist generator, client, agent and cluster monitor: what
  agents register is what a round of the worker probes.

  \<^bold>\<open>State and effects.\<close> A struct is a record and an operation returns it updated. What comes from
  outside (RPC answers, verbs of libibverbs, the clock, the order of a map or of rows, what a
  select finds ready) is a parameter of the operation that meets it. Code that another
  goroutine can interrupt is cut at its critical sections, and the claims about it quantify
  over the sequences of steps. RNICs, queues and sessions that are shared by pointer are
  positions in a list or addresses of a heap.

  \<^bold>\<open>Loops.\<close> Loops are structural recursion, over the data or over the events an endless loop
  meets, except the decoding of UTF-8 (a measure) and the port loop of OpenDevice
  (\<^verbatim>\<open>partial_function (option)\<close>), where None is a call that does not return. A waiting loop
  (Connect) is given the rounds it sees. No fuel bounds a result: returning is proved where it
  is claimed, and not returning is a statement about every reachable state.

  \<^bold>\<open>Not modelled.\<close> Log lines, except those of the eBPF reports and of the example; the marshalling
  of messages and the gRPC stubs (generated); the inside of viper, pflag, cilium's eBPF library
  and the OpenTelemetry library; the values of command line arguments before they are parsed;
  what the eBPF program only prints. Decimal text in milliseconds goes through float64: its
  conversion is a parameter of the tracers.
\<close>

section \<open>Controller, agent and cluster monitor together\<close>

lemma collect_targets_eq:
  "fst (collect_targets c rpc host rs (tor, others, i)) = tor @ concat (map (\<lambda>r.
     if rn_GID r = '''' then [] else case Client_GetPinglist c rpc r host TOR_MESH of Inl _ \<Rightarrow> [] | Inr (ts, _, _) \<Rightarrow> ts) rs)"
proof (induction rs arbitrary: tor others i)
  case (Cons r rs)
  show ?case by (simp add: Cons split: sum.split prod.split)
qed simp

text \<open>The requester that the client names for a local RNIC.\<close>

definition requester :: "string \<Rightarrow> RNIC \<Rightarrow> RnicInfo" where
  "requester host r = \<lparr>ri_Gid = rn_GID r, ri_Qpn = (case rn_ResponderQueue r of None \<Rightarrow> 0 | Some q \<Rightarrow> qr_QPN q), ri_IpAddress = rn_IPAddr r,
     ri_HostName = host, ri_TorId = '''', ri_DeviceName = rn_DeviceName r\<rparr>"

lemma set_tor_mesh_loop:
  "(\<exists>j. mk_target req j x \<in> set (tor_mesh_loop req i xs)) \<longleftrightarrow> x \<in> set xs \<and> ri_Gid x \<noteq> ri_Gid req"
proof -
  have "x \<in> set xs \<Longrightarrow> ri_Gid x \<noteq> ri_Gid req \<Longrightarrow> \<exists>j. mk_target req j x \<in> set (tor_mesh_loop req i xs)"
    by (induction req i xs rule: tor_mesh_loop.induct) auto
  moreover have "mk_target req j x \<in> set (tor_mesh_loop req i xs) \<Longrightarrow> x \<in> set xs \<and> ri_Gid x \<noteq> ri_Gid req" for j
    by (auto dest!: reg_src.tor_mesh_loop_mem simp: mk_target_def)
  ultimately show ?thesis by blast
qed

text \<open>The ToR-mesh pinglist the client gets for a usable RNIC from a table that agents filled.\<close>

lemma served_mesh:
  assumes "agents_table rows" "db_ok q" "cc_connected c" "rn_ResponderQueue r = Some rq" "qr_QPN rq \<noteq> 0"
  shows "\<exists>ts. Client_GetPinglist c (serve_pinglist q now rows) r host TOR_MESH = Inr (ts, 1000, 500)
     \<and> (\<forall>t \<in> set ts. \<exists>row \<in> set rows. \<exists>j. t = mk_target (requester host r) j (rnic_of_row row) \<and> cutoff now 5 < last_updated row \<and> rnic_gid row \<noteq> rn_GID r)
     \<and> (\<forall>row \<in> set rows. cutoff now 5 < last_updated row \<and> rnic_gid row \<noteq> rn_GID r \<longrightarrow> (\<exists>j. mk_target (requester host r) j (rnic_of_row row) \<in> set ts))"
proof -
  obtain rs where rs: "GetRNICsByToR q now '''' rows = Inr (map rnic_of_row rs)"
    and m: "mset rs = filter_mset (\<lambda>r. tor_id r = '''' \<and> cutoff now 5 < last_updated r) (mset rows)"
    using GetRNICsByToR_ok[OF assms(2)] .
  have s: "set rs = {row \<in> set rows. cutoff now 5 < last_updated row}"
    using arg_cong[OF m, of set_mset] agents_table_tor[OF assms(1)] by auto
  let ?ts = "tor_mesh_loop (requester host r) 0 (map rnic_of_row rs)"
  have "Client_GetPinglist c (serve_pinglist q now rows) r host TOR_MESH = Inr (?ts, 1000, 500)"
    using assms(3-5) rs by (simp add: Client_GetPinglist_def serve_pinglist_def GetPinglist_def GeneratePinglist_def generateTorMeshPinglist_def requester_def)
  moreover have "\<forall>t \<in> set ?ts. \<exists>row \<in> set rows. \<exists>j. t = mk_target (requester host r) j (rnic_of_row row) \<and> cutoff now 5 < last_updated row \<and> rnic_gid row \<noteq> rn_GID r"
    using s by (fastforce dest!: reg_src.tor_mesh_loop_mem simp: requester_def rnic_of_row_def)
  moreover have "\<exists>j. mk_target (requester host r) j (rnic_of_row row) \<in> set ?ts"
    if "row \<in> set rows" "cutoff now 5 < last_updated row" "rnic_gid row \<noteq> rn_GID r" for row
    using that s by (subst set_tor_mesh_loop) (auto simp: requester_def rnic_of_row_def)
  ultimately show ?thesis by blast
qed

text \<open>A local RNIC that can probe: it can be found by its GID and has both queues.\<close>

definition usable_rnic :: "AgentState \<Rightarrow> RNIC \<Rightarrow> bool" where
  "usable_rnic s r \<longleftrightarrow> rn_GID r \<noteq> '''' \<and> length (rn_GID r) \<noteq> 4 \<and> GetRnicByGID s (rn_GID r) = Some r \<and> GetSenderUDQueue s (rn_GID r) \<noteq> None
     \<and> (\<exists>rq. rn_ResponderQueue r = Some rq \<and> qr_QPN rq \<noteq> 0)"

definition should_probe :: "int \<Rightarrow> string \<Rightarrow> RNIC \<Rightarrow> rnic_row \<Rightarrow> bool" where
  "should_probe now host r row \<longleftrightarrow> cutoff now 5 < last_updated row \<and> rnic_gid row \<noteq> rn_GID r \<and> hostname row \<noteq> host
     \<and> \<not> (link_local (rn_GID r) \<and> link_local (rnic_gid row) \<and> rn_DeviceName r \<noteq> device_name row)"

lemma wanted_mk_target:
  assumes "usable_rnic s r" and "rnic_gid row \<noteq> rn_GID r"
  shows "wanted_probe s (mk_target (requester host r) j (rnic_of_row row)) =
    (if hostname row \<noteq> as_hostName s \<and> \<not> (link_local (rn_GID r) \<and> link_local (rnic_gid row) \<and> rn_DeviceName r \<noteq> device_name row)
     then Some (r, probe_details s (probe_target_of (requester host r) (rnic_of_row row) (mk_target (requester host r) j (rnic_of_row row)))) else None)"
proof -
  have "source_device s (requester host r) = rn_DeviceName r" using assms(1) by (simp add: source_device_def requester_def usable_rnic_def)
  then show ?thesis using assms by (auto simp: wanted_probe_def mk_target_def usable_rnic_def requester_def rnic_of_row_def)
qed

lemma set_map_filter: "y \<in> set (List.map_filter f xs) \<longleftrightarrow> (\<exists>x \<in> set xs. f x = Some y)"
  by (induction xs) (auto simp: List.map_filter_simps split: option.splits)

text \<open>A list of targets that is, up to repetition and the index in the flow label, the ToR-mesh
  pinglists of all local RNICs.\<close>

definition mesh_targets :: "int \<Rightarrow> rnics_table \<Rightarrow> string \<Rightarrow> RNIC list \<Rightarrow> ProtoPingTarget list \<Rightarrow> bool" where
  "mesh_targets now rows host rs ts \<longleftrightarrow>
     (\<forall>t \<in> set ts. \<exists>r \<in> set rs. \<exists>row \<in> set rows. \<exists>j. t = mk_target (requester host r) j (rnic_of_row row)
        \<and> cutoff now 5 < last_updated row \<and> rnic_gid row \<noteq> rn_GID r)
   \<and> (\<forall>r \<in> set rs. \<forall>row \<in> set rows. cutoff now 5 < last_updated row \<and> rnic_gid row \<noteq> rn_GID r \<longrightarrow>
        (\<exists>j. mk_target (requester host r) j (rnic_of_row row) \<in> set ts))"

lemma collected_mesh:
  assumes "agents_table rows" "db_ok q" "cc_connected c" "\<forall>r \<in> set rs. usable_rnic s r"
  shows "mesh_targets now rows host rs (fst (collect_targets c (serve_pinglist q now rows) host rs ([], [], 0)))"
proof -
  define mine where "mine r = (if rn_GID r = '''' then []
    else case Client_GetPinglist c (serve_pinglist q now rows) r host TOR_MESH of Inl _ \<Rightarrow> [] | Inr (ts, _, _) \<Rightarrow> ts)" for r
  have tor: "fst (collect_targets c (serve_pinglist q now rows) host rs ([], [], 0)) = concat (map mine rs)"
    by (simp add: collect_targets_eq mine_def[abs_def])
  have mine: "(\<forall>t \<in> set (mine r). \<exists>row \<in> set rows. \<exists>j. t = mk_target (requester host r) j (rnic_of_row row)
        \<and> cutoff now 5 < last_updated row \<and> rnic_gid row \<noteq> rn_GID r)
     \<and> (\<forall>row \<in> set rows. cutoff now 5 < last_updated row \<and> rnic_gid row \<noteq> rn_GID r \<longrightarrow>
        (\<exists>j. mk_target (requester host r) j (rnic_of_row row) \<in> set (mine r)))"
    if "r \<in> set rs" for r
  proof -
    obtain rq where rq: "rn_ResponderQueue r = Some rq" "qr_QPN rq \<noteq> 0" "rn_GID r \<noteq> ''''"
      using assms(4) \<open>r \<in> set rs\<close> by (auto simp: usable_rnic_def)
    from served_mesh[OF assms(1-3) rq(1,2), of now host] rq(3) show ?thesis by (auto simp: mine_def)
  qed
  show ?thesis unfolding mesh_targets_def tor
  proof (intro conjI ballI impI)
    fix t assume "t \<in> set (concat (map mine rs))"
    then obtain r where "r \<in> set rs" "t \<in> set (mine r)" by auto
    with mine show "\<exists>r \<in> set rs. \<exists>row \<in> set rows. \<exists>j. t = mk_target (requester host r) j (rnic_of_row row)
        \<and> cutoff now 5 < last_updated row \<and> rnic_gid row \<noteq> rn_GID r" by blast
  next
    fix r row assume r: "r \<in> set rs" "row \<in> set rows" "cutoff now 5 < last_updated row \<and> rnic_gid row \<noteq> rn_GID r"
    with mine[OF r(1)] obtain j where "mk_target (requester host r) j (rnic_of_row row) \<in> set (mine r)" by blast
    with r(1) show "\<exists>j. mk_target (requester host r) j (rnic_of_row row) \<in> set (concat (map mine rs))" by auto
  qed
qed

lemma probes_of_mesh:
  assumes "mesh_targets now rows (as_hostName s) rs ts" and "\<forall>r \<in> set rs. usable_rnic s r"
  shows "(\<lambda>(r, t). (rn_GID r, pt_GID t)) ` set (List.map_filter (wanted_probe s) ts)
      = {(rn_GID r, rnic_gid row) | r row. r \<in> set rs \<and> row \<in> set rows \<and> should_probe now (as_hostName s) r row}" (is "?L = ?R")
proof (intro set_eqI iffI)
  let ?h = "as_hostName s"
  fix x assume "x \<in> ?L"
  then obtain r0 t0 t where x: "x = (rn_GID r0, pt_GID t0)" "t \<in> set ts" "wanted_probe s t = Some (r0, t0)" by (auto simp: set_map_filter)
  obtain r row j where t: "r \<in> set rs" "row \<in> set rows" "t = mk_target (requester ?h r) j (rnic_of_row row)"
      "cutoff now 5 < last_updated row" "rnic_gid row \<noteq> rn_GID r"
    using assms(1) x(2) by (fastforce simp: mesh_targets_def)
  from x(3)[unfolded t(3)] wanted_mk_target[of s r row ?h j] assms(2) t(1,5)
  have "should_probe now ?h r row" "r0 = r" "pt_GID t0 = rnic_gid row" using t(4)
    by (auto simp: should_probe_def probe_details_def resolveTargetGID_def probe_target_of_def rnic_of_row_def split: if_splits)
  with x(1) t(1,2) show "x \<in> ?R" by auto
next
  let ?h = "as_hostName s"
  fix x assume "x \<in> ?R"
  then obtain r row where x: "x = (rn_GID r, rnic_gid row)" "r \<in> set rs" "row \<in> set rows" "should_probe now ?h r row" by auto
  then have "cutoff now 5 < last_updated row \<and> rnic_gid row \<noteq> rn_GID r" by (simp add: should_probe_def)
  then obtain j where j: "mk_target (requester ?h r) j (rnic_of_row row) \<in> set ts"
    using assms(1) x(2,3) unfolding mesh_targets_def by blast
  let ?t = "mk_target (requester ?h r) j (rnic_of_row row)"
  have "wanted_probe s ?t = Some (r, probe_details s (probe_target_of (requester ?h r) (rnic_of_row row) ?t))"
    using wanted_mk_target[of s r row ?h j] assms(2) x(2,4) by (auto simp: should_probe_def)
  then have "(r, probe_details s (probe_target_of (requester ?h r) (rnic_of_row row) ?t)) \<in> set (List.map_filter (wanted_probe s) ts)"
    using j by (auto simp: set_map_filter)
  then show "x \<in> ?L"
    by (rule rev_image_eqI) (simp add: x(1) probe_details_def resolveTargetGID_def probe_target_of_def rnic_of_row_def)
qed

lemma mesh_no_short_gid:
  "mesh_targets now rows h rs ts \<Longrightarrow> \<forall>row \<in> set rows. length (rnic_gid row) \<noteq> 4 \<Longrightarrow> \<forall>r \<in> set rs. usable_rnic s r \<Longrightarrow>
     t \<in> set ts \<Longrightarrow> \<not> short_gid s t"
  by (fastforce simp: mesh_targets_def short_gid_def mk_target_def requester_def rnic_of_row_def usable_rnic_def)

text \<open>C1: from registrations to probes. With a table that agents have filled, an agent whose
  RNICs are usable updates its pinglist; then, wherever the worker stands, one round of its
  passes probes from every local RNIC exactly the RNICs that are registered and fresh, lie
  on another host and are not excluded by the link-local rule: none is missed and no other
  is probed.\<close>

theorem registered_peers_are_probed:
  assumes "agents_table rows" "db_ok q" "\<forall>row \<in> set rows. length (rnic_gid row) \<noteq> 4"
    and "ag_clusterMonitor a = Some cm" "cm_agentState cm = ag_agentState a" "cc_connected (ag_controllerClient a)"
    and "GetDetectedRNICs (ag_agentState a) \<noteq> []" "\<forall>r \<in> set (GetDetectedRNICs (ag_agentState a)). usable_rnic (ag_agentState a) r"
  shows "\<exists>a' cm'. updatePinglist (serve_pinglist q now rows) a = Ret a' \<and> ag_clusterMonitor a' = Some cm'
     \<and> (\<lambda>(r, t). (rn_GID r, pt_GID t)) ` set (worker_passes (GetTargetCount (cm_scheduler cm')) (after_passes m cm'))
       = {(rn_GID r, rnic_gid row) | r row. r \<in> set (GetDetectedRNICs (ag_agentState a)) \<and> row \<in> set rows
            \<and> should_probe now (as_hostName (ag_agentState a)) r row}"
proof -
  let ?s = "ag_agentState a" and ?c = "ag_controllerClient a"
  let ?h = "as_hostName ?s" and ?rs = "GetDetectedRNICs ?s" and ?rpc = "serve_pinglist q now rows"
  obtain tor i j where col: "collect_targets ?c ?rpc ?h ?rs ([], [], 0) = (tor, i, j)" by (metis prod.collapse)
  have mesh: "mesh_targets now rows ?h ?rs tor" using collected_mesh[OF assms(1,2,6,8), of now ?h] by (simp add: col)
  from mesh_no_short_gid[OF mesh assms(3,8)] obtain cm' where cm': "UpdatePinglist tor cm = Ret cm'"
    using assms(5) by (auto simp: UpdatePinglist_eq)
  obtain a' where a': "updatePinglist ?rpc a = Ret a'" "ag_clusterMonitor a' = Some cm'"
    using assms(4,7) cm' by (cases "0 < j \<and> j \<noteq> cf_ProbeIntervalMS (ag_config a)") (auto simp: updatePinglist_def col Let_def)
  have w: "set (worker_passes (GetTargetCount (cm_scheduler cm')) (after_passes m cm')) = set (List.map_filter (wanted_probe ?s) tor)"
    using arg_cong[OF worker_round[OF cm', of m], of set_mset] assms(5) by simp
  show ?thesis using a' probes_of_mesh[OF mesh assms(8)] unfolding w[symmetric] by blast
qed


definition mesh_state :: AgentState where
  "mesh_state = sample_agent\<lparr>as_rdmaManager := Some (sample_manager\<lparr>mg_Devices := [sample_device]\<rparr>),
     as_rnicByGID := Some [(''fe80::1'', 0)], as_senderQueues := Some [(''fe80::1'', Some \<lparr>qr_id = 0, qr_QPN = 5\<rparr>)]\<rparr>"

definition mesh_agent :: Agent where
  "mesh_agent = sample_ag\<lparr>ag_agentState := mesh_state, ag_clusterMonitor := Some (NewClusterMonitor mesh_state 100 10)\<rparr>"

definition mesh_rows :: rnics_table where
  "mesh_rows = snd (Client_RegisterAgent \<lparr>cc_addr = ''c'', cc_connected = True\<rparr>
     (serve_register (\<lambda>_. None) (\<lambda>_. 1700000000) []) [] ''b'' ''h2'' ''ip'' [sample_device\<lparr>rn_GID := ''fe80::2''\<rparr>])"

lemma mesh_rows_row:
  obtains row where "mesh_rows = [row]" "rnic_gid row = ''fe80::2''" "hostname row = ''h2''" "device_name row = ''mlx5_0''"
    "cutoff 1700000100 5 < last_updated row"
proof -
  have "\<exists>row. mesh_rows = [row] \<and> rnic_gid row = ''fe80::2'' \<and> hostname row = ''h2'' \<and> device_name row = ''mlx5_0'' \<and> last_updated row = rfc3339 1700000000"
    by (simp add: mesh_rows_def Client_RegisterAgent_def sample_device_def new_rnic_def serve_register_def RegisterAgent_def RegisterRNIC_def
        insert_or_replace_def delete_gid_def rnic_row_of_def Let_def)
  moreover have "cutoff 1700000100 5 < rfc3339 1700000000" by (simp add: fresh_iff four_digit_time_def day_of_def)
  ultimately show thesis using that by auto
qed

theorem registered_peers_are_probed_witness:
  "\<exists>a' cm'. updatePinglist (serve_pinglist plain_db 1700000100 mesh_rows) mesh_agent = Ret a' \<and> ag_clusterMonitor a' = Some cm'
     \<and> (\<lambda>(r, t). (rn_GID r, pt_GID t)) ` set (worker_passes (GetTargetCount (cm_scheduler cm')) (after_passes 3 cm')) = {(''fe80::1'', ''fe80::2'')}"
proof -
  obtain p where row: "mesh_rows = [p]" "rnic_gid p = ''fe80::2''" "hostname p = ''h2''" "device_name p = ''mlx5_0''"
    "cutoff 1700000100 5 < last_updated p" by (rule mesh_rows_row)
  have s: "ag_agentState mesh_agent = mesh_state" "as_hostName mesh_state = ''h''" "GetDetectedRNICs mesh_state = [sample_device]"
      "cc_connected (ag_controllerClient mesh_agent)" "ag_clusterMonitor mesh_agent = Some (NewClusterMonitor mesh_state 100 10)"
    by (simp_all add: mesh_agent_def sample_ag_def mesh_state_def sample_agent_def NewAgentState_def GetDetectedRNICs_def)
  have u: "usable_rnic mesh_state sample_device"
    by (simp add: usable_rnic_def mesh_state_def GetRnicByGID_def GetSenderUDQueue_def lookup_def rnic_at_def sample_device_def)
  have t: "agents_table mesh_rows" unfolding mesh_rows_def by (rule at_register[OF at_empty]) (rule surjective_pairing)
  have eq: "{(rn_GID r, rnic_gid row) | r row. r \<in> set (GetDetectedRNICs (ag_agentState mesh_agent)) \<and> row \<in> set mesh_rows
      \<and> should_probe 1700000100 (as_hostName (ag_agentState mesh_agent)) r row} = {(''fe80::1'', ''fe80::2'')}"
    unfolding s row(1) using row(2-5) by (auto simp: should_probe_def sample_device_def new_rnic_def)
  show ?thesis unfolding eq[symmetric]
    by (rule registered_peers_are_probed[OF t, where cm = "NewClusterMonitor mesh_state 100 10"]) (simp_all add: s u row(1,2), simp add: NewClusterMonitor_def)
qed


section \<open>Agent and telemetry together\<close>

text \<open>What the result handler's recordings hand to the instruments.\<close>

fun measured :: "handler_action \<Rightarrow> measurement list" where
  "measured (Record name v attrs) =
     (if name = ''nwrtt'' then RecordRTT v else if name = ''prober_delay'' then RecordProberDelay v
      else if name = ''responder_delay'' then RecordResponderDelay v else RecordTimeout)"
| "measured _ = []"

lemma recorded_on_instruments:
  assumes "NewMetrics env agentID addr = Inr m" "x \<in> set (concat (map measured (record_metrics a r)))"
  shows "fst x \<in> set (me_instruments m)"
proof -
  have "me_instruments m = instruments" using assms(1) by (auto simp: NewMetrics_def split: sum.splits option.splits)
  with assms(2) show ?thesis
    by (auto simp: record_metrics_def instruments_def RecordRTT_def RecordProberDelay_def RecordResponderDelay_def RecordTimeout_def Let_def split: if_splits)
qed

text \<open>The collector address of the default configuration names an insecure gRPC exporter.\<close>

lemma default_collector:
  assumes "otel_works env"
  shows "\<exists>m. NewMetrics env agentID (cf_OtelCollectorAddr (default_agent_config h interval)) = Inr m \<and> me_exporter m = GrpcExporter ''localhost:4317'' True"
proof -
  have s: "''grpc'' \<in> set schemes" by (simp add: schemes_def)
  have h: "plain_host ''localhost''" "plain_port ''4317''" by (simp_all add: plain_host_def plain_port_def alnum_def alpha_def is_digit_def)
  from NewMetrics_works[OF assms parse_with_scheme[OF s h]] show ?thesis
    by (simp add: exporter_endpoint_def otlp_scheme_def exporter_of_scheme[OF s] scheme_exporter_def default_agent_config_def)
qed

end
